(* ===== verification/Prelude.thy ===== *)
theory Prelude
  imports Main "HOL-Library.AList" "HOL-Library.List_Lexorder" "HOL-Library.Char_ord"
begin

text \<open>
  The vocabulary of the development: Python's strings, dictionaries, values and exceptions, the
  string operations the code calls, and the generic lemmas every component theory uses.

  A Python \<open>str\<close> is the list of its code points (\<open>pystr\<close>), so \<open>len\<close>, slicing and UTF-8 are the
  code's; \<open>S ''abc''\<close> is the literal \<open>"abc"\<close>. A \<open>dict\<close> is an association list in insertion order,
  updated with \<open>AList.update\<close> (assignment keeps the position of an existing key) and
  \<open>AList.delete\<close>. An exception is a value \<open>Exn class message\<close>; a function that may raise
  returns \<open>exn + 'a\<close>.
\<close>

named_theorems py_simps \<open>evaluation of the Python primitives on concrete arguments\<close>
named_theorems result_simps \<open>case analysis of fallible results\<close>


section \<open>Strings\<close>

type_synonym codepoint = int
type_synonym pystr = "codepoint list"

definition S :: "string \<Rightarrow> pystr" where
  "S cs = map of_char cs"

lemma S_eq [simp]: "S a = S b \<longleftrightarrow> a = b"
  by (simp add: S_def inj_map_eq_map inj_on_def)

lemma S_Nil [simp]: "S [] = []" and S_eq_Nil [simp]: "S a = [] \<longleftrightarrow> a = []"
  and Nil_eq_S [simp]: "[] = S a \<longleftrightarrow> a = []"
  by (auto simp: S_def)

lemma length_S [simp]: "length (S a) = length a"
  by (simp add: S_def)

lemma S_append: "S (a @ b) = S a @ S b"
  by (simp add: S_def)

text \<open>\<open>str.isspace\<close>: the code points that \<open>str.strip\<close> removes.\<close>

definition is_space :: "codepoint \<Rightarrow> bool" where
  "is_space c \<longleftrightarrow>
     (9 \<le> c \<and> c \<le> 13) \<or> (28 \<le> c \<and> c \<le> 32) \<or> c = 133 \<or> c = 160 \<or> c = 5760
     \<or> (8192 \<le> c \<and> c \<le> 8202) \<or> c = 8232 \<or> c = 8233 \<or> c = 8239 \<or> c = 8287 \<or> c = 12288"

definition strip :: "pystr \<Rightarrow> pystr" where
  "strip s = rev (dropWhile is_space (rev (dropWhile is_space s)))"

lemma strip_Nil [simp]: "strip [] = []"
  by (simp add: strip_def)

lemma dropWhile_rev_dropWhile_fix:
  "dropWhile P (rev (dropWhile P (rev (dropWhile P s)))) = rev (dropWhile P (rev (dropWhile P s)))"
proof (cases "dropWhile P s")
  case Nil
  then show ?thesis by (simp only: rev.simps dropWhile.simps)
next
  case (Cons a t)
  then have "\<not> P a" by (metis hd_dropWhile list.distinct(1) list.sel(1))
  then have "dropWhile P (rev (a # t)) = dropWhile P (rev t) @ [a]"
    by (simp add: dropWhile_append3 dropWhile_append)
  with Cons \<open>\<not> P a\<close> show ?thesis by simp
qed

lemma strip_idem [simp]: "strip (strip s) = strip s"
  unfolding strip_def by (simp add: dropWhile_rev_dropWhile_fix dropWhile_idem)

lemma strip_eq_Nil: "strip s = [] \<longleftrightarrow> (\<forall>c \<in> set s. is_space c)"
proof
  assume "strip s = []"
  then have "\<forall>c \<in> set (dropWhile is_space s). is_space c"
    by (simp add: strip_def)
  then have "dropWhile is_space s = []"
    by (metis hd_dropWhile hd_in_set)
  then show "\<forall>c \<in> set s. is_space c" by simp
next
  assume "\<forall>c \<in> set s. is_space c"
  then have "dropWhile is_space s = []" by simp
  then show "strip s = []" by (simp only: strip_def rev.simps dropWhile.simps)
qed

lemma set_strip: "set (strip s) \<subseteq> set s"
proof
  fix c assume "c \<in> set (strip s)"
  then have "c \<in> set (dropWhile is_space (rev (dropWhile is_space s)))"
    by (simp only: strip_def set_rev)
  then show "c \<in> set s" by (metis set_dropWhileD set_rev)
qed

text \<open>
  \<open>str.lower\<close>. ASCII and Latin-1 capitals, and the two other code points whose lower case contains
  an ASCII letter (U+0130, U+212A), are lowered; every other code point is kept. The code only
  compares a lowered string with ASCII literals, which this decides as Python does.
\<close>

definition lower_cp :: "codepoint \<Rightarrow> pystr" where
  "lower_cp c =
     (if 65 \<le> c \<and> c \<le> 90 then [c + 32]
      else if 192 \<le> c \<and> c \<le> 222 \<and> c \<noteq> 215 then [c + 32]
      else if c = 304 then [105, 775]
      else if c = 8490 then [107]
      else [c])"

definition lower :: "pystr \<Rightarrow> pystr" where
  "lower s = concat (map lower_cp s)"

fun join :: "pystr \<Rightarrow> pystr list \<Rightarrow> pystr" where
  "join sep [] = []"
| "join sep [x] = x"
| "join sep (x # y # xs) = x @ sep @ join sep (y # xs)"

text \<open>\<open>str.split\<close> on one character.\<close>

fun split_on :: "codepoint \<Rightarrow> pystr \<Rightarrow> pystr list" where
  "split_on c [] = [[]]"
| "split_on c (x # xs) =
     (if x = c then [] # split_on c xs
      else (case split_on c xs of [] \<Rightarrow> [[x]] | p # ps \<Rightarrow> (x # p) # ps))"

lemma split_on_nonempty [simp]: "split_on c s \<noteq> []"
  by (induction s) (auto split: list.splits)

lemma join_split_on: "join [c] (split_on c s) = s"
proof (induction s)
  case Nil
  show ?case by simp
next
  case (Cons x xs)
  obtain p ps where p: "split_on c xs = p # ps"
    using split_on_nonempty by (cases "split_on c xs") auto
  with Cons show ?case by (cases ps) auto
qed

lemma split_on_no_sep: "p \<in> set (split_on c s) \<Longrightarrow> c \<notin> set p"
proof (induction s arbitrary: p)
  case (Cons x xs)
  obtain q qs where q: "split_on c xs = q # qs"
    using split_on_nonempty by (cases "split_on c xs") auto
  with Cons show ?case by (auto split: if_splits)
qed simp

lemma split_on_append: "c \<notin> set a \<Longrightarrow> split_on c (a @ c # b) = a # split_on c b"
  by (induction a) (auto split: list.splits)

lemma split_on_single: "c \<notin> set a \<Longrightarrow> split_on c a = [a]"
  by (induction a) auto

definition starts_with :: "pystr \<Rightarrow> pystr \<Rightarrow> bool" where
  "starts_with s p \<longleftrightarrow> take (length p) s = p"

text \<open>
  \<open>str.replace\<close>: the leftmost occurrence is replaced and the search goes on after it. The source
  never replaces an empty pattern, for which the model returns its input.
\<close>

function replace :: "pystr \<Rightarrow> pystr \<Rightarrow> pystr \<Rightarrow> pystr" where
  "replace old new [] = []"
| "replace old new (x # xs) =
     (if old \<noteq> [] \<and> starts_with (x # xs) old
      then new @ replace old new (drop (length old) (x # xs))
      else x # replace old new xs)"
  by pat_completeness auto
termination
  by (relation "measure (\<lambda>(old, new, s). length s)") auto

lemma replace_char: "replace [c] new s = concat (map (\<lambda>x. if x = c then new else [x]) s)"
  by (induction s) (auto simp: starts_with_def)

text \<open>\<open>s or None\<close> for a string, and \<open>x or y\<close> for two optional strings.\<close>

definition or_none :: "pystr \<Rightarrow> pystr option" where
  "or_none s = (if s = [] then None else Some s)"

lemma or_none_simps [simp]:
  "or_none [] = None" "s \<noteq> [] \<Longrightarrow> or_none s = Some s" "or_none s = None \<longleftrightarrow> s = []"
  "or_none s = Some t \<longleftrightarrow> s = t \<and> t \<noteq> []"
  by (auto simp: or_none_def)

definition truthy_str :: "pystr option \<Rightarrow> bool" where
  "truthy_str s \<longleftrightarrow> s \<noteq> None \<and> s \<noteq> Some []"

definition or_str :: "pystr option \<Rightarrow> pystr option \<Rightarrow> pystr option" where
  "or_str a b = (if truthy_str a then a else b)"

lemma truthy_str_simps [simp]:
  "\<not> truthy_str None" "truthy_str (Some s) \<longleftrightarrow> s \<noteq> []" "truthy_str (or_none s) \<longleftrightarrow> s \<noteq> []"
  by (auto simp: truthy_str_def or_none_def)

lemma or_str_simps [simp]:
  "or_str None b = b" "s \<noteq> [] \<Longrightarrow> or_str (Some s) b = Some s" "or_str (Some []) b = b"
  by (auto simp: or_str_def)

text \<open>Decimal rendering of integers, as \<open>str(int)\<close>.\<close>

fun nat_dec :: "nat \<Rightarrow> pystr" where
  "nat_dec n = (if n < 10 then [48 + int n] else nat_dec (n div 10) @ [48 + int (n mod 10)])"

declare nat_dec.simps [simp del]

lemma set_map_filter: "set (List.map_filter f xs) = {y. \<exists>x \<in> set xs. f x = Some y}"
  by (induction xs) (auto simp: map_filter_simps split: option.splits)

text \<open>A decimal text with leading zeros up to a width, as \<open>f"{n:04}"\<close>.\<close>

definition pad :: "nat \<Rightarrow> nat \<Rightarrow> pystr" where
  "pad width n = (let ds = nat_dec n in replicate (width - length ds) 48 @ ds)"

definition int_dec :: "int \<Rightarrow> pystr" where
  "int_dec i = (if i < 0 then 45 # nat_dec (nat (- i)) else nat_dec (nat i))"

lemma nat_dec_nonempty [simp]: "nat_dec n \<noteq> []"
  by (subst nat_dec.simps) simp

lemma nat_dec_digits: "c \<in> set (nat_dec n) \<Longrightarrow> 48 \<le> c \<and> c \<le> 57"
proof (induction n rule: nat_dec.induct)
  case (1 n)
  then show ?case
    by (subst (asm) nat_dec.simps) (auto split: if_splits simp: of_nat_mod)
qed


section \<open>Exceptions and results\<close>

text \<open>
  The exception classes the source raises or catches. \<open>COther name\<close> is any other class, a
  third-party one for instance, with its \<open>__name__\<close>.
\<close>

datatype pyclass =
    CValueError | CTypeError | CKeyError | CAttributeError | CJSONDecodeError | CUnicodeEncodeError
  | CUnicodeDecodeError | COSError | CFileNotFoundError | CTimeoutError | CCancelledError | CAssertionError
  | CRuntimeError | CInputReadError | CPublishError | CContextFormatError | CMCPConfigError
  | CMCPServerResolutionError | CClassifierResponseError | CInspectionError
  | CToolResultSafetyInspectionFailed | CToolExecutionError | CMCPInitializationError
  | CMCPToolNameCollisionError
  | COther pystr

datatype exn = Exn (exn_class: pyclass) (exn_msg: pystr)

text \<open>Subclasses of \<open>ValueError\<close> (\<open>issubclass\<close> in Python and in the source).\<close>

fun is_value_error :: "pyclass \<Rightarrow> bool" where
  "is_value_error CValueError = True"
| "is_value_error CJSONDecodeError = True"
| "is_value_error CUnicodeEncodeError = True"
| "is_value_error CUnicodeDecodeError = True"
| "is_value_error CContextFormatError = True"
| "is_value_error CMCPConfigError = True"
| "is_value_error CMCPServerResolutionError = True"
| "is_value_error CClassifierResponseError = True"
| "is_value_error _ = False"

definition is_os_error :: "pyclass \<Rightarrow> bool" where
  "is_os_error c \<longleftrightarrow> c = COSError \<or> c = CFileNotFoundError \<or> c = CTimeoutError"

fun class_name :: "pyclass \<Rightarrow> pystr" where
  "class_name CValueError = S ''ValueError''"
| "class_name CTypeError = S ''TypeError''"
| "class_name CKeyError = S ''KeyError''"
| "class_name CAttributeError = S ''AttributeError''"
| "class_name CJSONDecodeError = S ''JSONDecodeError''"
| "class_name CUnicodeEncodeError = S ''UnicodeEncodeError''"
| "class_name CUnicodeDecodeError = S ''UnicodeDecodeError''"
| "class_name COSError = S ''OSError''"
| "class_name CFileNotFoundError = S ''FileNotFoundError''"
| "class_name CTimeoutError = S ''TimeoutError''"
| "class_name CCancelledError = S ''CancelledError''"
| "class_name CAssertionError = S ''AssertionError''"
| "class_name CRuntimeError = S ''RuntimeError''"
| "class_name CInputReadError = S ''InputReadError''"
| "class_name CPublishError = S ''PublishError''"
| "class_name CContextFormatError = S ''ContextFormatError''"
| "class_name CMCPConfigError = S ''MCPConfigError''"
| "class_name CMCPServerResolutionError = S ''MCPServerResolutionError''"
| "class_name CClassifierResponseError = S ''ClassifierResponseError''"
| "class_name CInspectionError = S ''InspectionError''"
| "class_name CToolResultSafetyInspectionFailed = S ''ToolResultSafetyInspectionFailed''"
| "class_name CToolExecutionError = S ''ToolExecutionError''"
| "class_name CMCPInitializationError = S ''MCPInitializationError''"
| "class_name CMCPToolNameCollisionError = S ''MCPToolNameCollisionError''"
| "class_name (COther n) = n"

abbreviation ValueError :: "pystr \<Rightarrow> exn" where
  "ValueError m \<equiv> Exn CValueError m"

abbreviation TypeError :: "pystr \<Rightarrow> exn" where
  "TypeError m \<equiv> Exn CTypeError m"

type_synonym 'a result = "exn + 'a"

definition bindE :: "'e + 'a \<Rightarrow> ('a \<Rightarrow> 'e + 'b) \<Rightarrow> 'e + 'b" where
  "bindE r f = (case r of Inl e \<Rightarrow> Inl e | Inr x \<Rightarrow> f x)"

lemma bindE_simps [simp]: "bindE (Inl e) f = Inl e" "bindE (Inr x) f = f x"
  by (simp_all add: bindE_def)

lemma bindE_eq_Inr [result_simps]: "bindE r f = Inr y \<longleftrightarrow> (\<exists>x. r = Inr x \<and> f x = Inr y)"
  by (cases r) auto

lemma bindE_eq_Inl [result_simps]:
  "bindE r f = Inl e \<longleftrightarrow> r = Inl e \<or> (\<exists>x. r = Inr x \<and> f x = Inl e)"
  by (cases r) auto

definition is_ok :: "'e + 'a \<Rightarrow> bool" where
  "is_ok r \<longleftrightarrow> (case r of Inl _ \<Rightarrow> False | Inr _ \<Rightarrow> True)"

lemma is_ok_simps [simp]: "\<not> is_ok (Inl e)" "is_ok (Inr x)"
  by (simp_all add: is_ok_def)

lemma is_ok_iff: "is_ok r \<longleftrightarrow> (\<exists>x. r = Inr x)"
  by (cases r) auto

text \<open>A fallible loop body over a list, in order, stopping at the first error.\<close>

fun mapE :: "('a \<Rightarrow> 'e + 'b) \<Rightarrow> 'a list \<Rightarrow> 'e + 'b list" where
  "mapE f [] = Inr []"
| "mapE f (x # xs) = bindE (f x) (\<lambda>y. bindE (mapE f xs) (\<lambda>ys. Inr (y # ys)))"

lemma mapE_length: "mapE f xs = Inr ys \<Longrightarrow> length ys = length xs"
  by (induction xs arbitrary: ys) (auto simp: result_simps)

lemma mapE_error: "mapE f xs = Inl e \<Longrightarrow> \<exists>x \<in> set xs. f x = Inl e"
  by (induction xs) (auto simp: result_simps)

lemma mapE_ok_all2: "mapE f xs = Inr ys \<longleftrightarrow> list_all2 (\<lambda>x y. f x = Inr y) xs ys"
  by (induction xs arbitrary: ys)
    (auto simp: result_simps list_all2_Cons1)


section \<open>Dictionaries\<close>

type_synonym 'v dict = "(pystr \<times> 'v) list"

abbreviation dget :: "'v dict \<Rightarrow> pystr \<Rightarrow> 'v option" where
  "dget d k \<equiv> map_of d k"

abbreviation dset :: "'v dict \<Rightarrow> pystr \<Rightarrow> 'v \<Rightarrow> 'v dict" where
  "dset d k v \<equiv> AList.update k v d"

abbreviation ddel :: "'v dict \<Rightarrow> pystr \<Rightarrow> 'v dict" where
  "ddel d k \<equiv> AList.delete k d"

abbreviation has_key :: "'v dict \<Rightarrow> pystr \<Rightarrow> bool" where
  "has_key d k \<equiv> map_of d k \<noteq> None"

definition keys_distinct :: "'v dict \<Rightarrow> bool" where
  "keys_distinct d \<longleftrightarrow> distinct (map fst d)"

text \<open>What the components rely on of a dictionary: lookup after update and after delete.\<close>

locale keyed_store =
  fixes get :: "'d \<Rightarrow> 'k \<Rightarrow> 'v option"
    and put :: "'d \<Rightarrow> 'k \<Rightarrow> 'v \<Rightarrow> 'd"
    and del :: "'d \<Rightarrow> 'k \<Rightarrow> 'd"
    and inv :: "'d \<Rightarrow> bool"
  assumes get_put: "get (put d k v) k' = (if k' = k then Some v else get d k')"
    and get_del: "get (del d k) k' = (if k' = k then None else get d k')"
    and inv_put: "inv d \<Longrightarrow> inv (put d k v)"
    and inv_del: "inv d \<Longrightarrow> inv (del d k)"
begin

lemma get_put_same [simp]: "get (put d k v) k = Some v"
  by (simp add: get_put)

lemma get_put_other: "k' \<noteq> k \<Longrightarrow> get (put d k v) k' = get d k'"
  by (simp add: get_put)

lemma get_del_same [simp]: "get (del d k) k = None"
  by (simp add: get_del)

lemma get_del_other: "k' \<noteq> k \<Longrightarrow> get (del d k) k' = get d k'"
  by (simp add: get_del)

lemma get_puts: "get (foldl (\<lambda>d (k, v). put d k v) d kvs) k
    = (case map_of (rev kvs) k of None \<Rightarrow> get d k | Some v \<Rightarrow> Some v)"
  by (induction kvs arbitrary: d)
    (auto simp: get_put map_add_def split: option.splits if_splits)

lemma inv_puts: "inv d \<Longrightarrow> inv (foldl (\<lambda>d (k, v). put d k v) d kvs)"
  by (induction kvs arbitrary: d) (auto simp: inv_put)

end

interpretation dict: keyed_store map_of "\<lambda>d k v. dset d k v" "\<lambda>d k. ddel d k" keys_distinct
  by unfold_locales
    (auto simp: update_conv' delete_conv' keys_distinct_def distinct_update distinct_delete)

lemma dget_dset [simp]: "dget (dset d k v) k' = (if k' = k then Some v else dget d k')"
  by (rule dict.get_put)

lemma dget_ddel [simp]: "dget (ddel d k) k' = (if k' = k then None else dget d k')"
  by (rule dict.get_del)

lemma keys_distinct_Nil [simp]: "keys_distinct []"
  by (simp add: keys_distinct_def)

lemma dset_in: "(k', v') \<in> set (dset d k v) \<Longrightarrow> (k', v') = (k, v) \<or> (k', v') \<in> set d"
  by (induction d) (auto split: if_splits)

lemma ddel_in: "(k', v') \<in> set (ddel d k) \<longleftrightarrow> k' \<noteq> k \<and> (k', v') \<in> set d"
  by (auto simp: AList.delete_eq)

lemma dget_map_snd: "dget (map (\<lambda>(k, v). (k, f v)) d) k = map_option f (dget d k)"
  by (induction d) auto


section \<open>Normal forms\<close>

text \<open>
  A contract several operations share: the operation brings its input into a form that it leaves
  alone.
\<close>

locale normaliser =
  fixes norm :: "'a \<Rightarrow> 'a" and ok :: "'a \<Rightarrow> bool"
  assumes norm_ok: "ok (norm x)" and norm_id: "ok x \<Longrightarrow> norm x = x"
begin

lemma norm_idem: "norm (norm x) = norm x"
  by (rule norm_id) (rule norm_ok)

lemma ok_iff_fixed: "ok x \<longleftrightarrow> norm x = x"
  using norm_ok norm_id by metis

end

lemma strip_ok: "strip s = [] \<or> \<not> is_space (hd (strip s))"
  by (metis dropWhile_rev_dropWhile_fix hd_dropWhile strip_def)

interpretation stripped: normaliser strip "\<lambda>s. strip s = s"
  by unfold_locales simp_all

end
