(* ===== verification/PyValue.thy ===== *)
theory PyValue
  imports Prelude
begin

text \<open>
  The dynamically typed values that cross the program's boundaries (JSON documents, agent output,
  tool results, message content), Python's truth test, \<open>str\<close>, \<open>repr\<close> and \<open>int\<close> on them, and the
  standard library's \<open>json\<close>. A float is kept as its literal text: the code only asks whether a
  value is a float, whether it is zero, and prints it. Dictionary keys are strings, as in JSON.
\<close>

datatype pyval =
    is_none: PNone
  | is_bool: PBool bool
  | is_int: PInt int
  | is_float: PFloat pystr
  | is_str: PStr pystr
  | is_list: PList "pyval list"
  | is_dict: PDict "(pystr \<times> pyval) list"

type_synonym pydict = "pyval dict"

text \<open>Every dictionary inside a value has distinct keys.\<close>

fun wf_val :: "pyval \<Rightarrow> bool" where
  "wf_val (PList vs) \<longleftrightarrow> (\<forall>v \<in> set vs. wf_val v)"
| "wf_val (PDict d) \<longleftrightarrow> keys_distinct d \<and> (\<forall>kv \<in> set d. wf_val (snd kv))"
| "wf_val _ \<longleftrightarrow> True"

definition wf_dict :: "pydict \<Rightarrow> bool" where
  "wf_dict d \<longleftrightarrow> wf_val (PDict d)"

text \<open>\<open>d.get(k)\<close> with the default \<open>None\<close>.\<close>

definition dgetn :: "pydict \<Rightarrow> pystr \<Rightarrow> pyval" where
  "dgetn d k = (case dget d k of None \<Rightarrow> PNone | Some v \<Rightarrow> v)"

lemma dgetn_simps [simp]:
  "dget d k = None \<Longrightarrow> dgetn d k = PNone" "dget d k = Some v \<Longrightarrow> dgetn d k = v"
  by (simp_all add: dgetn_def)

lemma dgetn_dset [simp]: "dgetn (dset d k v) k' = (if k' = k then v else dgetn d k')"
  by (simp add: dgetn_def)

lemma dgetn_ddel [simp]: "dgetn (ddel d k) k' = (if k' = k then PNone else dgetn d k')"
  by (simp add: dgetn_def)

lemma dgetn_dest: "dgetn d k = v \<Longrightarrow> v \<noteq> PNone \<Longrightarrow> dget d k = Some v"
  by (auto simp: dgetn_def split: option.splits)

text \<open>A numeric literal is zero when its mantissa has digits and all of them are \<open>0\<close>.\<close>

definition float_is_zero :: "pystr \<Rightarrow> bool" where
  "float_is_zero r \<longleftrightarrow>
     (let m = filter (\<lambda>c. 48 \<le> c \<and> c \<le> 57) (takeWhile (\<lambda>c. c \<noteq> 101 \<and> c \<noteq> 69) r)
      in m \<noteq> [] \<and> (\<forall>c \<in> set m. c = 48))"

fun truthy :: "pyval \<Rightarrow> bool" where
  "truthy PNone = False"
| "truthy (PBool b) = b"
| "truthy (PInt i) = (i \<noteq> 0)"
| "truthy (PFloat r) = (\<not> float_is_zero r)"
| "truthy (PStr s) = (s \<noteq> [])"
| "truthy (PList vs) = (vs \<noteq> [])"
| "truthy (PDict d) = (d \<noteq> [])"

fun type_name :: "pyval \<Rightarrow> pystr" where
  "type_name PNone = S ''NoneType''"
| "type_name (PBool _) = S ''bool''"
| "type_name (PInt _) = S ''int''"
| "type_name (PFloat _) = S ''float''"
| "type_name (PStr _) = S ''str''"
| "type_name (PList _) = S ''list''"
| "type_name (PDict _) = S ''dict''"

text \<open>Iterating with \<open>for x in v\<close>: the elements of a list, the characters of a string, the keys of
  a dictionary; anything else raises \<open>TypeError\<close>.\<close>

fun py_iter :: "pyval \<Rightarrow> pyval list result" where
  "py_iter (PList vs) = Inr vs"
| "py_iter (PStr s) = Inr (map (\<lambda>c. PStr [c]) s)"
| "py_iter (PDict d) = Inr (map (PStr \<circ> fst) d)"
| "py_iter v = Inl (TypeError (39 # type_name v @ 39 # S '' object is not iterable''))"


section \<open>str and repr\<close>

definition hex_digit :: "int \<Rightarrow> codepoint" where
  "hex_digit d = (if d < 10 then 48 + d else 87 + d)"

definition hex4 :: "int \<Rightarrow> pystr" where
  "hex4 c = map hex_digit [c div 4096 mod 16, c div 256 mod 16, c div 16 mod 16, c mod 16]"

text \<open>
  \<open>repr\<close> of a string. Quotes, backslashes, control characters and surrogates are escaped as CPython
  does; other code points from U+00A1 on are printed as they are (CPython also escapes those that
  are not printable).
\<close>

definition repr_cp :: "codepoint \<Rightarrow> codepoint \<Rightarrow> pystr" where
  "repr_cp q c =
     (if c = q \<or> c = 92 then [92, c]
      else if c = 9 then [92, 116] else if c = 10 then [92, 110] else if c = 13 then [92, 114]
      else if c < 32 \<or> (127 \<le> c \<and> c \<le> 160) \<or> c = 173
        then [92, 120] @ [hex_digit (c div 16 mod 16), hex_digit (c mod 16)]
      else if 55296 \<le> c \<and> c \<le> 57343 then [92, 117] @ hex4 c
      else [c])"

definition repr_str :: "pystr \<Rightarrow> pystr" where
  "repr_str s = (let q = (if 39 \<in> set s \<and> 34 \<notin> set s then 34 else 39)
                 in q # concat (map (repr_cp q) s) @ [q])"

fun py_repr :: "pyval \<Rightarrow> pystr" where
  "py_repr PNone = S ''None''"
| "py_repr (PBool b) = (if b then S ''True'' else S ''False'')"
| "py_repr (PInt i) = int_dec i"
| "py_repr (PFloat r) = r"
| "py_repr (PStr s) = repr_str s"
| "py_repr (PList vs) = S ''['' @ join (S '', '') (map py_repr vs) @ S '']''"
| "py_repr (PDict d) =
     S ''{'' @ join (S '', '') (map (\<lambda>kv. repr_str (fst kv) @ S '': '' @ py_repr (snd kv)) d) @ S ''}''"

fun py_str :: "pyval \<Rightarrow> pystr" where
  "py_str (PStr s) = s"
| "py_str v = py_repr v"


section \<open>int()\<close>

text \<open>The zero of each of Unicode's decimal digit ranges.\<close>

definition decimal_zeros :: "codepoint list" where
  "decimal_zeros =
    [48, 1632, 1776, 1984, 2406, 2534, 2662, 2790, 2918, 3046, 3174, 3302, 3430, 3558, 3664, 3792,
     3872, 4160, 4240, 6112, 6160, 6470, 6608, 6784, 6800, 6992, 7088, 7232, 7248, 42528, 43216,
     43264, 43472, 43504, 43600, 44016, 65296, 66720, 68912, 69734, 69872, 69942, 70096, 70384,
     70736, 70864, 71248, 71360, 71472, 71904, 72016, 72784, 73040, 73120, 73552, 92768, 92864,
     93008, 120782, 120792, 120802, 120812, 120822, 123200, 123632, 124144, 125264, 130032]"

definition decimal_digit :: "codepoint \<Rightarrow> int option" where
  "decimal_digit c = map_option (\<lambda>z. c - z) (find (\<lambda>z. z \<le> c \<and> c < z + 10) decimal_zeros)"

definition hex_value :: "codepoint \<Rightarrow> int option" where
  "hex_value c =
     (case decimal_digit c of
        Some d \<Rightarrow> Some d
      | None \<Rightarrow> if 97 \<le> c \<and> c \<le> 102 then Some (c - 87)
                else if 65 \<le> c \<and> c \<le> 70 then Some (c - 55) else None)"

text \<open>Digits with single underscores between them; the first character must be a digit.\<close>

fun digit_run :: "(codepoint \<Rightarrow> int option) \<Rightarrow> int \<Rightarrow> bool \<Rightarrow> int \<Rightarrow> pystr \<Rightarrow> int option" where
  "digit_run dig base after_digit acc [] = (if after_digit then Some acc else None)"
| "digit_run dig base after_digit acc (c # cs) =
     (case dig c of
        Some d \<Rightarrow> digit_run dig base True (acc * base + d) cs
      | None \<Rightarrow> if c = 95 \<and> after_digit then digit_run dig base False acc cs else None)"

definition split_sign :: "pystr \<Rightarrow> int \<times> pystr" where
  "split_sign s = (case s of [] \<Rightarrow> (1, [])
                   | c # cs \<Rightarrow> if c = 45 then (-1, cs) else if c = 43 then (1, cs) else (1, s))"

definition max_int_digits :: nat where
  "max_int_digits = 4300"

text \<open>\<open>int(s)\<close>: \<open>None\<close> stands for the \<open>ValueError\<close>.\<close>

definition py_int :: "pystr \<Rightarrow> int option" where
  "py_int s =
     (let (sgn, ds) = split_sign (strip s)
      in if max_int_digits < length (filter (\<lambda>c. c \<noteq> 95) ds) then None
         else map_option (\<lambda>n. sgn * n) (digit_run decimal_digit 10 False 0 ds))"

text \<open>\<open>int(s, 16)\<close>: an optional \<open>0x\<close> prefix, which an underscore may follow.\<close>

definition drop_hex_prefix :: "pystr \<Rightarrow> pystr" where
  "drop_hex_prefix ds =
     (case ds of
        z # x # r \<Rightarrow> if z = 48 \<and> (x = 120 \<or> x = 88)
                     then (case r of u # r' \<Rightarrow> if u = 95 then r' else r | [] \<Rightarrow> r) else ds
      | _ \<Rightarrow> ds)"

definition py_int16 :: "pystr \<Rightarrow> int option" where
  "py_int16 s =
     (let (sgn, ds) = split_sign (strip s)
      in map_option (\<lambda>n. sgn * n) (digit_run hex_value 16 False 0 (drop_hex_prefix ds)))"

lemma digit_run_plain:
  assumes "\<forall>c \<in> set s. dig c \<noteq> None" "s \<noteq> [] \<or> b"
  shows "digit_run dig base b acc s = Some (foldl (\<lambda>a c. a * base + the (dig c)) acc s)"
  using assms by (induction s arbitrary: acc b) auto

lemma decimal_digit_ascii: "48 \<le> c \<Longrightarrow> c \<le> 57 \<Longrightarrow> decimal_digit c = Some (c - 48)"
  by (simp add: decimal_digit_def decimal_zeros_def)

lemma nat_dec_value: "foldl (\<lambda>a c. a * 10 + the (decimal_digit c)) 0 (nat_dec n) = int n"
proof (induction n rule: nat_dec.induct)
  case (1 n)
  have "int (n div 10) * 10 + int (n mod 10) = int n"
    by (metis div_mult_mod_eq of_nat_add of_nat_mult of_nat_numeral)
  with 1 show ?case by (subst nat_dec.simps) (auto simp: decimal_digit_ascii)
qed

text \<open>Zeros in front of a decimal text do not change its value.\<close>

lemma zeros_value:
  "foldl (\<lambda>a c. a * 10 + the (decimal_digit c)) 0 (replicate k 48 @ ds) =
   foldl (\<lambda>a c. a * 10 + the (decimal_digit c)) 0 ds"
  by (induction k) (simp_all add: decimal_digit_ascii)

lemma strip_id:
  assumes "\<forall>c \<in> set s. \<not> is_space c"
  shows "strip s = s"
proof -
  have d: "dropWhile is_space t = t" if "\<forall>c \<in> set t. \<not> is_space c" for t
    using that by (cases t) simp_all
  show ?thesis using d [of s] d [of "rev s"] assms by (simp add: strip_def)
qed

lemma digits_no_space: "48 \<le> c \<Longrightarrow> c \<le> 57 \<Longrightarrow> \<not> is_space c"
  by (simp add: is_space_def)

lemma py_int_digits:
  assumes "\<forall>c \<in> set ds. 48 \<le> c \<and> c \<le> 57" "ds \<noteq> []" "length ds \<le> 4300"
  shows "py_int ds = Some (foldl (\<lambda>a c. a * 10 + the (decimal_digit c)) 0 ds)"
    and "py_int (45 # ds) = Some (- foldl (\<lambda>a c. a * 10 + the (decimal_digit c)) 0 ds)"
proof -
  have "filter (\<lambda>c. c \<noteq> 95) ds = ds" by (intro filter_True) (use assms(1) in auto)
  then have len: "\<not> max_int_digits < length (filter (\<lambda>c. c \<noteq> 95) ds)"
    using assms(3) by (simp add: max_int_digits_def)
  have run: "digit_run decimal_digit 10 False 0 ds =
      Some (foldl (\<lambda>a c. a * 10 + the (decimal_digit c)) 0 ds)"
    using assms(1,2) by (intro digit_run_plain) (auto simp: decimal_digit_ascii)
  have sign: "split_sign ds = (1, ds)" "split_sign (45 # ds) = (- 1, ds)"
    using assms(1,2) by (cases ds; simp add: split_sign_def)+
  have st: "strip ds = ds" "strip (45 # ds) = 45 # ds"
    by (rule strip_id; use assms(1) in \<open>auto simp: is_space_def\<close>)+
  show "py_int ds = Some (foldl (\<lambda>a c. a * 10 + the (decimal_digit c)) 0 ds)"
    and "py_int (45 # ds) = Some (- foldl (\<lambda>a c. a * 10 + the (decimal_digit c)) 0 ds)"
    using run len by (simp_all add: py_int_def st sign Let_def)
qed

lemma py_int_nat_dec: "length (nat_dec n) \<le> 4300 \<Longrightarrow> py_int (nat_dec n) = Some (int n)"
  using py_int_digits(1) [of "nat_dec n"] nat_dec_digits nat_dec_value by auto

text \<open>Decimal rendering and \<open>int()\<close> are inverse.\<close>

lemma py_int_int_dec: "length (int_dec i) \<le> 4300 \<Longrightarrow> py_int (int_dec i) = Some i"
proof -
  assume len: "length (int_dec i) \<le> 4300"
  show ?thesis
  proof (cases "i < 0")
    case True
    then show ?thesis
      using len py_int_digits(2) [of "nat_dec (nat (- i))"] nat_dec_digits
      by (simp add: int_dec_def nat_dec_value)
  next
    case False
    then show ?thesis using len py_int_nat_dec by (simp add: int_dec_def)
  qed
qed

lemma pad_digits: "c \<in> set (pad k n) \<Longrightarrow> 48 \<le> c \<and> c \<le> 57"
  using nat_dec_digits by (auto simp: pad_def Let_def)

lemma py_int_pad: "length (pad k n) \<le> 4300 \<Longrightarrow> py_int (pad k n) = Some (int n)"
  using py_int_digits(1) [of "pad k n"] pad_digits
  by (simp add: pad_def Let_def zeros_value nat_dec_value del: foldl_append)

end
