(* ===== verification/PyJson.thy ===== *)
theory PyJson
  imports PyValue
begin

text \<open>
  The standard library's \<open>json\<close> as the source uses it: \<open>json.loads\<close> with and without an
  \<open>object_pairs_hook\<close>, and \<open>json.dumps\<close> with its \<open>ensure_ascii\<close>, \<open>separators\<close> and \<open>sort_keys\<close>
  options. The parser is CPython's scanner: strict strings, no trailing commas, the \<open>NaN\<close> and
  \<open>Infinity\<close> constants, and an integer of more than 4300 digits raising a plain \<open>ValueError\<close>.
  The text of a \<open>JSONDecodeError\<close> (which names a position) is not reproduced.
\<close>

section \<open>Parsing\<close>

definition json_space :: "codepoint \<Rightarrow> bool" where
  "json_space c \<longleftrightarrow> c = 32 \<or> c = 9 \<or> c = 10 \<or> c = 13"

definition skip_ws :: "pystr \<Rightarrow> pystr" where
  "skip_ws s = dropWhile json_space s"

definition decode_error :: exn where
  "decode_error = Exn CJSONDecodeError (S ''invalid JSON document'')"

definition int_limit_error :: exn where
  "int_limit_error = ValueError (S ''Exceeds the limit (4300 digits) for integer string conversion'')"

definition ascii_digit :: "codepoint \<Rightarrow> bool" where
  "ascii_digit c \<longleftrightarrow> 48 \<le> c \<and> c \<le> 57"

definition ascii_hex :: "codepoint \<Rightarrow> int option" where
  "ascii_hex c = (if c < 128 then hex_value c else None)"

fun hex4_value :: "pystr \<Rightarrow> (int \<times> pystr) option" where
  "hex4_value (a # b # c # d # r) =
     (case (ascii_hex a, ascii_hex b, ascii_hex c, ascii_hex d) of
        (Some w, Some x, Some y, Some z) \<Rightarrow> Some (((w * 16 + x) * 16 + y) * 16 + z, r)
      | _ \<Rightarrow> None)"
| "hex4_value _ = None"

lemma hex4_value_length: "hex4_value s = Some (n, r) \<Longrightarrow> length s = length r + 4"
  by (induction s rule: hex4_value.induct) (auto split: option.splits)

definition escape_char :: "codepoint \<Rightarrow> codepoint option" where
  "escape_char c =
     (if c = 34 \<or> c = 92 \<or> c = 47 then Some c
      else if c = 98 then Some 8 else if c = 102 then Some 12 else if c = 110 then Some 10
      else if c = 114 then Some 13 else if c = 116 then Some 9 else None)"

text \<open>
  One \<open>\\uXXXX\<close> escape, the input starting after the \<open>u\<close>: a high surrogate followed by an escaped
  low surrogate is one code point.
\<close>

definition unicode_escape :: "pystr \<Rightarrow> (codepoint \<times> pystr) option" where
  "unicode_escape s =
     (case hex4_value s of
        None \<Rightarrow> None
      | Some (hi, r) \<Rightarrow>
          if 55296 \<le> hi \<and> hi \<le> 56319 \<and> starts_with r ([92, 117])
          then (case hex4_value (drop 2 r) of
                  Some (lo, r') \<Rightarrow>
                    if 56320 \<le> lo \<and> lo \<le> 57343
                    then Some (65536 + (hi - 55296) * 1024 + (lo - 56320), r')
                    else Some (hi, r)
                | None \<Rightarrow> Some (hi, r))
          else Some (hi, r))"

text \<open>The characters of a string after its opening quote, and the input after its closing quote.\<close>

fun scan_string :: "nat \<Rightarrow> pystr \<Rightarrow> (pystr \<times> pystr) option" where
  "scan_string 0 s = None"
| "scan_string (Suc fuel) s =
     (case s of
        [] \<Rightarrow> None
      | c # r \<Rightarrow>
          if c = 34 then Some ([], r)
          else if c = 92 then
            (case r of
               [] \<Rightarrow> None
             | e # r' \<Rightarrow>
                 (case (if e = 117 then unicode_escape r'
                        else map_option (\<lambda>x. (x, r')) (escape_char e)) of
                    None \<Rightarrow> None
                  | Some (x, r'') \<Rightarrow>
                      map_option (\<lambda>(cs, t). (x # cs, t)) (scan_string fuel r'')))
          else if c < 32 then None
          else map_option (\<lambda>(cs, t). (c # cs, t)) (scan_string fuel r))"

definition digits_value :: "pystr \<Rightarrow> int" where
  "digits_value ds = foldl (\<lambda>a c. a * 10 + (c - 48)) 0 ds"

definition scan_fraction :: "pystr \<Rightarrow> pystr \<times> pystr" where
  "scan_fraction s =
     (case s of
        p # r \<Rightarrow> let ds = takeWhile ascii_digit r
                 in if p = 46 \<and> ds \<noteq> [] then (46 # ds, dropWhile ascii_digit r) else ([], s)
      | [] \<Rightarrow> ([], s))"

definition scan_exponent :: "pystr \<Rightarrow> pystr \<times> pystr" where
  "scan_exponent s =
     (case s of
        e # r \<Rightarrow>
          let (sgn, r') = (case r of x # t \<Rightarrow> if x = 43 \<or> x = 45 then ([x], t) else ([], r)
                                     | [] \<Rightarrow> ([], r));
              ds = takeWhile ascii_digit r'
          in if (e = 101 \<or> e = 69) \<and> ds \<noteq> [] then (e # sgn @ ds, dropWhile ascii_digit r')
             else ([], s)
      | [] \<Rightarrow> ([], s))"

definition scan_number :: "pystr \<Rightarrow> (pyval \<times> pystr) result" where
  "scan_number s =
     (let (neg, r) = (case s of c # t \<Rightarrow> if c = 45 then ([45], t) else ([], s) | [] \<Rightarrow> ([], s));
          ds = (case r of c # t \<Rightarrow> if c = 48 then [48] else takeWhile ascii_digit r | [] \<Rightarrow> []);
          r1 = drop (length ds) r;
          (frac, r2) = scan_fraction r1;
          (ex, r3) = scan_exponent r2
      in if ds = [] then Inl decode_error
         else if frac = [] \<and> ex = [] then
           (if max_int_digits < length ds then Inl int_limit_error
            else Inr (PInt (if neg = [] then digits_value ds else - digits_value ds), r3))
         else Inr (PFloat (neg @ ds @ frac @ ex), r3))"

definition json_constants :: "(pystr \<times> pyval) list" where
  "json_constants =
    [(S ''null'', PNone), (S ''true'', PBool True), (S ''false'', PBool False),
     (S ''NaN'', PFloat (S ''NaN'')), (S ''Infinity'', PFloat (S ''Infinity'')),
     (S ''-Infinity'', PFloat (S ''-Infinity''))]"

definition scan_atom :: "pystr \<Rightarrow> (pyval \<times> pystr) result" where
  "scan_atom s =
     (case find (\<lambda>(w, v). starts_with s w) json_constants of
        Some (w, v) \<Rightarrow> Inr (v, drop (length w) s)
      | None \<Rightarrow> scan_number s)"

text \<open>
  A value, the rest of an array, the rest of an object. Every call on a longer way down spends
  fuel; \<open>length s + 1\<close> calls deep is more than any document of that length can go. Objects keep
  all their pairs, repeated keys included.
\<close>

fun scan_value :: "nat \<Rightarrow> pystr \<Rightarrow> (pyval \<times> pystr) result"
  and scan_elements :: "nat \<Rightarrow> pystr \<Rightarrow> (pyval list \<times> pystr) result"
  and scan_members :: "nat \<Rightarrow> pystr \<Rightarrow> ((pystr \<times> pyval) list \<times> pystr) result" where
  "scan_value 0 s = Inl decode_error"
| "scan_value (Suc fuel) s =
     (case s of
        [] \<Rightarrow> Inl decode_error
      | c # r \<Rightarrow>
          if c = 34 then
            (case scan_string (Suc (length r)) r of
               None \<Rightarrow> Inl decode_error | Some (cs, t) \<Rightarrow> Inr (PStr cs, t))
          else if c = 123 then
            (case skip_ws r of
               [] \<Rightarrow> Inl decode_error
             | d # t \<Rightarrow> if d = 125 then Inr (PDict [], t)
                        else bindE (scan_members fuel (d # t)) (\<lambda>(kvs, t'). Inr (PDict kvs, t')))
          else if c = 91 then
            (case skip_ws r of
               [] \<Rightarrow> Inl decode_error
             | d # t \<Rightarrow> if d = 93 then Inr (PList [], t)
                        else bindE (scan_elements fuel (d # t)) (\<lambda>(vs, t'). Inr (PList vs, t')))
          else scan_atom s)"
| "scan_elements 0 s = Inl decode_error"
| "scan_elements (Suc fuel) s =
     bindE (scan_value fuel s) (\<lambda>(v, r).
       case skip_ws r of
         [] \<Rightarrow> Inl decode_error
       | d # t \<Rightarrow>
           if d = 93 then Inr ([v], t)
           else if d = 44 then bindE (scan_elements fuel (skip_ws t)) (\<lambda>(vs, t'). Inr (v # vs, t'))
           else Inl decode_error)"
| "scan_members 0 s = Inl decode_error"
| "scan_members (Suc fuel) s =
     (case s of
        [] \<Rightarrow> Inl decode_error
      | q # r \<Rightarrow>
          if q \<noteq> 34 then Inl decode_error
          else
            (case scan_string (Suc (length r)) r of
               None \<Rightarrow> Inl decode_error
             | Some (k, r1) \<Rightarrow>
                 (case skip_ws r1 of
                    [] \<Rightarrow> Inl decode_error
                  | d # r2 \<Rightarrow>
                      if d \<noteq> 58 then Inl decode_error
                      else bindE (scan_value fuel (skip_ws r2)) (\<lambda>(v, r3).
                        case skip_ws r3 of
                          [] \<Rightarrow> Inl decode_error
                        | e # t \<Rightarrow>
                            if e = 125 then Inr ([(k, v)], t)
                            else if e = 44 then
                              bindE (scan_members fuel (skip_ws t))
                                (\<lambda>(kvs, t'). Inr ((k, v) # kvs, t'))
                            else Inl decode_error))))"

definition json_scan :: "pystr \<Rightarrow> pyval result" where
  "json_scan s =
     (if starts_with s [65279] then Inl decode_error
      else bindE (scan_value (Suc (length s)) (skip_ws s)) (\<lambda>(v, r).
        if skip_ws r = [] then Inr v else Inl decode_error))"

text \<open>\<open>dict(pairs)\<close>: a repeated key keeps its first position and its last value.\<close>

definition dict_of_pairs :: "(pystr \<times> 'v) list \<Rightarrow> 'v dict" where
  "dict_of_pairs kvs = foldl (\<lambda>d (k, v). dset d k v) [] kvs"

fun build_dicts :: "pyval \<Rightarrow> pyval" where
  "build_dicts (PList vs) = PList (map build_dicts vs)"
| "build_dicts (PDict kvs) = PDict (dict_of_pairs (map (\<lambda>kv. (fst kv, build_dicts (snd kv))) kvs))"
| "build_dicts v = v"

definition json_loads :: "pystr \<Rightarrow> pyval result" where
  "json_loads s = bindE (json_scan s) (\<lambda>v. Inr (build_dicts v))"

text \<open>Some object of the document repeats a key.\<close>

fun has_duplicate_keys :: "pyval \<Rightarrow> bool" where
  "has_duplicate_keys (PList vs) \<longleftrightarrow> (\<exists>v \<in> set vs. has_duplicate_keys v)"
| "has_duplicate_keys (PDict kvs) \<longleftrightarrow>
     \<not> keys_distinct kvs \<or> (\<exists>kv \<in> set kvs. has_duplicate_keys (snd kv))"
| "has_duplicate_keys _ \<longleftrightarrow> False"

lemma keys_distinct_dict_of_pairs [simp]: "keys_distinct (dict_of_pairs kvs)"
  using dict.inv_puts [of "[]" kvs] by (simp add: dict_of_pairs_def case_prod_beta)

lemma dset_values: "kv \<in> set (dset d k v) \<Longrightarrow> snd kv = v \<or> kv \<in> set d"
  by (cases kv) (auto dest: dset_in)

lemma dict_of_pairs_values:
  assumes "kv \<in> set (dict_of_pairs kvs)" shows "snd kv \<in> snd ` set kvs"
proof -
  have "kv \<in> set (foldl (\<lambda>d (k, v). dset d k v) d kvs) \<Longrightarrow> snd kv \<in> snd ` set kvs \<or> kv \<in> set d" for d
  proof (induction kvs arbitrary: d)
    case (Cons p ps)
    then show ?case by (cases p) (fastforce dest: dset_values)
  qed simp
  from this [of "[]"] assms show ?thesis by (simp add: dict_of_pairs_def)
qed

text \<open>Whatever \<open>json.loads\<close> returns is a well-formed value.\<close>

lemma wf_build_dicts: "wf_val (build_dicts v)"
proof (induction v rule: build_dicts.induct)
  case (2 kvs)
  then show ?case by (fastforce dest: dict_of_pairs_values)
qed auto

lemma json_loads_wf: "json_loads s = Inr v \<Longrightarrow> wf_val v"
  by (auto simp: json_loads_def result_simps wf_build_dicts)

lemma json_loads_class: "json_loads s = Inl e \<Longrightarrow> json_scan s = Inl e"
  by (auto simp: json_loads_def result_simps)

text \<open>The two errors of \<open>json.loads\<close>: no document, or an integer with too many digits.\<close>

lemma scan_number_error: "scan_number s = Inl e \<Longrightarrow> e = decode_error \<or> e = int_limit_error"
  by (auto simp: scan_number_def Let_def split: prod.split_asm if_split_asm)

definition scan_exn :: "exn \<Rightarrow> bool" where
  "scan_exn e \<longleftrightarrow> e = decode_error \<or> e = int_limit_error"

lemma scan_exn_decode [simp]: "scan_exn decode_error"
  by (simp add: scan_exn_def)

lemma scan_atom_error: "scan_atom s = Inl e \<Longrightarrow> scan_exn e"
  by (auto simp: scan_atom_def scan_exn_def dest: scan_number_error split: option.split_asm)

lemma scan_value_error_step:
  assumes "scan_value (Suc fuel) s = Inl e"
    and "\<And>s e. scan_elements fuel s = Inl e \<Longrightarrow> scan_exn e" "\<And>s e. scan_members fuel s = Inl e \<Longrightarrow> scan_exn e"
  shows "scan_exn e"
proof (cases s)
  case (Cons c r)
  consider "c = 34" | "c = 123" | "c = 91" | "c \<noteq> 34" "c \<noteq> 123" "c \<noteq> 91" by blast
  then show ?thesis
  proof cases
    case 1
    then show ?thesis using assms(1) Cons by (auto split: option.split_asm)
  next
    case 2
    then show ?thesis using assms(1,3) Cons
      by (auto simp: result_simps simp del: scan_members.simps split: list.split_asm if_split_asm)
  next
    case 3
    then show ?thesis using assms(1,2) Cons
      by (auto simp: result_simps simp del: scan_elements.simps split: list.split_asm if_split_asm)
  next
    case 4
    then show ?thesis using assms(1) Cons by (auto dest: scan_atom_error)
  qed
qed (use assms(1) in auto)

lemma scan_elements_error_step:
  assumes "scan_elements (Suc fuel) s = Inl e"
    and "\<And>s e. scan_elements fuel s = Inl e \<Longrightarrow> scan_exn e" "\<And>s e. scan_value fuel s = Inl e \<Longrightarrow> scan_exn e"
  shows "scan_exn e"
proof (cases "scan_value fuel s")
  case (Inr vr)
  obtain v r where "vr = (v, r)" by fastforce
  then show ?thesis using assms(1) Inr
    by (cases "skip_ws r") (auto simp: result_simps dest: assms(2) split: if_split_asm)
qed (use assms in simp)

lemma scan_members_error_step:
  assumes "scan_members (Suc fuel) s = Inl e"
    and "\<And>s e. scan_members fuel s = Inl e \<Longrightarrow> scan_exn e" "\<And>s e. scan_value fuel s = Inl e \<Longrightarrow> scan_exn e"
  shows "scan_exn e"
proof (cases "\<exists>r k r1 r2. s = 34 # r \<and> scan_string (Suc (length r)) r = Some (k, r1) \<and> skip_ws r1 = 58 # r2")
  case True
  then obtain r k r1 r2 where s: "s = 34 # r" "scan_string (Suc (length r)) r = Some (k, r1)" "skip_ws r1 = 58 # r2"
    by blast
  show ?thesis
  proof (cases "scan_value fuel (skip_ws r2)")
    case (Inl e')
    then show ?thesis using assms s by simp
  next
    case (Inr vr)
    obtain v r3 where "vr = (v, r3)" by fastforce
    then show ?thesis using assms(1) s Inr
      by (cases "skip_ws r3") (auto simp: result_simps simp del: scan_string.simps dest: assms(2) split: if_split_asm)
  qed
next
  case False
  then have "e = decode_error" using assms(1)
    by (cases s) (auto simp del: scan_string.simps split: if_split_asm option.split_asm list.split_asm)
  then show ?thesis by simp
qed

lemma scan_error:
  "(\<forall>s e. scan_value fuel s = Inl e \<longrightarrow> scan_exn e) \<and>
   (\<forall>s e. scan_elements fuel s = Inl e \<longrightarrow> scan_exn e) \<and>
   (\<forall>s e. scan_members fuel s = Inl e \<longrightarrow> scan_exn e)"
proof (induction fuel)
  case (Suc fuel)
  then show ?case
    by (meson scan_value_error_step scan_elements_error_step scan_members_error_step)
qed simp

lemma json_loads_error: "json_loads s = Inl e \<Longrightarrow> e = decode_error \<or> e = int_limit_error"
  using scan_error [of "Suc (length s)"]
  by (auto simp: json_loads_def json_scan_def result_simps scan_exn_def [symmetric]
      simp del: scan_value.simps split: if_split_asm)

lemma dict_of_pairs_distinct: "keys_distinct kvs \<Longrightarrow> dict_of_pairs kvs = kvs"
proof -
  have "distinct (map fst (d @ kvs)) \<Longrightarrow> foldl (\<lambda>d (k, v). dset d k v) d kvs = d @ kvs" for d
  proof (induction kvs arbitrary: d)
    case (Cons p ps)
    obtain k v where p: "p = (k, v)" by (cases p)
    with Cons.prems have "k \<notin> fst ` set d" by auto
    then have "dset d k v = d @ [(k, v)]" by (induction d) auto
    with Cons p show ?case by simp
  qed simp
  from this [of "[]"] show "keys_distinct kvs \<Longrightarrow> dict_of_pairs kvs = kvs"
    by (simp add: dict_of_pairs_def keys_distinct_def)
qed


section \<open>Printing\<close>

definition json_escape :: "bool \<Rightarrow> codepoint \<Rightarrow> pystr" where
  "json_escape ascii c =
     (if c = 34 \<or> c = 92 then [92, c]
      else if c = 10 then [92, 110] else if c = 13 then [92, 114] else if c = 9 then [92, 116]
      else if c = 12 then [92, 102] else if c = 8 then [92, 98]
      else if c < 32 then [92, 117] @ hex4 c
      else if ascii \<and> 126 < c then
        (if c < 65536 then [92, 117] @ hex4 c
         else let v = c - 65536
              in [92, 117] @ hex4 (55296 + v div 1024) @ [92, 117] @ hex4 (56320 + v mod 1024))
      else [c])"

definition json_string :: "bool \<Rightarrow> pystr \<Rightarrow> pystr" where
  "json_string ascii s = 34 # concat (map (json_escape ascii) s) @ [34]"

record json_format =
  ensure_ascii :: bool
  item_sep :: pystr
  key_sep :: pystr
  sort_keys :: bool

definition default_format :: json_format where
  "default_format = \<lparr>ensure_ascii = True, item_sep = S '', '', key_sep = S '': '', sort_keys = False\<rparr>"

text \<open>\<open>json.dumps(value, ensure_ascii=False, separators=(",", ":"))\<close>.\<close>

definition compact_format :: json_format where
  "compact_format = \<lparr>ensure_ascii = False, item_sep = S '','', key_sep = S '':'', sort_keys = False\<rparr>"

fun json_dumps :: "json_format \<Rightarrow> pyval \<Rightarrow> pystr" where
  "json_dumps f PNone = S ''null''"
| "json_dumps f (PBool b) = (if b then S ''true'' else S ''false'')"
| "json_dumps f (PInt i) = int_dec i"
| "json_dumps f (PFloat r) = r"
| "json_dumps f (PStr s) = json_string (ensure_ascii f) s"
| "json_dumps f (PList vs) = S ''['' @ join (item_sep f) (map (json_dumps f) vs) @ S '']''"
| "json_dumps f (PDict d) =
     (let items = map (\<lambda>kv. (fst kv, json_dumps f (snd kv))) d;
          items' = (if sort_keys f then sort_key fst items else items)
      in S ''{''
         @ join (item_sep f)
             (map (\<lambda>(k, t). json_string (ensure_ascii f) k @ key_sep f @ t) items')
         @ S ''}'')"

lemma set_join: "set (join sep xs) \<subseteq> set sep \<union> (\<Union>x \<in> set xs. set x)"
  by (induction sep xs rule: join.induct) auto

end
