(* ===== verification/Utf8.thy ===== *)
theory Utf8
  imports Prelude
begin

text \<open>
  UTF-8 as \<open>str.encode("utf-8")\<close> and strict \<open>bytes.decode("utf-8")\<close> compute it, over code points and
  byte values. A string with a surrogate (which \<open>json.loads\<close> can produce) does not encode. The
  lemmas relate byte positions to code point positions: a position is a character boundary exactly
  when the byte there is no continuation byte.
\<close>

definition valid_cp :: "codepoint \<Rightarrow> bool" where
  "valid_cp c \<longleftrightarrow> 0 \<le> c \<and> c < 1114112 \<and> \<not> (55296 \<le> c \<and> c \<le> 57343)"

definition valid_str :: "pystr \<Rightarrow> bool" where
  "valid_str s \<longleftrightarrow> (\<forall>c \<in> set s. valid_cp c)"

definition utf8_char :: "codepoint \<Rightarrow> int list" where
  "utf8_char c =
     (if c < 128 then [c]
      else if c < 2048 then [192 + c div 64, 128 + c mod 64]
      else if c < 65536 then [224 + c div 4096, 128 + c div 64 mod 64, 128 + c mod 64]
      else [240 + c div 262144, 128 + c div 4096 mod 64, 128 + c div 64 mod 64, 128 + c mod 64])"

definition utf8_bytes :: "pystr \<Rightarrow> int list" where
  "utf8_bytes s = concat (map utf8_char s)"

definition utf8_encode :: "pystr \<Rightarrow> int list result" where
  "utf8_encode s =
     (if valid_str s then Inr (utf8_bytes s)
      else Inl (Exn CUnicodeEncodeError (S ''surrogates not allowed'')))"

definition is_cont :: "int \<Rightarrow> bool" where
  "is_cont b \<longleftrightarrow> 128 \<le> b \<and> b < 192"

text \<open>One character off the front of a byte string; \<open>None\<close> is a \<open>UnicodeDecodeError\<close>.\<close>

definition decode_char :: "int list \<Rightarrow> (codepoint \<times> int list) option" where
  "decode_char bs =
     (case bs of
        [] \<Rightarrow> None
      | b # r \<Rightarrow>
          if 0 \<le> b \<and> b < 128 then Some (b, r)
          else if 194 \<le> b \<and> b < 224 then
            (case r of
               x # r' \<Rightarrow> if is_cont x then Some ((b - 192) * 64 + (x - 128), r') else None
             | _ \<Rightarrow> None)
          else if 224 \<le> b \<and> b < 240 then
            (case r of
               x # y # r' \<Rightarrow>
                 let c = (b - 224) * 4096 + (x - 128) * 64 + (y - 128)
                 in if is_cont x \<and> is_cont y \<and> 2048 \<le> c \<and> valid_cp c then Some (c, r') else None
             | _ \<Rightarrow> None)
          else if 240 \<le> b \<and> b < 245 then
            (case r of
               x # y # z # r' \<Rightarrow>
                 let c = (b - 240) * 262144 + (x - 128) * 4096 + (y - 128) * 64 + (z - 128)
                 in if is_cont x \<and> is_cont y \<and> is_cont z \<and> 65536 \<le> c \<and> valid_cp c
                    then Some (c, r') else None
             | _ \<Rightarrow> None)
          else None)"

lemma decode_char_length: "decode_char bs = Some (c, r) \<Longrightarrow> length r < length bs"
  by (auto simp: decode_char_def Let_def split: list.splits if_splits)

function utf8_decode :: "int list \<Rightarrow> pystr result" where
  "utf8_decode bs =
     (if bs = [] then Inr []
      else case decode_char bs of
             None \<Rightarrow> Inl (Exn CUnicodeDecodeError (S ''invalid utf-8''))
           | Some (c, r) \<Rightarrow> bindE (utf8_decode r) (\<lambda>cs. Inr (c # cs)))"
  by pat_completeness auto
termination
  by (relation "measure length") (auto dest: decode_char_length)

declare utf8_decode.simps [simp del]


section \<open>Encoding lemmas\<close>

lemma valid_str_simps [simp]:
  "valid_str []" "valid_str (c # s) \<longleftrightarrow> valid_cp c \<and> valid_str s"
  "valid_str (s @ t) \<longleftrightarrow> valid_str s \<and> valid_str t"
  by (auto simp: valid_str_def)

lemma valid_str_take [intro]: "valid_str s \<Longrightarrow> valid_str (take n s)"
  and valid_str_drop [intro]: "valid_str s \<Longrightarrow> valid_str (drop n s)"
  by (auto simp: valid_str_def dest: in_set_takeD in_set_dropD)

lemma valid_str_S [simp]: "valid_str (S s)"
  unfolding valid_str_def S_def
proof
  fix c :: int assume "c \<in> set (map of_char s)"
  then obtain ch :: char where "c = of_char ch" by auto
  moreover have "of_char ch mod (256 :: int) = of_char ch"
    by (rule of_char_mod_256)
  then have "(of_char ch :: int) < 256" "0 \<le> (of_char ch :: int)"
    by (metis pos_mod_bound pos_mod_sign zero_less_numeral)+
  ultimately show "valid_cp c" by (simp add: valid_cp_def)
qed

lemma utf8_bytes_simps [simp]:
  "utf8_bytes [] = []" "utf8_bytes (c # s) = utf8_char c @ utf8_bytes s"
  "utf8_bytes (s @ t) = utf8_bytes s @ utf8_bytes t"
  by (simp_all add: utf8_bytes_def)

lemma utf8_char_nonempty [simp]: "utf8_char c \<noteq> []"
  by (simp add: utf8_char_def)

lemma utf8_char_length: "1 \<le> length (utf8_char c)" "length (utf8_char c) \<le> 4"
  by (simp_all add: utf8_char_def)

lemma is_cont_tail: "is_cont (128 + x mod 64)"
  by (simp add: is_cont_def)

lemma utf8_char_split:
  assumes "valid_cp c"
  obtains b bs where "utf8_char c = b # bs" "\<not> is_cont b" "\<forall>x \<in> set bs. is_cont x"
proof -
  have "\<not> is_cont (hd (utf8_char c)) \<and> (\<forall>x \<in> set (tl (utf8_char c)). is_cont x)"
    using assms by (auto simp: utf8_char_def valid_cp_def is_cont_def)
  then show ?thesis using that by (cases "utf8_char c") auto
qed

lemma utf8_bytes_eq_Nil [simp]: "utf8_bytes s = [] \<longleftrightarrow> s = []"
  by (cases s) auto

lemma length_utf8_bytes: "length s \<le> length (utf8_bytes s)"
proof (induction s)
  case (Cons c s)
  then show ?case using utf8_char_length(1) [of c] by simp
qed simp

lemma utf8_char_bytes: "valid_cp c \<Longrightarrow> b \<in> set (utf8_char c) \<Longrightarrow> 0 \<le> b \<and> b < 256"
  by (auto simp: utf8_char_def valid_cp_def split: if_splits)

lemma utf8_bytes_range: "valid_str s \<Longrightarrow> b \<in> set (utf8_bytes s) \<Longrightarrow> 0 \<le> b \<and> b < 256"
  by (induction s) (auto dest: utf8_char_bytes)


section \<open>Round trip\<close>

lemma recombine:
  assumes "c = q * 64 + m" "q = q' * 64 + m'" "q' = q'' * 64 + (m'' :: int)"
  shows "q * 64 + m = c" "q' * 4096 + m' * 64 + m = c"
    "q'' * 262144 + m'' * 4096 + m' * 64 + m = c"
  using assms by simp_all

lemma decode_char_cont:
  "194 \<le> b \<Longrightarrow> b < 224 \<Longrightarrow> is_cont x \<Longrightarrow> (b - 192) * 64 + (x - 128) = c
    \<Longrightarrow> decode_char (b # x # r) = Some (c, r)"
  "224 \<le> b \<Longrightarrow> b < 240 \<Longrightarrow> is_cont x \<Longrightarrow> is_cont y \<Longrightarrow> 2048 \<le> c \<Longrightarrow> valid_cp c
    \<Longrightarrow> (b - 224) * 4096 + (x - 128) * 64 + (y - 128) = c
    \<Longrightarrow> decode_char (b # x # y # r) = Some (c, r)"
  "240 \<le> b \<Longrightarrow> b < 245 \<Longrightarrow> is_cont x \<Longrightarrow> is_cont y \<Longrightarrow> is_cont z \<Longrightarrow> 65536 \<le> c \<Longrightarrow> valid_cp c
    \<Longrightarrow> (b - 240) * 262144 + (x - 128) * 4096 + (y - 128) * 64 + (z - 128) = c
    \<Longrightarrow> decode_char (b # x # y # z # r) = Some (c, r)"
  by (simp_all add: decode_char_def)

lemma decode_char_utf8_char: "valid_cp c \<Longrightarrow> decode_char (utf8_char c @ r) = Some (c, r)"
proof -
  assume v: "valid_cp c"
  note rc = recombine [of c "c div 64" "c mod 64" "c div 64 div 64" "c div 64 mod 64"
      "c div 64 div 64 div 64" "c div 64 div 64 mod 64", OF div_mult_mod_eq [symmetric]
      div_mult_mod_eq [symmetric] div_mult_mod_eq [symmetric]]
  have e: "c div 4096 = c div 64 div 64" "c div 262144 = c div 64 div 64 div 64"
    by (simp_all add: zdiv_zmult2_eq [symmetric])
  consider "c < 128" | "128 \<le> c" "c < 2048" | "2048 \<le> c" "c < 65536" | "65536 \<le> c"
    by linarith
  then show ?thesis
  proof cases
    case 1
    with v show ?thesis by (simp add: utf8_char_def decode_char_def valid_cp_def)
  next
    case 2
    then have "utf8_char c = [192 + c div 64, 128 + c mod 64]"
      by (simp add: utf8_char_def)
    moreover have "194 \<le> 192 + c div 64" "192 + c div 64 < 224" using 2 by simp_all
    moreover have "(192 + c div 64 - 192) * 64 + (128 + c mod 64 - 128) = c"
      using rc(1) by simp
    ultimately show ?thesis by (simp add: decode_char_cont(1) is_cont_tail)
  next
    case 3
    then have "utf8_char c = [224 + c div 4096, 128 + c div 64 mod 64, 128 + c mod 64]"
      by (simp add: utf8_char_def)
    moreover have "224 \<le> 224 + c div 4096" "224 + c div 4096 < 240" using 3 by simp_all
    moreover have "(224 + c div 4096 - 224) * 4096 + (128 + c div 64 mod 64 - 128) * 64
        + (128 + c mod 64 - 128) = c"
      using rc(2) by (simp add: e)
    ultimately show ?thesis using v 3 by (simp add: decode_char_cont(2) is_cont_tail)
  next
    case 4
    then have u: "utf8_char c = [240 + c div 262144, 128 + c div 4096 mod 64,
        128 + c div 64 mod 64, 128 + c mod 64]"
      by (simp add: utf8_char_def)
    have lo: "240 \<le> 240 + c div 262144" and hi: "240 + c div 262144 < 245"
      using v 4 by (simp_all add: valid_cp_def)
    have eq: "(240 + c div 262144 - 240) * 262144 + (128 + c div 4096 mod 64 - 128) * 4096
        + (128 + c div 64 mod 64 - 128) * 64 + (128 + c mod 64 - 128) = c"
      using rc(3) by (simp add: e)
    show ?thesis unfolding u append.simps
      by (rule decode_char_cont(3) [OF lo hi is_cont_tail is_cont_tail is_cont_tail 4 v eq])
  qed
qed

lemma utf8_decode_encode: "valid_str s \<Longrightarrow> utf8_decode (utf8_bytes s) = Inr s"
proof (induction s)
  case Nil
  then show ?case by (subst utf8_decode.simps) simp
next
  case (Cons c s)
  then show ?case by (subst utf8_decode.simps) (simp add: decode_char_utf8_char)
qed


section \<open>Decoding with replacement\<close>

text \<open>
  \<open>bytes.decode("utf-8", errors="replace")\<close>: each maximal prefix of a well-formed sequence that is
  cut short, and each byte that starts none, becomes U+FFFD.
\<close>

definition second_ok :: "int \<Rightarrow> int \<Rightarrow> bool" where
  "second_ok b x \<longleftrightarrow>
     is_cont x \<and> (b = 224 \<longrightarrow> 160 \<le> x) \<and> (b = 237 \<longrightarrow> x < 160) \<and> (b = 240 \<longrightarrow> 144 \<le> x)
     \<and> (b = 244 \<longrightarrow> x < 144)"

definition bad_length :: "int \<Rightarrow> int list \<Rightarrow> nat" where
  "bad_length b r =
     (case r of
        [] \<Rightarrow> 1
      | x # r' \<Rightarrow>
          if 224 \<le> b \<and> b < 245 \<and> second_ok b x
          then (case r' of
                  y # _ \<Rightarrow> if 240 \<le> b \<and> is_cont y then 3 else 2
                | [] \<Rightarrow> 2)
          else 1)"

lemma bad_length_pos: "0 < bad_length b r"
  by (simp add: bad_length_def split: list.splits)

function utf8_decode_replace :: "int list \<Rightarrow> pystr" where
  "utf8_decode_replace bs =
     (case decode_char bs of
        Some (c, r) \<Rightarrow> c # utf8_decode_replace r
      | None \<Rightarrow>
          (case bs of
             [] \<Rightarrow> []
           | b # r \<Rightarrow> 65533 # utf8_decode_replace (drop (bad_length b r) bs)))"
  by pat_completeness auto
termination
  by (relation "measure length") (auto simp: bad_length_pos dest: decode_char_length)

declare utf8_decode_replace.simps [simp del]

lemma decode_replace_utf8_bytes: "valid_str s \<Longrightarrow> utf8_decode_replace (utf8_bytes s) = s"
proof (induction s)
  case Nil
  then show ?case by (subst utf8_decode_replace.simps) (simp add: decode_char_def)
next
  case (Cons c s)
  then have "decode_char (utf8_bytes (c # s)) = Some (c, utf8_bytes s)"
    by (simp add: decode_char_utf8_char)
  with Cons show ?case by (subst utf8_decode_replace.simps) simp
qed


section \<open>Character boundaries\<close>

definition byte_pos :: "pystr \<Rightarrow> nat \<Rightarrow> nat" where
  "byte_pos s i = length (utf8_bytes (take i s))"

lemma byte_pos_0 [simp]: "byte_pos s 0 = 0"
  by (simp add: byte_pos_def)

lemma byte_pos_end: "length s \<le> i \<Longrightarrow> byte_pos s i = length (utf8_bytes s)"
  by (simp add: byte_pos_def)

lemma byte_pos_le: "byte_pos s i \<le> length (utf8_bytes s)"
  unfolding byte_pos_def
  by (metis append_take_drop_id le_add1 length_append utf8_bytes_simps(3))

lemma byte_pos_Suc: "i < length s \<Longrightarrow> byte_pos s (Suc i) = byte_pos s i + length (utf8_char (s ! i))"
  by (simp add: byte_pos_def take_Suc_conv_app_nth)

lemma byte_pos_mono: "i \<le> j \<Longrightarrow> byte_pos s i \<le> byte_pos s j"
  by (metis append_take_drop_id byte_pos_def byte_pos_le min.absorb1 take_take)

lemma byte_pos_strict_mono: "i < j \<Longrightarrow> j \<le> length s \<Longrightarrow> byte_pos s i < byte_pos s j"
  using byte_pos_mono [of "Suc i" j s] byte_pos_Suc [of i s] utf8_char_length(1) [of "s ! i"]
  by simp

lemma byte_pos_lt: "i < length s \<Longrightarrow> byte_pos s i < length (utf8_bytes s)"
  using byte_pos_strict_mono [of i "length s" s] by (simp add: byte_pos_end)

lemma byte_pos_less_iff:
  "i \<le> length s \<Longrightarrow> j \<le> length s \<Longrightarrow> byte_pos s i < byte_pos s j \<longleftrightarrow> i < j"
  by (metis byte_pos_mono byte_pos_strict_mono leD leI)

lemma byte_pos_le_iff:
  "i \<le> length s \<Longrightarrow> j \<le> length s \<Longrightarrow> byte_pos s i \<le> byte_pos s j \<longleftrightarrow> i \<le> j"
  by (meson byte_pos_less_iff linorder_not_le)

text \<open>The bytes between two boundaries are the encoding of the characters between them.\<close>

lemma utf8_slice:
  assumes "i \<le> j"
  shows "drop (byte_pos s i) (take (byte_pos s j) (utf8_bytes s)) = utf8_bytes (drop i (take j s))"
proof -
  have "take (byte_pos s j) (utf8_bytes s) = utf8_bytes (take j s)"
    unfolding byte_pos_def
    by (metis append_eq_conv_conj append_take_drop_id utf8_bytes_simps(3))
  moreover have "utf8_bytes (take j s) = utf8_bytes (take i s) @ utf8_bytes (drop i (take j s))"
    using assms by (metis append_take_drop_id min.absorb1 take_take utf8_bytes_simps(3))
  ultimately show ?thesis by (simp add: byte_pos_def)
qed

definition is_boundary :: "int list \<Rightarrow> nat \<Rightarrow> bool" where
  "is_boundary bs p \<longleftrightarrow> p \<ge> length bs \<or> \<not> is_cont (bs ! p)"

lemma boundary_byte_pos:
  assumes "valid_str s" "p \<le> length (utf8_bytes s)"
  shows "is_boundary (utf8_bytes s) p \<longleftrightarrow> (\<exists>i \<le> length s. p = byte_pos s i)"
  using assms
proof (induction s arbitrary: p)
  case Nil
  then show ?case by (simp add: is_boundary_def byte_pos_def)
next
  case (Cons c s)
  then obtain b bs where c: "utf8_char c = b # bs" "\<not> is_cont b" "\<forall>x \<in> set bs. is_cont x"
    using utf8_char_split by (metis valid_str_simps(2))
  let ?n = "length (utf8_char c)"
  have pos: "byte_pos (c # s) (Suc i) = ?n + byte_pos s i" for i
    by (simp add: byte_pos_def)
  show ?case
  proof (cases "p < ?n")
    case True
    have "is_boundary (utf8_bytes (c # s)) p \<longleftrightarrow> p = 0"
      using True c by (cases p) (auto simp: is_boundary_def nth_append)
    moreover have "(\<exists>i \<le> length (c # s). p = byte_pos (c # s) i) \<longleftrightarrow> p = 0"
      using True pos by (metis byte_pos_0 le0 not_add_less1 not0_implies_Suc)
    ultimately show ?thesis by simp
  next
    case False
    then obtain q where q: "p = ?n + q" by (metis le_Suc_ex linorder_not_less)
    with Cons.prems have "q \<le> length (utf8_bytes s)" by simp
    with Cons have IH: "is_boundary (utf8_bytes s) q \<longleftrightarrow> (\<exists>i \<le> length s. q = byte_pos s i)"
      by simp
    have "is_boundary (utf8_bytes (c # s)) p \<longleftrightarrow> is_boundary (utf8_bytes s) q"
      by (simp add: is_boundary_def q nth_append)
    moreover have "(\<exists>i \<le> length (c # s). p = byte_pos (c # s) i) \<longleftrightarrow> (\<exists>i \<le> length s. q = byte_pos s i)"
    proof
      assume "\<exists>i \<le> length (c # s). p = byte_pos (c # s) i"
      then obtain i where "i \<le> length (c # s)" "p = byte_pos (c # s) i" by blast
      then show "\<exists>i \<le> length s. q = byte_pos s i"
        using q pos c by (cases i) auto
    next
      assume "\<exists>i \<le> length s. q = byte_pos s i"
      then obtain i where "i \<le> length s" "q = byte_pos s i" by blast
      then have "Suc i \<le> length (c # s)" "p = byte_pos (c # s) (Suc i)"
        using q pos by simp_all
      then show "\<exists>i \<le> length (c # s). p = byte_pos (c # s) i" by blast
    qed
    ultimately show ?thesis using IH by simp
  qed
qed

text \<open>A character has at most three continuation bytes, so a boundary is never far.\<close>

lemma boundary_near:
  assumes "valid_str s" "p < length (utf8_bytes s)"
  shows "\<exists>i < length s. byte_pos s i \<le> p \<and> p \<le> byte_pos s i + 3 \<and> p < byte_pos s (Suc i)"
  using assms
proof (induction s arbitrary: p)
  case Nil
  then show ?case by simp
next
  case (Cons c s)
  let ?n = "length (utf8_char c)"
  show ?case
  proof (cases "p < ?n")
    case True
    then have "byte_pos (c # s) 0 \<le> p \<and> p \<le> byte_pos (c # s) 0 + 3 \<and> p < byte_pos (c # s) (Suc 0)"
      using utf8_char_length(2) [of c] by (simp add: byte_pos_def)
    then show ?thesis by (metis length_greater_0_conv list.distinct(1))
  next
    case False
    then obtain q where q: "p = ?n + q" by (metis le_Suc_ex linorder_not_less)
    with Cons obtain i where "i < length s" "byte_pos s i \<le> q \<and> q \<le> byte_pos s i + 3 \<and> q < byte_pos s (Suc i)"
      by auto
    then show ?thesis
      by (intro exI [of _ "Suc i"]) (auto simp: q byte_pos_def)
  qed
qed

end
