(* ===== verification/PyWorld.thy ===== *)
theory PyWorld
  imports PyValue Utf8
begin

text \<open>
  The process environment and the file system as the program reads them: \<open>os.environ\<close> and a map
  from path texts to files and directories. \<open>read_text\<close> is \<open>Path.read_text(encoding="utf-8")\<close> with
  its errors and its newline translation.
\<close>

datatype fnode =
    RegularFile "int list"
  | UnreadableFile
  | Directory "pystr list"
  | UnreadableDirectory

text \<open>
  \<open>files\<close> is keyed by path texts in the form \<open>str(Path(p))\<close>. \<open>realpath\<close> is the operating system's
  resolution of symbolic links and \<open>..\<close> for absolute paths (\<open>Path(p).resolve()\<close>). \<open>nfkc\<close> and \<open>ip_literal\<close> are two
  tables of the standard library that the URL parser consults: Unicode's NFKC normalisation and
  the IPv6 literals of \<open>ipaddress\<close>.
\<close>

record world =
  environ :: "pystr \<Rightarrow> pystr option"
  files :: "pystr \<Rightarrow> fnode option"
  realpath :: "pystr \<Rightarrow> pystr result"
  nfkc :: "pystr \<Rightarrow> pystr"
  ip_literal :: "pystr \<Rightarrow> bool"

text \<open>Path resolution without symbolic links: \<open>..\<close> removes a component; a NUL is an error.\<close>

fun drop_dotdot :: "pystr list \<Rightarrow> pystr list \<Rightarrow> pystr list" where
  "drop_dotdot acc [] = rev acc"
| "drop_dotdot acc (c # cs) =
     (if c = [] \<or> c = S ''.'' then drop_dotdot acc cs
      else if c = S ''..'' then drop_dotdot (tl acc) cs
      else drop_dotdot (c # acc) cs)"

definition lexical_realpath :: "pystr \<Rightarrow> pystr result" where
  "lexical_realpath p =
     (if 0 \<in> set p then Inl (ValueError (S ''embedded null byte''))
      else Inr (S ''/'' @ join (S ''/'') (drop_dotdot [] (split_on 47 p))))"

text \<open>A world with no variable set and no file, for examples.\<close>

definition empty_world :: world where
  "empty_world = \<lparr>environ = (\<lambda>_. None), files = (\<lambda>_. None), realpath = lexical_realpath,
     nfkc = (\<lambda>s. s), ip_literal = (\<lambda>_. False)\<rparr>"

definition env_world :: "pystr dict \<Rightarrow> world" where
  "env_world vars = empty_world\<lparr>environ := dget vars\<rparr>"

definition env_get :: "world \<Rightarrow> pystr \<Rightarrow> pystr" where
  "env_get w k = (case environ w k of None \<Rightarrow> [] | Some v \<Rightarrow> v)"

text \<open>\<open>os.environ.get(k, "").strip()\<close>.\<close>

definition env_strip :: "world \<Rightarrow> pystr \<Rightarrow> pystr" where
  "env_strip w k = strip (env_get w k)"

lemma env_strip_unset [simp]: "environ w k = None \<Longrightarrow> env_strip w k = []"
  by (simp add: env_strip_def env_get_def)

lemma env_strip_strip [simp]: "strip (env_strip w k) = env_strip w k"
  by (simp add: env_strip_def)

text \<open>\<open>str(Path(p))\<close> on POSIX: empty and \<open>.\<close> components go, a leading double slash stays.\<close>

definition path_text :: "pystr \<Rightarrow> pystr" where
  "path_text p =
     (let root = (if starts_with p (S ''//'') \<and> \<not> starts_with p (S ''///'') then S ''//''
                  else if starts_with p (S ''/'') then S ''/'' else []);
          body = join (S ''/'') (filter (\<lambda>c. c \<noteq> [] \<and> c \<noteq> S ''.'') (split_on 47 p))
      in if root @ body = [] then S ''.'' else root @ body)"

text \<open>\<open>Path(d) / n\<close> for a relative \<open>n\<close>.\<close>

definition path_join :: "pystr \<Rightarrow> pystr \<Rightarrow> pystr" where
  "path_join d n = path_text (d @ S ''/'' @ n)"

definition path_is_file :: "world \<Rightarrow> pystr \<Rightarrow> bool" where
  "path_is_file w p \<longleftrightarrow>
     (case files w p of
        Some (RegularFile _) \<Rightarrow> True | Some UnreadableFile \<Rightarrow> True | _ \<Rightarrow> False)"

definition path_is_dir :: "world \<Rightarrow> pystr \<Rightarrow> bool" where
  "path_is_dir w p \<longleftrightarrow>
     (case files w p of
        Some (Directory _) \<Rightarrow> True | Some UnreadableDirectory \<Rightarrow> True | _ \<Rightarrow> False)"

text \<open>Text mode reads \<open>\\r\\n\<close> and \<open>\\r\<close> as \<open>\\n\<close>.\<close>

fun universal_newlines :: "pystr \<Rightarrow> pystr" where
  "universal_newlines [] = []"
| "universal_newlines [c] = (if c = 13 then [10] else [c])"
| "universal_newlines (c # d # s) =
     (if c = 13 \<and> d = 10 then 10 # universal_newlines s
      else if c = 13 then 10 # universal_newlines (d # s)
      else c # universal_newlines (d # s))"

definition read_text :: "world \<Rightarrow> pystr \<Rightarrow> pystr result" where
  "read_text w p =
     (case files w p of
        None \<Rightarrow> Inl (Exn CFileNotFoundError (S ''No such file or directory: '' @ repr_str p))
      | Some (RegularFile bs) \<Rightarrow> bindE (utf8_decode bs) (\<lambda>t. Inr (universal_newlines t))
      | Some UnreadableFile \<Rightarrow> Inl (Exn COSError (S ''Permission denied: '' @ repr_str p))
      | Some _ \<Rightarrow> Inl (Exn COSError (S ''Is a directory: '' @ repr_str p)))"

lemma utf8_decode_class: "utf8_decode bs = Inl e \<Longrightarrow> exn_class e = CUnicodeDecodeError"
proof (induction bs rule: utf8_decode.induct)
  case (1 bs)
  then show ?case
    by (subst (asm) utf8_decode.simps) (auto split: if_splits option.splits simp: result_simps)
qed

lemma read_text_class:
  "read_text w p = Inl e \<Longrightarrow> is_os_error (exn_class e) \<or> exn_class e = CUnicodeDecodeError"
  by (auto simp: read_text_def is_os_error_def result_simps split: option.splits fnode.splits
      dest: utf8_decode_class)

text \<open>
  The stripped, non-empty text of a readable regular file, \<open>None\<close> otherwise: the program reads
  mounted secrets in this way in two places.
\<close>

definition read_stripped :: "world \<Rightarrow> pystr \<Rightarrow> pystr option" where
  "read_stripped w p =
     (if path_is_file w p
      then (case read_text w p of Inl _ \<Rightarrow> None | Inr t \<Rightarrow> or_none (strip t))
      else None)"

lemma read_stripped_Some:
  "read_stripped w p = Some t \<Longrightarrow> t \<noteq> [] \<and> strip t = t"
  by (auto simp: read_stripped_def split: if_splits sum.splits)

end
