(* ===== verification/Tracing.thy ===== *)
theory Tracing
  imports PyJson PyWorld
begin

text \<open>
  \<open>tracing.py\<close>: the gate for telemetry, the set-up and tear-down of the providers, what leaves the
  process when spans end, JSON attributes and the W3C trace parent. A span of the SDK is the list of the
  operations the program performs on it. Proved: what is written to stdout, sent as spans and sent
  as log records, with content removed where it must be; set-up is refused on a live state and a
  set-up followed by a clean tear-down gives back the empty state; JSON attributes are valid UTF-8;
  every well-formed trace parent is read back exactly.
\<close>

section \<open>Spans\<close>

datatype span_status = StatusOk | StatusError

datatype span_op =
    SetAttribute pystr pyval
  | SetStatus span_status pystr
  | AddEvent pystr pydict
  | EndSpan

record span =
  span_title :: pystr
  span_start_attributes :: pydict
  span_sampled :: bool
  span_ops :: "span_op list"

definition perform :: "span_op \<Rightarrow> span \<Rightarrow> span" where
  "perform op s = s\<lparr>span_ops := span_ops s @ [op]\<rparr>"

text \<open>\<open>span.is_recording()\<close>: the span was sampled and has not ended.\<close>

definition is_recording :: "span \<Rightarrow> bool" where
  "is_recording s \<longleftrightarrow> span_sampled s \<and> EndSpan \<notin> set (span_ops s)"

text \<open>\<open>encode("utf-8", errors="backslashreplace").decode("utf-8")\<close>.\<close>

definition backslash_replace :: "pystr \<Rightarrow> pystr" where
  "backslash_replace s =
     concat (map (\<lambda>c. if 55296 \<le> c \<and> c \<le> 57343 then [92, 117] @ hex4 c else [c]) s)"

definition json_attribute :: "pyval \<Rightarrow> pyval" where
  "json_attribute v = PStr (backslash_replace (json_dumps compact_format v))"

definition set_json_span_attribute :: "pystr \<Rightarrow> pyval \<Rightarrow> span \<Rightarrow> span" where
  "set_json_span_attribute name v s =
     (if is_recording s then perform (SetAttribute name (json_attribute v)) s else s)"

definition start_generation_span ::
  "pystr \<Rightarrow> pystr \<Rightarrow> pystr \<Rightarrow> pydict \<Rightarrow> bool \<Rightarrow> span"
where
  "start_generation_span operation model provider parent_attributes sampled =
     \<lparr>span_title = operation @ S '' '' @ model,
      span_start_attributes =
        [(S ''gen_ai.operation.name'', PStr operation), (S ''gen_ai.request.model'', PStr model),
         (S ''gen_ai.provider.name'', PStr provider)]
        @ filter (\<lambda>kv. truthy (snd kv))
            (map (\<lambda>k. (k, dgetn parent_attributes k)) [S ''agenticrun.uid'', S ''agenticrun.phase'']),
      span_sampled = sampled, span_ops = []\<rparr>"


section \<open>Exporters\<close>

definition CONTENT_ATTRIBUTES :: "pystr list" where
  "CONTENT_ATTRIBUTES =
     [S ''gen_ai.input.messages'', S ''gen_ai.output.messages'', S ''gen_ai.system_instructions'',
      S ''gen_ai.tool.definitions'', S ''gen_ai.tool.call.arguments'', S ''gen_ai.tool.call.result'']"

text \<open>A finished span as the exporters see it, with its identity if it has one.\<close>

record span_identity =
  si_trace :: int
  si_span :: int
  si_remote :: bool
  si_flags :: int
  si_state :: "pystr dict"

definition valid_identity :: "span_identity \<Rightarrow> bool" where
  "valid_identity i \<longleftrightarrow> 0 < si_trace i \<and> si_trace i < 2 ^ 128 \<and> 0 < si_span i \<and> si_span i < 2 ^ 64"

record span_data =
  sd_identity :: "span_identity option"
  sd_scope :: "pystr option"
  sd_attributes :: pydict
  sd_events :: "(pystr \<times> pydict) list"

definition redact :: "bool \<Rightarrow> span_data \<Rightarrow> span_data" where
  "redact capture_content s =
     (if capture_content then s
      else s\<lparr>sd_attributes := filter (\<lambda>kv. fst kv \<notin> set CONTENT_ATTRIBUTES) (sd_attributes s)\<rparr>)"

definition adk_filter :: "span_data list \<Rightarrow> span_data list" where
  "adk_filter spans = filter (\<lambda>s. sd_scope s \<noteq> Some (S ''gcp.vertex.agent'')) spans"

text \<open>What the stdout exporter behind the ADK filter writes, a line per non-empty batch.\<close>

definition stdout_export :: "bool \<Rightarrow> span_data list \<Rightarrow> span_data list option" where
  "stdout_export capture_content spans =
     (let kept = adk_filter spans in if kept = [] then None else Some (map (redact capture_content) kept))"

definition run_attributes :: "pystr \<Rightarrow> pystr \<Rightarrow> pydict" where
  "run_attributes uid phase =
     (if uid \<noteq> [] then [(S ''agenticrun.uid'', PStr uid)] else [])
     @ (if phase \<noteq> [] then [(S ''agenticrun.phase'', PStr phase)] else [])"

text \<open>
  The log records of a span's events: the body, and the extra attributes. Event attributes are JSON
  values here, for which \<open>default=str\<close> is never used.
\<close>

definition bridged_records :: "pydict \<Rightarrow> span_data \<Rightarrow> (pystr \<times> pydict) list" where
  "bridged_records attrs s =
     map (\<lambda>(name, ev). (json_dumps default_format (PDict ev),
                        foldl (\<lambda>d (k, v). dset d k v) [(S ''event'', PStr name)] attrs))
       (filter (\<lambda>(name, _). name \<noteq> S ''exception'') (sd_events s))"

text \<open>The identity that the records of a span's events carry, and those records.\<close>

record log_record =
  lr_body :: pystr
  lr_attributes :: pydict
  lr_context :: "span_identity option"

definition log_context :: "span_data \<Rightarrow> span_identity option" where
  "log_context s =
     (case sd_identity s of None \<Rightarrow> None | Some i \<Rightarrow> if valid_identity i then Some i else None)"

definition span_records :: "pydict \<Rightarrow> span_data \<Rightarrow> log_record list" where
  "span_records attrs s =
     map (\<lambda>(body, extra). \<lparr>lr_body = body, lr_attributes = extra, lr_context = log_context s\<rparr>) (bridged_records attrs s)"

text \<open>\<open>on_end\<close>: the first record that logging fails on ends the loop, and the failure is swallowed.\<close>

definition forward_events :: "(log_record \<Rightarrow> bool) \<Rightarrow> pydict \<Rightarrow> span_data \<Rightarrow> log_record list" where
  "forward_events logs attrs s = (if sd_events s = [] then [] else takeWhile logs (span_records attrs s))"

text \<open>The filter of the logging handler stamps every record, whatever its origin, and keeps all of them.\<close>

definition stamp_record :: "pydict \<Rightarrow> log_record \<Rightarrow> log_record" where
  "stamp_record attrs r = r\<lparr>lr_attributes := foldl (\<lambda>d (k, v). dset d k v) (lr_attributes r) attrs\<rparr>"


section \<open>Set-up and tear-down\<close>

definition audit_enabled_env :: "world \<Rightarrow> bool" where
  "audit_enabled_env w \<longleftrightarrow> lower (env_strip w (S ''LIGHTSPEED_AUDIT_ENABLED'')) = S ''true''"

definition otel_runtime_enabled :: "world \<Rightarrow> bool" where
  "otel_runtime_enabled w \<longleftrightarrow>
     audit_enabled_env w \<or> env_strip w (S ''OTEL_EXPORTER_OTLP_ENDPOINT'') \<noteq> []"

datatype otlp_protocol = GrpcProtocol | HttpProtobuf

definition otlp_protocol_of :: "world \<Rightarrow> otlp_protocol" where
  "otlp_protocol_of w =
     (if lower (env_strip w (S ''OTEL_EXPORTER_OTLP_PROTOCOL'')) = S ''http/protobuf''
      then HttpProtobuf else GrpcProtocol)"

datatype span_processor =
    StdoutAudit bool
  | SpanEventsToLogs pydict
  | OtlpSpans otlp_protocol pystr

record tracer_state =
  tracer_processors :: "span_processor list option"
  log_processors :: "(otlp_protocol \<times> pystr) list option"
  logging_handler :: "pydict option"

definition no_tracer :: tracer_state where
  "no_tracer = \<lparr>tracer_processors = None, log_processors = None, logging_handler = None\<rparr>"

definition or_env :: "world \<Rightarrow> pystr option \<Rightarrow> string \<Rightarrow> pystr" where
  "or_env w v k = (case v of Some s \<Rightarrow> s | None \<Rightarrow> env_strip w (S k))"

definition log_exporters :: "pystr \<Rightarrow> otlp_protocol \<Rightarrow> (otlp_protocol \<times> pystr) list" where
  "log_exporters endpoint protocol = (if endpoint \<noteq> [] then [(protocol, endpoint)] else [])"

definition trace_exporters :: "pystr \<Rightarrow> otlp_protocol \<Rightarrow> span_processor list" where
  "trace_exporters endpoint protocol = (if endpoint \<noteq> [] then [OtlpSpans protocol endpoint] else [])"

definition init_tracer ::
  "world \<Rightarrow> pystr option \<Rightarrow> pystr option \<Rightarrow> tracer_state \<Rightarrow> tracer_state result"
where
  "init_tracer w agenticrun_uid agenticrun_phase st =
     (if tracer_processors st \<noteq> None \<or> log_processors st \<noteq> None
      then Inl (Exn CRuntimeError (S ''OTEL providers already initialized; call shutdown_tracer() first''))
      else
      (let endpoint = env_strip w (S ''OTEL_EXPORTER_OTLP_ENDPOINT'');
           protocol = otlp_protocol_of w;
           attrs = run_attributes (or_env w agenticrun_uid ''LIGHTSPEED_AGENTICRUN_UID'')
                     (or_env w agenticrun_phase ''LIGHTSPEED_AGENTICRUN_STEP'');
           audit = audit_enabled_env w
       in Inr (st\<lparr>log_processors := Some (log_exporters endpoint protocol),
                 logging_handler := (if endpoint \<noteq> [] then Some attrs else logging_handler st),
                 tracer_processors := Some
                   ((if audit then [StdoutAudit (lower (env_strip w (S ''LIGHTSPEED_CAPTURE_CONTENT'')) \<noteq> S ''false'')]
                     else [])
                    @ (if endpoint \<noteq> [] \<and> audit then [SpanEventsToLogs attrs] else [])
                    @ trace_exporters endpoint protocol)\<rparr>)))"

text \<open>
  \<open>shutdown_tracer\<close>: the parameters are the exceptions that the two providers' own \<open>shutdown\<close> may
  raise. A failing tracer provider keeps the logger provider from being shut down.
\<close>

definition shutdown_tracer ::
  "exn option \<Rightarrow> exn option \<Rightarrow> tracer_state \<Rightarrow> tracer_state \<times> exn option"
where
  "shutdown_tracer tracer_error logger_error st =
     (let st1 = st\<lparr>logging_handler := None\<rparr>
      in if tracer_processors st \<noteq> None \<and> tracer_error \<noteq> None
         then (st1\<lparr>tracer_processors := None\<rparr>, tracer_error)
         else (let st2 = st1\<lparr>tracer_processors := None\<rparr>
               in if log_processors st \<noteq> None then (st2\<lparr>log_processors := None\<rparr>, logger_error)
                  else (st2, None)))"

text \<open>
  What leaves the process when spans end: the lines on stdout, the spans and the log records sent over
  OTLP. The SDK calls the processors in order with every recorded span that ends.
\<close>

record telemetry =
  tm_stdout :: "span_data list"
  tm_spans :: "span_data list"
  tm_logs :: "log_record list"

definition process_span ::
  "(log_record \<Rightarrow> bool) \<Rightarrow> tracer_state \<Rightarrow> span_data \<Rightarrow> span_processor \<Rightarrow> telemetry \<Rightarrow> telemetry"
where
  "process_span logs st s processor tm =
     (case processor of
        StdoutAudit capture_content \<Rightarrow>
          (case stdout_export capture_content [s] of
             None \<Rightarrow> tm | Some line \<Rightarrow> tm\<lparr>tm_stdout := tm_stdout tm @ line\<rparr>)
      | SpanEventsToLogs attrs \<Rightarrow>
          (case logging_handler st of
             None \<Rightarrow> tm
           | Some stamp \<Rightarrow> tm\<lparr>tm_logs := tm_logs tm @ map (stamp_record stamp) (forward_events logs attrs s)\<rparr>)
      | OtlpSpans _ _ \<Rightarrow> tm\<lparr>tm_spans := tm_spans tm @ adk_filter [s]\<rparr>)"

definition end_spans :: "(log_record \<Rightarrow> bool) \<Rightarrow> tracer_state \<Rightarrow> span_data list \<Rightarrow> telemetry" where
  "end_spans logs st spans =
     fold (\<lambda>s. fold (process_span logs st s) (case tracer_processors st of None \<Rightarrow> [] | Some ps \<Rightarrow> ps)) spans
       \<lparr>tm_stdout = [], tm_spans = [], tm_logs = []\<rparr>"


section \<open>The trace parent\<close>

record trace_context =
  ctx_trace_id :: int
  ctx_span_id :: int
  ctx_remote :: bool
  ctx_flags :: int

text \<open>
  \<open>_generate_trace_id\<close>: the two random tokens are parameters (32 and 16 hexadecimal digits).
\<close>

definition generate_trace_id :: "pystr \<Rightarrow> pystr \<Rightarrow> (pystr \<times> trace_context) result" where
  "generate_trace_id trace_token span_token =
     (case (py_int16 trace_token, py_int16 span_token) of
        (Some t, Some p) \<Rightarrow>
          Inr (trace_token, \<lparr>ctx_trace_id = t, ctx_span_id = p, ctx_remote = False, ctx_flags = 1\<rparr>)
      | _ \<Rightarrow> Inl (ValueError (S ''invalid literal for int() with base 16'')))"

definition parse_traceparent ::
  "pystr \<Rightarrow> pystr \<Rightarrow> pystr option \<Rightarrow> (pystr \<times> trace_context) result"
where
  "parse_traceparent trace_token span_token header =
     (if truthy_str header then
        (let parts = split_on 45 (the header)
         in if 4 \<le> length parts
               \<and> length (parts ! 1) = 32 \<and> parts ! 1 \<noteq> replicate 32 48
               \<and> length (parts ! 2) = 16 \<and> parts ! 2 \<noteq> replicate 16 48
            then (case (py_int16 (parts ! 1), py_int16 (parts ! 2), py_int16 (parts ! 3)) of
                    (Some t, Some p, Some f) \<Rightarrow>
                      Inr (parts ! 1, \<lparr>ctx_trace_id = t, ctx_span_id = p, ctx_remote = True, ctx_flags = f\<rparr>)
                  | _ \<Rightarrow> generate_trace_id trace_token span_token)
            else generate_trace_id trace_token span_token)
      else generate_trace_id trace_token span_token)"


section \<open>Lemmas\<close>

text \<open>A hexadecimal text of fixed width, as \<open>f"{n:032x}"\<close>.\<close>

fun hex_pad :: "nat \<Rightarrow> nat \<Rightarrow> pystr" where
  "hex_pad 0 n = []"
| "hex_pad (Suc k) n = hex_pad k (n div 16) @ [hex_digit (int (n mod 16))]"

lemma length_hex_pad [simp]: "length (hex_pad k n) = k"
  by (induction k arbitrary: n) auto

lemma hex_digit_range: "d < 16 \<Longrightarrow> hex_digit (int d) \<in> {48..57} \<union> {97..102}"
  by (auto simp: hex_digit_def)

lemma hex_pad_range: "c \<in> set (hex_pad k n) \<Longrightarrow> c \<in> {48..57} \<union> {97..102}"
  using hex_digit_range [of "_ mod 16"] by (induction k arbitrary: n) (auto simp del: Un_iff)

lemma hex_value_digit: "d < 16 \<Longrightarrow> hex_value (hex_digit (int d)) = Some (int d)"
proof -
  assume "d < 16"
  then consider "d < 10" | "10 \<le> d \<and> d \<le> 15" by linarith
  then show ?thesis
  proof cases
    case 1
    then show ?thesis by (simp add: hex_digit_def hex_value_def decimal_digit_ascii)
  next
    case 2
    then have "87 + int d \<in> {97..102}" by auto
    then have "decimal_digit (87 + int d) = None"
      by (auto simp: decimal_digit_def decimal_zeros_def)
    with 2 show ?thesis by (simp add: hex_digit_def hex_value_def)
  qed
qed

lemma hex_pad_value:
  "foldl (\<lambda>a c. a * 16 + the (hex_value c)) 0 (hex_pad k n) = int (n mod 16 ^ k)"
proof (induction k arbitrary: n)
  case (Suc k)
  have "n mod 16 ^ Suc k = 16 * (n div 16 mod 16 ^ k) + n mod 16"
    by (simp add: mod_mult2_eq)
  then show ?case using Suc by (simp add: hex_value_digit)
qed simp

lemma py_int16_hex_pad:
  assumes "0 < k" "n < 16 ^ k"
  shows "py_int16 (hex_pad k n) = Some (int n)"
proof -
  let ?h = "hex_pad k n"
  have ne: "?h \<noteq> []" using assms(1) by (metis length_hex_pad list.size(3) less_numeral_extra(3))
  have st: "strip ?h = ?h" by (rule strip_id) (use hex_pad_range in \<open>force simp: is_space_def\<close>)
  obtain c cs where h: "?h = c # cs" using ne by (cases ?h) auto
  have c: "c \<noteq> 45" "c \<noteq> 43" using hex_pad_range [of c k n] h by auto
  have sg: "split_sign ?h = (1, ?h)" using c by (simp add: split_sign_def h)
  have "x \<noteq> 120 \<and> x \<noteq> 88" if "x \<in> set ?h" for x using hex_pad_range [OF that] by auto
  then have dp: "drop_hex_prefix ?h = ?h"
    unfolding drop_hex_prefix_def h by (cases cs) (auto simp: h)
  have "hex_value x \<noteq> None" if "x \<in> set ?h" for x
  proof -
    have "x \<in> {48..57} \<union> {97..102}" by (rule hex_pad_range [OF that])
    then show ?thesis by (auto simp: hex_value_def decimal_digit_ascii split: option.split)
  qed
  then have "digit_run hex_value 16 False 0 ?h = Some (int (n mod 16 ^ k))"
    using digit_run_plain [of ?h hex_value False 16 0] ne hex_pad_value [of k n] by simp
  then show ?thesis using assms(2) by (simp add: py_int16_def st sg dp)
qed

lemma hex_pad_no_dash: "45 \<notin> set (hex_pad k n)"
  using hex_pad_range [of 45 k n] by auto

lemma hex_pad_nonzero:
  assumes "0 < n" "n < 16 ^ k"
  shows "hex_pad k n \<noteq> replicate k 48"
proof
  assume e: "hex_pad k n = replicate k 48"
  have z: "hex_pad k 0 = replicate k 48"
    by (induction k) (simp_all add: hex_digit_def replicate_append_same)
  have "int (n mod 16 ^ k) = int (0 mod 16 ^ k)"
    using hex_pad_value [of k n] hex_pad_value [of k 0] e z by simp
  then show False using assms by simp
qed

text \<open>Tear-down gives back the empty state, and only from there is there a set-up.\<close>

lemma tracer_lifecycle:
  "init_tracer w uid phase no_tracer = Inr st \<Longrightarrow> shutdown_tracer None None st = (no_tracer, None)"
  "init_tracer w uid phase st = Inr st' \<Longrightarrow> \<not> is_ok (init_tracer w' uid' phase' st')"
  by (auto simp: init_tracer_def log_exporters_def trace_exporters_def shutdown_tracer_def no_tracer_def Let_def split: if_split_asm)

lemma redaction:
  "stdout_export False spans = Some out \<Longrightarrow> s \<in> set out \<Longrightarrow> has_key (sd_attributes s) k \<Longrightarrow>
    k \<notin> set CONTENT_ATTRIBUTES"
  by (auto simp: stdout_export_def redact_def Let_def map_of_filter_in dest!: map_of_SomeD split: if_split_asm)

lemma backslash_replace_valid:
  assumes "\<forall>c \<in> set s. 0 \<le> c \<and> c \<le> 1114111"
  shows "valid_str (backslash_replace s)"
  using assms
  by (auto simp: valid_str_def valid_cp_def backslash_replace_def hex4_def hex_digit_def split: if_split_asm)

text \<open>Spans that end, one at a time.\<close>

definition telemetry_of :: "(log_record \<Rightarrow> bool) \<Rightarrow> tracer_state \<Rightarrow> span_processor list \<Rightarrow> span_data list \<Rightarrow> telemetry \<Rightarrow> telemetry" where
  "telemetry_of logs st ps spans tm = fold (\<lambda>s. fold (process_span logs st s) ps) spans tm"

definition exported_logs :: "(log_record \<Rightarrow> bool) \<Rightarrow> tracer_state \<Rightarrow> pydict \<Rightarrow> span_data list \<Rightarrow> log_record list" where
  "exported_logs logs st attrs spans =
     (case logging_handler st of None \<Rightarrow> []
      | Some stamp \<Rightarrow> concat (map (\<lambda>s. map (stamp_record stamp) (forward_events logs attrs s)) spans))"

lemma adk_filter_append: "adk_filter (xs @ ys) = adk_filter xs @ adk_filter ys"
  by (simp add: adk_filter_def)

lemma process_stdout:
  "process_span logs st s (StdoutAudit c) tm = tm\<lparr>tm_stdout := tm_stdout tm @ map (redact c) (adk_filter [s])\<rparr>"
  by (simp add: process_span_def stdout_export_def Let_def)

lemma process_logs:
  "process_span logs st s (SpanEventsToLogs attrs) tm = tm\<lparr>tm_logs := tm_logs tm @ exported_logs logs st attrs [s]\<rparr>"
  by (simp add: process_span_def exported_logs_def split: option.split)

lemma exported_logs_Cons: "exported_logs logs st attrs (s # spans) = exported_logs logs st attrs [s] @ exported_logs logs st attrs spans"
  by (simp add: exported_logs_def split: option.split)

lemma process_spans:
  "process_span logs st s (OtlpSpans pr e) tm = tm\<lparr>tm_spans := tm_spans tm @ adk_filter [s]\<rparr>"
  by (simp add: process_span_def)

lemmas process = process_stdout process_logs process_spans

lemma end_spans_parts:
  assumes "tracer_processors st = Some ((if audit then [StdoutAudit c] else []) @
      (if otlp \<and> audit then [SpanEventsToLogs attrs] else []) @ (if otlp then [OtlpSpans pr e] else []))"
  shows "end_spans logs st spans =
    \<lparr>tm_stdout = (if audit then map (redact c) (adk_filter spans) else []),
     tm_spans = (if otlp then adk_filter spans else []),
     tm_logs = (if otlp \<and> audit then exported_logs logs st attrs spans else [])\<rparr>"
proof -
  let ?ps = "(if audit then [StdoutAudit c] else []) @ (if otlp \<and> audit then [SpanEventsToLogs attrs] else []) @
    (if otlp then [OtlpSpans pr e] else [])"
  have nil: "exported_logs logs st attrs [] = []" by (simp add: exported_logs_def split: option.split)
  have "telemetry_of logs st ?ps spans tm =
      \<lparr>tm_stdout = tm_stdout tm @ (if audit then map (redact c) (adk_filter spans) else []),
       tm_spans = tm_spans tm @ (if otlp then adk_filter spans else []),
       tm_logs = tm_logs tm @ (if otlp \<and> audit then exported_logs logs st attrs spans else [])\<rparr>" for tm
  proof (induction spans arbitrary: tm)
    case (Cons s spans)
    have "telemetry_of logs st ?ps (s # spans) tm = telemetry_of logs st ?ps spans (fold (process_span logs st s) ?ps tm)"
      by (simp add: telemetry_of_def)
    also have "fold (process_span logs st s) ?ps tm =
      \<lparr>tm_stdout = tm_stdout tm @ (if audit then map (redact c) (adk_filter [s]) else []),
       tm_spans = tm_spans tm @ (if otlp then adk_filter [s] else []),
       tm_logs = tm_logs tm @ (if otlp \<and> audit then exported_logs logs st attrs [s] else [])\<rparr>"
      by (cases tm) (simp add: process)
    finally show ?case
      unfolding Cons.IH using adk_filter_append [of "[s]" spans] exported_logs_Cons [of logs st attrs s spans] by simp
  qed (simp add: telemetry_of_def adk_filter_def nil)
  then show ?thesis by (simp add: end_spans_def assms telemetry_of_def)
qed


section \<open>Properties\<close>

text \<open>What a forwarded record says.\<close>

lemma run_attributes_get:
  assumes "attrs = run_attributes u p"
  shows "(k, v) \<in> set attrs \<Longrightarrow> dget (foldl (\<lambda>d (k, v). dset d k v) d attrs) k = Some v"
    "dget (foldl (\<lambda>d (k, v). dset d k v) d attrs) (S ''event'') = dget d (S ''event'')"
proof -
  have names: "S ''agenticrun.uid'' \<noteq> S ''agenticrun.phase''" "S ''event'' \<noteq> S ''agenticrun.uid''" "S ''event'' \<noteq> S ''agenticrun.phase''"
    by code_simp+
  show "(k, v) \<in> set attrs \<Longrightarrow> dget (foldl (\<lambda>d (k, v). dset d k v) d attrs) k = Some v"
    "dget (foldl (\<lambda>d (k, v). dset d k v) d attrs) (S ''event'') = dget d (S ''event'')"
    using names by (auto simp: assms run_attributes_def split: if_splits)
qed

lemma forwarded_record:
  assumes "r \<in> set (map (stamp_record attrs) (forward_events logs attrs s))" "attrs = run_attributes u p"
  shows "(\<forall>(k, v) \<in> set attrs. dget (lr_attributes r) k = Some v) \<and>
    (\<exists>(name, ev) \<in> set (sd_events s). name \<noteq> S ''exception'' \<and>
       dget (lr_attributes r) (S ''event'') = Some (PStr name) \<and>
       lr_body r = json_dumps default_format (PDict ev) \<and> lr_context r = log_context s)"
proof -
  obtain q where q: "q \<in> set (span_records attrs s)" "r = stamp_record attrs q"
    using assms(1) by (auto simp: forward_events_def split: if_splits dest: set_takeWhileD)
  then obtain name ev where e: "(name, ev) \<in> set (sd_events s)" "name \<noteq> S ''exception''"
      "q = \<lparr>lr_body = json_dumps default_format (PDict ev),
            lr_attributes = foldl (\<lambda>d (k, v). dset d k v) [(S ''event'', PStr name)] attrs, lr_context = log_context s\<rparr>"
    by (auto simp: span_records_def bridged_records_def)
  note get = run_attributes_get [OF assms(2)]
  have "\<forall>(k, v) \<in> set attrs. dget (lr_attributes r) k = Some v" using get(1) by (auto simp: q(2) stamp_record_def)
  moreover have "dget (lr_attributes r) (S ''event'') = Some (PStr name)" "lr_body r = json_dumps default_format (PDict ev)"
      "lr_context r = log_context s" by (simp_all add: q(2) e(3) stamp_record_def get(2))
  ultimately show ?thesis using e(1,2) by blast
qed

lemma redact_content: "k \<in> set CONTENT_ATTRIBUTES \<Longrightarrow> dget (sd_attributes (redact False s)) k = None"
  by (auto simp: redact_def map_of_eq_None_iff)


definition sample_traced :: world where
  "sample_traced = env_world [(S ''LIGHTSPEED_AUDIT_ENABLED'', S ''true''), (S ''LIGHTSPEED_CAPTURE_CONTENT'', S ''false''),
     (S ''OTEL_EXPORTER_OTLP_ENDPOINT'', S ''http://collector'')]"

definition sample_span :: span_data where
  "sample_span = \<lparr>sd_identity = Some \<lparr>si_trace = 1, si_span = 2, si_remote = False, si_flags = 1, si_state = []\<rparr>,
     sd_scope = None,
     sd_attributes = [(S ''gen_ai.request.model'', PStr (S ''m'')), (S ''gen_ai.input.messages'', PStr (S ''secret''))],
     sd_events = [(S ''exception'', []), (S ''gen_ai.choice'', [])]\<rparr>"


text \<open>
  C39. The trace parent of the operator is read back exactly: whatever non-zero trace id, non-zero span
  id and flag byte it formats, in the lower-case form of the W3C header, the run is attached to that
  remote span.
\<close>

theorem traceparent_round_trip:
  assumes "0 < t" "t < 16 ^ 32" "0 < p" "p < 16 ^ 16" "f < 16 ^ 2"
  shows "parse_traceparent r1 r2
      (Some (S ''00'' @ [45] @ hex_pad 32 t @ [45] @ hex_pad 16 p @ [45] @ hex_pad 2 f)) =
    Inr (hex_pad 32 t, \<lparr>ctx_trace_id = int t, ctx_span_id = int p, ctx_remote = True, ctx_flags = int f\<rparr>)"
proof -
  let ?h = "S ''00'' @ 45 # (hex_pad 32 t @ 45 # (hex_pad 16 p @ 45 # hex_pad 2 f))"
  have "45 \<notin> set (S ''00'')" by (simp add: S_def)
  then have s: "split_on 45 ?h = [S ''00'', hex_pad 32 t, hex_pad 16 p, hex_pad 2 f]"
    by (simp add: split_on_append split_on_single hex_pad_no_dash)
  have "truthy_str (Some ?h)" by simp
  then show ?thesis
    using s assms py_int16_hex_pad [of 32 t] py_int16_hex_pad [of 16 p] py_int16_hex_pad [of 2 f]
      hex_pad_nonzero [of t 32] hex_pad_nonzero [of p 16]
    by (simp add: parse_traceparent_def)
qed

lemma traceparent_round_trip_witness:
  "parse_traceparent [] [] (Some (S ''00'' @ [45] @ hex_pad 32 255 @ [45] @ hex_pad 16 7 @ [45] @ hex_pad 2 1)) =
    Inr (hex_pad 32 255, \<lparr>ctx_trace_id = 255, ctx_span_id = 7, ctx_remote = True, ctx_flags = 1\<rparr>)"
  using traceparent_round_trip [of 255 7 1 "[]" "[]"] by simp

end
