(* ===== verification/SpanLedger.thy ===== *)
theory SpanLedger
  imports Tracing
begin

text \<open>
  The discipline of spans that two parts of the program share, the audit logger and the generation
  callback: spans are opened under a key, closed once, and at the end all that are open are closed. A ledger is the
  list of open entries with the spans that were ended and those that were lost.
\<close>

definition ended_once :: "span \<Rightarrow> bool" where
  "ended_once s \<longleftrightarrow> span_ops s \<noteq> [] \<and> last (span_ops s) = EndSpan \<and> EndSpan \<notin> set (butlast (span_ops s))"

definition still_open :: "span \<Rightarrow> bool" where
  "still_open s \<longleftrightarrow> EndSpan \<notin> set (span_ops s)"

lemma span_ops_perform [simp]: "span_ops (perform op s) = span_ops s @ [op]"
  by (simp add: perform_def)

lemma still_open_perform [simp]: "op \<noteq> EndSpan \<Longrightarrow> still_open (perform op s) \<longleftrightarrow> still_open s"
  by (auto simp: still_open_def)

lemma ended_once_perform: "still_open s \<Longrightarrow> ended_once (perform EndSpan s)"
  by (simp add: ended_once_def still_open_def)

lemma still_open_json [simp]: "still_open (set_json_span_attribute n v s) \<longleftrightarrow> still_open s"
  by (simp add: set_json_span_attribute_def)

lemma length_alist_update:
  "length (AList.update k v xs) = (if k \<in> fst ` set xs then length xs else Suc (length xs))"
  by (induction xs) auto

lemma length_alist_delete:
  "distinct (map fst xs) \<Longrightarrow> map_of xs k = Some v \<Longrightarrow> Suc (length (AList.delete k xs)) = length xs"
proof (induction xs)
  case (Cons x xs)
  have "AList.delete k xs = xs" if "k \<notin> fst ` set xs" by (rule delete_id) (use that in simp)
  then show ?case using Cons by (cases x) auto
qed simp

lemma set_alist_update: "set (AList.update k v xs) \<subseteq> insert (k, v) (set xs)"
  by (induction xs) auto

text \<open>\<open>n\<close> spans were started; each is open, ended or lost, and the ended ones were ended once.\<close>

definition ledger :: "('v \<Rightarrow> span) \<Rightarrow> nat \<Rightarrow> ('k \<times> 'v) list \<Rightarrow> span list \<Rightarrow> span list \<Rightarrow> bool" where
  "ledger sp n open_spans ended lost \<longleftrightarrow>
     distinct (map fst open_spans) \<and>
     (\<forall>v \<in> snd ` set open_spans. still_open (sp v)) \<and> (\<forall>s \<in> set lost. still_open s) \<and>
     (\<forall>s \<in> set ended. ended_once s) \<and> length open_spans + length ended + length lost = n"

lemma ledger_empty: "ledger sp 0 [] [] []"
  by (simp add: ledger_def)

definition overwritten :: "('v \<Rightarrow> span) \<Rightarrow> ('k \<times> 'v) list \<Rightarrow> 'k \<Rightarrow> span list" where
  "overwritten sp open_spans k = (case map_of open_spans k of None \<Rightarrow> [] | Some v \<Rightarrow> [sp v])"

lemma ledger_open:
  assumes "ledger sp n os es ls" "still_open (sp v)"
  shows "ledger sp (Suc n) (AList.update k v os) es (ls @ overwritten sp os k)"
proof -
  have "\<forall>v \<in> snd ` set (AList.update k v os). still_open (sp v)"
    using set_alist_update [of k v os] assms by (fastforce simp: ledger_def)
  moreover have "map_of os k = Some x \<Longrightarrow> still_open (sp x)" for x
    using assms(1) by (auto simp: ledger_def dest!: map_of_SomeD)
  moreover have "map_of os k = None \<longleftrightarrow> k \<notin> fst ` set os" by (rule map_of_eq_None_iff)
  ultimately show ?thesis using assms(1)
    by (auto simp: ledger_def overwritten_def length_alist_update distinct_update split: option.split)
qed

lemma ledger_close:
  assumes "ledger sp n os es ls" "map_of os k = Some v" "ended_once s"
  shows "ledger sp n (AList.delete k os) (es @ [s]) ls"
proof -
  have "Suc (length (AList.delete k os)) = length os"
    using assms(1,2) by (simp add: ledger_def length_alist_delete)
  moreover have "\<forall>v \<in> snd ` set (AList.delete k os). still_open (sp v)"
    using assms(1) by (auto simp: ledger_def AList.delete_eq)
  ultimately show ?thesis using assms(1,3) by (auto simp: ledger_def distinct_delete)
qed

lemma ledger_close_all:
  assumes "ledger sp n os es ls" "\<And>v. still_open (sp v) \<Longrightarrow> ended_once (f v)"
  shows "ledger sp n [] (es @ map (f \<circ> snd) os) ls"
  using assms by (auto simp: ledger_def)

lemma ledger_lost: "ledger sp n os es ls \<Longrightarrow> still_open s \<Longrightarrow> ledger sp (Suc n) os es (ls @ [s])"
  by (auto simp: ledger_def)

lemma ledger_member: "ledger sp n os es ls \<Longrightarrow> map_of os k = Some v \<Longrightarrow> still_open (sp v)"
  by (auto simp: ledger_def dest!: map_of_SomeD)

text \<open>Nothing is overwritten under a key that is not in use.\<close>

lemma overwritten_fresh: "k \<notin> fst ` set os \<Longrightarrow> overwritten sp os k = []"
  by (simp add: overwritten_def map_of_eq_None_iff [THEN iffD2])

end
