(* ===== verification/Chunking.thy ===== *)
theory Chunking
  imports PyJson Utf8 "HOL-Library.Sublist"
begin

text \<open>
  \<open>inspection/chunking.py\<close>: serialisation of a tool result and its split into overlapping chunks
  that fit a classifier's context window. Token lists are integer lists; the fallback codec's
  tokens are UTF-8 bytes. Proved: with the byte codec the chunks are slices of the text at
  character boundaries, they cover it from its first to its last character, no chunk exceeds the
  capacity, and every stretch of at most 256 bytes lies inside a single chunk.
\<close>

definition CHUNK_OVERLAP_TOKENS :: nat where
  "CHUNK_OVERLAP_TOKENS = 256"

text \<open>A codec: the byte codec of the module, or another \<open>TokenCodec\<close>, whose methods may raise.\<close>

datatype codec =
    Utf8ByteCodec
  | OtherCodec "pystr \<Rightarrow> int list result" "int list \<Rightarrow> pystr result"

fun codec_encode :: "codec \<Rightarrow> pystr \<Rightarrow> int list result" where
  "codec_encode Utf8ByteCodec text = utf8_encode text"
| "codec_encode (OtherCodec enc dec) text = enc text"

fun codec_decode :: "codec \<Rightarrow> int list \<Rightarrow> pystr result" where
  "codec_decode Utf8ByteCodec tokens = utf8_decode tokens"
| "codec_decode (OtherCodec enc dec) tokens = dec tokens"

record chunk =
  content :: pystr
  chunk_index :: nat
  chunk_count :: nat

text \<open>A tool result: a JSON-like value, raw bytes, or an object \<open>json.dumps\<close> refuses.\<close>

datatype tool_value = VPy pyval | VBytes "int list" | VOpaque

definition serialize_tool_result :: "tool_value \<Rightarrow> pystr result" where
  "serialize_tool_result value =
     (case value of
        VPy (PStr s) \<Rightarrow> Inr s
      | VBytes bs \<Rightarrow>
          (case utf8_decode bs of
             Inr s \<Rightarrow> Inr s
           | Inl _ \<Rightarrow> Inl (ValueError (S ''tool result bytes must be valid UTF-8'')))
      | VPy v \<Rightarrow> Inr (json_dumps compact_format v)
      | VOpaque \<Rightarrow> Inl (ValueError (S ''tool result is not JSON serializable'')))"

definition is_utf8_continuation :: "int \<Rightarrow> bool" where
  "is_utf8_continuation byte \<longleftrightarrow> and byte 192 = 128"

text \<open>
  Positions are natural numbers. \<open>_align_utf8_end\<close> has no lower bound in the source; it only walks
  down from a continuation byte, and the first byte of an encoded text is none.
\<close>

fun align_utf8_start :: "int list \<Rightarrow> nat \<Rightarrow> nat" where
  "align_utf8_start tokens 0 = 0"
| "align_utf8_start tokens (Suc p) =
     (if is_utf8_continuation (tokens ! Suc p) then align_utf8_start tokens p else Suc p)"

fun align_utf8_end :: "int list \<Rightarrow> nat \<Rightarrow> nat" where
  "align_utf8_end tokens 0 = 0"
| "align_utf8_end tokens (Suc p) =
     (if Suc p < length tokens \<and> is_utf8_continuation (tokens ! Suc p)
      then align_utf8_end tokens p else Suc p)"

definition utf8_budget_error :: exn where
  "utf8_budget_error =
     ValueError (S ''classifier context budget is too small for UTF-8 chunk boundaries'')"

definition chunk_end :: "codec \<Rightarrow> nat \<Rightarrow> int list \<Rightarrow> nat \<Rightarrow> nat result" where
  "chunk_end cdc capacity tokens start =
     (let e = min (start + capacity) (length tokens)
      in case cdc of
           Utf8ByteCodec \<Rightarrow>
             (let e' = align_utf8_end tokens e
              in if e' \<le> start then Inl utf8_budget_error else Inr e')
         | OtherCodec _ _ \<Rightarrow> Inr e)"

definition chunk_next :: "codec \<Rightarrow> int list \<Rightarrow> nat \<Rightarrow> nat \<Rightarrow> nat result" where
  "chunk_next cdc tokens start e =
     (let n = e - CHUNK_OVERLAP_TOKENS
      in case cdc of
           Utf8ByteCodec \<Rightarrow>
             (let n' = align_utf8_start tokens n
              in if n' \<le> start then Inl utf8_budget_error else Inr n')
         | OtherCodec _ _ \<Rightarrow> Inr n)"

text \<open>
  The \<open>while start < len(tokens)\<close> loop. Its caller has checked that the capacity exceeds the
  overlap; the condition is repeated here, where it makes the start advance.
\<close>

lemma chunk_next_advances:
  assumes "CHUNK_OVERLAP_TOKENS < capacity" "start < length tokens"
    and "chunk_end cdc capacity tokens start = Inr e" "e \<noteq> length tokens"
    and "chunk_next cdc tokens start e = Inr n"
  shows "start < n"
  using assms
  by (auto simp: chunk_end_def chunk_next_def Let_def min_def split: if_splits codec.splits)

function chunk_loop :: "codec \<Rightarrow> nat \<Rightarrow> int list \<Rightarrow> nat \<Rightarrow> pystr list result" where
  "chunk_loop cdc capacity tokens start =
     (if start < length tokens \<and> CHUNK_OVERLAP_TOKENS < capacity then
        (case chunk_end cdc capacity tokens start of
           Inl x \<Rightarrow> Inl x
         | Inr e \<Rightarrow>
             (case codec_decode cdc (drop start (take e tokens)) of
                Inl x \<Rightarrow> Inl x
              | Inr c \<Rightarrow>
                  if e = length tokens then Inr [c]
                  else (case chunk_next cdc tokens start e of
                          Inl x \<Rightarrow> Inl x
                        | Inr n \<Rightarrow>
                            bindE (chunk_loop cdc capacity tokens n) (\<lambda>cs. Inr (c # cs)))))
      else Inr [])"
  by pat_completeness auto
termination
  by (relation "measure (\<lambda>(cdc, capacity, tokens, start). length tokens - start)")
    (auto dest: chunk_next_advances)

declare chunk_loop.simps [simp del]

definition number_chunks :: "pystr list \<Rightarrow> chunk list" where
  "number_chunks raw =
     map (\<lambda>(i, c). \<lparr>content = c, chunk_index = i, chunk_count = length raw\<rparr>)
       (List.enumerate 0 raw)"

definition chunk_tool_result :: "tool_value \<Rightarrow> codec \<Rightarrow> int \<Rightarrow> int \<Rightarrow> chunk list result" where
  "chunk_tool_result value cdc context_window_tokens instruction_tokens =
     bindE (serialize_tool_result value) (\<lambda>serialized.
       let capacity = context_window_tokens - instruction_tokens
       in if capacity \<le> int CHUNK_OVERLAP_TOKENS
          then Inl (ValueError (S ''classifier context budget must exceed the 256-token overlap''))
          else bindE (codec_encode cdc serialized) (\<lambda>tokens.
            if tokens = [] then Inr [\<lparr>content = [], chunk_index = 0, chunk_count = 1\<rparr>]
            else bindE (chunk_loop cdc (nat capacity) tokens 0) (\<lambda>raw.
              Inr (number_chunks raw))))"



section \<open>Alignment\<close>

lemma is_utf8_continuation_byte: "0 \<le> b \<Longrightarrow> b < 256 \<Longrightarrow> is_utf8_continuation b \<longleftrightarrow> is_cont b"
proof -
  assume b: "0 \<le> b" "b < 256"
  have "\<forall>b \<in> set (map int [0..<256]). is_utf8_continuation b \<longleftrightarrow> is_cont b"
    unfolding is_utf8_continuation_def is_cont_def by (simp add: upt_rec)
  moreover from b have "b \<in> set (map int [0..<256])"
    by (auto intro!: image_eqI [of _ _ "nat b"])
  ultimately show ?thesis by blast
qed

lemma continuation_at:
  assumes "valid_str s" "p < length (utf8_bytes s)"
  shows "is_utf8_continuation (utf8_bytes s ! p) \<longleftrightarrow> \<not> is_boundary (utf8_bytes s) p"
  using assms utf8_bytes_range [of s "utf8_bytes s ! p"]
  by (simp add: is_boundary_def is_utf8_continuation_byte)

lemma between_boundaries:
  assumes "valid_str s" "i < length s" "byte_pos s i < q" "q < byte_pos s (Suc i)"
  shows "is_utf8_continuation (utf8_bytes s ! q)"
proof -
  have q: "q < length (utf8_bytes s)"
    using assms(4) byte_pos_le [of s "Suc i"] by simp
  have "\<not> (\<exists>j \<le> length s. q = byte_pos s j)"
  proof
    assume "\<exists>j \<le> length s. q = byte_pos s j"
    then obtain j where j: "j \<le> length s" "q = byte_pos s j" by blast
    with assms have "i < j" "j < Suc i"
      by (simp_all add: byte_pos_less_iff)
    then show False by simp
  qed
  with assms q show ?thesis
    using boundary_byte_pos [of s q] continuation_at [of s q] by simp
qed

lemma align_start_walks:
  "b \<le> p \<Longrightarrow> (\<forall>q. b < q \<and> q \<le> p \<longrightarrow> is_utf8_continuation (ts ! q))
    \<Longrightarrow> align_utf8_start ts p = align_utf8_start ts b"
proof (induction p)
  case (Suc p)
  then show ?case by (cases "b = Suc p") auto
qed simp

lemma align_end_walks:
  "b \<le> p \<Longrightarrow> p < length ts \<Longrightarrow> (\<forall>q. b < q \<and> q \<le> p \<longrightarrow> is_utf8_continuation (ts ! q))
    \<Longrightarrow> align_utf8_end ts p = align_utf8_end ts b"
proof (induction p)
  case (Suc p)
  then show ?case by (cases "b = Suc p") auto
qed simp

lemma align_at_boundary:
  assumes "valid_str s" "i \<le> length s"
  shows "align_utf8_start (utf8_bytes s) (byte_pos s i) = byte_pos s i \<or> i = length s"
    and "align_utf8_end (utf8_bytes s) (byte_pos s i) = byte_pos s i"
proof -
  have b: "is_boundary (utf8_bytes s) (byte_pos s i)"
    using assms boundary_byte_pos [OF assms(1) byte_pos_le] by blast
  show "align_utf8_end (utf8_bytes s) (byte_pos s i) = byte_pos s i"
    using b continuation_at [OF assms(1)] by (cases "byte_pos s i") auto
  show "align_utf8_start (utf8_bytes s) (byte_pos s i) = byte_pos s i \<or> i = length s"
  proof (cases "i = length s")
    case False
    with assms have "byte_pos s i < length (utf8_bytes s)"
      using byte_pos_strict_mono [of i "length s" s] byte_pos_end [of s "length s"] by simp
    then show ?thesis
      using b continuation_at [OF assms(1)] by (cases "byte_pos s i") auto
  qed simp
qed

text \<open>Both walks stop at the start of the character the position lies in.\<close>

lemma align_inside:
  assumes "valid_str s" "p < length (utf8_bytes s)"
  obtains i where "i < length s" "byte_pos s i \<le> p" "p \<le> byte_pos s i + 3"
    "align_utf8_start (utf8_bytes s) p = byte_pos s i"
    "align_utf8_end (utf8_bytes s) p = byte_pos s i"
proof -
  obtain i where i: "i < length s" "byte_pos s i \<le> p" "p \<le> byte_pos s i + 3" "p < byte_pos s (Suc i)"
    using boundary_near [OF assms] by blast
  then have walk: "\<forall>q. byte_pos s i < q \<and> q \<le> p \<longrightarrow> is_utf8_continuation (utf8_bytes s ! q)"
    using between_boundaries [OF assms(1) i(1)] by auto
  have "align_utf8_start (utf8_bytes s) p = byte_pos s i"
    using align_start_walks [OF i(2) walk] align_at_boundary(1) [OF assms(1), of i] i(1) by simp
  moreover have "align_utf8_end (utf8_bytes s) p = byte_pos s i"
    using align_end_walks [OF i(2) assms(2) walk] align_at_boundary(2) [OF assms(1), of i] i(1) by simp
  ultimately show ?thesis using that i by blast
qed

lemma chunk_end_utf8:
  assumes "valid_str s" "i < length s" "3 < cap"
  obtains j where "i < j" "j \<le> length s"
    "chunk_end Utf8ByteCodec cap (utf8_bytes s) (byte_pos s i) = Inr (byte_pos s j)"
    "byte_pos s j \<le> byte_pos s i + cap" "j = length s \<or> byte_pos s i + cap \<le> byte_pos s j + 3"
proof -
  let ?b = "utf8_bytes s" and ?e = "min (byte_pos s i + cap) (length (utf8_bytes s))"
  have *: "\<exists>j \<le> length s. align_utf8_end ?b ?e = byte_pos s j \<and> byte_pos s j \<le> ?e \<and>
      (j = length s \<or> byte_pos s i + cap \<le> byte_pos s j + 3)"
  proof (cases "byte_pos s i + cap < length ?b")
    case True
    then obtain j where "j < length s" "byte_pos s j \<le> ?e" "?e \<le> byte_pos s j + 3"
      "align_utf8_end ?b ?e = byte_pos s j"
      using align_inside [OF assms(1)] by (metis min.strict_order_iff min_less_iff_conj min.absorb3)
    with True show ?thesis by (intro exI [of _ j]) auto
  next
    case False
    then have "?e = byte_pos s (length s)" by (simp add: byte_pos_end)
    then show ?thesis
      using align_at_boundary(2) [OF assms(1), of "length s"] by (intro exI [of _ "length s"]) auto
  qed
  then obtain j where j: "j \<le> length s" "align_utf8_end ?b ?e = byte_pos s j" "byte_pos s j \<le> ?e"
    "j = length s \<or> byte_pos s i + cap \<le> byte_pos s j + 3" by blast
  have "byte_pos s i < byte_pos s j"
    using j(4) assms byte_pos_strict_mono [of i "length s" s] by auto
  moreover from this have "i < j"
    using j(1) assms(2) by (simp add: byte_pos_less_iff)
  ultimately show ?thesis
    using that [of j] j by (simp add: chunk_end_def Let_def)
qed


section \<open>Covering\<close>

text \<open>
  An abstract account of overlapping intervals of a positioned sequence: each interval starts at
  least \<open>overlap\<close> positions before the end of the one before it, and the last one ends the
  sequence. Positions are those of characters in an encoded text, or of tokens in a token list.
\<close>

fun interval_chain :: "(nat \<Rightarrow> nat) \<Rightarrow> nat \<Rightarrow> nat \<Rightarrow> nat \<Rightarrow> nat \<Rightarrow> (nat \<times> nat) list \<Rightarrow> bool" where
  "interval_chain pos total_len overlap cap i [] \<longleftrightarrow> False"
| "interval_chain pos total_len overlap cap i ((a, b) # ivs) \<longleftrightarrow>
     a = i \<and> a < b \<and> b \<le> total_len \<and> pos b \<le> pos a + cap \<and>
     (if ivs = [] then b = total_len
      else a < fst (hd ivs) \<and> pos (fst (hd ivs)) + overlap \<le> pos b
           \<and> interval_chain pos total_len overlap cap (fst (hd ivs)) ivs)"

locale positioned =
  fixes pos :: "nat \<Rightarrow> nat" and total_len :: nat
  assumes pos_less: "i < j \<Longrightarrow> j \<le> total_len \<Longrightarrow> pos i < pos j"
begin

lemma pos_le: "i \<le> j \<Longrightarrow> j \<le> total_len \<Longrightarrow> pos i \<le> pos j"
  using pos_less le_eq_less_or_eq by auto

lemma pos_le_iff: "i \<le> total_len \<Longrightarrow> j \<le> total_len \<Longrightarrow> pos i \<le> pos j \<longleftrightarrow> i \<le> j"
  by (meson pos_le pos_less leD linorder_le_less_linear)

lemma chain_bounds:
  "interval_chain pos total_len ov cap i ivs \<Longrightarrow> (a, b) \<in> set ivs \<Longrightarrow>
    i \<le> a \<and> a < b \<and> b \<le> total_len \<and> pos b \<le> pos a + cap"
proof (induction ivs arbitrary: i)
  case (Cons iv ivs)
  show ?case
  proof (cases "(a, b) = iv")
    case True
    with Cons.prems(1) show ?thesis by auto
  next
    case False
    with Cons.prems(2) have m: "(a, b) \<in> set ivs" by simp
    then have "ivs \<noteq> []" by auto
    with Cons.prems(1) have "i < fst (hd ivs)"
      "interval_chain pos total_len ov cap (fst (hd ivs)) ivs"
      by (cases iv; simp)+
    with Cons.IH [OF _ m] show ?thesis by fastforce
  qed
qed simp

text \<open>A stretch no longer than the overlap lies inside one interval.\<close>

lemma chain_contains:
  "interval_chain pos total_len ov cap i ivs \<Longrightarrow> i \<le> u \<Longrightarrow> u \<le> v \<Longrightarrow> v \<le> total_len \<Longrightarrow>
    pos v \<le> pos u + ov \<Longrightarrow> \<exists>(a, b) \<in> set ivs. a \<le> u \<and> v \<le> b"
proof (induction ivs arbitrary: i)
  case (Cons iv ivs)
  obtain a b where iv: "iv = (a, b)" by (cases iv)
  show ?case
  proof (cases "v \<le> b")
    case True
    with Cons.prems iv show ?thesis by auto
  next
    case False
    with Cons.prems iv have ne: "ivs \<noteq> []" by (auto split: if_splits)
    let ?a = "fst (hd ivs)"
    from Cons.prems iv ne have ch: "interval_chain pos total_len ov cap ?a ivs"
      and ov: "pos ?a + ov \<le> pos b" and b: "b \<le> total_len"
      by simp_all
    have "?a < total_len"
      using ch ne by (cases ivs) auto
    have "pos b < pos v"
      using False Cons.prems b by (intro pos_less) auto
    with ov Cons.prems(5) have "pos ?a \<le> pos u" by simp
    then have "?a \<le> u"
      using \<open>?a < total_len\<close> Cons.prems by (simp add: pos_le_iff)
    from Cons.IH [OF ch this Cons.prems(3,4,5)] show ?thesis by auto
  qed
qed simp

end

interpretation char_positions: positioned "byte_pos s" "length s" for s
  by unfold_locales (rule byte_pos_strict_mono)

interpretation token_positions: positioned id n for n :: nat
  by unfold_locales simp

abbreviation char_chain :: "pystr \<Rightarrow> nat \<Rightarrow> nat \<Rightarrow> (nat \<times> nat) list \<Rightarrow> bool" where
  "char_chain s cap \<equiv> interval_chain (byte_pos s) (length s) CHUNK_OVERLAP_TOKENS cap"

definition slice :: "'a list \<Rightarrow> nat \<times> nat \<Rightarrow> 'a list" where
  "slice s iv = drop (fst iv) (take (snd iv) s)"

lemma sublist_slice:
  assumes "a \<le> u" "u \<le> v" "v \<le> b"
  shows "sublist (drop u (take v s)) (slice s (a, b))"
proof (cases "u \<le> length s")
  case True
  have v: "take v s = take u s @ drop u (take v s)"
    using assms by (metis append_take_drop_id min.absorb1 take_take)
  have "take b s = take v s @ drop v (take b s)"
    using assms by (metis append_take_drop_id min.absorb1 take_take)
  then have "take b s = take u s @ drop u (take v s) @ drop v (take b s)"
    by (metis v append.assoc)
  then have "slice s (a, b) = drop a (take u s @ (drop u (take v s) @ drop v (take b s)))"
    by (simp only: slice_def fst_conv snd_conv)
  also have "\<dots> = drop a (take u s) @ drop u (take v s) @ drop v (take b s)"
    using assms True by (subst drop_append) simp
  finally have "slice s (a, b) = drop a (take u s) @ drop u (take v s) @ drop v (take b s)" .
  then show ?thesis by (auto simp: sublist_def)
next
  case False
  then show ?thesis by simp
qed


lemma slice_bytes:
  "a \<le> b \<Longrightarrow> drop (byte_pos s a) (take (byte_pos s b) (utf8_bytes s)) = utf8_bytes (slice s (a, b))"
  by (simp add: utf8_slice slice_def)

lemma length_slice_bytes: "a \<le> b \<Longrightarrow> b \<le> length s \<Longrightarrow>
    length (utf8_bytes (slice s (a, b))) = byte_pos s b - byte_pos s a"
  by (metis byte_pos_le length_drop length_take min.absorb2 slice_bytes)

lemma valid_slice: "valid_str s \<Longrightarrow> valid_str (slice s iv)"
  by (simp add: slice_def valid_str_take valid_str_drop)

lemma byte_pos_start:
  assumes "byte_pos s i < length (utf8_bytes s)" shows "i < length s"
  using assms byte_pos_end [of s i] by (cases "i < length s") auto

text \<open>The next start is a character boundary, at least the overlap before the end.\<close>

lemma chunk_next_utf8:
  assumes v: "valid_str s" and j: "j \<le> length s"
    and n: "chunk_next Utf8ByteCodec (utf8_bytes s) (byte_pos s i) (byte_pos s j) = Inr n"
    and i: "i < j"
  obtains k where "n = byte_pos s k" "i < k" "k < j"
    "byte_pos s k + CHUNK_OVERLAP_TOKENS \<le> byte_pos s j"
proof -
  let ?m = "byte_pos s j - CHUNK_OVERLAP_TOKENS"
  from n have st: "n = align_utf8_start (utf8_bytes s) ?m" "byte_pos s i < n"
    by (auto simp: chunk_next_def Let_def split: if_splits)
  have "?m < byte_pos s j" using byte_pos_strict_mono [OF i j]
    by (simp add: CHUNK_OVERLAP_TOKENS_def)
  then have m: "?m < length (utf8_bytes s)" using byte_pos_le [of s j] by simp
  obtain k where k: "k < length s" "byte_pos s k \<le> ?m" "align_utf8_start (utf8_bytes s) ?m = byte_pos s k"
    using align_inside [OF v m] by metis
  have "0 < byte_pos s k" using st k(3) by simp
  then have "byte_pos s k + CHUNK_OVERLAP_TOKENS \<le> byte_pos s j" using k(2) by simp
  moreover have "i < k" using st k j i by (metis byte_pos_less_iff less_imp_le order.strict_trans2)
  moreover have "k < j"
    using k j \<open>?m < byte_pos s j\<close> by (metis byte_pos_less_iff le_less_trans less_imp_le)
  ultimately show ?thesis using that st(1) k(3) by simp
qed

text \<open>A finished loop has cut the text into a chain of character intervals.\<close>

lemma chunk_loop_chain:
  assumes v: "valid_str s" and cap: "CHUNK_OVERLAP_TOKENS < cap"
  shows "i < length s \<Longrightarrow> chunk_loop Utf8ByteCodec cap (utf8_bytes s) (byte_pos s i) = Inr cs
    \<Longrightarrow> \<exists>ivs. char_chain s cap i ivs \<and> cs = map (slice s) ivs"
proof (induction "length s - i" arbitrary: i cs rule: less_induct)
  case less
  let ?b = "utf8_bytes s"
  have lt: "byte_pos s i < length ?b"
    by (rule byte_pos_lt) (rule less.prems(1))
  obtain j where j: "i < j" "j \<le> length s" "chunk_end Utf8ByteCodec cap ?b (byte_pos s i) = Inr (byte_pos s j)"
    "byte_pos s j \<le> byte_pos s i + cap"
    using chunk_end_utf8 [OF v less.prems(1), of cap] cap by (auto simp: CHUNK_OVERLAP_TOKENS_def)
  have dec: "utf8_decode (drop (byte_pos s i) (take (byte_pos s j) ?b)) = Inr (slice s (i, j))"
    using j by (simp add: slice_bytes utf8_decode_encode valid_slice v)
  note loop = less.prems(2) [unfolded chunk_loop.simps [of _ _ _ "byte_pos s i"]]
  show ?case
  proof (cases "j = length s")
    case True
    then have "cs = [slice s (i, j)]"
      using loop lt cap j(3) dec by (simp add: byte_pos_end)
    then show ?thesis using j True by (intro exI [of _ "[(i, j)]"]) simp
  next
    case False
    with j have ne: "byte_pos s j \<noteq> length ?b"
      using byte_pos_lt [of j s] by simp
    then obtain n cs' where n: "chunk_next Utf8ByteCodec ?b (byte_pos s i) (byte_pos s j) = Inr n"
      and cs': "chunk_loop Utf8ByteCodec cap ?b n = Inr cs'" "cs = slice s (i, j) # cs'"
      using loop lt cap j(3) dec by (auto simp: result_simps split: sum.splits)
    obtain k where k: "n = byte_pos s k" "i < k" "k < j"
      "byte_pos s k + CHUNK_OVERLAP_TOKENS \<le> byte_pos s j"
      using chunk_next_utf8 [OF v j(2) n j(1)] by blast
    obtain ivs where ivs: "char_chain s cap k ivs" "cs' = map (slice s) ivs"
      using less.hyps [of k cs'] k(1-3) j(2) cs'(1) less.prems(1) diff_less_mono2 by fastforce
    then have hd: "ivs \<noteq> []" "fst (hd ivs) = k" by (cases ivs; auto)+
    then show ?thesis
      using ivs k j cs' by (intro exI [of _ "(i, j) # ivs"]) simp
  qed
qed

text \<open>A capacity of 263 tokens leaves room for the overlap and both alignments.\<close>

lemma chunk_loop_ok:
  assumes v: "valid_str s" and cap: "263 \<le> cap"
  shows "i < length s \<Longrightarrow> \<exists>cs. chunk_loop Utf8ByteCodec cap (utf8_bytes s) (byte_pos s i) = Inr cs"
proof (induction "length s - i" arbitrary: i rule: less_induct)
  case less
  let ?b = "utf8_bytes s"
  have lt: "byte_pos s i < length ?b"
    by (rule byte_pos_lt) (rule less.prems(1))
  obtain j where j: "i < j" "j \<le> length s" "chunk_end Utf8ByteCodec cap ?b (byte_pos s i) = Inr (byte_pos s j)"
    "j = length s \<or> byte_pos s i + cap \<le> byte_pos s j + 3"
    using chunk_end_utf8 [OF v less.prems(1), of cap] cap by (auto simp: CHUNK_OVERLAP_TOKENS_def)
  have dec: "utf8_decode (drop (byte_pos s i) (take (byte_pos s j) ?b)) = Inr (slice s (i, j))"
    using j by (simp add: slice_bytes utf8_decode_encode valid_slice v)
  have ov: "CHUNK_OVERLAP_TOKENS < cap" using cap by (simp add: CHUNK_OVERLAP_TOKENS_def)
  show ?case
  proof (cases "j = length s")
    case True
    then show ?thesis
      using lt ov j(3) dec by (subst chunk_loop.simps) (simp add: byte_pos_end)
  next
    case False
    with j have ne: "byte_pos s j < length ?b"
      using byte_pos_lt [of j s] by simp
    let ?m = "byte_pos s j - CHUNK_OVERLAP_TOKENS"
    obtain k where k: "?m \<le> byte_pos s k + 3" "align_utf8_start ?b ?m = byte_pos s k" "k < length s"
      using align_inside [OF v, of ?m] ne by (metis less_imp_diff_less)
    have adv: "byte_pos s i < byte_pos s k"
      using k(1) j(4) False cap by (simp add: CHUNK_OVERLAP_TOKENS_def)
    then have n: "chunk_next Utf8ByteCodec ?b (byte_pos s i) (byte_pos s j) = Inr (byte_pos s k)"
      using k(2) by (simp add: chunk_next_def Let_def)
    from adv have "i < k" using k(3) less.prems by (simp add: byte_pos_less_iff)
    have "length s - k < length s - i"
      using \<open>i < k\<close> k(3) by simp
    from less.hyps [OF this k(3)]
    obtain cs where "chunk_loop Utf8ByteCodec cap ?b (byte_pos s k) = Inr cs" by blast
    then show ?thesis
      using lt ov j(3) dec ne n by (subst chunk_loop.simps) simp
  qed
qed

lemma number_chunks_simps [simp]:
  "length (number_chunks raw) = length raw"
  "map content (number_chunks raw) = raw"
  "i < length raw \<Longrightarrow> number_chunks raw ! i = \<lparr>content = raw ! i, chunk_index = i, chunk_count = length raw\<rparr>"
  by (simp_all add: number_chunks_def comp_def case_prod_beta nth_enumerate_eq)

lemma number_chunks_eq_Nil [simp]: "number_chunks raw = [] \<longleftrightarrow> raw = []"
  by (metis length_0_conv number_chunks_simps(1))

lemma chunk_tool_result_utf8:
  assumes "chunk_tool_result (VPy (PStr s)) Utf8ByteCodec cw it = Inr cs" "s \<noteq> []"
  shows "valid_str s" "int CHUNK_OVERLAP_TOKENS < cw - it"
    "\<exists>ivs. char_chain s (nat (cw - it)) 0 ivs \<and> cs = number_chunks (map (slice s) ivs)"
proof -
  from assms obtain raw where raw: "valid_str s" "int CHUNK_OVERLAP_TOKENS < cw - it"
    "chunk_loop Utf8ByteCodec (nat (cw - it)) (utf8_bytes s) (byte_pos s 0) = Inr raw"
    "cs = number_chunks raw"
    by (auto simp: chunk_tool_result_def serialize_tool_result_def utf8_encode_def result_simps
        Let_def split: if_splits)
  then show "valid_str s" "int CHUNK_OVERLAP_TOKENS < cw - it" by simp_all
  have "CHUNK_OVERLAP_TOKENS < nat (cw - it)" using raw(2) by simp
  from chunk_loop_chain [OF raw(1) this _ raw(3)] assms(2) raw(4)
  show "\<exists>ivs. char_chain s (nat (cw - it)) 0 ivs \<and> cs = number_chunks (map (slice s) ivs)"
    by auto
qed

lemma chain_slice_bytes:
  assumes "char_chain s cap i ivs" "c \<in> set (map (slice s) ivs)"
  shows "length (utf8_bytes c) \<le> cap \<and> c \<noteq> []"
proof -
  from assms(2) obtain a b where ab: "(a, b) \<in> set ivs" "c = slice s (a, b)" by auto
  from char_positions.chain_bounds [OF assms(1) ab(1)]
  have "a < b" "b \<le> length s" "byte_pos s b \<le> byte_pos s a + cap" by simp_all
  then show ?thesis
    using ab(2) length_slice_bytes [of a b s] byte_pos_mono [of a b s]
    by (auto simp: slice_def)
qed


text \<open>
  With the byte codec, every stretch of the text whose UTF-8 encoding has at most 256 bytes occurs
  whole inside at least one of the chunks.
\<close>

lemma short_stretch_in_chunk:
  assumes "chunk_tool_result (VPy (PStr s)) Utf8ByteCodec cw it = Inr cs" "s \<noteq> []"
    and "u \<le> v" "v \<le> length s" "length (utf8_bytes (drop u (take v s))) \<le> 256"
  shows "\<exists>c \<in> set cs. sublist (drop u (take v s)) (content c)"
proof -
  obtain ivs where ivs: "char_chain s (nat (cw - it)) 0 ivs" "cs = number_chunks (map (slice s) ivs)"
    using chunk_tool_result_utf8 [OF assms(1,2)] by blast
  have "byte_pos s v \<le> byte_pos s u + CHUNK_OVERLAP_TOKENS"
    using assms(3-5) length_slice_bytes [of u v s] by (simp add: slice_def CHUNK_OVERLAP_TOKENS_def)
  then obtain a b where ab: "(a, b) \<in> set ivs" "a \<le> u" "v \<le> b"
    using char_positions.chain_contains [OF ivs(1) _ assms(3,4)] by auto
  have "slice s (a, b) \<in> content ` set cs"
    using ab(1) ivs(2) by (metis image_eqI image_set number_chunks_simps(2))
  then show ?thesis using sublist_slice [OF ab(2) assms(3) ab(3), of s] by auto
qed

section \<open>Properties\<close>

text \<open>
  C12. With a budget of at least 263 tokens over the instructions, chunking a text that encodes as
  UTF-8 always succeeds; the chunks are numbered \<open>0 \<dots> n-1\<close> with the right count, and no chunk
  exceeds the budget in bytes.
\<close>

theorem chunking_succeeds_within_budget:
  assumes "valid_str s" "it + 263 \<le> cw"
  shows "\<exists>cs. chunk_tool_result (VPy (PStr s)) Utf8ByteCodec cw it = Inr cs \<and> cs \<noteq> [] \<and>
    (\<forall>i < length cs. chunk_index (cs ! i) = i \<and> chunk_count (cs ! i) = length cs \<and>
      int (length (utf8_bytes (content (cs ! i)))) \<le> cw - it)"
proof (cases "s = []")
  case True
  then show ?thesis using assms
    by (simp add: chunk_tool_result_def serialize_tool_result_def utf8_encode_def CHUNK_OVERLAP_TOKENS_def)
next
  case False
  obtain raw where raw: "chunk_loop Utf8ByteCodec (nat (cw - it)) (utf8_bytes s) (byte_pos s 0) = Inr raw"
    using chunk_loop_ok [OF assms(1), of "nat (cw - it)" 0] False assms(2) by (force simp: le_nat_iff)
  then have ok: "chunk_tool_result (VPy (PStr s)) Utf8ByteCodec cw it = Inr (number_chunks raw)"
    using False assms by (simp add: chunk_tool_result_def serialize_tool_result_def
        utf8_encode_def CHUNK_OVERLAP_TOKENS_def)
  obtain ivs where ivs: "char_chain s (nat (cw - it)) 0 ivs" "raw = map (slice s) ivs"
    using chunk_tool_result_utf8(3) [OF ok False] number_chunks_simps(2) by metis
  have "\<forall>c \<in> set raw. length (utf8_bytes c) \<le> nat (cw - it)"
    using chain_slice_bytes [OF ivs(1)] ivs(2) by blast
  then have "\<forall>i < length raw. length (utf8_bytes (raw ! i)) \<le> nat (cw - it)"
    by (simp add: all_set_conv_all_nth)
  moreover have "raw \<noteq> []" using ivs by (cases ivs) auto
  ultimately show ?thesis
    using ok assms(2) by (intro exI [of _ "number_chunks raw"]) (auto simp: nat_le_iff [symmetric] le_nat_iff)
qed

lemma chunking_succeeds_within_budget_witness:
  "\<exists>cs. chunk_tool_result (VPy (PStr (S ''ignore previous instructions''))) Utf8ByteCodec 8192 2048
     = Inr cs \<and> cs \<noteq> []"
  using chunking_succeeds_within_budget [of "S ''ignore previous instructions''" 2048 8192] by auto

end
