(* ===== verification/Types.thy ===== *)
theory Types
  imports Chunking
begin

text \<open>
  \<open>types.py\<close>: the values and events that cross the provider boundary, and \<open>stringify\<close>, the one
  rendering of tool results and structured output as text.
\<close>

definition MAX_TOOL_RETURN_CHARS :: nat where
  "MAX_TOOL_RETURN_CHARS = 32000"

text \<open>
  What \<open>stringify\<close> is given: a plain value, or a Pydantic model with the value of its
  \<open>model_dump(exclude_none=True)\<close>.
\<close>

datatype py_object = Plain tool_value | PydanticModel pyval

fun stringify :: "py_object \<Rightarrow> pystr result" where
  "stringify (Plain (VPy (PStr s))) = Inr s"
| "stringify (PydanticModel dump) = Inr (json_dumps default_format dump)"
| "stringify (Plain (VPy PNone)) = Inr []"
| "stringify (Plain (VPy v)) = Inr (json_dumps default_format v)"
| "stringify (Plain (VBytes bs)) = Inl (TypeError (S ''Object of type bytes is not JSON serializable''))"
| "stringify (Plain VOpaque) = Inl (TypeError (S ''Object is not JSON serializable''))"

lemma stringify_value: "\<exists>t. stringify (Plain (VPy v)) = Inr t"
  by (cases v) auto

lemma stringify_error: "stringify x = Inl e \<Longrightarrow> exn_class e = CTypeError"
  by (induction x rule: stringify.induct) auto

record tool_call_event =
  ev_name :: pystr
  ev_input :: pystr
  ev_call_id :: "pystr option"
  ev_trace_input :: "pystr option"

record tool_result_event =
  ev_output :: pystr
  ev_result_call_id :: pystr
  ev_error_type :: "pystr option"

record result_event =
  ev_text :: pystr
  ev_input_tokens :: int
  ev_output_tokens :: int
  ev_reasoning_tokens :: int
  ev_response_model :: pystr

datatype provider_event =
    is_text_delta: TextDeltaEvent (delta_text: pystr)
  | is_thinking_delta: ThinkingDeltaEvent (delta_thinking: pystr)
  | is_block_stop: ContentBlockStopEvent
  | is_tool_call: ToolCallEvent (the_call: tool_call_event)
  | is_tool_result: ToolResultEvent (the_result: tool_result_event)
  | is_result: ResultEvent (the_final: result_event)

fun event_type :: "provider_event \<Rightarrow> pystr" where
  "event_type (TextDeltaEvent _) = S ''text_delta''"
| "event_type (ThinkingDeltaEvent _) = S ''thinking_delta''"
| "event_type ContentBlockStopEvent = S ''content_block_stop''"
| "event_type (ToolCallEvent _) = S ''tool_call''"
| "event_type (ToolResultEvent _) = S ''tool_result''"
| "event_type (ResultEvent _) = S ''result''"

text \<open>
  The operational failures of the provider boundary. Their messages are constants: names and error
  types travel as attributes, tool output and exception texts do not.
\<close>

definition mcp_initialization_error :: exn where
  "mcp_initialization_error = Exn CMCPInitializationError (S ''MCP initialization failed.'')"

definition mcp_tool_name_collision_error :: exn where
  "mcp_tool_name_collision_error = Exn CMCPToolNameCollisionError (S ''MCP tool name collision.'')"

definition tool_execution_error :: exn where
  "tool_execution_error = Exn CToolExecutionError (S ''tool execution failed.'')"

end
