(* ===== verification/AuditLog.thy ===== *)
theory AuditLog
  imports SpanLedger Types
begin

text \<open>
  \<open>audit.py\<close>: tool spans and \<open>gen_ai.choice\<close> events out of the provider's event stream. The state
  holds the buffers, the open tool spans and, for the proofs, the spans that were ended and those
  whose key was overwritten while they were open. Durations are left out. Proved: a finished run has
  ended every tool span exactly once, unless a call id was reused while its call was open; and without
  content capture no event carries text.
\<close>

section \<open>Payloads\<close>

text \<open>
  Whether \<open>float(text)\<close> is finite, for a JSON number or one of the constants: a number overflows when
  it is at least half-way between the largest double and two to the 1024.
\<close>

definition float_bound :: nat where
  "float_bound = 2 ^ 1024 - 2 ^ 970"

definition number_parts :: "pystr \<Rightarrow> nat \<times> int" where
  "number_parts t =
     (let mantissa = takeWhile (\<lambda>c. c \<noteq> 101 \<and> c \<noteq> 69) t;
          exponent = drop (Suc (length mantissa)) t;
          digits = filter (\<lambda>c. 48 \<le> c \<and> c \<le> 57) mantissa;
          fraction = filter (\<lambda>c. 48 \<le> c \<and> c \<le> 57) (dropWhile (\<lambda>c. c \<noteq> 46) mantissa)
      in (nat (digits_value digits),
          (case py_int exponent of Some e \<Rightarrow> e | None \<Rightarrow> 0) - int (length fraction)))"

definition finite_float :: "pystr \<Rightarrow> bool" where
  "finite_float t \<longleftrightarrow>
     \<not> (\<exists>c \<in> set t. c = 73 \<or> c = 78) \<and>
     (case number_parts t of (m, e) \<Rightarrow>
        if 0 \<le> e then m * 10 ^ nat e < float_bound else m < float_bound * 10 ^ nat (- e))"

fun finite_numbers :: "pyval \<Rightarrow> bool" where
  "finite_numbers (PFloat t) \<longleftrightarrow> finite_float t"
| "finite_numbers (PList vs) \<longleftrightarrow> (\<forall>v \<in> set vs. finite_numbers v)"
| "finite_numbers (PDict d) \<longleftrightarrow> (\<forall>kv \<in> set d. finite_numbers (snd kv))"
| "finite_numbers _ \<longleftrightarrow> True"

text \<open>
  The hooks see every number of the text, also the ones in members that a repeated key discards;
  numbers keep the spelling of the text.
\<close>

definition tool_payload :: "pystr \<Rightarrow> pydict" where
  "tool_payload t =
     (let parsed = (case json_scan t of
            Inl _ \<Rightarrow> PStr t
          | Inr v \<Rightarrow> if finite_numbers v then build_dicts v else PStr t)
      in case parsed of PDict d \<Rightarrow> d | v \<Rightarrow> [(S ''content'', v)])"

definition set_tool_payload :: "pystr \<Rightarrow> pystr \<Rightarrow> span \<Rightarrow> span" where
  "set_tool_payload name t s = set_json_span_attribute name (PDict (tool_payload t)) s"


section \<open>The audit logger\<close>

datatype call_key = CallId pystr | Unnamed nat

record audit_config =
  audit_phase :: pystr
  audit_enabled :: bool
  capture_content :: bool
  audit_uid :: pystr
  capture_tool_spans :: bool
  spans_sampled :: bool

record audit_state =
  text_buffer :: "pystr list"
  thinking_buffer :: "pystr list"
  tool_spans :: "(call_key \<times> span) list"
  next_call_id :: nat
  closed_spans :: "span list"
  dropped_spans :: "span list"

definition initial_audit :: audit_state where
  "initial_audit = \<lparr>text_buffer = [], thinking_buffer = [], tool_spans = [], next_call_id = 0,
     closed_spans = [], dropped_spans = []\<rparr>"

text \<open>A \<open>gen_ai.choice\<close> event for a non-empty buffer.\<close>

definition choice_event :: "audit_config \<Rightarrow> string \<Rightarrow> pystr list \<Rightarrow> span \<Rightarrow> span" where
  "choice_event cfg k buffer s =
     (if concat buffer = [] then s
      else perform (AddEvent (S ''gen_ai.choice'')
             (if capture_content cfg then [(S k, PStr (concat buffer))] else [])) s)"

text \<open>\<open>_flush_buffers\<close>: the span is the explicit one, or else the current one of the run.\<close>

definition flush_buffers :: "audit_config \<Rightarrow> audit_state \<Rightarrow> span option \<Rightarrow> audit_state \<times> span option" where
  "flush_buffers cfg st sp =
     (let st1 = st\<lparr>text_buffer := [], thinking_buffer := []\<rparr>
      in if \<not> audit_enabled cfg then (st1, sp)
         else case sp of
           None \<Rightarrow> (st1, None)
         | Some s \<Rightarrow>
             if \<not> is_recording s then (st1, sp)
             else (st1, Some (choice_event cfg ''gen_ai.reasoning_content'' (thinking_buffer st)
                    (choice_event cfg ''gen_ai.completion'' (text_buffer st) s))))"

definition tool_span :: "audit_config \<Rightarrow> tool_call_event \<Rightarrow> span" where
  "tool_span cfg e =
     (let name = (if ev_name e = [] then S ''unknown'' else ev_name e)
      in set_tool_payload (S ''gen_ai.tool.call.arguments'')
           (case ev_trace_input e of Some t \<Rightarrow> t | None \<Rightarrow> ev_input e)
           \<lparr>span_title = S ''execute_tool '' @ name,
            span_start_attributes =
              [(S ''gen_ai.operation.name'', PStr (S ''execute_tool'')), (S ''gen_ai.tool.name'', PStr name),
               (S ''gen_ai.tool.type'', PStr (S ''function''))]
              @ (if truthy_str (ev_call_id e) then [(S ''gen_ai.tool.call.id'', PStr (the (ev_call_id e)))] else [])
              @ run_attributes (audit_uid cfg) (audit_phase cfg),
            span_sampled = spans_sampled cfg, span_ops = []\<rparr>)"

definition open_tool_span :: "audit_config \<Rightarrow> tool_call_event \<Rightarrow> audit_state \<Rightarrow> audit_state" where
  "open_tool_span cfg e st =
     (let key = (if truthy_str (ev_call_id e) then CallId (the (ev_call_id e)) else Unnamed (next_call_id st))
      in st\<lparr>next_call_id := (if truthy_str (ev_call_id e) then next_call_id st else Suc (next_call_id st)),
            tool_spans := AList.update key (tool_span cfg e) (tool_spans st),
            dropped_spans := dropped_spans st @ overwritten id (tool_spans st) key\<rparr>)"

definition finish_tool_span :: "tool_result_event \<Rightarrow> span \<Rightarrow> span" where
  "finish_tool_span r s =
     (let s1 = set_tool_payload (S ''gen_ai.tool.call.result'') (ev_output r) s;
          s2 = (case ev_error_type r of
                  Some e \<Rightarrow> perform (SetStatus StatusError []) (perform (SetAttribute (S ''error.type'') (PStr e)) s1)
                | None \<Rightarrow> perform (SetStatus StatusOk []) s1)
      in perform EndSpan s2)"

text \<open>The open span a result belongs to: that of its call id, or the only one.\<close>

definition result_key :: "tool_result_event \<Rightarrow> audit_state \<Rightarrow> call_key option" where
  "result_key r st =
     (if ev_result_call_id r \<noteq> [] then Some (CallId (ev_result_call_id r))
      else case tool_spans st of [(key, s)] \<Rightarrow> Some key | _ \<Rightarrow> None)"

definition close_tool_span :: "tool_result_event \<Rightarrow> audit_state \<Rightarrow> audit_state" where
  "close_tool_span r st =
     (case result_key r st of
        None \<Rightarrow> st
      | Some key \<Rightarrow>
          (case map_of (tool_spans st) key of
             None \<Rightarrow> st
           | Some s \<Rightarrow>
               st\<lparr>tool_spans := AList.delete key (tool_spans st),
                  closed_spans := closed_spans st @ [finish_tool_span r s]\<rparr>))"

fun process_event ::
  "audit_config \<Rightarrow> provider_event \<Rightarrow> audit_state \<Rightarrow> span option \<Rightarrow> audit_state \<times> span option"
where
  "process_event cfg (TextDeltaEvent t) st sp = (st\<lparr>text_buffer := text_buffer st @ [t]\<rparr>, sp)"
| "process_event cfg (ThinkingDeltaEvent t) st sp = (st\<lparr>thinking_buffer := thinking_buffer st @ [t]\<rparr>, sp)"
| "process_event cfg ContentBlockStopEvent st sp = flush_buffers cfg st sp"
| "process_event cfg (ToolCallEvent e) st sp =
     (let (st1, sp1) = flush_buffers cfg st sp
      in (if capture_tool_spans cfg then open_tool_span cfg e st1 else st1, sp1))"
| "process_event cfg (ToolResultEvent r) st sp =
     ((if capture_tool_spans cfg then close_tool_span r st else st), sp)"
| "process_event cfg (ResultEvent r) st sp = flush_buffers cfg st sp"

definition close_unfinished :: "span \<Rightarrow> span" where
  "close_unfinished s =
     perform EndSpan (perform (SetStatus StatusError (S ''tool span not closed by result event''))
       (perform (SetAttribute (S ''error.type'') (PStr (S ''missing_tool_result''))) s))"

definition close_pending_tools :: "audit_state \<Rightarrow> audit_state" where
  "close_pending_tools st =
     st\<lparr>closed_spans := closed_spans st @ map (close_unfinished \<circ> snd) (tool_spans st), tool_spans := []\<rparr>"

definition usage_attributes :: "int \<Rightarrow> int \<Rightarrow> int \<Rightarrow> span \<Rightarrow> span" where
  "usage_attributes input_toks output_toks reasoning_toks s =
     (if is_recording s then
        (let s1 = perform (SetAttribute (S ''gen_ai.usage.output_tokens'') (PInt output_toks))
                    (perform (SetAttribute (S ''gen_ai.usage.input_tokens'') (PInt input_toks)) s)
         in if reasoning_toks \<noteq> 0
            then perform (SetAttribute (S ''gen_ai.usage.reasoning.output_tokens'') (PInt reasoning_toks)) s1
            else s1)
      else s)"

definition complete_audit ::
  "audit_config \<Rightarrow> int \<Rightarrow> int \<Rightarrow> int \<Rightarrow> audit_state \<Rightarrow> span option \<Rightarrow> audit_state \<times> span option"
where
  "complete_audit cfg input_toks output_toks reasoning_toks st sp =
     (let (st1, sp1) = flush_buffers cfg st sp
      in (close_pending_tools st1, map_option (usage_attributes input_toks output_toks reasoning_toks) sp1))"

fun process_events ::
  "audit_config \<Rightarrow> provider_event list \<Rightarrow> audit_state \<Rightarrow> span option \<Rightarrow> audit_state \<times> span option"
where
  "process_events cfg [] st sp = (st, sp)"
| "process_events cfg (e # es) st sp =
     (let (st1, sp1) = process_event cfg e st sp in process_events cfg es st1 sp1)"


section \<open>Tool spans\<close>

lemma still_open_payload [simp]: "still_open (set_tool_payload name t s) \<longleftrightarrow> still_open s"
  by (simp add: set_tool_payload_def set_json_span_attribute_def)

lemma still_open_tool_span [simp]: "still_open (tool_span cfg e)"
  by (simp add: tool_span_def Let_def) (simp add: still_open_def)

lemma ended_once_finish: "still_open s \<Longrightarrow> ended_once (finish_tool_span r s)"
  by (auto simp: finish_tool_span_def Let_def split: option.split intro!: ended_once_perform)

lemma ended_once_close: "still_open s \<Longrightarrow> ended_once (close_unfinished s)"
  by (auto simp: close_unfinished_def intro!: ended_once_perform)

text \<open>The state of the spans, with the keys in use and the number of calls seen.\<close>

definition keys_used :: "audit_state \<Rightarrow> pystr set \<Rightarrow> bool" where
  "keys_used st ids \<longleftrightarrow>
     fst ` set (tool_spans st) \<subseteq> CallId ` ids \<union> Unnamed ` {..<next_call_id st}"

definition audit_inv :: "nat \<Rightarrow> audit_state \<Rightarrow> bool" where
  "audit_inv calls st \<longleftrightarrow> ledger id calls (tool_spans st) (closed_spans st) (dropped_spans st)"

lemma open_tool_span_inv: "audit_inv n st \<Longrightarrow> audit_inv (Suc n) (open_tool_span cfg e st)"
  by (simp add: audit_inv_def open_tool_span_def Let_def ledger_open)

lemma close_tool_span_inv: "audit_inv n st \<Longrightarrow> audit_inv n (close_tool_span r st)"
  using ledger_member [of id n "tool_spans st" "closed_spans st" "dropped_spans st"]
  by (auto simp: audit_inv_def close_tool_span_def ended_once_finish intro: ledger_close split: option.split)

lemma flush_spans:
  "flush_buffers cfg st sp = (st1, sp1) \<Longrightarrow> st1 = st\<lparr>text_buffer := [], thinking_buffer := []\<rparr>"
  by (auto simp: flush_buffers_def Let_def split: if_split_asm option.split_asm)

lemma audit_inv_buffers [simp]:
  "audit_inv n (st\<lparr>text_buffer := a\<rparr>) \<longleftrightarrow> audit_inv n st"
  "audit_inv n (st\<lparr>thinking_buffer := a\<rparr>) \<longleftrightarrow> audit_inv n st"
  by (simp_all add: audit_inv_def)

lemma keys_used_buffers [simp]:
  "keys_used (st\<lparr>text_buffer := a\<rparr>) ids \<longleftrightarrow> keys_used st ids"
  "keys_used (st\<lparr>thinking_buffer := a\<rparr>) ids \<longleftrightarrow> keys_used st ids"
  by (simp_all add: keys_used_def)

definition calls_of :: "provider_event list \<Rightarrow> tool_call_event list" where
  "calls_of es = map the_call (filter is_tool_call es)"

definition ids_of :: "provider_event list \<Rightarrow> pystr list" where
  "ids_of es = map (the \<circ> ev_call_id) (filter (\<lambda>e. truthy_str (ev_call_id e)) (calls_of es))"

lemma process_event_inv:
  assumes "capture_tool_spans cfg" "audit_inv n st" "process_event cfg e st sp = (st1, sp1)"
  shows "audit_inv (n + length (calls_of [e])) st1"
  using assms by (cases e)
    (auto simp: calls_of_def open_tool_span_inv close_tool_span_inv dest!: flush_spans split: prod.split_asm)

lemma process_events_inv:
  "process_events cfg es st sp = (st1, sp1) \<Longrightarrow> capture_tool_spans cfg \<Longrightarrow> audit_inv n st \<Longrightarrow>
    audit_inv (n + length (calls_of es)) st1"
proof (induction es arbitrary: n st sp)
  case Nil
  then show ?case by (simp add: calls_of_def)
next
  case (Cons e es)
  obtain st2 sp2 where e: "process_event cfg e st sp = (st2, sp2)" by fastforce
  have "audit_inv (n + length (calls_of [e]) + length (calls_of es)) st1"
    using Cons.IH [of st2 sp2 "n + length (calls_of [e])"] Cons.prems process_event_inv [OF _ _ e] e by simp
  then show ?case by (simp add: calls_of_def add.assoc split: if_split_asm)
qed

text \<open>Without reuse of a call id no open span is overwritten.\<close>

lemma close_tool_span_keys:
  "fst ` set (tool_spans (close_tool_span r st)) \<subseteq> fst ` set (tool_spans st)"
  "next_call_id (close_tool_span r st) = next_call_id st"
  "dropped_spans (close_tool_span r st) = dropped_spans st"
  by (auto simp: close_tool_span_def AList.delete_eq split: option.split)

lemma open_tool_span_keys:
  assumes "keys_used st ids" "truthy_str (ev_call_id e) \<Longrightarrow> the (ev_call_id e) \<notin> ids"
  shows "keys_used (open_tool_span cfg e st)
      (if truthy_str (ev_call_id e) then insert (the (ev_call_id e)) ids else ids) \<and>
    dropped_spans (open_tool_span cfg e st) = dropped_spans st"
proof -
  define key where "key = (if truthy_str (ev_call_id e) then CallId (the (ev_call_id e)) else Unnamed (next_call_id st))"
  have "key \<notin> fst ` set (tool_spans st)"
    using assms unfolding keys_used_def key_def by auto
  then have k: "overwritten id (tool_spans st) key = []" by (rule overwritten_fresh)
  have "fst ` set (AList.update key (tool_span cfg e) (tool_spans st)) = insert key (fst ` set (tool_spans st))"
    by (simp add: dom_update)
  then show ?thesis using assms(1) k unfolding open_tool_span_def Let_def key_def [symmetric]
    by (cases "truthy_str (ev_call_id e)") (simp_all add: keys_used_def key_def lessThan_Suc subset_eq)
qed

lemma process_event_keys:
  assumes "process_event cfg e st sp = (st1, sp1)" "keys_used st ids" "set (ids_of [e]) \<inter> ids = {}"
  shows "keys_used st1 (ids \<union> set (ids_of [e])) \<and> dropped_spans st1 = dropped_spans st"
proof (cases e)
  case (ToolCallEvent c)
  obtain st2 sp2 where f: "flush_buffers cfg st sp = (st2, sp2)" by fastforce
  have "keys_used st2 ids" "dropped_spans st2 = dropped_spans st"
    using assms(2) flush_spans [OF f] by simp_all
  moreover have "ids_of [e] = (if truthy_str (ev_call_id c) then [the (ev_call_id c)] else [])"
    by (simp add: ToolCallEvent ids_of_def calls_of_def)
  moreover have "keys_used st2 ids \<Longrightarrow> keys_used st2 (insert i ids)" for i
    by (auto simp: keys_used_def)
  ultimately show ?thesis using assms(1,3) open_tool_span_keys [of st2 ids c cfg] ToolCallEvent f
    by (cases "truthy_str (ev_call_id c)"; cases "capture_tool_spans cfg") auto
next
  case (ToolResultEvent r)
  then show ?thesis using assms close_tool_span_keys [of r st]
    by (fastforce simp: ids_of_def calls_of_def keys_used_def split: if_split_asm)
qed (use assms in \<open>auto simp: ids_of_def calls_of_def dest!: flush_spans\<close>)

lemma process_events_keys:
  "process_events cfg es st sp = (st1, sp1) \<Longrightarrow> keys_used st ids \<Longrightarrow> set (ids_of es) \<inter> ids = {} \<Longrightarrow>
    distinct (ids_of es) \<Longrightarrow> dropped_spans st1 = dropped_spans st"
proof (induction es arbitrary: ids st sp)
  case (Cons e es)
  obtain st2 sp2 where e: "process_event cfg e st sp = (st2, sp2)" by fastforce
  have i: "ids_of (e # es) = ids_of [e] @ ids_of es" by (simp add: ids_of_def calls_of_def)
  have "keys_used st2 (ids \<union> set (ids_of [e]))" "dropped_spans st2 = dropped_spans st"
    using process_event_keys [OF e Cons.prems(2)] Cons.prems(3) i by auto
  then show ?case using Cons.IH [of st2 sp2 "ids \<union> set (ids_of [e])"] Cons.prems e i by auto
qed simp

lemma close_pending_inv: "audit_inv n st \<Longrightarrow> audit_inv n (close_pending_tools st)"
  using ledger_close_all [of id n "tool_spans st" "closed_spans st" "dropped_spans st" close_unfinished]
  by (simp add: audit_inv_def close_pending_tools_def ended_once_close)

lemma close_pending_ends:
  assumes "audit_inv n st"
  shows "tool_spans (close_pending_tools st) = [] \<and>
    (\<forall>s \<in> set (closed_spans (close_pending_tools st)). ended_once s) \<and>
    length (closed_spans (close_pending_tools st)) + length (dropped_spans st) = n"
  using close_pending_inv [OF assms] by (simp add: audit_inv_def ledger_def close_pending_tools_def)

lemma initial_audit_inv: "audit_inv 0 initial_audit" "keys_used initial_audit {}"
  by (simp_all add: audit_inv_def ledger_empty keys_used_def initial_audit_def)


section \<open>Choice events\<close>

definition choice_text :: "string \<Rightarrow> span_op \<Rightarrow> pystr" where
  "choice_text k op =
     (case op of AddEvent name attrs \<Rightarrow> (case dget attrs (S k) of Some (PStr t) \<Rightarrow> t | _ \<Rightarrow> []) | _ \<Rightarrow> [])"

definition is_choice :: "audit_config \<Rightarrow> span_op \<Rightarrow> bool" where
  "is_choice cfg op \<longleftrightarrow>
     (case op of
        AddEvent name attrs \<Rightarrow> name = S ''gen_ai.choice'' \<and> (capture_content cfg \<or> attrs = [])
      | _ \<Rightarrow> False)"

abbreviation completions :: "span_op list \<Rightarrow> pystr" where
  "completions ops \<equiv> concat (map (choice_text ''gen_ai.completion'') ops)"

abbreviation reasonings :: "span_op list \<Rightarrow> pystr" where
  "reasonings ops \<equiv> concat (map (choice_text ''gen_ai.reasoning_content'') ops)"

definition texts_of :: "provider_event list \<Rightarrow> pystr" where
  "texts_of es = concat (map (\<lambda>e. case e of TextDeltaEvent t \<Rightarrow> t | _ \<Rightarrow> []) es)"

definition thoughts_of :: "provider_event list \<Rightarrow> pystr" where
  "thoughts_of es = concat (map (\<lambda>e. case e of ThinkingDeltaEvent t \<Rightarrow> t | _ \<Rightarrow> []) es)"

text \<open>What a flush adds to a recording span.\<close>

definition flushed_ops :: "audit_config \<Rightarrow> audit_state \<Rightarrow> span_op list" where
  "flushed_ops cfg st =
     span_ops (choice_event cfg ''gen_ai.reasoning_content'' (thinking_buffer st)
       (choice_event cfg ''gen_ai.completion'' (text_buffer st)
         \<lparr>span_title = [], span_start_attributes = [], span_sampled = True, span_ops = []\<rparr>))"

lemma choice_keys: "S ''gen_ai.completion'' \<noteq> S ''gen_ai.reasoning_content''"
  by (simp add: S_def)

lemma flush_recording:
  assumes "audit_enabled cfg" "is_recording s"
  shows "flush_buffers cfg st (Some s) =
    (st\<lparr>text_buffer := [], thinking_buffer := []\<rparr>, Some (s\<lparr>span_ops := span_ops s @ flushed_ops cfg st\<rparr>))"
  using assms by (auto simp: flush_buffers_def flushed_ops_def choice_event_def perform_def Let_def)

lemma flushed_ops_facts:
  "\<forall>op \<in> set (flushed_ops cfg st). is_choice cfg op"
  "capture_content cfg \<Longrightarrow> completions (flushed_ops cfg st) = concat (text_buffer st)"
  "capture_content cfg \<Longrightarrow> reasonings (flushed_ops cfg st) = concat (thinking_buffer st)"
  using choice_keys
  by (auto simp: flushed_ops_def choice_event_def perform_def is_choice_def choice_text_def
      simp del: concat_eq_Nil_conv)

lemma still_recording:
  "is_recording s \<Longrightarrow> \<forall>op \<in> set ops. is_choice cfg op \<Longrightarrow> is_recording (s\<lparr>span_ops := span_ops s @ ops\<rparr>)"
  by (auto simp: is_recording_def is_choice_def)

lemma close_tool_span_buffers:
  "text_buffer (close_tool_span r st) = text_buffer st"
  "thinking_buffer (close_tool_span r st) = thinking_buffer st"
  by (simp_all add: close_tool_span_def split: option.split)

lemma open_tool_span_buffers:
  "text_buffer (open_tool_span cfg e st) = text_buffer st"
  "thinking_buffer (open_tool_span cfg e st) = thinking_buffer st"
  by (simp_all add: open_tool_span_def Let_def)

text \<open>One event: what is written and what stays buffered is what was buffered and what arrived.\<close>

lemma process_event_choices:
  assumes "audit_enabled cfg" "is_recording s"
  shows "\<exists>st1 ops. process_event cfg e st (Some s) = (st1, Some (s\<lparr>span_ops := span_ops s @ ops\<rparr>)) \<and>
    (\<forall>op \<in> set ops. is_choice cfg op) \<and>
    (capture_content cfg \<longrightarrow>
      completions ops @ concat (text_buffer st1) = concat (text_buffer st) @ texts_of [e] \<and>
      reasonings ops @ concat (thinking_buffer st1) = concat (thinking_buffer st) @ thoughts_of [e])"
proof -
  show ?thesis
  proof (cases "is_text_delta e \<or> is_thinking_delta e \<or> is_tool_result e")
    case True
    then show ?thesis
      by (cases e) (auto simp: texts_of_def thoughts_of_def close_tool_span_buffers intro!: exI [of _ "[]"])
  next
    case False
    then show ?thesis using flush_recording [OF assms, of st] flushed_ops_facts [of cfg st]
      by (intro exI [of _ "fst (process_event cfg e st (Some s))"] exI [of _ "flushed_ops cfg st"], cases e)
        (simp_all add: texts_of_def thoughts_of_def open_tool_span_buffers)
  qed
qed

lemma process_events_choices:
  assumes "audit_enabled cfg"
  shows "is_recording s \<Longrightarrow>
    \<exists>st1 ops. process_events cfg es st (Some s) = (st1, Some (s\<lparr>span_ops := span_ops s @ ops\<rparr>)) \<and>
    (\<forall>op \<in> set ops. is_choice cfg op) \<and>
    (capture_content cfg \<longrightarrow>
      completions ops @ concat (text_buffer st1) = concat (text_buffer st) @ texts_of es \<and>
      reasonings ops @ concat (thinking_buffer st1) = concat (thinking_buffer st) @ thoughts_of es)"
proof (induction es arbitrary: st s)
  case Nil
  then show ?case by (auto simp: texts_of_def thoughts_of_def intro!: exI [of _ "[]"])
next
  case (Cons e es)
  obtain st1 o1 where e: "process_event cfg e st (Some s) = (st1, Some (s\<lparr>span_ops := span_ops s @ o1\<rparr>))"
      "\<forall>op \<in> set o1. is_choice cfg op"
      "capture_content cfg \<longrightarrow>
        completions o1 @ concat (text_buffer st1) = concat (text_buffer st) @ texts_of [e] \<and>
        reasonings o1 @ concat (thinking_buffer st1) = concat (thinking_buffer st) @ thoughts_of [e]"
    using process_event_choices [OF assms Cons.prems] by blast
  obtain st2 o2 where es: "process_events cfg es st1 (Some (s\<lparr>span_ops := span_ops s @ o1\<rparr>)) =
        (st2, Some (s\<lparr>span_ops := span_ops s @ o1 @ o2\<rparr>))"
      "\<forall>op \<in> set o2. is_choice cfg op"
      "capture_content cfg \<longrightarrow>
        completions o2 @ concat (text_buffer st2) = concat (text_buffer st1) @ texts_of es \<and>
        reasonings o2 @ concat (thinking_buffer st2) = concat (thinking_buffer st1) @ thoughts_of es"
    using Cons.IH [OF still_recording [OF Cons.prems e(2)], of st1] by auto
  have s: "texts_of (e # es) = texts_of [e] @ texts_of es" "thoughts_of (e # es) = thoughts_of [e] @ thoughts_of es"
    by (simp_all add: texts_of_def thoughts_of_def)
  have "completions (o1 @ o2) @ concat (text_buffer st2) = concat (text_buffer st) @ texts_of (e # es) \<and>
      reasonings (o1 @ o2) @ concat (thinking_buffer st2) = concat (thinking_buffer st) @ thoughts_of (e # es)"
    if "capture_content cfg"
    using e(3) es(3) that unfolding s by (metis append.assoc concat_append map_append)
  then show ?case using e(1,2) es(1,2) by (intro exI [of _ st2] exI [of _ "o1 @ o2"]) auto
qed


section \<open>Properties\<close>

text \<open>
  C17. Tool spans are balanced. With tool spans captured, whatever the order of the events, when the
  run is completed no span is left open and every finished span was ended exactly once, by its last
  operation; the finished ones are as many as the tool calls, less the spans that were overwritten
  while open, and there are none of those when no call id is used twice.
\<close>

theorem tool_spans_are_ended_once:
  assumes "capture_tool_spans cfg"
    and "process_events cfg es initial_audit sp = (st, sp1)"
    and "complete_audit cfg i out r st sp1 = (st', sp2)"
  shows "tool_spans st' = [] \<and> (\<forall>s \<in> set (closed_spans st'). ended_once s) \<and>
    length (closed_spans st') + length (dropped_spans st') = length (calls_of es) \<and>
    (distinct (ids_of es) \<longrightarrow> dropped_spans st' = [])"
proof -
  obtain st2 sp3 where f: "flush_buffers cfg st sp1 = (st2, sp3)" by fastforce
  have st': "st' = close_pending_tools st2" using assms(3) f by (simp add: complete_audit_def)
  have inv: "audit_inv (length (calls_of es)) st2"
    using process_events_inv [OF assms(2,1) initial_audit_inv(1)] flush_spans [OF f] by simp
  have d: "dropped_spans st' = dropped_spans st" using flush_spans [OF f] st' by (simp add: close_pending_tools_def)
  have "distinct (ids_of es) \<Longrightarrow> dropped_spans st = []"
    using process_events_keys [OF assms(2) initial_audit_inv(2)] by (simp add: initial_audit_def)
  then show ?thesis using close_pending_ends [OF inv] d flush_spans [OF f] st' by simp
qed

definition sample_audit :: audit_config where
  "sample_audit = \<lparr>audit_phase = [], audit_enabled = True, capture_content = True, audit_uid = [],
     capture_tool_spans = True, spans_sampled = True\<rparr>"

definition sample_events :: "provider_event list" where
  "sample_events =
     [TextDeltaEvent (S ''a''),
      ToolCallEvent \<lparr>ev_name = S ''ls'', ev_input = S ''{}'', ev_call_id = None, ev_trace_input = None\<rparr>,
      TextDeltaEvent (S ''b'')]"

lemma tool_spans_are_ended_once_witness:
  "case complete_audit sample_audit 1 2 0 (fst (process_events sample_audit sample_events initial_audit None)) None of
     (st, _) \<Rightarrow> tool_spans st = [] \<and> length (closed_spans st) = 1"
proof -
  define st where "st = fst (process_events sample_audit sample_events initial_audit None)"
  obtain sp1 where p: "process_events sample_audit sample_events initial_audit None = (st, sp1)"
    unfolding st_def by (metis prod.collapse)
  obtain st' sp2 where c: "complete_audit sample_audit 1 2 0 st sp1 = (st', sp2)" by fastforce
  have cfg: "capture_tool_spans sample_audit" by (simp add: sample_audit_def)
  have e: "calls_of sample_events = [\<lparr>ev_name = S ''ls'', ev_input = S ''{}'', ev_call_id = None,
      ev_trace_input = None\<rparr>]"
    by (simp add: calls_of_def sample_events_def)
  have "tool_spans st' = [] \<and> length (closed_spans st') = 1"
    using tool_spans_are_ended_once [OF cfg p c] e by (auto simp: ids_of_def)
  moreover have "sp1 = None" using p by (simp add: sample_events_def flush_buffers_def Let_def split: if_split_asm)
  ultimately show ?thesis using c unfolding st_def by simp
qed

text \<open>
  Choice events say what the model said. On a recording run span, an enabled logger adds nothing but
  \<open>gen_ai.choice\<close> events; without content capture they carry no attribute at all, and with it the
  completions and the reasoning put together, the last flush included, are exactly the text and the
  thinking of the event stream.
\<close>

theorem choice_events_carry_the_text:
  assumes "audit_enabled cfg" "is_recording s"
    and "process_events cfg es initial_audit (Some s) = (st, sp)"
    and "flush_buffers cfg st sp = (st', Some s')"
  shows "span_ops s' = span_ops s @ drop (length (span_ops s)) (span_ops s') \<and>
    (\<forall>op \<in> set (drop (length (span_ops s)) (span_ops s')). is_choice cfg op) \<and>
    (capture_content cfg \<longrightarrow>
      completions (drop (length (span_ops s)) (span_ops s')) = texts_of es \<and>
      reasonings (drop (length (span_ops s)) (span_ops s')) = thoughts_of es)"
proof -
  obtain ops where p: "sp = Some (s\<lparr>span_ops := span_ops s @ ops\<rparr>)" "\<forall>op \<in> set ops. is_choice cfg op"
      "capture_content cfg \<longrightarrow> completions ops @ concat (text_buffer st) = texts_of es \<and>
        reasonings ops @ concat (thinking_buffer st) = thoughts_of es"
    using process_events_choices [OF assms(1,2), of es initial_audit] assms(3)
    by (auto simp: initial_audit_def)
  have "s' = s\<lparr>span_ops := span_ops s @ ops @ flushed_ops cfg st\<rparr>"
    using flush_recording [OF assms(1) still_recording [OF assms(2) p(2)], of st] assms(4) p(1) by simp
  then show ?thesis using p(2,3) flushed_ops_facts [of cfg st] by auto
qed

lemma choice_events_carry_the_text_witness:
  "case process_events sample_audit sample_events initial_audit
      (Some \<lparr>span_title = [], span_start_attributes = [], span_sampled = True, span_ops = []\<rparr>) of
     (st, sp) \<Rightarrow> (case flush_buffers sample_audit st sp of
        (_, Some s) \<Rightarrow> completions (span_ops s) = S ''ab''
      | _ \<Rightarrow> False)"
proof -
  let ?s = "\<lparr>span_title = [], span_start_attributes = [], span_sampled = True, span_ops = []\<rparr>"
  have cfg: "audit_enabled sample_audit" "capture_content sample_audit" by (simp_all add: sample_audit_def)
  have r: "is_recording ?s" by (simp add: is_recording_def)
  obtain st ops where p: "process_events sample_audit sample_events initial_audit (Some ?s) =
      (st, Some (?s\<lparr>span_ops := ops\<rparr>))" "\<forall>op \<in> set ops. is_choice sample_audit op"
    using process_events_choices [OF cfg(1) r, of sample_events initial_audit] by auto
  obtain st' s' where f: "flush_buffers sample_audit st (Some (?s\<lparr>span_ops := ops\<rparr>)) = (st', Some s')"
    using flush_recording [OF cfg(1), of "?s\<lparr>span_ops := ops\<rparr>" st] still_recording [OF r p(2)] by auto
  have "completions (span_ops s') = texts_of sample_events"
    using choice_events_carry_the_text [OF cfg(1) r p(1) f] cfg(2) by simp
  also have "\<dots> = S ''ab''" by (simp add: texts_of_def sample_events_def S_def)
  finally show ?thesis using p(1) f by simp
qed

end
