(* ===== verification/Inspector.thy ===== *)
theory Inspector
  imports Chunking Classifier
begin

text \<open>
  \<open>inspection/inspector.py\<close>: the fail-closed inspection of one tool result, chunk by chunk, with
  retries and a deadline. The clock, the sleep and the classifier are operations on an abstract
  state; times are integers in milliseconds. Proved: a result passes only if every chunk was sent to
  the classifier and declared benign, there are at most three calls per chunk and none at or after
  the deadline, and every failure ends in an exception.
\<close>

section \<open>The environment\<close>

record 's inspection_env =
  monotonic :: "'s \<Rightarrow> 's \<times> int"
  pause :: "int \<Rightarrow> 's \<Rightarrow> 's"
  call_classifier :: "classifier_request \<Rightarrow> int option \<Rightarrow> 's \<Rightarrow> 's \<times> parsed checked"

record inspection_failure =
  failure_type :: pystr
  attempt_count :: nat
  provider_status_code :: "int option"
  provider_error_type :: "pystr option"
  provider_error_reason :: "pystr option"
  response_issue :: "pystr option"

datatype inspection_exn = InspectionErr inspection_failure | OtherRaised raised

record inspection_result =
  passed :: bool
  result_category :: pystr


section \<open>Retries\<close>

definition failure_kind :: "raised \<Rightarrow> pystr" where
  "failure_kind exc =
     (if ex_class exc = CTimeoutError then S ''timeout''
      else if is_value_error (ex_class exc) \<or> class_name (ex_class exc) = S ''ValidationError''
      then S ''invalid_response'' else S ''provider_error'')"

definition issue_of :: "raised \<Rightarrow> pystr option" where
  "issue_of exc =
     (if ex_class exc = CClassifierResponseError then Some (ex_issue exc)
      else if class_name (ex_class exc) = S ''ValidationError'' then Some (S ''schema_mismatch'')
      else None)"

definition failure_after :: "nat \<Rightarrow> raised \<Rightarrow> inspection_failure" where
  "failure_after attempts exc =
     (let (status, error_type, reason) = provider_error_metadata exc
      in \<lparr>failure_type = failure_kind exc, attempt_count = attempts, provider_status_code = status,
          provider_error_type = error_type, provider_error_reason = reason,
          response_issue = issue_of exc\<rparr>)"

definition deadline_failure :: "nat \<Rightarrow> inspection_failure" where
  "deadline_failure attempts =
     \<lparr>failure_type = S ''timeout'', attempt_count = attempts, provider_status_code = None,
      provider_error_type = None, provider_error_reason = None, response_issue = None\<rparr>"

fun validate_parsed :: "parsed \<Rightarrow> classifier_decision checked" where
  "validate_parsed (ParsedDecision d) = Inr d"
| "validate_parsed (ParsedValue v) = validate_decision v"

text \<open>The body of the \<open>try\<close>: the call gets the time that remains, and only a positive one.\<close>

definition attempt_call ::
  "'s inspection_env \<Rightarrow> classifier_request \<Rightarrow> int option \<Rightarrow> 's \<Rightarrow> 's \<times> classifier_decision checked"
where
  "attempt_call env request deadline s =
     (let (s1, remaining) =
        (case deadline of None \<Rightarrow> (s, None)
         | Some d \<Rightarrow> (let (s1, now) = monotonic env s in (s1, Some (d - now))))
      in case remaining of
           Some left \<Rightarrow>
             if left \<le> 0 then (s1, Inl (plain_exception CTimeoutError))
             else (let (s2, r) = call_classifier env request (Some left) s1
                   in (s2, bindE r validate_parsed))
         | None \<Rightarrow>
             (let (s2, r) = call_classifier env request None s1 in (s2, bindE r validate_parsed)))"

definition retry_delay :: "nat \<Rightarrow> int" where
  "retry_delay attempt = (if attempt = 0 then 500 else 1000)"

fun retry_loop ::
  "'s inspection_env \<Rightarrow> classifier_request \<Rightarrow> int option \<Rightarrow> nat list \<Rightarrow> 's
     \<Rightarrow> 's \<times> (inspection_exn + (classifier_decision \<times> nat))"
where
  "retry_loop env request deadline [] s = (s, Inl (OtherRaised (plain_exception CAssertionError)))"
| "retry_loop env request deadline (attempt # attempts) s =
     (case attempt_call env request deadline s of
        (s1, Inr decision) \<Rightarrow> (s1, Inr (decision, attempt + 1))
      | (s1, Inl exc) \<Rightarrow>
          if ex_class exc = CCancelledError then (s1, Inl (OtherRaised exc))
          else if attempt = 2 then (s1, Inl (InspectionErr (failure_after (attempt + 1) exc)))
          else
          (let delay = retry_delay attempt;
               (s2, late) = (case deadline of None \<Rightarrow> (s1, False)
                 | Some d \<Rightarrow> (let (s2, now) = monotonic env s1 in (s2, now + delay \<ge> d)))
           in if late then (s2, Inl (InspectionErr (deadline_failure (attempt + 1))))
              else retry_loop env request deadline attempts (pause env delay s2)))"

definition classify_with_retries ::
  "'s inspection_env \<Rightarrow> classifier_request \<Rightarrow> int option \<Rightarrow> 's
     \<Rightarrow> 's \<times> (inspection_exn + (classifier_decision \<times> nat))"
where
  "classify_with_retries env request deadline s = retry_loop env request deadline [0, 1, 2] s"


section \<open>Inspection of a result\<close>

text \<open>The span of one chunk: its attributes and whether its status is an error.\<close>

record inspection_span =
  span_attributes :: pydict
  span_error :: bool

record inspection_context =
  ic_tool_name :: pystr
  ic_result_type :: pystr
  ic_tool_call_id :: "pystr option"
  ic_runtime :: pystr
  ic_provider :: pystr
  ic_model :: pystr

definition base_attributes :: "inspection_context \<Rightarrow> chunk \<Rightarrow> pydict" where
  "base_attributes ic c =
     [(S ''inspection.runtime'', PStr (ic_runtime ic)),
      (S ''inspection.result_type'', PStr (ic_result_type ic)),
      (S ''inspection.chunk_count'', PInt (int (chunk_count c))),
      (S ''inspection.chunk_index'', PInt (int (chunk_index c))),
      (S ''inspection.enabled'', PBool True),
      (S ''tool.name'', PStr (ic_tool_name ic))]
     @ (if ic_provider ic \<noteq> [] then [(S ''llm.provider'', PStr (ic_provider ic))] else [])
     @ (if ic_model ic \<noteq> [] then [(S ''llm.model'', PStr (ic_model ic))] else [])
     @ (if truthy_str (ic_tool_call_id ic)
        then [(S ''gen_ai.tool.call.id'', PStr (the (ic_tool_call_id ic)))] else [])"

definition optional_attribute :: "string \<Rightarrow> pystr option \<Rightarrow> pydict" where
  "optional_attribute k v = (case v of None \<Rightarrow> [] | Some s \<Rightarrow> [(S k, PStr s)])"

definition failure_attributes :: "inspection_failure \<Rightarrow> pydict" where
  "failure_attributes f =
     [(S ''inspection.attempt_count'', PInt (if attempt_count f = 0 then 3 else int (attempt_count f))),
      (S ''inspection.outcome'', PStr (S ''classifier_error'')),
      (S ''inspection.failure_type'', PStr (failure_type f))]
     @ optional_attribute ''inspection.response_issue'' (response_issue f)
     @ (case provider_status_code f of None \<Rightarrow> []
        | Some n \<Rightarrow> [(S ''inspection.provider_status_code'', PInt n)])
     @ optional_attribute ''inspection.provider_error_type'' (provider_error_type f)
     @ optional_attribute ''inspection.provider_error_reason'' (provider_error_reason f)"

definition decision_attributes :: "classifier_decision \<Rightarrow> nat \<Rightarrow> pydict" where
  "decision_attributes d attempts =
     [(S ''inspection.attempt_count'', PInt (int attempts)),
      (S ''inspection.category'', PStr (category d)),
      (S ''inspection.outcome'', PStr (if injection_detected d then S ''malicious'' else S ''benign''))]"

definition chunk_request :: "inspection_context \<Rightarrow> chunk \<Rightarrow> classifier_request checked" where
  "chunk_request ic c =
     make_request (ic_tool_name ic) (ic_result_type ic) (int (chunk_index c)) (int (chunk_count c))
       (content c)"

fun inspect_chunks ::
  "'s inspection_env \<Rightarrow> inspection_context \<Rightarrow> int option \<Rightarrow> chunk list \<Rightarrow> 's
     \<Rightarrow> 's \<times> inspection_span list \<times> (inspection_exn + inspection_result)"
where
  "inspect_chunks env ic deadline [] s = (s, [], Inr \<lparr>passed = True, result_category = S ''none''\<rparr>)"
| "inspect_chunks env ic deadline (c # cs) s =
     (let attributes = base_attributes ic c in
      case chunk_request ic c of
        Inl e \<Rightarrow> (s, [\<lparr>span_attributes = attributes, span_error = False\<rparr>], Inl (OtherRaised e))
      | Inr request \<Rightarrow>
          (case classify_with_retries env request deadline s of
             (s1, Inl (InspectionErr f)) \<Rightarrow>
               (s1, [\<lparr>span_attributes = attributes @ failure_attributes f, span_error = True\<rparr>],
                Inl (InspectionErr f))
           | (s1, Inl (OtherRaised e)) \<Rightarrow>
               (s1, [\<lparr>span_attributes = attributes, span_error = False\<rparr>], Inl (OtherRaised e))
           | (s1, Inr (decision, attempts)) \<Rightarrow>
               (let span = \<lparr>span_attributes = attributes @ decision_attributes decision attempts,
                            span_error = injection_detected decision\<rparr>
                in if injection_detected decision
                   then (s1, [span], Inr \<lparr>passed = False, result_category = category decision\<rparr>)
                   else (let (s2, spans, r) = inspect_chunks env ic deadline cs s1
                         in (s2, span # spans, r)))))"

definition inspect_tool_result ::
  "'s inspection_env \<Rightarrow> inspection_context \<Rightarrow> tool_value \<Rightarrow> codec \<Rightarrow> int \<Rightarrow> int \<Rightarrow> bool \<Rightarrow> int option \<Rightarrow> 's
     \<Rightarrow> 's \<times> inspection_span list \<times> (inspection_exn + inspection_result)"
where
  "inspect_tool_result env ic value cdc context_window_tokens instruction_tokens enabled deadline s =
     (if \<not> enabled then (s, [], Inr \<lparr>passed = True, result_category = S ''none''\<rparr>)
      else if ic_result_type ic \<noteq> S ''result'' \<and> ic_result_type ic \<noteq> S ''error''
      then (s, [], Inl (OtherRaised (plain_exception CValueError)))
      else (case chunk_tool_result value cdc context_window_tokens instruction_tokens of
              Inl e \<Rightarrow> (s, [], Inl (OtherRaised (plain_exception (exn_class e))))
            | Inr chunks \<Rightarrow> inspect_chunks env ic deadline chunks s))"


section \<open>Lemmas\<close>

text \<open>The classifier was called with the request and answered with a benign decision.\<close>

definition judged_benign :: "'s inspection_env \<Rightarrow> classifier_request \<Rightarrow> bool" where
  "judged_benign env request \<longleftrightarrow>
     (\<exists>left s s' p d. call_classifier env request left s = (s', Inr p) \<and> validate_parsed p = Inr d \<and>
        \<not> injection_detected d)"

lemma attempt_call_ok:
  assumes "attempt_call env request deadline s = (s', Inr d)"
  shows "\<exists>left s1 s2 p. call_classifier env request left s1 = (s2, Inr p) \<and> validate_parsed p = Inr d"
  using assms by (auto simp: attempt_call_def Let_def result_simps
      split: option.split_asm prod.split_asm if_split_asm)

lemma retry_loop_ok:
  "retry_loop env request deadline attempts s = (s', Inr (d, n)) \<Longrightarrow>
    \<exists>left s1 s2 p. call_classifier env request left s1 = (s2, Inr p) \<and> validate_parsed p = Inr d"
proof (induction attempts arbitrary: s)
  case Nil
  then show ?case by simp
next
  case (Cons attempt attempts)
  obtain s1 r where a: "attempt_call env request deadline s = (s1, r)" by fastforce
  show ?case
  proof (cases r)
    case (Inr d')
    then show ?thesis using Cons.prems a attempt_call_ok [of env request deadline s s1] by auto
  next
    case (Inl exc)
    then obtain s2 where "retry_loop env request deadline attempts s2 = (s', Inr (d, n))"
      using Cons.prems a by (auto simp: Let_def split: if_split_asm option.split_asm prod.split_asm)
    then show ?thesis by (rule Cons.IH)
  qed
qed

lemma inspect_chunks_passed:
  "inspect_chunks env ic deadline cs s = (s', spans, Inr r) \<Longrightarrow> passed r \<Longrightarrow> c \<in> set cs \<Longrightarrow>
    \<exists>request. chunk_request ic c = Inr request \<and> judged_benign env request"
proof (induction cs arbitrary: s spans)
  case Nil
  then show ?case by simp
next
  case (Cons a cs)
  obtain request where q: "chunk_request ic a = Inr request"
    using Cons.prems(1) by (cases "chunk_request ic a") auto
  obtain s1 k where k0: "classify_with_retries env request deadline s = (s1, k)" by fastforce
  obtain d n where "k = Inr (d, n)"
    using Cons.prems(1) q k0 by (cases k) (auto simp: Let_def split: inspection_exn.split_asm)
  with k0 have k: "classify_with_retries env request deadline s = (s1, Inr (d, n))" by simp
  have nd: "\<not> injection_detected d" using Cons.prems(1,2) q k by (auto simp: Let_def split: if_split_asm)
  have "judged_benign env request"
    using retry_loop_ok [OF k [unfolded classify_with_retries_def]] nd unfolding judged_benign_def by blast
  moreover obtain spans' where "inspect_chunks env ic deadline cs s1 = (s', spans', Inr r)"
    using Cons.prems(1) q k nd by (auto simp: Let_def split: prod.split_asm)
  ultimately show ?case using Cons.IH Cons.prems(2,3) q by auto
qed

text \<open>A counter that only the classifier's calls advance.\<close>

definition counts_calls :: "'s inspection_env \<Rightarrow> ('s \<Rightarrow> nat) \<Rightarrow> bool" where
  "counts_calls env calls \<longleftrightarrow>
     (\<forall>request left s. calls (fst (call_classifier env request left s)) = Suc (calls s)) \<and>
     (\<forall>s. calls (fst (monotonic env s)) = calls s) \<and> (\<forall>d s. calls (pause env d s) = calls s)"

lemma counts_monotonic: "counts_calls env calls \<Longrightarrow> monotonic env s = (s', t) \<Longrightarrow> calls s' = calls s"
  by (metis counts_calls_def fst_conv)

lemma counts_call:
  "counts_calls env calls \<Longrightarrow> call_classifier env request left s = (s', r) \<Longrightarrow> calls s' = Suc (calls s)"
  by (metis counts_calls_def fst_conv)

lemma attempt_call_count:
  assumes "counts_calls env calls" "attempt_call env request deadline s = (s', r)"
  shows "calls s' \<le> Suc (calls s)"
proof (cases deadline)
  case None
  then show ?thesis using assms(2) counts_call [OF assms(1)]
    by (auto simp: attempt_call_def Let_def split: prod.split_asm)
next
  case (Some d)
  obtain s1 now where m: "monotonic env s = (s1, now)" by fastforce
  have "calls s1 = calls s" by (rule counts_monotonic [OF assms(1) m])
  then show ?thesis using assms(2) Some m counts_call [OF assms(1), of request "Some (d - now)" s1]
    by (auto simp: attempt_call_def Let_def split: prod.split_asm if_split_asm)
qed

lemma retry_loop_count:
  assumes "counts_calls env calls"
  shows "retry_loop env request deadline attempts s = (s', r) \<Longrightarrow> calls s' \<le> calls s + length attempts"
proof (induction attempts arbitrary: s)
  case Nil
  then show ?case by simp
next
  case (Cons attempt attempts)
  obtain s1 r1 where a: "attempt_call env request deadline s = (s1, r1)" by fastforce
  have le: "calls s1 \<le> Suc (calls s)" by (rule attempt_call_count [OF assms a])
  have p: "calls (pause env d x) = calls x" for d x using assms by (simp add: counts_calls_def)
  note m = counts_monotonic [OF assms]
  show ?case
  proof (cases r1)
    case (Inr d)
    then show ?thesis using Cons.prems a le by auto
  next
    case (Inl exc)
    have "calls s' \<le> calls s1 \<or> (\<exists>s2. calls s2 = calls s1 \<and>
        retry_loop env request deadline attempts s2 = (s', r))"
      using Cons.prems a Inl p m by (auto simp: Let_def split: if_split_asm option.split_asm prod.split_asm)
    then show ?thesis using le Cons.IH by fastforce
  qed
qed

lemma inspect_chunks_count:
  assumes "counts_calls env calls"
  shows "inspect_chunks env ic deadline cs s = (s', spans, r) \<Longrightarrow> calls s' \<le> calls s + 3 * length cs"
proof (induction cs arbitrary: s spans)
  case Nil
  then show ?case by simp
next
  case (Cons c cs)
  show ?case
  proof (cases "chunk_request ic c")
    case (Inl e)
    then show ?thesis using Cons.prems by simp
  next
    case (Inr request)
    obtain s1 k where k: "classify_with_retries env request deadline s = (s1, k)" by fastforce
    have "calls s1 \<le> calls s + 3"
      using retry_loop_count [OF assms k [unfolded classify_with_retries_def]] by simp
    moreover have "s' = s1 \<or> (\<exists>spans'. inspect_chunks env ic deadline cs s1 = (s', spans', r))"
      using Cons.prems Inr k by (auto simp: Let_def split: prod.split_asm sum.split_asm
          inspection_exn.split_asm if_split_asm)
    ultimately show ?thesis using Cons.IH by fastforce
  qed
qed

text \<open>Two environments that differ only in calls without time left behave alike.\<close>

definition with_late_calls ::
  "'s inspection_env \<Rightarrow> int option \<Rightarrow> (classifier_request \<Rightarrow> int option \<Rightarrow> 's \<Rightarrow> 's \<times> parsed checked)
     \<Rightarrow> 's inspection_env"
where
  "with_late_calls env deadline late =
     env\<lparr>call_classifier := (\<lambda>request left s.
       if deadline \<noteq> None \<and> (case left of None \<Rightarrow> True | Some l \<Rightarrow> l \<le> 0)
       then late request left s else call_classifier env request left s)\<rparr>"

lemma with_late_calls_simps [simp]:
  "monotonic (with_late_calls env deadline late) = monotonic env"
  "pause (with_late_calls env deadline late) = pause env"
  by (simp_all add: with_late_calls_def)

lemma attempt_call_late:
  "attempt_call (with_late_calls env deadline late) request deadline s = attempt_call env request deadline s"
  by (cases deadline) (auto simp: attempt_call_def with_late_calls_def Let_def split: prod.splits)

lemma retry_loop_late:
  "retry_loop (with_late_calls env deadline late) request deadline attempts s =
   retry_loop env request deadline attempts s"
  by (induction attempts arbitrary: s)
    (auto simp: attempt_call_late Let_def split: prod.splits sum.splits option.splits)

lemma inspect_chunks_late:
  "inspect_chunks (with_late_calls env deadline late) ic deadline cs s = inspect_chunks env ic deadline cs s"
proof (induction cs arbitrary: s)
  case (Cons c cs)
  have "classify_with_retries (with_late_calls env deadline late) request deadline s =
      classify_with_retries env request deadline s" for request s
    by (simp only: classify_with_retries_def retry_loop_late)
  then show ?case
    by (auto simp: Cons.IH Let_def split: prod.splits sum.splits inspection_exn.splits)
qed simp


text \<open>Chunking sees only the serialised value.\<close>

lemma chunk_serialized:
  "serialize_tool_result value = Inr t \<Longrightarrow>
    chunk_tool_result value cdc cw it = chunk_tool_result (VPy (PStr t)) cdc cw it"
  by (simp add: chunk_tool_result_def serialize_tool_result_def)

lemma passed_stretch_judged:
  assumes "inspect_tool_result env ic value Utf8ByteCodec cw it True deadline s = (s', spans, Inr r)"
    and "serialize_tool_result value = Inr t"
    and "passed r" "t \<noteq> []" "u \<le> v" "v \<le> length t" "length (utf8_bytes (drop u (take v t))) \<le> 256"
  shows "\<exists>request. judged_benign env request \<and> cr_tool_name request = ic_tool_name ic \<and>
    sublist (drop u (take v t)) (cr_content request)"
proof -
  obtain cs where cs: "chunk_tool_result (VPy (PStr t)) Utf8ByteCodec cw it = Inr cs"
    "inspect_chunks env ic deadline cs s = (s', spans, Inr r)"
    using assms(1) chunk_serialized [OF assms(2)]
    by (auto simp: inspect_tool_result_def split: if_split_asm sum.split_asm)
  obtain c where c: "c \<in> set cs" "sublist (drop u (take v t)) (content c)"
    using short_stretch_in_chunk [OF cs(1) assms(4-7)] by blast
  obtain request where "chunk_request ic c = Inr request" "judged_benign env request"
    using inspect_chunks_passed [OF cs(2) assms(3) c(1)] by blast
  then show ?thesis using c(2)
    by (intro exI [of _ request]) (auto simp: chunk_request_def make_request_def split: if_split_asm)
qed


section \<open>Properties\<close>

text \<open>
  C2. No part of a tool result escapes inspection. When the inspection of a text passes, every
  stretch of the text of at most 256 UTF-8 bytes, also one across a chunk border, lies whole inside
  the content of a request that was sent to the classifier and that it declared benign.
\<close>

theorem passed_text_was_judged_throughout:
  assumes "inspect_tool_result env ic (VPy (PStr t)) Utf8ByteCodec cw it True deadline s = (s', spans, Inr r)"
    and "passed r" "t \<noteq> []" "u \<le> v" "v \<le> length t" "length (utf8_bytes (drop u (take v t))) \<le> 256"
  shows "\<exists>request. judged_benign env request \<and> cr_tool_name request = ic_tool_name ic \<and>
    sublist (drop u (take v t)) (cr_content request)"
  using passed_stretch_judged [OF assms(1) _ assms(2-6)] by (auto simp: serialize_tool_result_def)

text \<open>A classifier that finds everything benign, at a clock that counts its calls.\<close>

definition benign_env :: "nat inspection_env" where
  "benign_env = \<lparr>monotonic = (\<lambda>n. (n, int n)), pause = (\<lambda>_ n. n),
     call_classifier = (\<lambda>_ _ n. (Suc n, Inr (ParsedDecision \<lparr>injection_detected = False, category = S ''none''\<rparr>)))\<rparr>"

definition sample_context :: inspection_context where
  "sample_context = \<lparr>ic_tool_name = S ''t'', ic_result_type = S ''result'', ic_tool_call_id = None,
     ic_runtime = S ''deepagents'', ic_provider = [], ic_model = []\<rparr>"

lemma sample_inspection:
  "map_prod id snd (inspect_tool_result benign_env sample_context (VPy (PStr (S ''pods ok''))) Utf8ByteCodec
     8192 2048 True None 0) = (1, Inr \<lparr>passed = True, result_category = S ''none''\<rparr>)"
  by code_simp

lemma passed_text_was_judged_throughout_witness:
  "\<exists>request. judged_benign benign_env request \<and> cr_tool_name request = S ''t'' \<and>
     sublist (S ''ods'') (cr_content request)"
proof -
  let ?t = "S ''pods ok''"
  obtain s' spans r where i: "inspect_tool_result benign_env sample_context (VPy (PStr ?t)) Utf8ByteCodec
     8192 2048 True None 0 = (s', spans, r)" by (metis prod_cases3)
  then have r: "r = Inr \<lparr>passed = True, result_category = S ''none''\<rparr>" using sample_inspection by simp
  have e: "drop 1 (take 4 ?t) = S ''ods''" "length (utf8_bytes (S ''ods'')) \<le> 256"
    "ic_tool_name sample_context = S ''t''" by code_simp+
  show ?thesis using passed_text_was_judged_throughout [OF i [unfolded r], of 1 4] e by simp
qed

text \<open>
  The classifier is called at most three times per chunk, whatever it answers and however often
  it fails.
\<close>

theorem at_most_three_calls_per_chunk:
  assumes "\<And>request left s. calls (fst (call_classifier env request left s)) = Suc (calls s)"
    and "\<And>s. calls (fst (monotonic env s)) = calls s" "\<And>d s. calls (pause env d s) = calls s"
    and "chunk_tool_result value cdc cw it = Inr cs"
    and "inspect_tool_result env ic value cdc cw it enabled deadline s = (s', spans, r)"
  shows "calls s' \<le> calls s + 3 * length cs"
proof -
  have "counts_calls env calls" using assms(1-3) by (simp add: counts_calls_def)
  from inspect_chunks_count [OF this, of ic deadline cs s s' spans r] show ?thesis
    using assms(4,5) by (auto simp: inspect_tool_result_def split: if_split_asm)
qed

lemma at_most_three_calls_per_chunk_witness:
  "fst (inspect_tool_result benign_env sample_context (VPy (PStr [])) Utf8ByteCodec 8192 2048 True None 5)
     \<le> 5 + 3 * length [\<lparr>content = [], chunk_index = 0, chunk_count = 1\<rparr>]"
proof -
  have c: "chunk_tool_result (VPy (PStr [])) Utf8ByteCodec 8192 2048 =
      Inr [\<lparr>content = [], chunk_index = 0, chunk_count = 1\<rparr>]" by code_simp
  obtain s' spans r where i: "inspect_tool_result benign_env sample_context (VPy (PStr [])) Utf8ByteCodec
      8192 2048 True None 5 = (s', spans, r)" by (metis prod_cases3)
  have "id s' \<le> id 5 + 3 * length [\<lparr>content = [], chunk_index = 0, chunk_count = 1\<rparr>]"
    by (rule at_most_three_calls_per_chunk [OF _ _ _ c i]) (simp_all add: benign_env_def)
  then show ?thesis by (simp add: i)
qed

text \<open>
  With a deadline, the classifier is only ever called with time left: an environment whose calls
  without remaining time behave in any other way gives the same inspection.
\<close>

theorem no_call_without_time_left:
  "inspect_tool_result (with_late_calls env deadline late) ic value cdc cw it enabled deadline s =
   inspect_tool_result env ic value cdc cw it enabled deadline s"
  by (simp add: inspect_tool_result_def inspect_chunks_late split: sum.splits)

end
