(* ===== verification/Middleware.thy ===== *)
theory Middleware
  imports Inspector Types PyWorld
begin

text \<open>
  \<open>inspection/middleware.py\<close>: the gate between the tools and the model. It decides which tool
  results are untrusted, sends each of them to the inspector, wraps them in \<open>tool_data\<close> tags and only
  then lets the model call go on. The inspector works on an abstract state; SHA-256 is a parameter.
  Proved: wrapped text has one closing tag, at its end; a trusted path is a normal path below
  \<open>/skills\<close>; and, over every sequence of model calls that share the middleware, no untrusted result
  reaches the model that the inspector has not accepted.
\<close>

section \<open>Messages\<close>

record tool_call =
  tc_name :: pystr
  tc_args :: pydict
  tc_id :: "pystr option"

text \<open>\<open>msg_identity\<close> is Python's \<open>id(message)\<close>.\<close>

record tool_message =
  msg_identity :: nat
  msg_name :: "pystr option"
  msg_status :: pystr
  msg_call_id :: pystr
  msg_content :: tool_value

datatype chat_message =
    AiMessage "tool_call list"
  | ToolMessage tool_message
  | OtherMessage pyval

fun tool_message_of :: "chat_message \<Rightarrow> tool_message option" where
  "tool_message_of (ToolMessage m) = Some m"
| "tool_message_of _ = None"


section \<open>Wrapping\<close>

text \<open>A block that carries nothing but text.\<close>

definition text_only_block :: "pyval \<Rightarrow> pystr option" where
  "text_only_block block =
     (case block of
        PDict d \<Rightarrow>
          (case dgetn d (S ''text'') of
             PStr t \<Rightarrow>
               if dgetn d (S ''type'') = PStr (S ''text'')
                  \<and> set (map fst d) \<subseteq> {S ''type'', S ''text'', S ''id''}
               then Some t else None
           | _ \<Rightarrow> None)
      | _ \<Rightarrow> None)"

definition joined_blocks :: "tool_value \<Rightarrow> tool_value" where
  "joined_blocks value =
     (case value of
        VPy (PList blocks) \<Rightarrow>
          if blocks \<noteq> [] \<and> (\<forall>b \<in> set blocks. text_only_block b \<noteq> None)
          then VPy (PStr (join [10] (map (\<lambda>b. the (text_only_block b)) blocks)))
          else value
      | _ \<Rightarrow> value)"

text \<open>
  \<open>re.IGNORECASE\<close> on the letters of the pattern, none of which has a case variant outside ASCII.
\<close>

definition fold_case :: "codepoint \<Rightarrow> codepoint" where
  "fold_case c = (if 65 \<le> c \<and> c \<le> 90 then c + 32 else c)"

definition closing_tag :: pystr where
  "closing_tag = S ''</tool_data''"

definition closes_here :: "pystr \<Rightarrow> bool" where
  "closes_here s \<longleftrightarrow> map fold_case (take (length closing_tag) s) = closing_tag"

lemma closing_tag_length [simp]: "length closing_tag = 11"
  by (simp add: closing_tag_def)

lemma closes_here_length: "closes_here s \<Longrightarrow> 11 \<le> length s"
proof -
  assume "closes_here s"
  then have "length (map fold_case (take 11 s)) = length closing_tag"
    unfolding closes_here_def by simp
  then show ?thesis by simp
qed

text \<open>\<open>re.sub\<close>: leftmost matches, each replaced by itself with a backslash after the \<open><\<close>.\<close>

function escape_closing :: "pystr \<Rightarrow> pystr" where
  "escape_closing s =
     (if closes_here s
      then [60, 92, 47] @ drop 2 (take (length closing_tag) s)
             @ escape_closing (drop (length closing_tag) s)
      else (case s of [] \<Rightarrow> [] | c # cs \<Rightarrow> c # escape_closing cs))"
  by pat_completeness auto
termination
  by (relation "measure length") (auto dest: closes_here_length)

declare escape_closing.simps [simp del]

text \<open>\<open>html.escape(s, quote=True)\<close>.\<close>

definition html_escape_cp :: "codepoint \<Rightarrow> pystr" where
  "html_escape_cp c =
     (if c = 38 then S ''&amp;'' else if c = 60 then S ''&lt;'' else if c = 62 then S ''&gt;''
      else if c = 34 then S ''&quot;'' else if c = 39 then S ''&#x27;'' else [c])"

definition html_escape :: "pystr \<Rightarrow> pystr" where
  "html_escape s = concat (map html_escape_cp s)"

definition wrap_tool_output :: "tool_value \<Rightarrow> pystr \<Rightarrow> pystr result" where
  "wrap_tool_output value tool_name =
     bindE (stringify (Plain (joined_blocks value))) (\<lambda>t.
       Inr (S ''<tool_data source='' @ [34] @ html_escape tool_name @ [34] @ S ''>'' @ [10]
            @ escape_closing t @ [10] @ S ''</tool_data>''))"


section \<open>Trust\<close>

definition is_trusted_tool_result :: "tool_message \<Rightarrow> tool_call option \<Rightarrow> bool" where
  "is_trusted_tool_result m call \<longleftrightarrow>
     (case call of
        None \<Rightarrow> False
      | Some c \<Rightarrow>
          msg_status m = S ''success'' \<and> msg_name m = Some (S ''read_file'')
          \<and> tc_name c = S ''read_file''
          \<and> (case dgetn (tc_args c) (S ''file_path'') of
               PStr p \<Rightarrow>
                 starts_with p (S ''/skills/'') \<and> 92 \<notin> set p \<and> 0 \<notin> set p
                 \<and> (\<forall>part \<in> set (drop 2 (split_on 47 p)). part \<notin> {[], S ''.'', S ''..''})
             | _ \<Rightarrow> False))"

text \<open>A call id that is used twice identifies no call.\<close>

fun note_calls :: "tool_call option dict \<Rightarrow> tool_call list \<Rightarrow> tool_call option dict" where
  "note_calls calls [] = calls"
| "note_calls calls (c # cs) =
     (case tc_id c of
        Some i \<Rightarrow>
          if i = [] then note_calls calls cs
          else note_calls (dset calls i (if has_key calls i then None else Some c)) cs
      | None \<Rightarrow> note_calls calls cs)"

definition call_for :: "tool_call option dict \<Rightarrow> pystr \<Rightarrow> tool_call option" where
  "call_for calls i = (case dget calls i of None \<Rightarrow> None | Some c \<Rightarrow> c)"

fun untrusted_from :: "tool_call option dict \<Rightarrow> chat_message list \<Rightarrow> tool_message list" where
  "untrusted_from calls [] = []"
| "untrusted_from calls (AiMessage cs # ms) = untrusted_from (note_calls calls cs) ms"
| "untrusted_from calls (ToolMessage m # ms) =
     (if is_trusted_tool_result m (call_for calls (msg_call_id m))
      then untrusted_from calls ms else m # untrusted_from calls ms)"
| "untrusted_from calls (OtherMessage v # ms) = untrusted_from calls ms"

definition filter_untrusted_tool_results :: "chat_message list \<Rightarrow> tool_message list" where
  "filter_untrusted_tool_results ms = untrusted_from [] ms"


section \<open>The gate\<close>

text \<open>Name, result type, call id and digest of a result.\<close>

type_synonym signature = "pystr \<times> pystr \<times> pystr \<times> pystr"

definition signature_of ::
  "(int list \<Rightarrow> pystr) \<Rightarrow> pystr \<Rightarrow> pystr \<Rightarrow> pystr \<Rightarrow> tool_value \<Rightarrow> signature result"
where
  "signature_of sha256 tool_name result_type call_id value =
     bindE (serialize_tool_result value) (\<lambda>t.
     bindE (utf8_encode t) (\<lambda>bs. Inr (tool_name, result_type, call_id, sha256 bs)))"

definition inspection_failed :: exn where
  "inspection_failed =
     Exn CToolResultSafetyInspectionFailed (S ''ToolResultSafetyInspectionFailed'')"

definition name_of :: "tool_message \<Rightarrow> pystr" where
  "name_of m = (case msg_name m of None \<Rightarrow> [] | Some n \<Rightarrow> n)"

definition result_type_of :: "tool_message \<Rightarrow> pystr" where
  "result_type_of m = (if msg_status m = S ''error'' then S ''error'' else S ''result'')"

definition message_signature :: "(int list \<Rightarrow> pystr) \<Rightarrow> tool_message \<Rightarrow> signature result" where
  "message_signature sha256 m =
     signature_of sha256 (name_of m) (result_type_of m) (msg_call_id m) (msg_content m)"

text \<open>
  An inspector: tool name, result type, value and call id; it raises or returns an outcome, of
  which only the attribute \<open>passed\<close> is read (\<open>None\<close>: the outcome has none).
\<close>

type_synonym 's inspector_fn =
  "pystr \<Rightarrow> pystr \<Rightarrow> tool_value \<Rightarrow> pystr \<Rightarrow> 's \<Rightarrow> 's \<times> (unit + bool option)"

text \<open>The inspection loop: the signatures classified so far, and an exception that ends it.\<close>

fun inspect_messages ::
  "(int list \<Rightarrow> pystr) \<Rightarrow> 's inspector_fn \<Rightarrow> nat list \<Rightarrow> chat_message list \<Rightarrow> signature list \<Rightarrow> 's
     \<Rightarrow> 's \<times> signature list \<times> exn option"
where
  "inspect_messages sha256 inspector untrusted [] sigs s = (s, sigs, None)"
| "inspect_messages sha256 inspector untrusted (ToolMessage m # ms) sigs s =
     (case message_signature sha256 m of
        Inl e \<Rightarrow>
          (s, sigs, Some (if is_value_error (exn_class e) \<or> exn_class e = CTypeError
                          then inspection_failed else e))
      | Inr sig \<Rightarrow>
          if msg_identity m \<notin> set untrusted \<or> sig \<in> set sigs
          then inspect_messages sha256 inspector untrusted ms sigs s
          else
          (case inspector (name_of m) (result_type_of m) (msg_content m) (msg_call_id m) s of
             (s1, Inl _) \<Rightarrow> (s1, sigs, Some inspection_failed)
           | (s1, Inr outcome) \<Rightarrow>
               if outcome = Some False then (s1, sigs, Some inspection_failed)
               else inspect_messages sha256 inspector untrusted ms (sig # sigs) s1))"
| "inspect_messages sha256 inspector untrusted (AiMessage cs # ms) sigs s =
     inspect_messages sha256 inspector untrusted ms sigs s"
| "inspect_messages sha256 inspector untrusted (OtherMessage v # ms) sigs s =
     inspect_messages sha256 inspector untrusted ms sigs s"

definition model_message :: "nat list \<Rightarrow> chat_message \<Rightarrow> chat_message result" where
  "model_message untrusted message =
     (case message of
        ToolMessage m \<Rightarrow>
          if truthy_str (msg_name m) \<and> msg_identity m \<in> set untrusted
          then bindE (wrap_tool_output (msg_content m) (the (msg_name m))) (\<lambda>t.
                 Inr (ToolMessage (m\<lparr>msg_content := VPy (PStr t)\<rparr>)))
          else Inr message
      | _ \<Rightarrow> Inr message)"

text \<open>
  One model call: the inspector's state, the signatures, and either an exception or the accepted
  results (for \<open>on_accepted\<close>) with the messages handed to the model.
\<close>

definition awrap_model_call ::
  "(int list \<Rightarrow> pystr) \<Rightarrow> 's inspector_fn option \<Rightarrow> chat_message list \<Rightarrow> signature list \<Rightarrow> 's
     \<Rightarrow> 's \<times> signature list \<times> (exn + tool_message list \<times> chat_message list)"
where
  "awrap_model_call sha256 inspector messages sigs s =
     (let untrusted = map msg_identity (filter_untrusted_tool_results messages);
          (s1, sigs1, failure) =
            (case inspector of None \<Rightarrow> (s, sigs, None)
             | Some f \<Rightarrow> inspect_messages sha256 f untrusted messages sigs s)
      in case failure of
           Some e \<Rightarrow> (s1, sigs1, Inl e)
         | None \<Rightarrow>
             (s1, sigs1,
              bindE (mapE (model_message untrusted) messages) (\<lambda>delivered.
                Inr (List.map_filter tool_message_of messages, delivered))))"

text \<open>The tool-handler boundary: what an exception of the handler becomes.\<close>

definition awrap_tool_call :: "'a result \<Rightarrow> 'a result" where
  "awrap_tool_call handled =
     (case handled of
        Inr x \<Rightarrow> Inr x
      | Inl e \<Rightarrow>
          if exn_class e \<in> {CToolResultSafetyInspectionFailed, CToolExecutionError, CCancelledError}
          then Inl e else Inl tool_execution_error)"


section \<open>Concurrent model calls\<close>

text \<open>
  The main agent and its subagents share one middleware, and its calls interleave at the \<open>await\<close> of
  the inspector: a call checks its next message in one step, and a later step takes the inspector's
  answer, while other calls may have added signatures in between.
\<close>

datatype task =
    Checking "chat_message list"
  | Awaiting signature tool_message "chat_message list"
  | Passed
  | Failed exn

fun check_next :: "(int list \<Rightarrow> pystr) \<Rightarrow> nat list \<Rightarrow> signature list \<Rightarrow> chat_message list \<Rightarrow> task" where
  "check_next sha256 untrusted sigs [] = Passed"
| "check_next sha256 untrusted sigs (ToolMessage m # ms) =
     (case message_signature sha256 m of
        Inl e \<Rightarrow> Failed (if is_value_error (exn_class e) \<or> exn_class e = CTypeError
                         then inspection_failed else e)
      | Inr sig \<Rightarrow>
          if msg_identity m \<notin> set untrusted \<or> sig \<in> set sigs then Checking ms
          else Awaiting sig m ms)"
| "check_next sha256 untrusted sigs (AiMessage cs # ms) = Checking ms"
| "check_next sha256 untrusted sigs (OtherMessage v # ms) = Checking ms"

definition take_outcome ::
  "unit + bool option \<Rightarrow> signature \<Rightarrow> chat_message list \<Rightarrow> signature list \<Rightarrow> signature list \<times> task"
where
  "take_outcome answer sig ms sigs =
     (case answer of
        Inl _ \<Rightarrow> (sigs, Failed inspection_failed)
      | Inr outcome \<Rightarrow>
          if outcome = Some False then (sigs, Failed inspection_failed)
          else (sig # sigs, Checking ms))"

record gate =
  gate_sigs :: "signature list"
  gate_tasks :: "(chat_message list \<times> task) list"

definition untrusted_ids :: "chat_message list \<Rightarrow> nat list" where
  "untrusted_ids ms = map msg_identity (filter_untrusted_tool_results ms)"

inductive gate_step :: "(int list \<Rightarrow> pystr) \<Rightarrow> 's inspector_fn \<Rightarrow> gate \<Rightarrow> gate \<Rightarrow> bool"
  for sha256 inspector
where
  begin_call: "gate_step sha256 inspector g (g\<lparr>gate_tasks := gate_tasks g @ [(ms, Checking ms)]\<rparr>)"
| check: "i < length (gate_tasks g) \<Longrightarrow> gate_tasks g ! i = (ms, Checking rest) \<Longrightarrow>
    gate_step sha256 inspector g
      (g\<lparr>gate_tasks := (gate_tasks g)[i := (ms, check_next sha256 (untrusted_ids ms) (gate_sigs g) rest)]\<rparr>)"
| answer: "i < length (gate_tasks g) \<Longrightarrow> gate_tasks g ! i = (ms, Awaiting sig m rest) \<Longrightarrow>
    inspector (name_of m) (result_type_of m) (msg_content m) (msg_call_id m) s = (s', r) \<Longrightarrow>
    take_outcome r sig rest (gate_sigs g) = (sigs', t) \<Longrightarrow>
    gate_step sha256 inspector g
      \<lparr>gate_sigs = sigs', gate_tasks = (gate_tasks g)[i := (ms, t)]\<rparr>"

inductive gate_reachable :: "(int list \<Rightarrow> pystr) \<Rightarrow> 's inspector_fn \<Rightarrow> gate \<Rightarrow> bool"
  for sha256 inspector
where
  no_calls: "gate_reachable sha256 inspector \<lparr>gate_sigs = [], gate_tasks = []\<rparr>"
| next_step: "gate_reachable sha256 inspector g \<Longrightarrow> gate_step sha256 inspector g g' \<Longrightarrow>
    gate_reachable sha256 inspector g'"


section \<open>The inspector of the provider\<close>

text \<open>
  \<open>inspect_tool_result_callback\<close> of \<open>providers/deepagents.py\<close>: the inspection with the byte codec and
  512 tokens of instructions. The telemetry spans are dropped here.
\<close>

definition inspection_callback ::
  "'s inspection_env \<Rightarrow> pystr \<Rightarrow> pystr \<Rightarrow> int \<Rightarrow> int option \<Rightarrow> 's inspector_fn"
where
  "inspection_callback env provider model context_window_tokens deadline tool_name result_type value
     tool_call_id s =
     (let (s', _, r) = inspect_tool_result env
            \<lparr>ic_tool_name = tool_name, ic_result_type = result_type,
             ic_tool_call_id = or_none tool_call_id, ic_runtime = S ''deepagents'',
             ic_provider = provider, ic_model = model\<rparr>
            value Utf8ByteCodec context_window_tokens 512 True deadline s
      in (s', case r of Inl _ \<Rightarrow> Inl () | Inr res \<Rightarrow> Inr (Some (passed res))))"


section \<open>Lemmas: wrapping\<close>

lemma fold_case_ascii [simp]:
  "fold_case c = 60 \<longleftrightarrow> c = 60" "fold_case c = 47 \<longleftrightarrow> c = 47" "fold_case 10 = 10" "fold_case 60 = 60"
  "fold_case 34 = 34" "fold_case 47 = 47"
  by (auto simp: fold_case_def)

lemma closes_here_Cons:
  "closes_here (c # s) \<longleftrightarrow> c = 60 \<and> map fold_case (take 10 s) = S ''/tool_data''"
proof -
  have e: "closing_tag = 60 # S ''/tool_data''" by (simp add: closing_tag_def S_def)
  show ?thesis unfolding closes_here_def closing_tag_length unfolding e by (simp add: take_Cons')
qed

lemma closes_here_Nil [simp]: "\<not> closes_here []"
  using closes_here_length by force

text \<open>Escaping introduces no text that matches a pattern without \<open><\<close> and line feed.\<close>

lemma escape_prefix:
  assumes "map fold_case (take (length p) (escape_closing s @ 10 # r)) = p" "10 \<notin> set p" "60 \<notin> set p"
  shows "map fold_case (take (length p) s) = p"
  using assms
proof (induction s arbitrary: p rule: escape_closing.induct)
  case (1 s)
  show ?case
  proof (cases p)
    case (Cons q qs)
    show ?thesis
    proof (cases "closes_here s")
      case True
      then show ?thesis using 1(3-) Cons by (subst (asm) escape_closing.simps) auto
    next
      case no: False
      show ?thesis
      proof (cases s)
        case Nil
        then show ?thesis using 1(3-) Cons no by (subst (asm) escape_closing.simps) auto
      next
        case (Cons c cs)
        have "map fold_case (take (length qs) (escape_closing cs @ 10 # r)) = qs" "fold_case c = q"
          using 1(3) no Cons \<open>p = q # qs\<close> by (subst (asm) escape_closing.simps; simp)+
        then show ?thesis using 1(2) [OF no Cons, of qs] 1(4,5) Cons \<open>p = q # qs\<close> by auto
      qed
    qed
  qed simp
qed

lemma drop_skip: "drop (length u + j) (u @ v) = drop j v"
  by simp

lemma escaped_never_closes:
  "i < length (escape_closing s) \<Longrightarrow> \<not> closes_here (drop i (escape_closing s @ 10 # r))"
proof (induction s arbitrary: i rule: escape_closing.induct)
  case (1 s)
  show ?case
  proof (cases "closes_here s")
    case True
    define x where "x = drop 2 (take (length closing_tag) s)"
    have e: "escape_closing s = [60, 92, 47] @ x @ escape_closing (drop (length closing_tag) s)"
      using True by (subst escape_closing.simps) (simp add: x_def)
    have "map fold_case x = S ''tool_data''"
      using True by (simp add: x_def closes_here_def drop_map [symmetric] closing_tag_def S_def)
    then have "fold_case 60 \<notin> set (map fold_case x)" by (simp add: S_def)
    then have x: "60 \<notin> set x" by (metis imageI list.set_map)
    show ?thesis
    proof (cases "i < 3 + length x")
      case True
      have "\<not> closes_here (drop i ([60, 92, 47] @ x @ u))" for u
      proof (cases "drop i ([60, 92, 47] @ x)")
        case Nil
        then show ?thesis using True by simp
      next
        case (Cons c cs)
        have "i = 0 \<or> c \<in> set ([92, 47] @ x)"
        proof (cases i)
          case (Suc n)
          then have "c \<in> set (drop n ([92, 47] @ x))" using Cons by simp
          then show ?thesis by (metis in_set_dropD)
        qed simp
        then have "c = 60 \<Longrightarrow> i = 0" using x by auto
        moreover have "\<not> closes_here ([60, 92, 47] @ x @ u)" by (simp add: closes_here_Cons S_def)
        moreover have "drop i (([60, 92, 47] @ x) @ u) = c # cs @ u"
          using Cons True by (simp only: drop_append) simp
        ultimately show ?thesis by (cases "i = 0") (auto simp: closes_here_Cons)
      qed
      then show ?thesis by (simp add: e)
    next
      case False
      then obtain j where j: "i = length ([60, 92, 47] @ x) + j"
        by (metis le_Suc_ex leI length_append list.size(3,4) One_nat_def add_Suc_right add_0_right numeral_3_eq_3)
      have "drop i (escape_closing s @ 10 # r) = drop j (escape_closing (drop (length closing_tag) s) @ 10 # r)"
        unfolding e j using drop_skip [of "[60, 92, 47] @ x" j
          "escape_closing (drop (length closing_tag) s) @ 10 # r"] by (simp only: append_assoc)
      then show ?thesis using 1(1) [OF True, of j] 1(3) by (simp add: e j)
    qed
  next
    case no: False
    show ?thesis
    proof (cases s)
      case Nil
      then show ?thesis using 1(3) no by (subst (asm) escape_closing.simps) simp
    next
      case (Cons c cs)
      have e: "escape_closing s = c # escape_closing cs"
        using no Cons by (subst escape_closing.simps) simp
      show ?thesis
      proof (cases i)
        case 0
        have "\<not> closes_here (c # escape_closing cs @ 10 # r)"
        proof -
          have l: "length (S ''/tool_data'') = 10" by simp
          have n: "10 \<notin> set (S ''/tool_data'')" "60 \<notin> set (S ''/tool_data'')" by (simp_all add: S_def)
          show ?thesis
            using no escape_prefix [OF _ n, of cs r] unfolding l Cons closes_here_Cons by blast
        qed
        with 0 e show ?thesis by simp
      next
        case (Suc j)
        then show ?thesis using 1(2) [OF no Cons, of j] 1(3) by (simp add: e)
      qed
    qed
  qed
qed


lemma no_bracket_never_closes: "i < length u \<Longrightarrow> 60 \<notin> set u \<Longrightarrow> \<not> closes_here (drop i (u @ v))"
  by (metis Cons_nth_drop_Suc append_Cons closes_here_Cons drop_append diff_is_0_eq drop0
      less_imp_le_nat nth_mem)

lemma html_escape_safe:
  "34 \<notin> set (html_escape s)" "39 \<notin> set (html_escape s)" "60 \<notin> set (html_escape s)"
  "62 \<notin> set (html_escape s)"
  by (auto simp: html_escape_def html_escape_cp_def S_def split: if_splits)

lemma wrapped_closing_position:
  "closes_here (drop i (S ''<tool_data source='' @ [34] @ html_escape name @ [34] @ S ''>'' @ [10]
      @ escape_closing t @ [10] @ S ''</tool_data>''))
   \<longleftrightarrow> i = 22 + length (html_escape name) + length (escape_closing t) + 1" (is "closes_here (drop i ?w) \<longleftrightarrow> i = ?n")
proof -
  define u where "u = S ''tool_data source='' @ [34] @ html_escape name @ [34] @ S ''>'' @ [10]"
  define v where "v = escape_closing t"
  define z where "z = S ''/tool_data>''"
  have w: "?w = 60 # u @ v @ 10 # 60 # z" by (simp add: u_def v_def z_def S_def)
  have u: "60 \<notin> set u" "length u = 21 + length (html_escape name)" "take 1 u = [116]"
    using html_escape_safe(3) by (auto simp: u_def S_def)
  have z: "60 \<notin> set z" "map fold_case (take 10 z) = S ''/tool_data''"
    by (simp_all add: z_def S_def fold_case_def)
  consider "i = 0" | j where "i = 1 + j" "j < length u" | j where "i = 1 + length u + j" "j < length v"
    | "i = 1 + length u + length v" | "i = ?n" | j where "i = Suc ?n + j"
  proof -
    let ?a = "1 + length u" let ?b = "1 + length u + length v"
    have n: "?n = Suc ?b" by (simp add: u v_def)
    have "i = 0 \<or> (\<exists>j. i = 1 + j \<and> j < length u) \<or> (\<exists>j. i = ?a + j \<and> j < length v) \<or> i = ?b \<or> i = ?n
        \<or> (\<exists>j. i = Suc ?n + j)"
      unfolding n by presburger
    then show thesis using that by blast
  qed
  then show ?thesis
  proof cases
    case 1
    obtain u' where "u = 116 # u'" using u(3) by (cases u) auto
    with 1 show ?thesis by (simp add: w closes_here_Cons S_def)
  next
    case (2 j)
    have "drop i ?w = drop j (u @ v @ 10 # 60 # z)" unfolding w using 2 by simp
    then show ?thesis using no_bracket_never_closes [of j u] 2 u by simp
  next
    case (3 j)
    have "drop i ?w = drop j (v @ 10 # 60 # z)" unfolding w using 3 by simp
    then show ?thesis using escaped_never_closes [of j t "60 # z"] 3 u by (simp add: v_def)
  next
    case 4
    have "drop i ?w = 10 # 60 # z" unfolding w using 4 by simp
    then show ?thesis using 4 u by (simp add: v_def closes_here_Cons)
  next
    case 5
    have "drop i ?w = 60 # z"
      unfolding w using drop_skip [of "60 # u @ v @ [10]" 0 "60 # z"] 5 u by (simp add: v_def)
    then show ?thesis using 5 z by (simp add: closes_here_Cons)
  next
    case (6 j)
    have d: "drop i ?w = drop j z"
      unfolding w using drop_skip [of "60 # u @ v @ [10, 60]" j z] 6 u by (simp add: v_def)
    have "\<not> closes_here (drop j z)"
      using no_bracket_never_closes [of j z "[]"] z by (cases "j < length z") auto
    with d 6 show ?thesis by simp
  qed
qed


section \<open>Lemmas: trust\<close>

lemma drop_dotdot_normal:
  "\<forall>part \<in> set parts. part \<notin> {[], S ''.'', S ''..''} \<Longrightarrow> drop_dotdot acc parts = rev acc @ parts"
  by (induction parts arbitrary: acc) auto

lemma trusted_path_normal:
  assumes "starts_with p (S ''/skills/'')" "0 \<notin> set p"
    and "\<forall>part \<in> set (drop 2 (split_on 47 p)). part \<notin> {[], S ''.'', S ''..''}"
  shows "lexical_realpath p = Inr p"
proof -
  obtain q where "p = S ''/skills/'' @ q"
    using assms(1) by (metis append_take_drop_id starts_with_def)
  then have p: "p = 47 # S ''skills'' @ 47 # q" by (simp add: S_def)
  have s: "split_on 47 p = [] # S ''skills'' # split_on 47 q"
    using split_on_append [of 47 "S ''skills''" q] by (simp add: p S_def)
  have "drop_dotdot [] (split_on 47 p) = S ''skills'' # split_on 47 q"
    using assms(3) by (simp add: s drop_dotdot_normal)
  then have "join (S ''/'') (drop_dotdot [] (split_on 47 p)) = S ''skills'' @ 47 # q"
    using join_split_on [of 47 q] split_on_nonempty [of 47 q]
    by (cases "split_on 47 q") (simp_all add: S_def)
  then show ?thesis using assms(2) by (simp add: lexical_realpath_def p S_def)
qed


section \<open>Lemmas: the gate\<close>

text \<open>
  The contract between the gate and its inspector: what it accepts has been judged, by a judgement
  that sees only the tool, the result type and the serialised result.
\<close>

definition sig_judged ::
  "(int list \<Rightarrow> pystr) \<Rightarrow> (pystr \<Rightarrow> pystr \<Rightarrow> pystr \<Rightarrow> bool) \<Rightarrow> signature \<Rightarrow> bool"
where
  "sig_judged sha256 judged sig \<longleftrightarrow>
     (\<exists>name result_type call_id t bs. sig = (name, result_type, call_id, sha256 bs) \<and>
        utf8_encode t = Inr bs \<and> judged name result_type t)"

definition msg_judged ::
  "(int list \<Rightarrow> pystr) \<Rightarrow> (pystr \<Rightarrow> pystr \<Rightarrow> pystr \<Rightarrow> bool) \<Rightarrow> tool_message \<Rightarrow> bool"
where
  "msg_judged sha256 judged m \<longleftrightarrow>
     (\<exists>sig. message_signature sha256 m = Inr sig \<and> sig_judged sha256 judged sig)"

text \<open>The messages a task has still to check.\<close>

fun task_open :: "task \<Rightarrow> chat_message set" where
  "task_open (Checking ms) = set ms"
| "task_open (Awaiting sig m ms) = insert (ToolMessage m) (set ms)"
| "task_open Passed = {}"
| "task_open (Failed e) = UNIV"

fun task_sig_ok :: "(int list \<Rightarrow> pystr) \<Rightarrow> task \<Rightarrow> bool" where
  "task_sig_ok sha256 (Awaiting sig m ms) \<longleftrightarrow> message_signature sha256 m = Inr sig"
| "task_sig_ok sha256 t \<longleftrightarrow> True"

definition task_ok ::
  "(int list \<Rightarrow> pystr) \<Rightarrow> (pystr \<Rightarrow> pystr \<Rightarrow> pystr \<Rightarrow> bool) \<Rightarrow> chat_message list \<times> task \<Rightarrow> bool"
where
  "task_ok sha256 judged mt \<longleftrightarrow> task_sig_ok sha256 (snd mt) \<and>
     (\<forall>m. ToolMessage m \<in> set (fst mt) \<and> msg_identity m \<in> set (untrusted_ids (fst mt)) \<longrightarrow>
        ToolMessage m \<in> task_open (snd mt) \<or> msg_judged sha256 judged m)"

definition gate_inv ::
  "(int list \<Rightarrow> pystr) \<Rightarrow> (pystr \<Rightarrow> pystr \<Rightarrow> pystr \<Rightarrow> bool) \<Rightarrow> gate \<Rightarrow> bool"
where
  "gate_inv sha256 judged g \<longleftrightarrow>
     (\<forall>sig \<in> set (gate_sigs g). sig_judged sha256 judged sig) \<and>
     (\<forall>mt \<in> set (gate_tasks g). task_ok sha256 judged mt)"

lemma check_next_ok:
  assumes "task_ok sha256 judged (ms, Checking rest)" "\<forall>sig \<in> set sigs. sig_judged sha256 judged sig"
  shows "task_ok sha256 judged (ms, check_next sha256 (untrusted_ids ms) sigs rest)"
proof (cases rest)
  case Nil
  then show ?thesis using assms(1) by (simp add: task_ok_def)
next
  case (Cons x xs)
  show ?thesis
  proof (cases x)
    case (ToolMessage m)
    then show ?thesis using assms Cons
      by (cases "message_signature sha256 m") (auto simp: task_ok_def msg_judged_def)
  qed (use assms(1) Cons in \<open>auto simp: task_ok_def\<close>)
qed

lemma task_ok_answered:
  assumes "task_ok sha256 judged (ms, Awaiting sig m rest)" "msg_judged sha256 judged m"
  shows "task_ok sha256 judged (ms, Checking rest)"
  using assms unfolding task_ok_def by (metis chat_message.inject(2) fst_conv insertE snd_conv
      task_open.simps(1,2) task_sig_ok.simps(2))

lemma message_signature_Inr:
  "message_signature sha256 m = Inr sig \<longleftrightarrow>
    (\<exists>t bs. serialize_tool_result (msg_content m) = Inr t \<and> utf8_encode t = Inr bs \<and>
      sig = (name_of m, result_type_of m, msg_call_id m, sha256 bs))"
  by (auto simp: message_signature_def signature_of_def result_simps)

locale judged_inspector =
  fixes inspector :: "'s inspector_fn" and judged :: "pystr \<Rightarrow> pystr \<Rightarrow> pystr \<Rightarrow> bool"
  assumes accepts_judged: "inspector name result_type value call_id s = (s', Inr outcome) \<Longrightarrow>
    outcome \<noteq> Some False \<Longrightarrow> serialize_tool_result value = Inr t \<Longrightarrow> judged name result_type t"
begin

lemma accepted_signature:
  assumes "message_signature sha256 m = Inr sig"
    and "inspector (name_of m) (result_type_of m) (msg_content m) (msg_call_id m) s = (s', Inr outcome)"
    and "outcome \<noteq> Some False"
  shows "sig_judged sha256 judged sig"
  using assms(1) accepts_judged [OF assms(2,3)]
  unfolding message_signature_Inr sig_judged_def by blast

lemma step_inv:
  assumes "gate_step sha256 inspector g g'" "gate_inv sha256 judged g"
  shows "gate_inv sha256 judged g'"
  using assms
proof cases
  case (begin_call ms)
  then show ?thesis using assms(2) by (auto simp: gate_inv_def task_ok_def)
next
  case (check i ms rest)
  have "task_ok sha256 judged (ms, Checking rest)"
    using check assms(2) by (metis gate_inv_def nth_mem)
  then show ?thesis
    using check assms(2) check_next_ok [of sha256 judged ms rest "gate_sigs g"]
    by (auto simp: gate_inv_def dest!: set_update_subset_insert [THEN subsetD])
next
  case (answer i ms sig m rest s s' r sigs' t)
  have ok: "task_ok sha256 judged (ms, Awaiting sig m rest)"
    using answer assms(2) by (metis gate_inv_def nth_mem)
  then have sig: "message_signature sha256 m = Inr sig" by (simp add: task_ok_def)
  have "task_ok sha256 judged (ms, t) \<and> (\<forall>sig \<in> set sigs'. sig_judged sha256 judged sig)"
  proof (cases "\<exists>outcome. r = Inr outcome \<and> outcome \<noteq> Some False")
    case True
    then have "sig_judged sha256 judged sig" using accepted_signature [OF sig] answer by blast
    moreover from this have "task_ok sha256 judged (ms, Checking rest)"
      using sig task_ok_answered [OF ok] by (auto simp: msg_judged_def)
    ultimately show ?thesis using True answer assms(2)
      by (auto simp: take_outcome_def gate_inv_def)
  next
    case False
    then have "sigs' = gate_sigs g" "t = Failed inspection_failed"
      using answer by (auto simp: take_outcome_def split: sum.split_asm if_split_asm)
    then show ?thesis using assms(2) by (simp add: task_ok_def gate_inv_def)
  qed
  then show ?thesis using answer assms(2)
    by (auto simp: gate_inv_def dest!: set_update_subset_insert [THEN subsetD])
qed

lemma reachable_inv: "gate_reachable sha256 inspector g \<Longrightarrow> gate_inv sha256 judged g"
  by (induction rule: gate_reachable.induct) (auto simp: gate_inv_def [where g = "\<lparr>gate_sigs = [], gate_tasks = []\<rparr>"] intro: step_inv)

end

text \<open>With a digest that has no collision, a passed call has only judged results.\<close>

lemma utf8_encode_inj: "utf8_encode s = Inr bs \<Longrightarrow> utf8_encode t = Inr bs \<Longrightarrow> s = t"
  using utf8_decode_encode by (auto simp: utf8_encode_def split: if_split_asm) (metis Inr_inject)

lemma filter_untrusted_in: "m \<in> set (untrusted_from calls ms) \<Longrightarrow> ToolMessage m \<in> set ms"
  by (induction calls ms rule: untrusted_from.induct) (auto split: if_split_asm)

lemma passed_task_judged:
  assumes "gate_inv sha256 judged g" "(ms, Passed) \<in> set (gate_tasks g)"
    and "m \<in> set (filter_untrusted_tool_results ms)" "inj sha256"
    and "serialize_tool_result (msg_content m) = Inr t"
  shows "judged (name_of m) (result_type_of m) t"
proof -
  have "ToolMessage m \<in> set ms" "msg_identity m \<in> set (untrusted_ids ms)"
    using assms(3) filter_untrusted_in
    by (auto simp: filter_untrusted_tool_results_def untrusted_ids_def)
  then have "msg_judged sha256 judged m"
    using assms(1,2) by (auto simp: gate_inv_def task_ok_def)
  then show ?thesis using assms(4,5) utf8_encode_inj
    by (auto simp: msg_judged_def message_signature_Inr sig_judged_def dest: injD)
qed

text \<open>Every stretch of at most 256 bytes was in a request judged benign.\<close>

definition judged_text :: "'s inspection_env \<Rightarrow> pystr \<Rightarrow> pystr \<Rightarrow> pystr \<Rightarrow> bool" where
  "judged_text env name result_type t \<longleftrightarrow>
     (\<forall>u v. t \<noteq> [] \<and> u \<le> v \<and> v \<le> length t \<and> length (utf8_bytes (drop u (take v t))) \<le> 256 \<longrightarrow>
        (\<exists>request. judged_benign env request \<and> cr_tool_name request = name \<and>
           sublist (drop u (take v t)) (cr_content request)))"

interpretation callback: judged_inspector
  "inspection_callback env provider model window deadline" "judged_text env"
  for env provider model window deadline
proof
  fix name result_type v call_id s s' outcome t
  assume "inspection_callback env provider model window deadline name result_type v call_id s
      = (s', Inr outcome)" "outcome \<noteq> Some False" "serialize_tool_result v = Inr t"
  then show "judged_text env name result_type t"
    unfolding judged_text_def inspection_callback_def
    by (auto simp: Let_def split: prod.split_asm sum.split_asm dest: passed_stretch_judged)
qed

text \<open>A call that runs alone is one interleaving of the concurrent model.\<close>

lemma gate_run_reachable:
  "(gate_step sha256 inspector)\<^sup>*\<^sup>* g g' \<Longrightarrow> gate_reachable sha256 inspector g \<Longrightarrow>
    gate_reachable sha256 inspector g'"
  by (induction rule: rtranclp_induct) (auto intro: gate_reachable.next_step)

definition final_task :: "exn option \<Rightarrow> task" where
  "final_task failure = (case failure of None \<Rightarrow> Passed | Some e \<Rightarrow> Failed e)"

lemma check_step:
  assumes "i < length ts" "ts ! i = (ms, Checking rest)"
    and "t = check_next sha256 (untrusted_ids ms) sigs rest"
  shows "gate_step sha256 inspector \<lparr>gate_sigs = sigs, gate_tasks = ts\<rparr>
    \<lparr>gate_sigs = sigs, gate_tasks = ts[i := (ms, t)]\<rparr>"
  using gate_step.check [of i "\<lparr>gate_sigs = sigs, gate_tasks = ts\<rparr>" ms rest sha256 inspector] assms by simp

lemma answer_step:
  assumes "i < length ts" "ts ! i = (ms, Awaiting sig m rest)"
    and "inspector (name_of m) (result_type_of m) (msg_content m) (msg_call_id m) s = (s', r)"
    and "take_outcome r sig rest sigs = (sigs', t)"
  shows "gate_step sha256 inspector \<lparr>gate_sigs = sigs, gate_tasks = ts\<rparr>
    \<lparr>gate_sigs = sigs', gate_tasks = ts[i := (ms, t)]\<rparr>"
  using gate_step.answer [of i "\<lparr>gate_sigs = sigs, gate_tasks = ts\<rparr>" ms sig m rest inspector s s' r sigs' t sha256]
    assms by simp

lemma inspect_messages_run:
  assumes "inspect_messages sha256 inspector (untrusted_ids ms) rest sigs s = (s', sigs', failure)"
    and "i < length ts" "ts ! i = (ms, Checking rest)"
  shows "(gate_step sha256 inspector)\<^sup>*\<^sup>* \<lparr>gate_sigs = sigs, gate_tasks = ts\<rparr>
    \<lparr>gate_sigs = sigs', gate_tasks = ts[i := (ms, final_task failure)]\<rparr>"
  using assms
proof (induction rest arbitrary: sigs s ts)
  case Nil
  then show ?case
    using check_step [where ?sha256.0 = sha256 and sigs = sigs and inspector = inspector, OF Nil(2,3) refl] by (auto simp: final_task_def)
next
  case (Cons x rest)
  have go: "(gate_step sha256 inspector)\<^sup>*\<^sup>* \<lparr>gate_sigs = sigs, gate_tasks = ts\<rparr>
      \<lparr>gate_sigs = sigs', gate_tasks = ts[i := (ms, final_task failure)]\<rparr>"
    if "check_next sha256 (untrusted_ids ms) sigs (x # rest) = Checking rest"
      "inspect_messages sha256 inspector (untrusted_ids ms) rest sigs s = (s', sigs', failure)"
    using check_step [where inspector = inspector, OF Cons.prems(2,3) that(1) [symmetric]]
      Cons.IH [OF that(2), of "ts[i := (ms, Checking rest)]"] Cons.prems(2)
    by (simp add: converse_rtranclp_into_rtranclp)
  show ?case
  proof (cases x)
    case (ToolMessage m)
    show ?thesis
    proof (cases "message_signature sha256 m")
      case (Inl e)
      then show ?thesis using Cons.prems ToolMessage check_step [where ?sha256.0 = sha256 and sigs = sigs and inspector = inspector, OF Cons.prems(2,3) refl]
        by (auto simp: final_task_def)
    next
      case (Inr sig)
      show ?thesis
      proof (cases "msg_identity m \<notin> set (untrusted_ids ms) \<or> sig \<in> set sigs")
        case True
        then show ?thesis using go Cons.prems(1) ToolMessage Inr by auto
      next
        case False
        obtain s1 r where r: "inspector (name_of m) (result_type_of m) (msg_content m) (msg_call_id m) s = (s1, r)"
          by fastforce
        obtain sigs1 t where t: "take_outcome r sig rest sigs = (sigs1, t)" by fastforce
        let ?ts = "ts[i := (ms, Awaiting sig m rest)]"
        have c: "check_next sha256 (untrusted_ids ms) sigs (x # rest) = Awaiting sig m rest"
          using ToolMessage Inr False by simp
        have one: "gate_step sha256 inspector \<lparr>gate_sigs = sigs, gate_tasks = ts\<rparr>
            \<lparr>gate_sigs = sigs, gate_tasks = ?ts\<rparr>"
          by (rule check_step [OF Cons.prems(2,3) c [symmetric]])
        have two: "gate_step sha256 inspector \<lparr>gate_sigs = sigs, gate_tasks = ?ts\<rparr>
            \<lparr>gate_sigs = sigs1, gate_tasks = ts[i := (ms, t)]\<rparr>"
          using answer_step [where ts = ?ts and ms = ms and m = m and s = s and inspector = inspector
              and i = i and ?sha256.0 = sha256, OF _ _ r t] Cons.prems(2) by simp
        have "(gate_step sha256 inspector)\<^sup>*\<^sup>* \<lparr>gate_sigs = sigs1, gate_tasks = ts[i := (ms, t)]\<rparr>
            \<lparr>gate_sigs = sigs', gate_tasks = ts[i := (ms, final_task failure)]\<rparr>"
        proof (cases "\<exists>outcome. r = Inr outcome \<and> outcome \<noteq> Some False")
          case True
          then have "t = Checking rest"
            "inspect_messages sha256 inspector (untrusted_ids ms) rest sigs1 s1 = (s', sigs', failure)"
            using Cons.prems(1) ToolMessage Inr False r t by (auto simp: take_outcome_def)
          then show ?thesis using Cons.IH [of sigs1 s1 "ts[i := (ms, t)]"] Cons.prems(2) by simp
        next
          case False
          then have "sigs' = sigs1 \<and> t = final_task failure"
            using Cons.prems(1) ToolMessage Inr \<open>\<not> (_ \<or> _)\<close> r t
            by (auto simp: take_outcome_def final_task_def split: sum.split_asm if_split_asm)
          then show ?thesis by simp
        qed
        with one two show ?thesis by (meson converse_rtranclp_into_rtranclp)
      qed
    qed
  qed (use go Cons.prems(1) in auto)
qed

lemma model_call_run:
  assumes "gate_reachable sha256 f g"
    and "awrap_model_call sha256 (Some f) ms (gate_sigs g) s = (s', sigs', r)"
  obtains failure where
    "gate_reachable sha256 f \<lparr>gate_sigs = sigs', gate_tasks = gate_tasks g @ [(ms, final_task failure)]\<rparr>"
    "inspect_messages sha256 f (untrusted_ids ms) ms (gate_sigs g) s = (s', sigs', failure)"
    "r = (case failure of Some e \<Rightarrow> Inl e
      | None \<Rightarrow> bindE (mapE (model_message (untrusted_ids ms)) ms) (\<lambda>delivered.
          Inr (List.map_filter tool_message_of ms, delivered)))"
proof -
  obtain failure where f: "inspect_messages sha256 f (untrusted_ids ms) ms (gate_sigs g) s = (s', sigs', failure)"
    "r = (case failure of Some e \<Rightarrow> Inl e
      | None \<Rightarrow> bindE (mapE (model_message (untrusted_ids ms)) ms) (\<lambda>delivered.
          Inr (List.map_filter tool_message_of ms, delivered)))"
    using assms(2) unfolding awrap_model_call_def untrusted_ids_def
    by (auto simp: Let_def split: prod.split_asm option.split_asm)
  let ?g = "\<lparr>gate_sigs = gate_sigs g, gate_tasks = gate_tasks g @ [(ms, Checking ms)]\<rparr>"
  have "gate_step sha256 f g ?g" using gate_step.begin_call [of sha256 f g ms] by (cases g) simp
  with assms(1) have "gate_reachable sha256 f ?g" by (rule gate_reachable.next_step)
  moreover have "(gate_step sha256 f)\<^sup>*\<^sup>* ?g
      \<lparr>gate_sigs = sigs', gate_tasks = gate_tasks g @ [(ms, final_task failure)]\<rparr>"
    using inspect_messages_run [OF f(1), of "length (gate_tasks g)" "gate_tasks g @ [(ms, Checking ms)]"] by simp
  ultimately show ?thesis using that f gate_run_reachable by blast
qed


section \<open>Properties\<close>

text \<open>
  C3. No untrusted tool result reaches the model uninspected. In every interleaving of model calls
  that share the middleware of the provider, when a call goes through, every stretch of at most 256
  UTF-8 bytes of each of its untrusted results was part of a request for that tool which the
  classifier answered with a benign decision; also when the result was let through because an equal
  one had been accepted before, provided the digest has no collision.
\<close>

theorem delivered_results_were_judged:
  assumes "gate_reachable sha256 (inspection_callback env provider model window deadline) g"
    and "(ms, Passed) \<in> set (gate_tasks g)" "m \<in> set (filter_untrusted_tool_results ms)"
    and "inj sha256" "serialize_tool_result (msg_content m) = Inr t" "t \<noteq> []"
    and "u \<le> v" "v \<le> length t" "length (utf8_bytes (drop u (take v t))) \<le> 256"
  shows "\<exists>request. judged_benign env request \<and> cr_tool_name request = name_of m \<and>
    sublist (drop u (take v t)) (cr_content request)"
  using passed_task_judged [OF callback.reachable_inv [OF assms(1)] assms(2-5)] assms(6-9)
  unfolding judged_text_def by blast

definition sample_message :: tool_message where
  "sample_message = \<lparr>msg_identity = 0, msg_name = Some (S ''pods''), msg_status = S ''success'',
     msg_call_id = S ''c1'', msg_content = VPy (PStr (S ''ok''))\<rparr>"

lemma sample_gate_run:
  "inspect_messages (\<lambda>bs. bs) (inspection_callback benign_env [] [] 8192 None)
     (untrusted_ids [ToolMessage sample_message]) [ToolMessage sample_message] [] 0 =
   (1, [(S ''pods'', S ''result'', S ''c1'', utf8_bytes (S ''ok''))], None)"
  by code_simp

lemma sample_gate:
  "gate_reachable (\<lambda>bs. bs) (inspection_callback benign_env [] [] 8192 None)
     \<lparr>gate_sigs = [(S ''pods'', S ''result'', S ''c1'', utf8_bytes (S ''ok''))],
      gate_tasks = [([ToolMessage sample_message], Passed)]\<rparr>"
proof -
  let ?f = "inspection_callback benign_env [] [] 8192 None" let ?ms = "[ToolMessage sample_message]"
  have "gate_step (\<lambda>bs. bs) ?f \<lparr>gate_sigs = [], gate_tasks = []\<rparr> \<lparr>gate_sigs = [], gate_tasks = [(?ms, Checking ?ms)]\<rparr>"
    using gate_step.begin_call [of "\<lambda>bs. bs" ?f "\<lparr>gate_sigs = [], gate_tasks = []\<rparr>" ?ms] by simp
  then have "gate_reachable (\<lambda>bs. bs) ?f \<lparr>gate_sigs = [], gate_tasks = [(?ms, Checking ?ms)]\<rparr>"
    by (rule gate_reachable.next_step [OF gate_reachable.no_calls])
  then show ?thesis
    using gate_run_reachable [OF inspect_messages_run [OF sample_gate_run, of 0 "[(?ms, Checking ?ms)]"]]
    by (simp add: final_task_def)
qed

lemma delivered_results_were_judged_witness:
  "\<exists>request. judged_benign benign_env request \<and> cr_tool_name request = S ''pods'' \<and>
     sublist (S ''ok'') (cr_content request)"
proof -
  have u: "sample_message \<in> set (filter_untrusted_tool_results [ToolMessage sample_message])" by code_simp
  have t: "serialize_tool_result (msg_content sample_message) = Inr (S ''ok'')" "name_of sample_message = S ''pods''"
    "drop 0 (take 2 (S ''ok'')) = S ''ok''" "length (utf8_bytes (S ''ok'')) \<le> 256"
    by code_simp+
  show ?thesis
    using delivered_results_were_judged [OF sample_gate _ u _ t(1), of 0 2] t(2-) by simp
qed



text \<open>
  Wrapped output cannot leave its tags. Whatever the tool returned and is named, the text
  handed to the model is one opening tag whose attribute holds no quote and no angle bracket, a
  body, and one closing tag; read without regard to case, the closing tag occurs nowhere else.
\<close>

theorem wrapped_output_closes_once:
  assumes "wrap_tool_output v name = Inr t"
  shows "(\<forall>i. closes_here (drop i t) = (i + 12 = length t)) \<and>
    (\<exists>source body. t = S ''<tool_data source='' @ [34] @ source @ [34] @ S ''>'' @ [10] @ body @ [10]
        @ S ''</tool_data>'' \<and> 34 \<notin> set source \<and> 60 \<notin> set source \<and> 62 \<notin> set source)"
proof -
  obtain b where t: "t = S ''<tool_data source='' @ [34] @ html_escape name @ [34] @ S ''>'' @ [10]
      @ escape_closing b @ [10] @ S ''</tool_data>''"
    using assms by (auto simp: wrap_tool_output_def result_simps)
  have "(i = 22 + length (html_escape name) + length (escape_closing b) + 1) = (i + 12 = length t)" for i
    unfolding t by (simp add: length_S)
  then have "\<forall>i. closes_here (drop i t) = (i + 12 = length t)"
    unfolding t using wrapped_closing_position [of _ name b] by blast
  with t html_escape_safe show ?thesis by blast
qed

lemma wrapped_output_closes_once_witness:
  "closes_here (drop 30 (S ''<tool_data source='' @ [34] @ S ''sh'' @ [34] @ S ''>'' @ [10] @ [60, 92] @ S ''/Tool_Data>'' @ [10] @ S ''</tool_data>''))
    = (30 + 12 = length (S ''<tool_data source='' @ [34] @ S ''sh'' @ [34] @ S ''>'' @ [10] @ [60, 92] @ S ''/Tool_Data>'' @ [10] @ S ''</tool_data>''))"
proof -
  have w: "wrap_tool_output (VPy (PStr (S ''</Tool_Data>''))) (S ''sh'') =
      Inr (S ''<tool_data source='' @ [34] @ S ''sh'' @ [34] @ S ''>'' @ [10] @ [60, 92] @ S ''/Tool_Data>'' @ [10] @ S ''</tool_data>'')"
    by code_simp
  show ?thesis using wrapped_output_closes_once [OF w] by blast
qed

text \<open>
  Only plain skill files are trusted: a trusted result is a successful \<open>read_file\<close> of a path that
  starts with \<open>/skills/\<close> and is its own normal form, so it does not lead out of that directory.
\<close>

theorem trusted_results_are_skill_files:
  assumes "is_trusted_tool_result m call"
  shows "\<exists>c p. call = Some c \<and> tc_name c = S ''read_file'' \<and> msg_status m = S ''success'' \<and>
    dgetn (tc_args c) (S ''file_path'') = PStr p \<and> starts_with p (S ''/skills/'') \<and>
    lexical_realpath p = Inr p"
  using assms trusted_path_normal
  by (auto simp: is_trusted_tool_result_def split: option.split_asm pyval.split_asm)

lemma trusted_results_are_skill_files_witness:
  "lexical_realpath (S ''/skills/oc/SKILL.md'') = Inr (S ''/skills/oc/SKILL.md'')"
proof -
  have t: "is_trusted_tool_result (sample_message\<lparr>msg_name := Some (S ''read_file'')\<rparr>)
      (Some \<lparr>tc_name = S ''read_file'', tc_args = [(S ''file_path'', PStr (S ''/skills/oc/SKILL.md''))],
         tc_id = Some (S ''c1'')\<rparr>)" by code_simp
  show ?thesis using trusted_results_are_skill_files [OF t] by (auto simp: dgetn_def)
qed

end
