(* ===== verification/Generation.thy ===== *)
theory Generation
  imports AuditLog Middleware
begin

text \<open>
  \<open>providers/deepagents.py\<close>, the telemetry of a query: the parts of a model reply, what of an SDK
  result is recorded on a generation span, and the callback that opens and closes the spans of
  generations and of native tool executions. Run ids are numbers; the attributes of an SDK object
  that may be missing are \<open>None\<close> values. Proved: after \<open>close_open\<close> every generation and every tool
  span has been ended exactly once, errors while recording included, and which spans are lost.
\<close>

section \<open>Replies of the model\<close>

text \<open>A content block, a mapping or an object: its fields, whose values may not be JSON.\<close>

type_synonym block_fields = "tool_value dict"

definition block_field :: "block_fields \<Rightarrow> string \<Rightarrow> tool_value" where
  "block_field b k = (case dget b (S k) of None \<Rightarrow> VPy PNone | Some v \<Rightarrow> v)"

text \<open>The same on the value of a field: plain values other than mappings have none of the fields read.\<close>

definition native_field :: "tool_value \<Rightarrow> string \<Rightarrow> tool_value" where
  "native_field v k = (case v of VPy (PDict d) \<Rightarrow> VPy (dgetn d (S k)) | _ \<Rightarrow> VPy PNone)"

definition field_given :: "tool_value \<Rightarrow> bool" where
  "field_given v \<longleftrightarrow> v \<noteq> VPy PNone"

record reply_message =
  reply_blocks :: "block_fields list"
  reply_body :: pyval
  reply_metadata :: pyval
  reply_has_calls :: bool
  reply_usage :: pyval

definition text_value :: "string \<Rightarrow> tool_value" where
  "text_value s = VPy (PStr (S s))"

definition content_part :: "string \<Rightarrow> tool_value \<Rightarrow> block_fields list" where
  "content_part kind v =
     (if field_given v then [[(S ''type'', text_value kind), (S ''content'', v)]] else [])"

definition call_part :: "block_fields \<Rightarrow> block_fields" where
  "call_part b =
     (S ''type'', text_value ''tool_call'')
     # concat (map (\<lambda>(source, target).
         (let v = block_field b source
          in if field_given v \<and> (target \<noteq> ''id'' \<or> v \<noteq> VPy (PStr [])) then [(S target, v)] else []))
       [(''id'', ''id''), (''name'', ''name''), (''args'', ''arguments'')])"

definition chunk_part :: "block_fields \<Rightarrow> block_fields" where
  "chunk_part b =
     (S ''type'', text_value ''tool_call_chunk'')
     # concat (map (\<lambda>k. if field_given (block_field b k) then [(S k, block_field b k)] else [])
         [''id'', ''name'', ''args'', ''index''])"

definition block_parts :: "block_fields \<Rightarrow> block_fields list" where
  "block_parts b =
     (let kind = block_field b ''type''
      in if kind = text_value ''text'' then content_part ''text'' (block_field b ''text'')
         else if kind = text_value ''reasoning'' then content_part ''reasoning'' (block_field b ''reasoning'')
         else if kind = text_value ''non_standard'' then
           (let native = block_field b ''value''
            in if native_field native ''type'' = text_value ''thinking''
               then content_part ''reasoning'' (native_field native ''thinking'') else [])
         else if kind = text_value ''tool_call'' then [call_part b]
         else if kind = text_value ''tool_call_chunk'' then [chunk_part b]
         else [])"

definition generation_parts :: "reply_message \<Rightarrow> block_fields list" where
  "generation_parts m =
     concat (map block_parts (reply_blocks m))
     @ (case reply_body m of
          PStr t \<Rightarrow> if reply_blocks m = []
            then [[(S ''type'', text_value ''text''), (S ''content'', VPy (PStr t))]] else []
        | _ \<Rightarrow> [])"

text \<open>\<open>json.dumps\<close> of the parts: a value that is not JSON raises \<open>TypeError\<close>.\<close>

definition json_field :: "pystr \<times> tool_value \<Rightarrow> (pystr \<times> pyval) result" where
  "json_field kv =
     (case snd kv of VPy v \<Rightarrow> Inr (fst kv, v)
      | _ \<Rightarrow> Inl (TypeError (S ''Object is not JSON serializable'')))"

definition json_part :: "block_fields \<Rightarrow> pyval result" where
  "json_part p = bindE (mapE json_field p) (\<lambda>d. Inr (PDict d))"

definition output_message :: "reply_message \<Rightarrow> pyval result" where
  "output_message m =
     bindE (mapE json_part (generation_parts m)) (\<lambda>ps.
       Inr (PDict [(S ''role'', PStr (S ''assistant'')), (S ''parts'', PList ps)]))"


section \<open>What a result records\<close>

record generation =
  gen_message :: "reply_message option"
  gen_info :: pyval

record llm_result =
  generations :: "generation list list"
  llm_output :: pyval

text \<open>The first value that is not \<open>None\<close>, by mapping and then by key.\<close>

fun first_value :: "pyval list \<Rightarrow> string list \<Rightarrow> pyval" where
  "first_value [] keys = PNone"
| "first_value (PDict d # ms) keys =
     (case find (\<lambda>k. dgetn d (S k) \<noteq> PNone) keys of
        Some k \<Rightarrow> dgetn d (S k)
      | None \<Rightarrow> first_value ms keys)"
| "first_value (m # ms) keys = first_value ms keys"

definition generation_metadata_value ::
  "(generation \<times> reply_message) list \<Rightarrow> string list \<Rightarrow> pyval \<Rightarrow> pyval"
where
  "generation_metadata_value gens keys llm_out =
     first_value (concat (map (\<lambda>(g, m). [reply_metadata m, gen_info g]) gens) @ [llm_out]) keys"

definition is_error_metadata_only :: "reply_message \<Rightarrow> bool" where
  "is_error_metadata_only m \<longleftrightarrow>
     (case reply_metadata m of
        PDict d \<Rightarrow> (\<exists>k \<in> set [''body'', ''headers'', ''status_code'', ''request_id'']. dget d (S k) \<noteq> None)
      | _ \<Rightarrow> False)
     \<and> reply_body m = PStr [] \<and> reply_blocks m = [] \<and> \<not> reply_has_calls m"

definition recorded_generations :: "bool \<Rightarrow> llm_result \<Rightarrow> (generation \<times> reply_message) list" where
  "recorded_generations partial r =
     concat (map (\<lambda>g. case gen_message g of
         None \<Rightarrow> []
       | Some m \<Rightarrow> if partial \<and> is_error_metadata_only m then [] else [(g, m)])
       (concat (if partial then take 1 (generations r) else generations r)))"

definition set_given :: "string \<Rightarrow> pyval \<Rightarrow> span \<Rightarrow> span" where
  "set_given name v s = (if v \<noteq> PNone then perform (SetAttribute (S name) v) s else s)"

definition finish_reasons :: "(generation \<times> reply_message) list \<Rightarrow> pyval \<Rightarrow> pyval list" where
  "finish_reasons gens llm_out =
     (let keys = [''stop_reason'', ''finish_reason''];
          of_gens = filter (\<lambda>v. v \<noteq> PNone) (map (\<lambda>g. generation_metadata_value [g] keys PNone) gens)
      in map (PStr \<circ> py_str)
           (if of_gens \<noteq> [] then of_gens
            else filter (\<lambda>v. v \<noteq> PNone) [generation_metadata_value [] keys llm_out]))"

definition first_usage :: "(generation \<times> reply_message) list \<Rightarrow> string \<Rightarrow> pyval" where
  "first_usage gens key = first_value (map (reply_usage \<circ> snd) gens) [key]"

definition usage_details :: "reply_message \<Rightarrow> pyval" where
  "usage_details m =
     (case reply_usage m of PDict d \<Rightarrow> dgetn d (S ''output_token_details'') | _ \<Rightarrow> PNone)"

text \<open>The span with what was recorded, and the error that stopped the recording.\<close>

definition record_generation_result :: "bool \<Rightarrow> llm_result \<Rightarrow> span \<Rightarrow> span \<times> exn option" where
  "record_generation_result partial r s =
     (let gens = recorded_generations partial r;
          out = llm_output r;
          messages = mapE output_message (map snd gens)
      in case (if gens \<noteq> [] \<and> is_recording s then messages else Inr []) of
           Inl e \<Rightarrow> (s, Some e)
         | Inr ms \<Rightarrow>
             (let s1 = (if gens \<noteq> [] then set_json_span_attribute (S ''gen_ai.output.messages'') (PList ms) s else s);
                  s2 = set_given ''gen_ai.response.model''
                         (generation_metadata_value gens [''model'', ''model_name''] out) s1;
                  s3 = set_given ''gen_ai.response.id''
                         (generation_metadata_value gens [''id'', ''response_id''] out) s2;
                  reasons = finish_reasons gens out;
                  s4 = (if reasons \<noteq> [] then perform (SetAttribute (S ''gen_ai.response.finish_reasons'') (PList reasons)) s3
                        else s3);
                  s5 = set_given ''gen_ai.usage.input_tokens'' (first_usage gens ''input_tokens'') s4;
                  s6 = set_given ''gen_ai.usage.output_tokens'' (first_usage gens ''output_tokens'') s5;
                  s7 = set_given ''gen_ai.usage.reasoning.output_tokens''
                         (first_value (map (usage_details \<circ> snd) gens) [''reasoning'']) s6
              in (s7, None)))"


section \<open>The callback\<close>

record callback_config =
  cb_model :: pystr
  cb_provider :: pystr
  cb_main_name :: "pystr option"
  cb_parent_attributes :: pydict
  cb_sampled :: bool

record tool_entry =
  te_span :: span
  te_name :: pystr
  te_call_id :: "pystr option"

text \<open>The open spans and, for the proofs, those that were ended and those that can no longer be.\<close>

record callback_state =
  gen_spans :: "(nat \<times> span) list"
  tool_entries :: "(nat \<times> tool_entry) list"
  observed_tools :: "pystr list"
  ended_gens :: "span list"
  lost_gens :: "span list"
  ended_tools :: "span list"
  lost_tools :: "span list"

definition initial_callback :: callback_state where
  "initial_callback = \<lparr>gen_spans = [], tool_entries = [], observed_tools = [],
     ended_gens = [], lost_gens = [], ended_tools = [], lost_tools = []\<rparr>"

text \<open>
  The output of a tool: a tool message, a LangGraph command with the messages of its update, or
  another object, which has neither a content nor a status.
\<close>

datatype tool_output =
    MessageOutput tool_message
  | CommandOutput "chat_message list"
  | OtherOutput py_object

definition main_generation :: "callback_config \<Rightarrow> pystr list \<Rightarrow> pydict \<Rightarrow> bool" where
  "main_generation cfg tags metadata \<longleftrightarrow>
     dgetn metadata (S ''lc_agent_name'') = (case cb_main_name cfg of None \<Rightarrow> PNone | Some n \<Rightarrow> PStr n)
     \<and> S ''nostream'' \<notin> set tags
     \<and> dgetn metadata (S ''lc_source'') \<noteq> PStr (S ''summarization'')"

definition on_chat_model_start ::
  "callback_config \<Rightarrow> pystr list \<Rightarrow> pydict \<Rightarrow> nat \<Rightarrow> callback_state \<Rightarrow> callback_state"
where
  "on_chat_model_start cfg tags metadata run st =
     (if \<not> main_generation cfg tags metadata then st
      else st\<lparr>gen_spans := AList.update run
             (start_generation_span (S ''chat'') (cb_model cfg) (cb_provider cfg)
                (cb_parent_attributes cfg) (cb_sampled cfg)) (gen_spans st),
           lost_gens := lost_gens st @ overwritten id (gen_spans st) run\<rparr>)"

text \<open>A generation span is popped, handled and ended, also when the handling raises.\<close>

definition end_generation ::
  "nat \<Rightarrow> (span \<Rightarrow> span \<times> exn option) \<Rightarrow> callback_state \<Rightarrow> callback_state \<times> exn option"
where
  "end_generation run handle st =
     (case map_of (gen_spans st) run of
        None \<Rightarrow> (st, None)
      | Some s \<Rightarrow>
          (let (s1, err) = handle s
           in (st\<lparr>gen_spans := AList.delete run (gen_spans st),
                  ended_gens := ended_gens st @ [perform EndSpan s1]\<rparr>, err)))"

definition on_llm_end :: "llm_result \<Rightarrow> nat \<Rightarrow> callback_state \<Rightarrow> callback_state \<times> exn option" where
  "on_llm_end r run st = end_generation run (record_generation_result False r) st"

definition mark_error :: "pystr \<Rightarrow> span \<Rightarrow> span" where
  "mark_error error_type s =
     perform (SetStatus StatusError []) (perform (SetAttribute (S ''error.type'') (PStr error_type)) s)"

definition on_llm_error ::
  "pystr \<Rightarrow> llm_result option \<Rightarrow> nat \<Rightarrow> callback_state \<Rightarrow> callback_state \<times> exn option"
where
  "on_llm_error error_type response run st =
     end_generation run (\<lambda>s.
       (let (s1, err) = (case response of None \<Rightarrow> (s, None) | Some r \<Rightarrow> record_generation_result True r s)
        in (mark_error error_type s1, err))) st"

definition tool_start_span :: "callback_config \<Rightarrow> pystr \<Rightarrow> pystr option \<Rightarrow> span" where
  "tool_start_span cfg name call_id =
     \<lparr>span_title = S ''execute_tool '' @ name,
      span_start_attributes =
        [(S ''gen_ai.operation.name'', PStr (S ''execute_tool'')), (S ''gen_ai.tool.name'', PStr name),
         (S ''gen_ai.tool.type'', PStr (S ''function'')), (S ''gen_ai.provider.name'', PStr (cb_provider cfg))]
        @ (if truthy_str call_id then [(S ''gen_ai.tool.call.id'', PStr (the call_id))] else [])
        @ filter (\<lambda>kv. truthy (snd kv))
            (map (\<lambda>k. (k, dgetn (cb_parent_attributes cfg) k)) [S ''agenticrun.uid'', S ''agenticrun.phase'']),
      span_sampled = cb_sampled cfg, span_ops = []\<rparr>"

text \<open>The span is started before the arguments are rendered: an error there loses it.\<close>

definition on_tool_start ::
  "callback_config \<Rightarrow> pystr option \<Rightarrow> pystr \<Rightarrow> py_object option \<Rightarrow> pystr option \<Rightarrow> nat
     \<Rightarrow> callback_state \<Rightarrow> callback_state \<times> exn option"
where
  "on_tool_start cfg serialized_name input_str inputs call_id run st =
     (let name = (if truthy_str serialized_name then the serialized_name else S ''unknown'');
          s = tool_start_span cfg name call_id
      in case (case inputs of None \<Rightarrow> Inr input_str | Some x \<Rightarrow> stringify x) of
           Inl e \<Rightarrow> (st\<lparr>lost_tools := lost_tools st @ [s]\<rparr>, Some e)
         | Inr arguments \<Rightarrow>
             (st\<lparr>tool_entries := AList.update run
                   \<lparr>te_span = set_tool_payload (S ''gen_ai.tool.call.arguments'') arguments s,
                    te_name = name, te_call_id = call_id\<rparr> (tool_entries st),
                 lost_tools := lost_tools st @ overwritten te_span (tool_entries st) run\<rparr>, None))"

text \<open>The span, whether the duration was observed, and the error.\<close>

definition finish_entry :: "py_object option \<Rightarrow> pystr option \<Rightarrow> span \<Rightarrow> span \<times> bool \<times> exn option" where
  "finish_entry tool_out error_type s =
     (case error_type of
        Some e \<Rightarrow> (mark_error e s, True, None)
      | None \<Rightarrow>
          (case tool_out of
             None \<Rightarrow> (s, True, None)
           | Some x \<Rightarrow>
               (case stringify x of
                  Inl e \<Rightarrow> (s, False, Some e)
                | Inr t \<Rightarrow> (set_tool_payload (S ''gen_ai.tool.call.result'') t s, True, None))))"

definition finish_tool ::
  "nat \<Rightarrow> py_object option \<Rightarrow> pystr option \<Rightarrow> callback_state \<Rightarrow> callback_state \<times> exn option"
where
  "finish_tool run tool_out error_type st =
     (case map_of (tool_entries st) run of
        None \<Rightarrow> (st, None)
      | Some entry \<Rightarrow>
          (let (s, observed, err) = finish_entry tool_out error_type (te_span entry)
           in (st\<lparr>tool_entries := AList.delete run (tool_entries st),
                  observed_tools := observed_tools st @ (if observed then [te_name entry] else []),
                  ended_tools := ended_tools st @ [perform EndSpan s]\<rparr>, err)))"

text \<open>\<open>None\<close> is the absent output.\<close>

definition given_output :: "py_object \<Rightarrow> py_object option" where
  "given_output x = (if x = Plain (VPy PNone) then None else Some x)"

definition finish_with_message :: "nat \<Rightarrow> tool_message \<Rightarrow> callback_state \<Rightarrow> callback_state \<times> exn option" where
  "finish_with_message run m st =
     finish_tool run (given_output (Plain (msg_content m)))
       (if msg_status m = S ''error'' then Some (S ''tool_error'') else None) st"

text \<open>A command must carry exactly one message that answers the call of the run.\<close>

definition answering :: "pystr option \<Rightarrow> chat_message list \<Rightarrow> tool_message list" where
  "answering call_id ms =
     filter (\<lambda>m. Some (msg_call_id m) = call_id) (map (the \<circ> tool_message_of) (filter (\<lambda>m. tool_message_of m \<noteq> None) ms))"

fun on_tool_end :: "tool_output \<Rightarrow> nat \<Rightarrow> callback_state \<Rightarrow> callback_state \<times> exn option" where
  "on_tool_end (MessageOutput m) run st = finish_with_message run m st"
| "on_tool_end (OtherOutput x) run st = finish_tool run (given_output x) None st"
| "on_tool_end (CommandOutput ms) run st =
     (case map_of (tool_entries st) run of
        None \<Rightarrow> (st, None)
      | Some entry \<Rightarrow>
          (case answering (te_call_id entry) ms of
             [m] \<Rightarrow> finish_with_message run m st
           | _ \<Rightarrow> finish_tool run None None st))"

definition on_tool_error :: "pystr \<Rightarrow> nat \<Rightarrow> callback_state \<Rightarrow> callback_state \<times> exn option" where
  "on_tool_error error_type run st = finish_tool run None (Some error_type) st"

text \<open>\<open>popitem\<close> takes the youngest entry first.\<close>

definition close_open :: "pystr \<Rightarrow> callback_state \<Rightarrow> callback_state" where
  "close_open error_type st =
     st\<lparr>tool_entries := [],
        ended_tools := ended_tools st
          @ map (perform EndSpan \<circ> mark_error (S ''missing_tool_result'') \<circ> te_span \<circ> snd) (rev (tool_entries st)),
        gen_spans := [],
        ended_gens := ended_gens st @ map (perform EndSpan \<circ> mark_error error_type \<circ> snd) (rev (gen_spans st))\<rparr>"

text \<open>What LangChain calls, with the arguments the callback reads.\<close>

datatype callback_event =
    ChatModelStart nat "pystr list" pydict
  | LlmEnd nat llm_result
  | LlmError nat pystr "llm_result option"
  | ToolStart nat "pystr option" pystr "py_object option" "pystr option"
  | ToolEnd nat tool_output
  | ToolError nat pystr

fun handle_event :: "callback_config \<Rightarrow> callback_event \<Rightarrow> callback_state \<Rightarrow> callback_state \<times> exn option" where
  "handle_event cfg (ChatModelStart run tags metadata) st = (on_chat_model_start cfg tags metadata run st, None)"
| "handle_event cfg (LlmEnd run r) st = on_llm_end r run st"
| "handle_event cfg (LlmError run e r) st = on_llm_error e r run st"
| "handle_event cfg (ToolStart run name input_str inputs call_id) st =
     on_tool_start cfg name input_str inputs call_id run st"
| "handle_event cfg (ToolEnd run out) st = on_tool_end out run st"
| "handle_event cfg (ToolError run e) st = on_tool_error e run st"

text \<open>LangChain logs the error of a handler and goes on.\<close>

fun handle_events :: "callback_config \<Rightarrow> callback_event list \<Rightarrow> callback_state \<Rightarrow> callback_state \<times> exn list" where
  "handle_events cfg [] st = (st, [])"
| "handle_events cfg (e # es) st =
     (let (st1, err) = handle_event cfg e st;
          (st2, errs) = handle_events cfg es st1
      in (st2, (case err of None \<Rightarrow> errs | Some x \<Rightarrow> x # errs)))"


section \<open>The ledgers of the callback\<close>

named_theorems open_intros \<open>handling a span does not end it\<close>

lemma still_open_given [simp]: "still_open (set_given name v s) \<longleftrightarrow> still_open s"
  by (simp add: set_given_def)

lemma still_open_mark [simp]: "still_open (mark_error e s) \<longleftrightarrow> still_open s"
  by (simp add: mark_error_def)

lemma still_open_generation [simp]: "still_open (start_generation_span a b c d e)"
  by (simp add: start_generation_span_def still_open_def)

lemma still_open_tool_start [simp]: "still_open (tool_start_span cfg name call_id)"
  by (simp add: tool_start_span_def still_open_def)

lemma record_still_open [open_intros]:
  "record_generation_result partial r s = (s1, err) \<Longrightarrow> still_open s \<Longrightarrow> still_open s1"
  by (auto simp: record_generation_result_def Let_def split: sum.split_asm if_split_asm)

lemma finish_still_open [open_intros]: "finish_entry out e s = (s1, b, err) \<Longrightarrow> still_open s \<Longrightarrow> still_open s1"
  by (auto simp: finish_entry_def split: option.split_asm sum.split_asm)

definition callback_inv :: "nat \<Rightarrow> nat \<Rightarrow> callback_state \<Rightarrow> bool" where
  "callback_inv g t st \<longleftrightarrow>
     ledger id g (gen_spans st) (ended_gens st) (lost_gens st) \<and>
     ledger te_span t (tool_entries st) (ended_tools st) (lost_tools st)"

lemma initial_callback_inv: "callback_inv 0 0 initial_callback"
  by (simp add: callback_inv_def initial_callback_def ledger_empty)

lemma end_generation_inv:
  assumes "callback_inv g t st" "end_generation run handle st = (st1, err)"
    and "\<And>s s1 x. handle s = (s1, x) \<Longrightarrow> still_open s \<Longrightarrow> still_open s1"
  shows "callback_inv g t st1 \<and> lost_gens st1 = lost_gens st \<and> lost_tools st1 = lost_tools st \<and>
    fst ` set (gen_spans st1) \<subseteq> fst ` set (gen_spans st) \<and> tool_entries st1 = tool_entries st"
proof (cases "map_of (gen_spans st) run")
  case None
  then show ?thesis using assms by (simp add: end_generation_def)
next
  case (Some s)
  obtain s1 x where h: "handle s = (s1, x)" by fastforce
  have "still_open s" using assms(1) Some ledger_member [of id] by (fastforce simp: callback_inv_def)
  then have e: "ended_once (perform EndSpan s1)" using assms(3) [OF h] by (simp add: ended_once_perform)
  have "ledger id g (AList.delete run (gen_spans st)) (ended_gens st @ [perform EndSpan s1]) (lost_gens st)"
    using assms(1) Some e by (intro ledger_close) (simp_all add: callback_inv_def)
  then show ?thesis using assms(1,2) Some h
    by (auto simp: end_generation_def callback_inv_def AList.delete_eq)
qed

lemma finish_tool_inv:
  assumes "callback_inv g t st" "finish_tool run out e st = (st1, err)"
  shows "callback_inv g t st1 \<and> lost_gens st1 = lost_gens st \<and> lost_tools st1 = lost_tools st \<and>
    fst ` set (tool_entries st1) \<subseteq> fst ` set (tool_entries st) \<and> gen_spans st1 = gen_spans st"
proof (cases "map_of (tool_entries st) run")
  case None
  then show ?thesis using assms by (simp add: finish_tool_def)
next
  case (Some entry)
  obtain s b x where h: "finish_entry out e (te_span entry) = (s, b, x)" by (metis prod_cases3)
  have "still_open (te_span entry)" using assms(1) Some ledger_member [of te_span] by (fastforce simp: callback_inv_def)
  then have e: "ended_once (perform EndSpan s)" using finish_still_open [OF h] by (blast intro: ended_once_perform)
  have "ledger te_span t (AList.delete run (tool_entries st)) (ended_tools st @ [perform EndSpan s]) (lost_tools st)"
    using assms(1) Some e by (intro ledger_close) (simp_all add: callback_inv_def)
  then show ?thesis using assms Some h
    by (auto simp: finish_tool_def callback_inv_def AList.delete_eq)
qed

lemma on_tool_end_finishes:
  "\<exists>out' e. on_tool_end out run st = finish_tool run out' e st"
proof (cases out)
  case (MessageOutput m)
  then show ?thesis by (auto simp: finish_with_message_def)
next
  case (OtherOutput x)
  then show ?thesis by auto
next
  case (CommandOutput ms)
  show ?thesis
  proof (cases "map_of (tool_entries st) run")
    case None
    then have "on_tool_end out run st = finish_tool run None None st" using CommandOutput by (simp add: finish_tool_def)
    then show ?thesis by blast
  next
    case (Some entry)
    have "on_tool_end out run st = finish_with_message run m st" if "answering (te_call_id entry) ms = [m]" for m
      using that Some CommandOutput by simp
    moreover have "on_tool_end out run st = finish_tool run None None st"
      if "\<And>m. answering (te_call_id entry) ms \<noteq> [m]"
      using that Some CommandOutput by (simp split: list.split)
    ultimately show ?thesis unfolding finish_with_message_def by blast
  qed
qed

text \<open>The spans an event starts, and the run ids it uses.\<close>

fun starts_generation :: "callback_config \<Rightarrow> callback_event \<Rightarrow> bool" where
  "starts_generation cfg (ChatModelStart run tags metadata) \<longleftrightarrow> main_generation cfg tags metadata"
| "starts_generation cfg e \<longleftrightarrow> False"

fun starts_tool :: "callback_event \<Rightarrow> bool" where
  "starts_tool (ToolStart run name input_str inputs call_id) \<longleftrightarrow> True"
| "starts_tool e \<longleftrightarrow> False"

fun run_of :: "callback_event \<Rightarrow> nat" where
  "run_of (ChatModelStart run _ _) = run"
| "run_of (LlmEnd run _) = run"
| "run_of (LlmError run _ _) = run"
| "run_of (ToolStart run _ _ _ _) = run"
| "run_of (ToolEnd run _) = run"
| "run_of (ToolError run _) = run"

fun serialisable_inputs :: "callback_event \<Rightarrow> bool" where
  "serialisable_inputs (ToolStart run name input_str (Some x) call_id) \<longleftrightarrow> (\<exists>t. stringify x = Inr t)"
| "serialisable_inputs e \<longleftrightarrow> True"

definition generation_runs :: "callback_config \<Rightarrow> callback_event list \<Rightarrow> nat list" where
  "generation_runs cfg es = map run_of (filter (starts_generation cfg) es)"

definition tool_runs :: "callback_event list \<Rightarrow> nat list" where
  "tool_runs es = map run_of (filter starts_tool es)"

text \<open>The keys in use grow by the run ids of the events; without reuse nothing is lost.\<close>

definition keeps :: "nat list \<Rightarrow> bool \<Rightarrow> nat set \<Rightarrow> span list \<Rightarrow> nat set \<Rightarrow> span list \<Rightarrow> bool" where
  "keeps runs good ks lost ks1 lost1 \<longleftrightarrow>
     ks1 \<subseteq> ks \<union> set runs \<and> (distinct runs \<and> set runs \<inter> ks = {} \<and> good \<longrightarrow> lost1 = lost)"

lemma keeps_append:
  assumes "keeps rs good ks ls ks1 ls1" "keeps rs' good' ks1 ls1 ks2 ls2"
  shows "keeps (rs @ rs') (good \<and> good') ks ls ks2 ls2"
proof -
  have "ls2 = ls" if "distinct (rs @ rs')" "set (rs @ rs') \<inter> ks = {}" "good" "good'"
  proof -
    have "ls1 = ls" using assms(1) that by (auto simp: keeps_def)
    moreover have "set rs' \<inter> ks1 = {}" using assms(1) that unfolding keeps_def by auto
    ultimately show ?thesis using assms(2) that by (simp add: keeps_def)
  qed
  then show ?thesis using assms unfolding keeps_def by auto
qed

definition follows ::
  "callback_config \<Rightarrow> callback_event list \<Rightarrow> nat \<Rightarrow> nat \<Rightarrow> callback_state \<Rightarrow> callback_state \<Rightarrow> bool"
where
  "follows cfg es g t st st1 \<longleftrightarrow>
     callback_inv (g + length (generation_runs cfg es)) (t + length (tool_runs es)) st1 \<and>
     keeps (generation_runs cfg es) True
       (fst ` set (gen_spans st)) (lost_gens st) (fst ` set (gen_spans st1)) (lost_gens st1) \<and>
     keeps (tool_runs es) (list_all serialisable_inputs es)
       (fst ` set (tool_entries st)) (lost_tools st) (fst ` set (tool_entries st1)) (lost_tools st1)"

lemma on_chat_model_start_follows:
  assumes "callback_inv g t st"
  shows "follows cfg [ChatModelStart run tags metadata] g t st (on_chat_model_start cfg tags metadata run st)"
  using assms overwritten_fresh [of run "gen_spans st" id]
  by (simp add: on_chat_model_start_def follows_def keeps_def generation_runs_def tool_runs_def callback_inv_def
      ledger_open dom_update)

lemma on_tool_start_follows:
  assumes "callback_inv g t st" "on_tool_start cfg name input_str inputs call_id run st = (st1, err)"
  shows "follows cfg [ToolStart run name input_str inputs call_id] g t st st1"
proof (cases "case inputs of None \<Rightarrow> Inr input_str | Some x \<Rightarrow> stringify x")
  case (Inl e)
  then have "\<not> serialisable_inputs (ToolStart run name input_str inputs call_id)" by (cases inputs) auto
  then show ?thesis using assms Inl
    by (auto simp: on_tool_start_def Let_def follows_def keeps_def generation_runs_def tool_runs_def callback_inv_def
        intro!: ledger_lost)
next
  case (Inr arguments)
  obtain entry where st1: "st1 = st\<lparr>tool_entries := AList.update run entry (tool_entries st),
        lost_tools := lost_tools st @ overwritten te_span (tool_entries st) run\<rparr>" "still_open (te_span entry)"
    using assms(2) Inr by (auto simp: on_tool_start_def Let_def)
  show ?thesis using assms(1) st1(2) overwritten_fresh [of run "tool_entries st" te_span] unfolding st1(1)
    by (simp add: follows_def keeps_def generation_runs_def tool_runs_def callback_inv_def ledger_open dom_update)
qed

lemma handle_event_follows:
  assumes "callback_inv g t st" "handle_event cfg e st = (st1, err)"
  shows "follows cfg [e] g t st st1"
proof (cases e)
  case (ChatModelStart run tags metadata)
  then show ?thesis using assms on_chat_model_start_follows by auto
next
  case (ToolStart run name input_str inputs call_id)
  then show ?thesis using assms on_tool_start_follows by auto
next
  case (LlmEnd run r)
  then have "end_generation run (record_generation_result False r) st = (st1, err)"
    using assms(2) by (simp add: on_llm_end_def)
  from end_generation_inv [OF assms(1) this record_still_open] show ?thesis
    using LlmEnd by (simp add: follows_def keeps_def generation_runs_def tool_runs_def)
next
  case (LlmError run x r)
  define handle where "handle = (\<lambda>s. (let (s1, err) = (case r of None \<Rightarrow> (s, None)
      | Some r \<Rightarrow> record_generation_result True r s) in (mark_error x s1, err)))"
  have h: "still_open s1" if "handle s = (s1, y)" "still_open s" for s s1 y
    using that record_still_open [of True _ s]
    by (auto simp: handle_def split: option.split_asm prod.split_asm)
  have "end_generation run handle st = (st1, err)"
    using assms(2) LlmError by (simp add: on_llm_error_def handle_def)
  from end_generation_inv [OF assms(1) this h] show ?thesis
    using LlmError by (simp add: follows_def keeps_def generation_runs_def tool_runs_def)
next
  case (ToolEnd run out)
  obtain out' e' where "finish_tool run out' e' st = (st1, err)"
    using on_tool_end_finishes [of out run st] assms(2) ToolEnd by auto
  from finish_tool_inv [OF assms(1) this] show ?thesis
    using ToolEnd by (simp add: follows_def keeps_def generation_runs_def tool_runs_def)
next
  case (ToolError run x)
  then have "finish_tool run None (Some x) st = (st1, err)" using assms(2) by (simp add: on_tool_error_def)
  from finish_tool_inv [OF assms(1) this] show ?thesis
    using ToolError by (simp add: follows_def keeps_def generation_runs_def tool_runs_def)
qed

lemma follows_append:
  assumes "follows cfg [e] g t st st1"
    and "follows cfg es (g + length (generation_runs cfg [e])) (t + length (tool_runs [e])) st1 st2"
  shows "follows cfg (e # es) g t st st2"
proof -
  have r: "generation_runs cfg (e # es) = generation_runs cfg [e] @ generation_runs cfg es"
      "tool_runs (e # es) = tool_runs [e] @ tool_runs es"
    by (simp_all add: generation_runs_def tool_runs_def)
  show ?thesis
    using assms keeps_append [of "generation_runs cfg [e]" True _ _ _ _ "generation_runs cfg es" True]
      keeps_append [of "tool_runs [e]" "list_all serialisable_inputs [e]" _ _ _ _ "tool_runs es"]
    unfolding follows_def r by (simp add: add.assoc) blast
qed

lemma handle_events_follow:
  "callback_inv g t st \<Longrightarrow> handle_events cfg es st = (st1, errs) \<Longrightarrow> follows cfg es g t st st1"
proof (induction es arbitrary: g t st errs)
  case Nil
  then show ?case by (simp add: follows_def keeps_def generation_runs_def tool_runs_def)
next
  case (Cons e es)
  obtain st2 err where e: "handle_event cfg e st = (st2, err)" by fastforce
  obtain errs' where es: "handle_events cfg es st2 = (st1, errs')"
    using Cons.prems(2) e by (auto split: prod.split_asm)
  have f: "follows cfg [e] g t st st2" by (rule handle_event_follows [OF Cons.prems(1) e])
  show ?case by (rule follows_append [OF f Cons.IH [OF _ es]]) (use f in \<open>simp add: follows_def\<close>)
qed


lemma close_open_inv:
  assumes "callback_inv g t st"
  shows "callback_inv g t (close_open e st)"
  using assms by (auto simp: callback_inv_def close_open_def ledger_def ended_once_perform)


section \<open>Properties\<close>

text \<open>
  C18. The spans of the callback are balanced. Whatever LangChain reports, in any order and with any
  errors while the callback records, after \<open>close_open\<close> no generation and no tool span is open, every
  ended one was ended exactly once and last of all, and the started spans are the ended and the lost
  ones. No generation span is lost unless a run id is reused, and no tool span unless a run id is
  reused or the arguments of a call cannot be rendered.
\<close>

theorem callback_spans_are_ended_once:
  assumes "handle_events cfg es initial_callback = (st, errs)" and "st' = close_open e st"
  shows "gen_spans st' = [] \<and> tool_entries st' = [] \<and>
    (\<forall>s \<in> set (ended_gens st') \<union> set (ended_tools st'). ended_once s) \<and>
    length (ended_gens st') + length (lost_gens st') = length (generation_runs cfg es) \<and>
    length (ended_tools st') + length (lost_tools st') = length (tool_runs es) \<and>
    (distinct (generation_runs cfg es) \<longrightarrow> lost_gens st' = []) \<and>
    (distinct (tool_runs es) \<and> list_all serialisable_inputs es \<longrightarrow> lost_tools st' = [])"
proof -
  have f: "follows cfg es 0 0 initial_callback st"
    by (rule handle_events_follow [OF initial_callback_inv assms(1)])
  then have "callback_inv (length (generation_runs cfg es)) (length (tool_runs es)) st'"
    unfolding assms(2) by (intro close_open_inv) (simp add: follows_def)
  moreover have "gen_spans st' = []" "tool_entries st' = []" "lost_gens st' = lost_gens st" "lost_tools st' = lost_tools st"
    unfolding assms(2) by (simp_all add: close_open_def)
  moreover have "lost_gens st = []" if "distinct (generation_runs cfg es)"
    using f that by (simp add: follows_def keeps_def initial_callback_def)
  moreover have "lost_tools st = []" if "distinct (tool_runs es)" "list_all serialisable_inputs es"
    using f that by (simp add: follows_def keeps_def initial_callback_def)
  ultimately show ?thesis by (auto simp: callback_inv_def ledger_def)
qed

definition sample_callback :: callback_config where
  "sample_callback = \<lparr>cb_model = S ''m'', cb_provider = S ''p'', cb_main_name = None,
     cb_parent_attributes = [], cb_sampled = True\<rparr>"

definition sample_callback_events :: "callback_event list" where
  "sample_callback_events =
     [ChatModelStart 1 [] [],
      LlmEnd 1 \<lparr>generations = [[\<lparr>gen_message = Some \<lparr>reply_blocks = [[(S ''type'', text_value ''text''), (S ''text'', VOpaque)]],
          reply_body = PNone, reply_metadata = PNone, reply_has_calls = False, reply_usage = PNone\<rparr>,
        gen_info = PNone\<rparr>]], llm_output = PNone\<rparr>,
      ToolStart 2 None [] (Some (Plain VOpaque)) None,
      ToolStart 3 None [] None None]"

lemma callback_spans_are_ended_once_witness:
  "case handle_events sample_callback sample_callback_events initial_callback of
     (st, errs) \<Rightarrow> tool_entries (close_open [] st) = []
       \<and> length (ended_gens (close_open [] st)) + length (lost_gens (close_open [] st)) = 1
       \<and> length (ended_tools (close_open [] st)) + length (lost_tools (close_open [] st)) = 2"
proof -
  obtain st errs where h: "handle_events sample_callback sample_callback_events initial_callback = (st, errs)"
    by fastforce
  have "generation_runs sample_callback sample_callback_events = [1]" "tool_runs sample_callback_events = [2, 3]"
    by (simp_all add: generation_runs_def tool_runs_def sample_callback_events_def main_generation_def
        sample_callback_def dgetn_def)
  then show ?thesis using callback_spans_are_ended_once [OF h refl, of "[]"] h by auto
qed

definition part_is :: "string \<Rightarrow> block_fields \<Rightarrow> bool" where
  "part_is kind p \<longleftrightarrow> block_field p ''type'' = text_value kind"

definition given_texts :: "block_fields list \<Rightarrow> tool_value list" where
  "given_texts bs = filter field_given (map (\<lambda>b. block_field b ''text'') (filter (part_is ''text'') bs))"

lemma text_value_eq [simp]: "text_value a = text_value b \<longleftrightarrow> a = b"
  by (simp add: text_value_def)

lemma content_part_facts [simp]:
  "filter (part_is k) (content_part kind v) = (if k = kind then content_part kind v else [])"
  "map (\<lambda>p. block_field p ''content'') (content_part kind v) = (if field_given v then [v] else [])"
  by (auto simp: content_part_def part_is_def block_field_def)

lemma single_text_part [simp]:
  "part_is k [(S ''type'', text_value ''text''), (S ''content'', v)] \<longleftrightarrow> k = ''text''"
  "block_field [(S ''type'', text_value ''text''), (S ''content'', v)] ''content'' = v"
  by (auto simp: part_is_def block_field_def)

lemma call_parts_type [simp]:
  "block_field (call_part b) ''type'' = text_value ''tool_call''"
  "block_field (chunk_part b) ''type'' = text_value ''tool_call_chunk''"
  by (simp_all add: call_part_def chunk_part_def block_field_def)

lemma block_parts_kinds:
  "filter (part_is ''tool_call'') (block_parts b) = (if part_is ''tool_call'' b then [call_part b] else [])"
  "map (\<lambda>p. block_field p ''content'') (filter (part_is ''text'') (block_parts b)) = given_texts [b]"
  by (simp_all add: block_parts_def Let_def given_texts_def part_is_def)

lemma blocks_parts_kinds:
  "filter (part_is ''tool_call'') (concat (map block_parts bs)) = map call_part (filter (part_is ''tool_call'') bs)"
  "map (\<lambda>p. block_field p ''content'') (filter (part_is ''text'') (concat (map block_parts bs))) = given_texts bs"
proof (induction bs)
  case (Cons b bs)
  have "given_texts (b # bs) = given_texts [b] @ given_texts bs" by (simp add: given_texts_def)
  then show "map (\<lambda>p. block_field p ''content'') (filter (part_is ''text'') (concat (map block_parts (b # bs)))) =
      given_texts (b # bs)"
    using Cons by (simp add: block_parts_kinds)
  show "filter (part_is ''tool_call'') (concat (map block_parts (b # bs))) =
      map call_part (filter (part_is ''tool_call'') (b # bs))"
    using Cons by (simp add: block_parts_kinds)
qed (simp_all add: given_texts_def)

text \<open>
  A reply is recorded part by part. The contents of the text parts are, in order, the given texts
  of the text blocks; the tool calls recorded are the tool-call blocks, in order; and a reply without
  blocks is recorded as its content when that is a text, and as nothing otherwise.
\<close>

theorem reply_is_recorded_part_by_part:
  "filter (part_is ''tool_call'') (generation_parts m) = map call_part (filter (part_is ''tool_call'') (reply_blocks m)) \<and>
   map (\<lambda>p. block_field p ''content'') (filter (part_is ''text'') (generation_parts m)) =
     given_texts (reply_blocks m)
     @ (case reply_body m of PStr t \<Rightarrow> if reply_blocks m = [] then [VPy (PStr t)] else [] | _ \<Rightarrow> [])"
  by (cases "reply_body m") (simp_all add: generation_parts_def blocks_parts_kinds given_texts_def)

end
