(* ===== verification/Url.thy ===== *)
theory Url
  imports PyWorld
begin

text \<open>
  \<open>urllib.parse\<close> as the program uses it: the scheme and the host name of \<open>urlsplit\<close> / \<open>urlparse\<close>
  and the errors that splitting raises, the rest of a URL, and \<open>urlunsplit\<close>.
\<close>

definition rstrip_char :: "codepoint \<Rightarrow> pystr \<Rightarrow> pystr" where
  "rstrip_char c s = rev (dropWhile (\<lambda>x. x = c) (rev s))"

text \<open>\<open>s.partition(c)\<close>: before and after the first \<open>c\<close>, and whether there is one.\<close>

definition partition_at :: "codepoint \<Rightarrow> pystr \<Rightarrow> pystr \<times> bool \<times> pystr" where
  "partition_at c s = (takeWhile (\<lambda>x. x \<noteq> c) s, c \<in> set s, drop 1 (dropWhile (\<lambda>x. x \<noteq> c) s))"

text \<open>\<open>s.rpartition(c)[2]\<close>.\<close>

definition after_last :: "codepoint \<Rightarrow> pystr \<Rightarrow> pystr" where
  "after_last c s = rev (takeWhile (\<lambda>x. x \<noteq> c) (rev s))"

definition ascii_alpha :: "codepoint \<Rightarrow> bool" where
  "ascii_alpha c \<longleftrightarrow> (65 \<le> c \<and> c \<le> 90) \<or> (97 \<le> c \<and> c \<le> 122)"

definition scheme_char :: "codepoint \<Rightarrow> bool" where
  "scheme_char c \<longleftrightarrow> ascii_alpha c \<or> (48 \<le> c \<and> c \<le> 57) \<or> c = 43 \<or> c = 45 \<or> c = 46"

record split_url =
  url_scheme :: pystr
  url_netloc :: pystr

definition clean_url :: "pystr \<Rightarrow> pystr" where
  "clean_url url = filter (\<lambda>c. c \<noteq> 9 \<and> c \<noteq> 10 \<and> c \<noteq> 13) (dropWhile (\<lambda>c. c \<le> 32) url)"

definition split_scheme :: "pystr \<Rightarrow> pystr \<times> pystr" where
  "split_scheme url =
     (let (front, found, rest) = partition_at 58 url
      in if found \<and> front \<noteq> [] \<and> ascii_alpha (hd front) \<and> (\<forall>c \<in> set front. scheme_char c)
         then (lower front, rest) else ([], url))"

definition url_hex :: "codepoint \<Rightarrow> bool" where
  "url_hex c \<longleftrightarrow> (48 \<le> c \<and> c \<le> 57) \<or> (65 \<le> c \<and> c \<le> 70) \<or> (97 \<le> c \<and> c \<le> 102)"

definition bracket_host_ok :: "world \<Rightarrow> pystr \<Rightarrow> bool" where
  "bracket_host_ok w host =
     (if starts_with host (S ''v'')
      then (let (digits, dot, rest) = partition_at 46 (drop 1 host)
            in dot \<and> digits \<noteq> [] \<and> (\<forall>c \<in> set digits. url_hex c) \<and> rest \<noteq> [] \<and> 10 \<notin> set rest)
      else ip_literal w host)"

definition brackets_ok :: "world \<Rightarrow> pystr \<Rightarrow> bool" where
  "brackets_ok w netloc =
     (if 91 \<in> set netloc \<and> 93 \<in> set netloc then
        (let hostport = after_last 64 netloc;
             (front, opened, bracketed) = partition_at 91 hostport
         in if opened
            then (let (host, _, port) = partition_at 93 bracketed
                  in front = [] \<and> (port = [] \<or> hd port = 58) \<and> bracket_host_ok w host)
            else bracket_host_ok w (fst (partition_at 58 hostport)))
      else 91 \<notin> set netloc \<and> 93 \<notin> set netloc)"

text \<open>A netloc outside ASCII must not normalise to one with a delimiter in it.\<close>

definition netloc_ok :: "world \<Rightarrow> pystr \<Rightarrow> bool" where
  "netloc_ok w netloc \<longleftrightarrow>
     (\<forall>c \<in> set netloc. c < 128) \<or>
     (let n = filter (\<lambda>c. c \<notin> {64, 58, 35, 63}) netloc
      in nfkc w n = n \<or> (\<forall>c \<in> set (nfkc w n). c \<notin> {47, 63, 35, 64, 58}))"

definition urlsplit :: "world \<Rightarrow> pystr \<Rightarrow> split_url result" where
  "urlsplit w url =
     (let (scheme, rest) = split_scheme (clean_url url);
          netloc = (if starts_with rest (S ''//'')
                    then takeWhile (\<lambda>c. c \<noteq> 47 \<and> c \<noteq> 63 \<and> c \<noteq> 35) (drop 2 rest) else [])
      in if brackets_ok w netloc \<and> netloc_ok w netloc
         then Inr \<lparr>url_scheme = scheme, url_netloc = netloc\<rparr>
         else Inl (ValueError (S ''Invalid URL'')))"

definition url_hostname :: "split_url \<Rightarrow> pystr option" where
  "url_hostname u =
     (let hostinfo = after_last 64 (url_netloc u);
          (_, opened, bracketed) = partition_at 91 hostinfo;
          host = (if opened then fst (partition_at 93 bracketed) else fst (partition_at 58 hostinfo));
          (name, percent, zone) = partition_at 37 host
      in if host = [] then None
         else Some (lower name @ (if percent then S ''%'' else []) @ zone))"

text \<open>\<open>(urlparse(u).hostname or "").lower().rstrip(".")\<close>.\<close>

definition canonical_host :: "split_url \<Rightarrow> pystr" where
  "canonical_host u = rstrip_char 46 (lower (case url_hostname u of None \<Rightarrow> [] | Some h \<Rightarrow> h))"

text \<open>What \<open>urlsplit\<close> gives beyond scheme and host: path, query and fragment.\<close>

definition url_tail :: "pystr \<Rightarrow> pystr \<times> pystr \<times> pystr" where
  "url_tail url =
     (let rest = snd (split_scheme (clean_url url));
          tail = (if starts_with rest (S ''//'')
                  then dropWhile (\<lambda>c. c \<noteq> 47 \<and> c \<noteq> 63 \<and> c \<noteq> 35) (drop 2 rest) else rest);
          (front, _, fragment) = partition_at 35 tail;
          (path, _, query) = partition_at 63 front
      in (path, query, fragment))"

text \<open>\<open>geturl()\<close> of a split URL: \<open>urlunsplit\<close> of its scheme, host, path, query and fragment.\<close>

definition uses_netloc :: "pystr list" where
  "uses_netloc = map S [''ftp'', ''http'', ''gopher'', ''nntp'', ''telnet'', ''imap'', ''wais'', ''file'', ''mms'',
     ''https'', ''shttp'', ''snews'', ''prospero'', ''rtsp'', ''rtsps'', ''rtspu'', ''rsync'', ''svn'', ''svn+ssh'',
     ''sftp'', ''nfs'', ''git'', ''git+ssh'', ''ws'', ''wss'']"

definition urlunsplit :: "split_url \<Rightarrow> pystr \<times> pystr \<times> pystr \<Rightarrow> pystr" where
  "urlunsplit u tail =
     (let (path, query, fragment) = tail;
          with_host = (if url_netloc u \<noteq> [] \<or> (url_scheme u \<in> set uses_netloc \<and> \<not> starts_with path (S ''//''))
            then S ''//'' @ url_netloc u @ (if path \<noteq> [] \<and> hd path \<noteq> 47 then S ''/'' @ path else path) else path)
      in (if url_scheme u \<noteq> [] then url_scheme u @ S '':'' else []) @ with_host
         @ (if query \<noteq> [] then S ''?'' @ query else []) @ (if fragment \<noteq> [] then S ''#'' @ fragment else []))"

lemma urlsplit_error: "urlsplit w url = Inl e \<Longrightarrow> exn_class e = CValueError"
  by (auto simp: urlsplit_def Let_def split: prod.splits if_splits)

lemma urlsplit_examples:
  "map_sum id canonical_host (urlsplit empty_world (S ''HTTPS://user@API.OpenAI.com.:443/v1''))
     = Inr (S ''api.openai.com'')"
  "map_sum id url_scheme (urlsplit empty_world (S ''HTTPS://api.openai.com'')) = Inr (S ''https'')"
  "urlsplit empty_world (S ''http://[::1/'') = Inl (ValueError (S ''Invalid URL''))"
  by code_simp+

end
