(* ===== verification/Config.thy ===== *)
theory Config
  imports PyJson Url
begin

text \<open>
  \<open>config.py\<close>: the \<open>LIGHTSPEED_*\<close> settings and the credential references read at startup. A union of
  dataclasses is a datatype with one constructor per class; \<open>ResolvedModelFamily\<close> is a record.
  Proved: a resolved family is well formed, the Azure credentials are chosen in the documented
  order, the version gates are monotone and the numeric limits are in range.
\<close>

definition LLM_CREDENTIALS_PATH :: pystr where
  "LLM_CREDENTIALS_PATH = S ''/var/run/secrets/llm-credentials''"
definition DEFAULT_AZURE_API_VERSION :: pystr where
  "DEFAULT_AZURE_API_VERSION = S ''2024-08-01-preview''"
definition DEFAULT_VERTEX_REGION :: pystr where
  "DEFAULT_VERTEX_REGION = S ''global''"

section \<open>Data\<close>

datatype credential_source =
    AnthropicCredentialSource (anthropic_key: pystr) (auth_token: "pystr option")
  | AzureApiKeyCredentialSource (azure_key: pystr)
  | AzureEntraCredentialSource (tenant_id: pystr) (client_id: pystr) (client_secret: pystr)
  | VertexCredentialSource (credentials_file: pystr)
  | BedrockCredentialSource (access_key_id: pystr) (secret_access_key: pystr)
      (session_token: "pystr option") (role_arn: "pystr option")

datatype provider_parameters =
    VertexProviderParameters (vertex_project: "pystr option") (vertex_region: pystr)
  | BedrockProviderParameters (bedrock_region: pystr)
  | AzureProviderParameters (api_version: pystr)

record model_parameters =
  mp_model :: pystr
  mp_base_url :: "pystr option"
  mp_provider :: "provider_parameters option"
  mp_credentials :: "credential_source option"
  mp_api_key :: "pystr option"
  mp_max_output_tokens :: "int option"

datatype family_name = FamilyAnthropic | FamilyGoogle | FamilyOpenai
datatype hosting_name = HostAnthropic | HostVertex | HostBedrock | HostOpenai | HostAzure

fun family_text :: "family_name \<Rightarrow> pystr" where
  "family_text FamilyAnthropic = S ''anthropic''"
| "family_text FamilyGoogle = S ''google''"
| "family_text FamilyOpenai = S ''openai''"

record model_family =
  family :: family_name
  expected_envs :: "pystr list"
  credential_file_envs :: "pystr list"
  hosting :: hosting_name
  mf_model :: "pystr option"
  mf_base_url :: "pystr option"
  mf_provider :: "provider_parameters option"
  mf_credentials :: "credential_source option"
  mf_api_key :: "pystr option"


section \<open>Reading the environment\<close>

definition llm_credentials_path :: "world \<Rightarrow> pystr" where
  "llm_credentials_path w =
     (let override = env_strip w (S ''LIGHTSPEED_LLM_CREDENTIALS_PATH'')
      in if override \<noteq> [] then override else LLM_CREDENTIALS_PATH)"

definition resolved_value :: "world \<Rightarrow> pystr option \<Rightarrow> pystr \<Rightarrow> pystr option" where
  "resolved_value w value env_name = or_str value (or_none (env_strip w env_name))"

definition is_native_openai_endpoint :: "world \<Rightarrow> pystr option \<Rightarrow> bool result" where
  "is_native_openai_endpoint w base_url =
     (case base_url of
        None \<Rightarrow> Inr True
      | Some url \<Rightarrow>
          if url = [] then Inr True
          else (case urlsplit w url of
                  Inl _ \<Rightarrow> Inr False
                | Inr parsed \<Rightarrow>
                    if canonical_host parsed \<noteq> S ''api.openai.com'' then Inr False
                    else if lower (url_scheme parsed) \<noteq> S ''https''
                    then Inl (ValueError (S ''Native OpenAI endpoint must use HTTPS''))
                    else Inr True))"

definition resolve_vertex_region :: "pystr option \<Rightarrow> pystr" where
  "resolve_vertex_region region =
     (case region of Some r \<Rightarrow> if r \<noteq> [] then r else DEFAULT_VERTEX_REGION
      | None \<Rightarrow> DEFAULT_VERTEX_REGION)"

definition read_credential_file :: "world \<Rightarrow> pystr \<Rightarrow> pystr option" where
  "read_credential_file w path = read_stripped w (path_text path)"


section \<open>The Azure API version\<close>

text \<open>A version date: Python's tuple \<open>(year, month, day)\<close>, ordered lexicographically.\<close>

datatype api_date = ApiDate int int int

instantiation api_date :: linorder
begin

fun less_eq_api_date :: "api_date \<Rightarrow> api_date \<Rightarrow> bool" where
  "less_eq_api_date (ApiDate y m d) (ApiDate y' m' d') \<longleftrightarrow>
     y < y' \<or> (y = y' \<and> (m < m' \<or> (m = m' \<and> d \<le> d')))"

definition less_api_date :: "api_date \<Rightarrow> api_date \<Rightarrow> bool" where
  "less_api_date a b \<longleftrightarrow> a \<le> b \<and> \<not> b \<le> a"

instance
proof
  fix x y z :: api_date
  show "x < y \<longleftrightarrow> x \<le> y \<and> \<not> y \<le> x" by (rule less_api_date_def)
  show "x \<le> x" by (cases x) simp
  show "x \<le> y \<Longrightarrow> y \<le> z \<Longrightarrow> x \<le> z" by (cases x; cases y; cases z) auto
  show "x \<le> y \<Longrightarrow> y \<le> x \<Longrightarrow> x = y" by (cases x; cases y) auto
  show "x \<le> y \<or> y \<le> x" by (cases x; cases y) auto
qed

end

text \<open>\<open>s.split(sep, 1)[0]\<close>.\<close>

fun before_first :: "pystr \<Rightarrow> pystr \<Rightarrow> pystr" where
  "before_first sep [] = []"
| "before_first sep (c # cs) =
     (if starts_with (c # cs) sep then [] else c # before_first sep cs)"

definition parse_azure_api_version_date :: "pystr option \<Rightarrow> api_date option" where
  "parse_azure_api_version_date version =
     (case version of
        None \<Rightarrow> None
      | Some v \<Rightarrow>
          if v = [] then None
          else (case map py_int (split_on 45 (before_first (S ''-preview'') v)) of
                  [Some year, Some month, Some day] \<Rightarrow> Some (ApiDate year month day)
                | _ \<Rightarrow> None))"

definition azure_api_version_supports_structured_outputs :: "pystr option \<Rightarrow> bool" where
  "azure_api_version_supports_structured_outputs version =
     (case parse_azure_api_version_date version of
        None \<Rightarrow> False | Some v \<Rightarrow> ApiDate 2024 8 1 \<le> v)"

definition azure_api_version_supports_responses :: "pystr option \<Rightarrow> bool" where
  "azure_api_version_supports_responses version =
     (case parse_azure_api_version_date version of
        None \<Rightarrow> False | Some v \<Rightarrow> ApiDate 2025 3 1 \<le> v)"


section \<open>Resolving the model family\<close>

definition resolve_anthropic :: "world \<Rightarrow> pystr option \<Rightarrow> pystr option \<Rightarrow> model_family" where
  "resolve_anthropic w model url =
     \<lparr>family = FamilyAnthropic, expected_envs = [S ''ANTHROPIC_API_KEY''], credential_file_envs = [],
      hosting = HostAnthropic, mf_model = model, mf_base_url = url, mf_provider = None,
      mf_credentials = Some (AnthropicCredentialSource (env_strip w (S ''ANTHROPIC_API_KEY''))
        (or_none (env_strip w (S ''ANTHROPIC_AUTH_TOKEN'')))),
      mf_api_key = None\<rparr>"

definition vertex_family ::
  "world \<Rightarrow> family_name \<Rightarrow> pystr option \<Rightarrow> pystr option \<Rightarrow> pystr option \<Rightarrow> pystr option \<Rightarrow> model_family"
where
  "vertex_family w fam model url project region =
     \<lparr>family = fam, expected_envs = [], credential_file_envs = [], hosting = HostVertex,
      mf_model = model, mf_base_url = url,
      mf_provider = Some (VertexProviderParameters project (resolve_vertex_region region)),
      mf_credentials = Some (VertexCredentialSource
        (path_join (llm_credentials_path w) (S ''GOOGLE_APPLICATION_CREDENTIALS''))),
      mf_api_key = None\<rparr>"

definition resolve_vertex ::
  "world \<Rightarrow> pystr option \<Rightarrow> pystr option \<Rightarrow> pystr option \<Rightarrow> pystr option \<Rightarrow> pystr option
     \<Rightarrow> model_family result"
where
  "resolve_vertex w model_provider model url project region =
     (if \<not> truthy_str model_provider
      then Inl (ValueError (S ''LIGHTSPEED_MODEL_PROVIDER is required when LIGHTSPEED_PROVIDER=vertex''))
      else if model_provider = Some (S ''anthropic'')
      then Inr (vertex_family w FamilyAnthropic model url project region)
      else if model_provider = Some (S ''google'')
      then Inr (vertex_family w FamilyGoogle model url project region)
      else Inl (ValueError (S ''Unknown LIGHTSPEED_MODEL_PROVIDER: '' @ repr_str (the model_provider)
             @ S ''. Supported: anthropic, google'')))"

definition resolve_openai :: "world \<Rightarrow> pystr option \<Rightarrow> pystr option \<Rightarrow> model_family result" where
  "resolve_openai w model url =
     (let base_url = or_str url (or_none (env_strip w (S ''OPENAI_BASE_URL'')));
          api_key = or_none (env_strip w (S ''OPENAI_API_KEY''));
          native = \<lparr>family = FamilyOpenai, expected_envs = [S ''OPENAI_API_KEY''],
             credential_file_envs = [], hosting = HostOpenai, mf_model = model,
             mf_base_url = base_url, mf_provider = None, mf_credentials = None, mf_api_key = api_key\<rparr>
      in bindE (is_native_openai_endpoint w base_url) (\<lambda>is_native.
           Inr (if is_native then native
                else native\<lparr>mf_model := resolved_value w model (S ''OPENAI_MODEL'')\<rparr>)))"

definition resolve_azure ::
  "world \<Rightarrow> pystr option \<Rightarrow> pystr option \<Rightarrow> pystr option \<Rightarrow> model_family result"
where
  "resolve_azure w model url version =
     (let creds_path = llm_credentials_path w;
          azure = (\<lambda>credentials.
            \<lparr>family = FamilyOpenai, expected_envs = [], credential_file_envs = [], hosting = HostAzure,
             mf_model = resolved_value w model (S ''OPENAI_MODEL''),
             mf_base_url = or_str url (or_none (env_strip w (S ''AZURE_OPENAI_ENDPOINT''))),
             mf_provider = Some (AzureProviderParameters
               (if truthy_str version then the version else DEFAULT_AZURE_API_VERSION)),
             mf_credentials = Some credentials, mf_api_key = None\<rparr>);
          client = read_credential_file w (creds_path @ S ''/client_id'');
          tenant = read_credential_file w (creds_path @ S ''/tenant_id'');
          secret = read_credential_file w (creds_path @ S ''/client_secret'');
          api_key_file = read_credential_file w (creds_path @ S ''/apitoken'');
          api_key_env = env_strip w (S ''AZURE_OPENAI_API_KEY'')
      in if truthy_str client \<and> truthy_str tenant \<and> truthy_str secret
         then Inr (azure (AzureEntraCredentialSource (the tenant) (the client) (the secret)))
         else if truthy_str api_key_file
         then Inr (azure (AzureApiKeyCredentialSource (the api_key_file)))
         else if api_key_env \<noteq> []
         then Inr (azure (AzureApiKeyCredentialSource api_key_env))
         else Inl (ValueError (S ''Azure OpenAI credentials not found. Provide either all three Entra ID files (client_id, tenant_id, client_secret) at ''
                @ creds_path @ S ''/, or an API key via apitoken file or AZURE_OPENAI_API_KEY env var.'')))"

definition resolve_bedrock_credential :: "world \<Rightarrow> pystr \<Rightarrow> pystr \<Rightarrow> pystr option" where
  "resolve_bedrock_credential w env_name file_name =
     (let value = env_strip w env_name
      in if value \<noteq> [] then Some value
         else read_credential_file w (path_join (llm_credentials_path w) file_name))"

definition or_empty :: "pystr option \<Rightarrow> pystr" where
  "or_empty v = (case v of None \<Rightarrow> [] | Some s \<Rightarrow> s)"

definition resolve_bedrock ::
  "world \<Rightarrow> pystr option \<Rightarrow> pystr option \<Rightarrow> pystr option \<Rightarrow> model_family"
where
  "resolve_bedrock w model url region =
     \<lparr>family = FamilyAnthropic, expected_envs = [], credential_file_envs = [], hosting = HostBedrock,
      mf_model = model, mf_base_url = url,
      mf_provider = Some (BedrockProviderParameters
        (if truthy_str region then the region
         else if env_strip w (S ''AWS_REGION'') \<noteq> [] then env_strip w (S ''AWS_REGION'')
         else S ''us-east-1'')),
      mf_credentials = Some (BedrockCredentialSource
        (or_empty (resolve_bedrock_credential w (S ''AWS_ACCESS_KEY_ID'') (S ''aws_access_key_id'')))
        (or_empty (resolve_bedrock_credential w (S ''AWS_SECRET_ACCESS_KEY'') (S ''aws_secret_access_key'')))
        (resolve_bedrock_credential w (S ''AWS_SESSION_TOKEN'') (S ''aws_session_token''))
        (resolve_bedrock_credential w (S ''role_arn'') (S ''role_arn''))),
      mf_api_key = None\<rparr>"

definition resolve_model_family :: "world \<Rightarrow> model_family result" where
  "resolve_model_family w =
     (let provider = (let p = lower (env_strip w (S ''LIGHTSPEED_PROVIDER''))
                      in if p \<noteq> [] then p else S ''anthropic'');
          model = or_none (env_strip w (S ''LIGHTSPEED_MODEL''));
          model_provider = or_none (lower (env_strip w (S ''LIGHTSPEED_MODEL_PROVIDER'')));
          url = or_none (env_strip w (S ''LIGHTSPEED_PROVIDER_URL''));
          project = or_none (env_strip w (S ''LIGHTSPEED_PROVIDER_PROJECT''));
          region = or_none (env_strip w (S ''LIGHTSPEED_PROVIDER_REGION''));
          version = or_none (env_strip w (S ''LIGHTSPEED_PROVIDER_API_VERSION''))
      in if provider = S ''anthropic'' then Inr (resolve_anthropic w model url)
         else if provider = S ''vertex'' then resolve_vertex w model_provider model url project region
         else if provider = S ''openai'' then resolve_openai w model url
         else if provider = S ''azure'' then resolve_azure w model url version
         else if provider = S ''bedrock'' then Inr (resolve_bedrock w model url region)
         else Inl (ValueError (S ''Unknown provider: '' @ repr_str provider
                @ S ''. Supported: anthropic, vertex, openai, azure, bedrock'')))"


section \<open>Scalar settings\<close>

definition parse_tool_output_inspection_enabled :: "world \<Rightarrow> bool result" where
  "parse_tool_output_inspection_enabled w =
     (let raw = env_strip w (S ''LIGHTSPEED_TOOL_OUTPUT_INSPECTION_ENABLED'')
      in if raw = [] then Inr True
         else if lower raw = S ''true'' then Inr True
         else if lower raw = S ''false'' then Inr False
         else Inl (ValueError (S ''LIGHTSPEED_TOOL_OUTPUT_INSPECTION_ENABLED must be true or false'')))"

definition parse_reasoning_config :: "world \<Rightarrow> pydict option result" where
  "parse_reasoning_config w =
     (let raw = env_strip w (S ''LIGHTSPEED_REASONING_CONFIG'')
      in if raw = [] then Inr None
         else (case json_loads raw of
                 Inl e \<Rightarrow>
                   if exn_class e = CJSONDecodeError
                   then Inl (ValueError (S ''LIGHTSPEED_REASONING_CONFIG contains invalid JSON: '' @ exn_msg e))
                   else Inl e
               | Inr (PDict d) \<Rightarrow> Inr (Some d)
               | Inr v \<Rightarrow> Inl (ValueError (S ''LIGHTSPEED_REASONING_CONFIG must be a JSON object, got ''
                                @ type_name v))))"

definition parse_agent_timeout :: "world \<Rightarrow> int result" where
  "parse_agent_timeout w =
     (let raw = env_strip w (S ''LIGHTSPEED_AGENT_TIMEOUT_SECONDS'')
      in if raw = [] then Inl (ValueError (S ''LIGHTSPEED_AGENT_TIMEOUT_SECONDS is required but not set''))
         else (case py_int raw of
                 None \<Rightarrow> Inl (ValueError
                   (S ''LIGHTSPEED_AGENT_TIMEOUT_SECONDS must be a positive integer, got '' @ repr_str raw))
               | Some timeout_seconds \<Rightarrow>
                   if timeout_seconds \<le> 0
                   then Inl (ValueError (S ''LIGHTSPEED_AGENT_TIMEOUT_SECONDS must be positive, got ''
                          @ int_dec timeout_seconds))
                   else Inr timeout_seconds))"

definition parse_max_turns :: "world \<Rightarrow> int result" where
  "parse_max_turns w =
     (let raw = env_strip w (S ''LIGHTSPEED_AGENT_MAX_TURNS'')
      in if raw = [] then Inl (ValueError (S ''LIGHTSPEED_AGENT_MAX_TURNS is required but not set''))
         else (case py_int raw of
                 None \<Rightarrow> Inl (ValueError (S ''LIGHTSPEED_AGENT_MAX_TURNS must be an integer, got '' @ repr_str raw))
               | Some max_turns \<Rightarrow>
                   if max_turns < 1 \<or> 500 < max_turns
                   then Inl (ValueError (S ''LIGHTSPEED_AGENT_MAX_TURNS must be between 1 and 500, got ''
                          @ int_dec max_turns))
                   else Inr max_turns))"


section \<open>Lemmas\<close>

definition opt_nonempty :: "pystr option \<Rightarrow> bool" where
  "opt_nonempty v \<longleftrightarrow> v \<noteq> Some []"

lemma opt_nonempty_simps [simp]:
  "opt_nonempty None" "opt_nonempty (Some s) \<longleftrightarrow> s \<noteq> []" "opt_nonempty (or_none s)"
  "opt_nonempty (or_str a b) \<longleftrightarrow> opt_nonempty a \<and> a \<noteq> None \<or> opt_nonempty b"
  by (cases a) (auto simp: opt_nonempty_def or_str_def truthy_str_def)

lemma opt_nonempty_resolved [simp]:
  "opt_nonempty v \<Longrightarrow> opt_nonempty (resolved_value w v n)"
  by (simp add: resolved_value_def)

lemma read_credential_file_Some:
  "read_credential_file w p = Some t \<Longrightarrow> t \<noteq> []"
  by (simp add: read_credential_file_def read_stripped_Some)

lemma opt_nonempty_credential [simp]:
  "opt_nonempty (read_credential_file w p)" "opt_nonempty (resolve_bedrock_credential w e n)"
  using read_credential_file_Some
  by (auto simp: opt_nonempty_def resolve_bedrock_credential_def Let_def)

lemma resolve_vertex_region_nonempty [simp]: "resolve_vertex_region r \<noteq> []"
  by (auto simp: resolve_vertex_region_def DEFAULT_VERTEX_REGION_def split: option.splits)

text \<open>
  What the rest of the program relies on: the hosting, the model family and the classes of the
  provider parameters and of the credentials go together, and no setting is present but empty.
\<close>

definition well_formed_family :: "model_family \<Rightarrow> bool" where
  "well_formed_family f \<longleftrightarrow>
     opt_nonempty (mf_model f) \<and> opt_nonempty (mf_base_url f) \<and> opt_nonempty (mf_api_key f) \<and>
     credential_file_envs f = [] \<and>
     (case (hosting f, mf_provider f, mf_credentials f) of
        (HostAnthropic, None, Some (AnthropicCredentialSource _ tok)) \<Rightarrow>
          family f = FamilyAnthropic \<and> opt_nonempty tok \<and> expected_envs f = [S ''ANTHROPIC_API_KEY'']
      | (HostVertex, Some (VertexProviderParameters project region), Some (VertexCredentialSource _)) \<Rightarrow>
          family f \<noteq> FamilyOpenai \<and> opt_nonempty project \<and> region \<noteq> [] \<and> expected_envs f = []
      | (HostBedrock, Some (BedrockProviderParameters region),
           Some (BedrockCredentialSource _ _ token role)) \<Rightarrow>
          family f = FamilyAnthropic \<and> region \<noteq> [] \<and> opt_nonempty token \<and> opt_nonempty role
          \<and> expected_envs f = []
      | (HostOpenai, None, None) \<Rightarrow> family f = FamilyOpenai \<and> expected_envs f = [S ''OPENAI_API_KEY'']
      | (HostAzure, Some (AzureProviderParameters version), Some c) \<Rightarrow>
          family f = FamilyOpenai \<and> version \<noteq> [] \<and> mf_api_key f = None \<and> expected_envs f = [] \<and>
          (case c of
             AzureApiKeyCredentialSource key \<Rightarrow> key \<noteq> []
           | AzureEntraCredentialSource t i s \<Rightarrow> t \<noteq> [] \<and> i \<noteq> [] \<and> s \<noteq> []
           | _ \<Rightarrow> False)
      | _ \<Rightarrow> False)"

lemma truthy_the: "truthy_str v \<Longrightarrow> the v \<noteq> []"
  by (auto simp: truthy_str_def)

lemma wf_azure:
  "resolve_azure w model url version = Inr f \<Longrightarrow> opt_nonempty model \<Longrightarrow> opt_nonempty url \<Longrightarrow>
    well_formed_family f"
  by (auto simp: resolve_azure_def well_formed_family_def Let_def truthy_the DEFAULT_AZURE_API_VERSION_def
      split: if_splits)

lemma wf_vertex:
  "resolve_vertex w mp model url project region = Inr f \<Longrightarrow> opt_nonempty model \<Longrightarrow> opt_nonempty url \<Longrightarrow>
    opt_nonempty project \<Longrightarrow> well_formed_family f"
  by (auto simp: resolve_vertex_def vertex_family_def well_formed_family_def split: if_splits)

lemma wf_openai:
  "resolve_openai w model url = Inr f \<Longrightarrow> opt_nonempty model \<Longrightarrow> opt_nonempty url \<Longrightarrow>
    well_formed_family f"
  by (auto simp: resolve_openai_def well_formed_family_def Let_def result_simps split: if_splits)

lemma wf_anthropic: "opt_nonempty model \<Longrightarrow> opt_nonempty url \<Longrightarrow>
    well_formed_family (resolve_anthropic w model url)"
  by (simp add: resolve_anthropic_def well_formed_family_def)

lemma wf_bedrock: "opt_nonempty model \<Longrightarrow> opt_nonempty url \<Longrightarrow>
    well_formed_family (resolve_bedrock w model url region)"
  by (simp add: resolve_bedrock_def well_formed_family_def truthy_the)

lemmas wf_families = wf_azure wf_vertex wf_openai wf_anthropic wf_bedrock

lemma resolve_errors:
  "resolve_azure w model url version = Inl e \<Longrightarrow> exn_class e = CValueError"
  "resolve_vertex w mp model url project region = Inl e \<Longrightarrow> exn_class e = CValueError"
  "resolve_openai w model url = Inl e \<Longrightarrow> exn_class e = CValueError"
  by (auto simp: resolve_azure_def resolve_vertex_def resolve_openai_def is_native_openai_endpoint_def
      Let_def result_simps split: if_splits option.splits sum.splits)

lemma before_preview:
  assumes "112 \<notin> set s"
  shows "before_first (S ''-preview'') s = s" "before_first (S ''-preview'') (s @ S ''-preview'') = s"
proof -
  have p: "S ''-preview'' = [45, 112, 114, 101, 118, 105, 101, 119]" by (simp add: S_def)
  have no: "\<not> starts_with (c # r) (S ''-preview'')" if "r = [] \<or> hd r \<noteq> 112" for c r
    using that by (cases r) (auto simp: p starts_with_def)
  show "before_first (S ''-preview'') s = s"
    using assms
  proof (induction s)
    case (Cons c r)
    then have "r = [] \<or> hd r \<noteq> 112" by (cases r) auto
    with Cons no show ?case by simp
  qed simp
  show "before_first (S ''-preview'') (s @ S ''-preview'') = s"
    using assms
  proof (induction s)
    case Nil
    show ?case by (simp add: p starts_with_def)
  next
    case (Cons c r)
    then have "hd (r @ S ''-preview'') \<noteq> 112" by (cases r) (auto simp: p)
    with Cons no show ?case by simp
  qed
qed

text \<open>The text of a version: a date, with or without the preview suffix.\<close>

definition version_text :: "nat \<Rightarrow> nat \<Rightarrow> nat \<Rightarrow> bool \<Rightarrow> pystr" where
  "version_text y m d preview =
     pad 4 y @ S ''-'' @ pad 2 m @ S ''-'' @ pad 2 d @ (if preview then S ''-preview'' else [])"

lemma parse_version_text:
  assumes "length (pad 4 y) \<le> 4300" "length (pad 2 m) \<le> 4300" "length (pad 2 d) \<le> 4300"
  shows "parse_azure_api_version_date (Some (version_text y m d preview)) =
    Some (ApiDate (int y) (int m) (int d))"
proof -
  let ?date = "pad 4 y @ 45 # pad 2 m @ 45 # pad 2 d"
  have digits: "x \<notin> set (pad k n)" if "x = 45 \<or> x = 112" for x k n
    using pad_digits [of x k n] that by auto
  have vt: "version_text y m d preview = ?date @ (if preview then S ''-preview'' else [])"
    by (simp add: version_text_def S_def)
  have "112 \<notin> set ?date" using digits by simp
  then have "before_first (S ''-preview'') (version_text y m d preview) = ?date"
    using before_preview [of ?date] unfolding vt by (cases preview) simp_all
  moreover have "split_on 45 ?date = [pad 4 y, pad 2 m, pad 2 d]"
    using digits by (simp add: split_on_append split_on_single)
  ultimately show ?thesis
    using assms by (simp add: parse_azure_api_version_date_def py_int_pad vt)
qed

lemma int_dec_clean: "strip (int_dec i) = int_dec i" "int_dec i \<noteq> []"
proof -
  have "\<not> is_space c" if "c \<in> set (int_dec i)" for c
    using that nat_dec_digits [of c] by (auto simp: int_dec_def is_space_def split: if_splits)
  then show "strip (int_dec i) = int_dec i" by (simp add: strip_id)
  show "int_dec i \<noteq> []" by (simp add: int_dec_def)
qed


lemma resolve_model_family_wf: "resolve_model_family w = Inr f \<Longrightarrow> well_formed_family f"
  by (auto simp: resolve_model_family_def Let_def wf_families split: if_splits)


section \<open>Properties\<close>

text \<open>
  Whatever the environment and the mounted files, resolving the model family either fails with
  \<open>ValueError\<close> or gives a well-formed family: the classes of its provider parameters and credentials
  match its hosting, Azure credentials are complete and non-empty, regions and versions are set, and
  no optional setting is an empty string.
\<close>

theorem resolved_family_well_formed:
  "case resolve_model_family w of
     Inl e \<Rightarrow> exn_class e = CValueError | Inr f \<Rightarrow> well_formed_family f"
  by (auto simp: resolve_model_family_def Let_def wf_families resolve_errors split: sum.splits)

text \<open>
  The version gates read the date of an API version text, with or without the preview suffix:
  structured outputs from 2024-08-01 on, the Responses API from 2025-03-01 on; so every version that
  supports responses supports structured outputs.
\<close>

theorem version_gates:
  assumes "length (pad 4 y) \<le> 4300" "length (pad 2 m) \<le> 4300" "length (pad 2 d) \<le> 4300"
  shows "azure_api_version_supports_structured_outputs (Some (version_text y m d preview)) =
      (2024 < y \<or> y = 2024 \<and> (8 < m \<or> m = 8 \<and> 1 \<le> d)) \<and>
    azure_api_version_supports_responses (Some (version_text y m d preview)) =
      (2025 < y \<or> y = 2025 \<and> (3 < m \<or> m = 3 \<and> 1 \<le> d)) \<and>
    (azure_api_version_supports_responses v \<longrightarrow> azure_api_version_supports_structured_outputs v)"
proof (intro conjI impI)
  show "azure_api_version_supports_structured_outputs v" if "azure_api_version_supports_responses v"
  proof (cases "parse_azure_api_version_date v")
    case None
    then show ?thesis using that by (simp add: azure_api_version_supports_responses_def)
  next
    case (Some a)
    then have "ApiDate 2025 3 1 \<le> a" using that by (simp add: azure_api_version_supports_responses_def)
    moreover have "ApiDate 2024 8 1 \<le> ApiDate 2025 3 1" by simp
    ultimately have "ApiDate 2024 8 1 \<le> a" by (rule order_trans [rotated])
    then show ?thesis using Some by (simp add: azure_api_version_supports_structured_outputs_def)
  qed
qed (auto simp: azure_api_version_supports_structured_outputs_def
    azure_api_version_supports_responses_def parse_version_text [OF assms])

lemma version_gates_witness:
  "azure_api_version_supports_structured_outputs (Some DEFAULT_AZURE_API_VERSION) \<and>
   \<not> azure_api_version_supports_responses (Some DEFAULT_AZURE_API_VERSION)"
proof -
  have t: "DEFAULT_AZURE_API_VERSION = version_text 2024 8 1 True" by code_simp
  have "length (pad 4 2024) \<le> 4300" "length (pad 2 8) \<le> 4300" "length (pad 2 1) \<le> 4300"
    by code_simp+
  from version_gates [OF this, of True None] show ?thesis by (simp add: t)
qed

text \<open>
  A numeric limit written in decimal is accepted exactly when it is in range, 1 to 500 for the
  turns and positive for the timeout, and then with its value; any other outcome is \<open>ValueError\<close>.
\<close>

theorem numeric_limits:
  assumes "length (int_dec n) \<le> 4300" "length (int_dec t) \<le> 4300"
    and "environ w (S ''LIGHTSPEED_AGENT_MAX_TURNS'') = Some (int_dec n)"
    and "environ w (S ''LIGHTSPEED_AGENT_TIMEOUT_SECONDS'') = Some (int_dec t)"
  shows "(if 1 \<le> n \<and> n \<le> 500 then parse_max_turns w = Inr n
          else \<exists>e. parse_max_turns w = Inl e \<and> exn_class e = CValueError) \<and>
    (if 0 < t then parse_agent_timeout w = Inr t
     else \<exists>e. parse_agent_timeout w = Inl e \<and> exn_class e = CValueError)"
  using assms by (simp add: parse_max_turns_def parse_agent_timeout_def env_strip_def env_get_def
      int_dec_clean py_int_int_dec Let_def)

lemma numeric_limits_witness:
  "parse_max_turns (empty_world\<lparr>environ := (\<lambda>_. Some (int_dec 500))\<rparr>) = Inr 500 \<and>
   parse_agent_timeout (empty_world\<lparr>environ := (\<lambda>_. Some (int_dec 500))\<rparr>) = Inr 500"
proof -
  have "length (int_dec 500) \<le> 4300" by code_simp
  from numeric_limits [OF this this, of "empty_world\<lparr>environ := (\<lambda>_. Some (int_dec 500))\<rparr>"]
  show ?thesis by simp
qed

end
