(* ===== verification/Router.thy ===== *)
theory Router
  imports Config
begin

text \<open>
  \<open>providers/model_router.py\<close> and \<open>readiness.py\<close>: the route a resolved model family gives, and the
  checks that stop a run before any model client is built. The functions a route carries
  (constructors, schema translations, bindings) are named by datatypes; what they do is modelled
  where they are modelled at all. Proved: a route matches the hosting it came from, and a run that
  passes the readiness checks has every setting its route's constructor reads.
\<close>

section \<open>Routes\<close>

datatype model_creator =
    CreateAzureModel | CreateNativeOpenaiModel | CreateOpenaiCompatibleModel
  | CreateVertexGeminiModel | CreateDirectModel | CreateVertexModel | CreateBedrockModel

datatype output_method = FunctionCalling | JsonSchema
datatype schema_mode = Pydantic | RawJsonSchema

text \<open>\<open>translate_output_schema\<close>; the Azure translation closes over the family's parameters.\<close>

datatype schema_translation =
    AzureStructuredOutputSchema "provider_parameters option"
  | NativeOpenaiStructuredOutputSchema
  | OpenaiCompatibleStructuredOutputSchema
  | AnthropicToolSchema

datatype output_binding = BindAzureOutput | BindOpenaiCompatibleOutput | BindAnthropicOutput

datatype classifier_factory = CreateAzureClassifierClient

record model_route =
  route :: pystr
  route_model :: pystr
  create_model :: model_creator
  route_parameters :: model_parameters
  telemetry_provider :: pystr
  structured_output_method :: output_method
  structured_output_schema_mode :: schema_mode
  translate_output_schema :: "schema_translation option"
  bind_structured_output :: "output_binding option"
  create_classifier_client :: "classifier_factory option"

definition parameters_for :: "pystr \<Rightarrow> model_family \<Rightarrow> model_parameters" where
  "parameters_for model f =
     \<lparr>mp_model = model, mp_base_url = mf_base_url f, mp_provider = mf_provider f,
      mp_credentials = mf_credentials f, mp_api_key = None, mp_max_output_tokens = None\<rparr>"

definition uses_native_openai_endpoint :: "world \<Rightarrow> model_family \<Rightarrow> bool result" where
  "uses_native_openai_endpoint w f =
     (if hosting f = HostOpenai then is_native_openai_endpoint w (mf_base_url f) else Inr False)"

definition azure_route :: "pystr \<Rightarrow> model_family \<Rightarrow> model_route" where
  "azure_route model f =
     \<lparr>route = S ''azure'', route_model = model, create_model = CreateAzureModel,
      route_parameters = parameters_for model f, telemetry_provider = S ''openai'',
      structured_output_method = JsonSchema, structured_output_schema_mode = RawJsonSchema,
      translate_output_schema = Some (AzureStructuredOutputSchema (mf_provider f)),
      bind_structured_output = Some BindAzureOutput,
      create_classifier_client = Some CreateAzureClassifierClient\<rparr>"

definition openai_route :: "bool \<Rightarrow> pystr \<Rightarrow> model_family \<Rightarrow> model_route" where
  "openai_route is_native model f =
     \<lparr>route = (if is_native then S ''openai'' else S ''openai-compatible''), route_model = model,
      create_model = (if is_native then CreateNativeOpenaiModel else CreateOpenaiCompatibleModel),
      route_parameters = \<lparr>mp_model = model, mp_base_url = mf_base_url f, mp_provider = None,
        mp_credentials = None, mp_api_key = mf_api_key f, mp_max_output_tokens = None\<rparr>,
      telemetry_provider = S ''openai'',
      structured_output_method = JsonSchema, structured_output_schema_mode = RawJsonSchema,
      translate_output_schema = Some (if is_native then NativeOpenaiStructuredOutputSchema
        else OpenaiCompatibleStructuredOutputSchema),
      bind_structured_output = (if is_native then None else Some BindOpenaiCompatibleOutput),
      create_classifier_client = None\<rparr>"

definition google_route :: "pystr \<Rightarrow> model_family \<Rightarrow> model_route" where
  "google_route model f =
     \<lparr>route = S ''vertex/google'', route_model = model, create_model = CreateVertexGeminiModel,
      route_parameters = parameters_for model f, telemetry_provider = S ''gcp.vertex_ai'',
      structured_output_method = JsonSchema, structured_output_schema_mode = RawJsonSchema,
      translate_output_schema = None, bind_structured_output = None,
      create_classifier_client = None\<rparr>"

definition anthropic_route ::
  "pystr \<Rightarrow> model_creator \<Rightarrow> pystr \<Rightarrow> output_method \<Rightarrow> pystr \<Rightarrow> model_parameters \<Rightarrow> model_route"
where
  "anthropic_route name creator telemetry method model parameters =
     \<lparr>route = name, route_model = model, create_model = creator, route_parameters = parameters,
      telemetry_provider = telemetry, structured_output_method = method,
      structured_output_schema_mode = Pydantic,
      translate_output_schema = Some AnthropicToolSchema,
      bind_structured_output = Some BindAnthropicOutput, create_classifier_client = None\<rparr>"

definition direct_method :: "world \<Rightarrow> pystr option \<Rightarrow> output_method result" where
  "direct_method w base_url =
     (if truthy_str base_url
      then bindE (urlsplit w (the base_url)) (\<lambda>u.
             Inr (if canonical_host u \<noteq> S ''api.anthropic.com'' then JsonSchema else FunctionCalling))
      else Inr FunctionCalling)"

definition resolve_model_route ::
  "world \<Rightarrow> pystr option \<Rightarrow> model_family option \<Rightarrow> model_route result"
where
  "resolve_model_route w model model_family =
     bindE (case model_family of Some f \<Rightarrow> Inr f | None \<Rightarrow> resolve_model_family w) (\<lambda>f.
       let effective = or_str model (mf_model f)
       in if \<not> truthy_str effective
          then Inl (ValueError (S ''No model configured for '' @ family_text (family f)))
          else
          (let m = the effective
           in case family f of
                FamilyOpenai \<Rightarrow>
                  if hosting f = HostAzure then Inr (azure_route m f)
                  else bindE (uses_native_openai_endpoint w f) (\<lambda>is_native.
                         Inr (openai_route is_native m f))
              | FamilyGoogle \<Rightarrow> Inr (google_route m f)
              | FamilyAnthropic \<Rightarrow>
                  (case hosting f of
                     HostVertex \<Rightarrow>
                       Inr (anthropic_route (S ''vertex/anthropic'') CreateVertexModel
                              (S ''gcp.vertex_ai'') JsonSchema m (parameters_for m f))
                   | HostBedrock \<Rightarrow>
                       Inr (anthropic_route (S ''bedrock/anthropic'') CreateBedrockModel
                              (S ''aws.bedrock'') FunctionCalling m (parameters_for m f))
                   | _ \<Rightarrow>
                       bindE (direct_method w (mf_base_url f)) (\<lambda>method.
                         Inr (anthropic_route (S ''anthropic'') CreateDirectModel (S ''anthropic'')
                                method m
                                \<lparr>mp_model = m, mp_base_url = mf_base_url f, mp_provider = None,
                                 mp_credentials = mf_credentials f, mp_api_key = None,
                                 mp_max_output_tokens = None\<rparr>)))))"


section \<open>Readiness\<close>

definition read_mounted_secret :: "world \<Rightarrow> pystr \<Rightarrow> pystr option" where
  "read_mounted_secret w path = read_stripped w path"

fun check_credential_files :: "world \<Rightarrow> pystr list \<Rightarrow> pystr" where
  "check_credential_files w [] = S ''ok''"
| "check_credential_files w (var # vars) =
     (let path = env_strip w var
      in if path = [] then check_credential_files w vars
         else if \<not> path_is_file w (path_text path)
         then S ''error: '' @ var @ S '' file not found: '' @ path
         else if read_mounted_secret w (path_text path) = None
         then S ''error: '' @ var @ S '' file is empty or unreadable: '' @ path
         else check_credential_files w vars)"

definition check_provider_env :: "world \<Rightarrow> pystr list \<Rightarrow> pystr list \<Rightarrow> pystr" where
  "check_provider_env w expected credential_files =
     (let missing = filter (\<lambda>var. env_strip w var = []) expected
      in if missing \<noteq> [] then S ''error: missing '' @ join (S '', '') missing
         else check_credential_files w credential_files)"

definition check_bedrock_credentials :: "credential_source option \<Rightarrow> pystr" where
  "check_bedrock_credentials source =
     (case source of
        Some (BedrockCredentialSource key secret _ _) \<Rightarrow>
          (let missing = (if key = [] then [S ''aws_access_key_id''] else [])
                 @ (if secret = [] then [S ''aws_secret_access_key''] else [])
           in if missing \<noteq> [] then S ''error: missing '' @ join (S '', '') missing else S ''ok'')
      | _ \<Rightarrow> S ''error: missing Bedrock credential source'')"

definition check_azure_configuration :: "world \<Rightarrow> model_family \<Rightarrow> pystr result" where
  "check_azure_configuration w f =
     (let rest =
        (case mf_provider f of
           Some (AzureProviderParameters version) \<Rightarrow>
             if strip version = [] then S ''error: Azure OpenAI requires a resolved API version''
             else (case mf_credentials f of
                     Some (AzureApiKeyCredentialSource key) \<Rightarrow>
                       if strip key = [] then S ''error: Azure OpenAI requires a nonempty resolved API key''
                       else S ''ok''
                   | Some (AzureEntraCredentialSource _ _ _) \<Rightarrow> S ''ok''
                   | _ \<Rightarrow> S ''error: Azure OpenAI requires resolved Azure credentials'')
         | _ \<Rightarrow> S ''error: Azure OpenAI requires a resolved API version'')
      in if \<not> truthy_str (mf_base_url f)
         then Inr (S ''error: Azure OpenAI requires a resolved HTTPS endpoint'')
         else bindE (urlsplit w (the (mf_base_url f))) (\<lambda>u.
                if url_scheme u \<noteq> S ''https''
                then Inr (S ''error: Azure OpenAI requires a resolved HTTPS endpoint'')
                else Inr rest))"

definition missing_required :: "(pystr \<times> pystr option) list \<Rightarrow> pystr list" where
  "missing_required required = map fst (filter (\<lambda>(_, value). \<not> truthy_str value) required)"

definition check_required ::
  "model_route \<Rightarrow> (pystr \<times> pystr option) list \<Rightarrow> pystr"
where
  "check_required r required =
     (let missing = missing_required required
      in if missing \<noteq> []
         then S ''error: missing '' @ join (S '', '') missing @ S '' for '' @ route r
         else if route r \<in> {S ''vertex/anthropic'', S ''vertex/google''} \<and>
                 (case mp_credentials (route_parameters r) of
                    Some (VertexCredentialSource _) \<Rightarrow> False | _ \<Rightarrow> True)
         then S ''error: missing credential source for '' @ route r
         else S ''ok'')"

definition check_model_route :: "model_route \<Rightarrow> pystr" where
  "check_model_route r =
     (let p = route_parameters r
      in if route r = S ''openai'' \<or> route r = S ''openai-compatible'' then
           (if \<not> truthy_str (mp_api_key p) \<or> strip (the (mp_api_key p)) = []
            then S ''error: missing API key for '' @ route r
            else if route r = S ''openai-compatible'' \<and>
                    (\<not> truthy_str (mp_base_url p) \<or> strip (the (mp_base_url p)) = [])
            then S ''error: missing base URL for openai-compatible''
            else S ''ok'')
         else if route r = S ''anthropic'' then
           (case mp_credentials p of
              Some (AnthropicCredentialSource key _) \<Rightarrow>
                if key = [] then S ''error: missing API key for anthropic'' else S ''ok''
            | _ \<Rightarrow> S ''error: missing credential source for anthropic'')
         else if route r = S ''vertex/anthropic'' \<or> route r = S ''vertex/google'' then
           (case mp_provider p of
              Some (VertexProviderParameters project region) \<Rightarrow>
                check_required r [(S ''project'', project), (S ''region'', Some region)]
            | _ \<Rightarrow> S ''error: missing provider parameters for '' @ route r)
         else if route r = S ''bedrock/anthropic'' then
           (case mp_provider p of
              Some (BedrockProviderParameters region) \<Rightarrow>
                check_required r [(S ''region'', Some region)]
            | _ \<Rightarrow> S ''error: missing provider parameters for '' @ route r)
         else S ''ok'')"

definition family_checks :: "world \<Rightarrow> model_family \<Rightarrow> pystr dict result" where
  "family_checks w f =
     (if hosting f = HostAzure then
        bindE (check_azure_configuration w f) (\<lambda>c. Inr [(S ''provider_configuration'', c)])
      else case mf_credentials f of
        Some (VertexCredentialSource path) \<Rightarrow>
          Inr [(S ''provider_credentials'',
                if \<not> path_is_file w path \<or> read_mounted_secret w path = None
                then S ''error: credential file missing or empty: '' @ path else S ''ok'')]
      | _ \<Rightarrow>
          if hosting f = HostBedrock
          then Inr [(S ''provider_credentials'', check_bedrock_credentials (mf_credentials f))]
          else Inr [])"

definition run_readiness_checks ::
  "world \<Rightarrow> model_family \<Rightarrow> model_route option \<Rightarrow> (bool \<times> pystr dict) result"
where
  "run_readiness_checks w f model_route =
     bindE (family_checks w f) (\<lambda>cs.
       let checks = (S ''provider_env'', check_provider_env w (expected_envs f) (credential_file_envs f))
                    # cs
                    @ (case model_route of
                         None \<Rightarrow> [] | Some r \<Rightarrow> [(S ''model_route'', check_model_route r)])
       in Inr (\<forall>c \<in> set checks. snd c = S ''ok'', checks))"


section \<open>Lemmas\<close>

text \<open>What the constructor of each route reads, present and non-empty.\<close>

definition usable_vertex :: "world \<Rightarrow> model_parameters \<Rightarrow> bool" where
  "usable_vertex w p \<longleftrightarrow>
     (\<exists>project region path. mp_provider p = Some (VertexProviderParameters (Some project) region) \<and>
        project \<noteq> [] \<and> region \<noteq> [] \<and> mp_credentials p = Some (VertexCredentialSource path) \<and>
        read_mounted_secret w path \<noteq> None)"

definition usable_route :: "world \<Rightarrow> model_route \<Rightarrow> bool" where
  "usable_route w r \<longleftrightarrow>
     (let p = route_parameters r
      in route_model r \<noteq> [] \<and> mp_model p = route_model r \<and>
        (case create_model r of
           CreateDirectModel \<Rightarrow>
             (\<exists>key tok. mp_credentials p = Some (AnthropicCredentialSource key tok) \<and> key \<noteq> [])
         | CreateNativeOpenaiModel \<Rightarrow>
             truthy_str (mp_api_key p) \<and> is_native_openai_endpoint w (mp_base_url p) = Inr True
         | CreateOpenaiCompatibleModel \<Rightarrow> truthy_str (mp_api_key p) \<and> truthy_str (mp_base_url p)
         | CreateVertexGeminiModel \<Rightarrow> usable_vertex w p
         | CreateVertexModel \<Rightarrow> usable_vertex w p
         | CreateBedrockModel \<Rightarrow>
             (\<exists>region key secret tok role. mp_provider p = Some (BedrockProviderParameters region) \<and>
                region \<noteq> [] \<and> mp_credentials p = Some (BedrockCredentialSource key secret tok role) \<and>
                key \<noteq> [] \<and> secret \<noteq> [])
         | CreateAzureModel \<Rightarrow>
             (\<exists>version c u. mp_provider p = Some (AzureProviderParameters version) \<and> version \<noteq> [] \<and>
                truthy_str (mp_base_url p) \<and> urlsplit w (the (mp_base_url p)) = Inr u \<and>
                url_scheme u = S ''https'' \<and> mp_credentials p = Some c \<and>
                (case c of AzureApiKeyCredentialSource key \<Rightarrow> key \<noteq> []
                 | AzureEntraCredentialSource t i s \<Rightarrow> t \<noteq> [] \<and> i \<noteq> [] \<and> s \<noteq> []
                 | _ \<Rightarrow> False))))"

lemma route_cases:
  assumes "resolve_model_route w model (Some f) = Inr r"
  obtains m where "or_str model (mf_model f) = Some m" "m \<noteq> []" "route_model r = m"
    "mp_model (route_parameters r) = m"
    "(family f = FamilyOpenai \<and> hosting f = HostAzure \<and> r = azure_route m f) \<or>
     (\<exists>native. family f = FamilyOpenai \<and> hosting f \<noteq> HostAzure \<and>
        uses_native_openai_endpoint w f = Inr native \<and> r = openai_route native m f) \<or>
     (family f = FamilyGoogle \<and> r = google_route m f) \<or>
     (family f = FamilyAnthropic \<and> hosting f = HostVertex \<and> create_model r = CreateVertexModel \<and>
        route r = S ''vertex/anthropic'' \<and> route_parameters r = parameters_for m f) \<or>
     (family f = FamilyAnthropic \<and> hosting f = HostBedrock \<and> create_model r = CreateBedrockModel \<and>
        route r = S ''bedrock/anthropic'' \<and> route_parameters r = parameters_for m f) \<or>
     (family f = FamilyAnthropic \<and> hosting f \<notin> {HostVertex, HostBedrock} \<and>
        create_model r = CreateDirectModel \<and> route r = S ''anthropic'' \<and>
        mp_credentials (route_parameters r) = mf_credentials f)"
proof -
  obtain m where m: "or_str model (mf_model f) = Some m" "m \<noteq> []"
    using assms by (cases "or_str model (mf_model f)")
      (auto simp: resolve_model_route_def Let_def split: if_splits)
  show ?thesis
  proof (rule that [OF m])
  qed (use assms m in \<open>auto simp: resolve_model_route_def Let_def result_simps azure_route_def
      openai_route_def google_route_def anthropic_route_def parameters_for_def
      split: family_name.splits hosting_name.splits if_splits\<close>)
qed

lemma readiness_ok:
  assumes "run_readiness_checks w f (Some r) = Inr (True, checks)"
  shows "\<exists>cs. family_checks w f = Inr cs \<and> (\<forall>c \<in> set cs. snd c = S ''ok'')"
    and "check_model_route r = S ''ok''"
  using assms by (auto simp: run_readiness_checks_def Let_def result_simps)

lemma check_required_ok:
  assumes "check_required r required = S ''ok''"
  shows "\<forall>(k, v) \<in> set required. truthy_str v"
    and "route r \<in> {S ''vertex/anthropic'', S ''vertex/google''} \<Longrightarrow>
      \<exists>path. mp_credentials (route_parameters r) = Some (VertexCredentialSource path)"
proof -
  have no: "S ''error: missing '' @ x \<noteq> S ''ok''" for x
    by (simp add: S_def)
  show "\<forall>(k, v) \<in> set required. truthy_str v"
    using assms no by (auto simp: check_required_def missing_required_def Let_def filter_empty_conv
        split: if_splits)
  have no2: "S ''error: missing credential source for '' @ x \<noteq> S ''ok''" for x
    by (simp add: S_def)
  show "route r \<in> {S ''vertex/anthropic'', S ''vertex/google''} \<Longrightarrow>
      \<exists>path. mp_credentials (route_parameters r) = Some (VertexCredentialSource path)"
    using assms no no2 by (auto simp: check_required_def Let_def
        split: if_splits option.splits credential_source.splits)
qed

text \<open>The hosting of a well-formed family fixes the classes of its parameters and credentials.\<close>

lemma wf_vertexE:
  assumes "well_formed_family f" "hosting f = HostVertex"
  obtains project region path where "mf_provider f = Some (VertexProviderParameters project region)"
    "mf_credentials f = Some (VertexCredentialSource path)"
  using assms that by (cases "mf_provider f"; cases "mf_credentials f"; cases "the (mf_provider f)";
      cases "the (mf_credentials f)") (simp_all add: well_formed_family_def)

lemma wf_bedrockE:
  assumes "well_formed_family f" "hosting f = HostBedrock"
  obtains region key secret tok role where "mf_provider f = Some (BedrockProviderParameters region)"
    "region \<noteq> []" "mf_credentials f = Some (BedrockCredentialSource key secret tok role)"
  using assms that by (cases "mf_provider f"; cases "mf_credentials f"; cases "the (mf_provider f)";
      cases "the (mf_credentials f)") (simp_all add: well_formed_family_def)

lemma wf_azureE:
  assumes "well_formed_family f" "hosting f = HostAzure"
  obtains version c where "mf_provider f = Some (AzureProviderParameters version)" "version \<noteq> []"
    "mf_credentials f = Some c" "case c of AzureApiKeyCredentialSource key \<Rightarrow> key \<noteq> []
      | AzureEntraCredentialSource t i s \<Rightarrow> t \<noteq> [] \<and> i \<noteq> [] \<and> s \<noteq> [] | _ \<Rightarrow> False"
  using assms by (auto simp: well_formed_family_def split: option.split_asm provider_parameters.split_asm)

lemma wf_hosting:
  assumes "well_formed_family f"
  shows "family f = FamilyGoogle \<Longrightarrow> hosting f = HostVertex"
    and "family f = FamilyOpenai \<Longrightarrow> hosting f \<noteq> HostAzure \<Longrightarrow> hosting f = HostOpenai"
    and "family f = FamilyAnthropic \<Longrightarrow> hosting f \<noteq> HostAzure"
  using assms by (cases "hosting f"; auto simp: well_formed_family_def
      split: option.split_asm provider_parameters.split_asm credential_source.split_asm)+

lemma not_ok [simp]:
  "S ''error: '' @ x \<noteq> S ''ok''" "S ''error: missing '' @ x \<noteq> S ''ok''"
  "S ''error: missing API key for '' @ x \<noteq> S ''ok''"
  "S ''error: missing provider parameters for '' @ x \<noteq> S ''ok''"
  "S ''error: credential file missing or empty: '' @ x \<noteq> S ''ok''"
  by (simp_all add: S_def)

lemma usable_vertex_check:
  assumes "well_formed_family f" "hosting f = HostVertex" "family_checks w f = Inr cs"
    and "\<forall>c \<in> set cs. snd c = S ''ok''" "check_model_route r = S ''ok''"
    and "route r = S ''vertex/anthropic'' \<or> route r = S ''vertex/google''"
    and "route_parameters r = parameters_for m f"
  shows "usable_vertex w (route_parameters r)"
proof -
  obtain project region path where p: "mf_provider f = Some (VertexProviderParameters project region)"
    "mf_credentials f = Some (VertexCredentialSource path)"
    using wf_vertexE [OF assms(1,2)] .
  have "read_mounted_secret w path \<noteq> None"
    using assms(2,3,4) p by (auto simp: family_checks_def split: if_splits)
  moreover have "check_required r [(S ''project'', project), (S ''region'', Some region)] = S ''ok''"
    using assms(5,6,7) p by (auto simp: check_model_route_def parameters_for_def)
  then have "truthy_str project \<and> region \<noteq> []" using check_required_ok(1) by fastforce
  ultimately show ?thesis using p assms(7)
    by (auto simp: usable_vertex_def parameters_for_def truthy_str_def)
qed

lemma usable_openai_check:
  assumes "check_model_route (openai_route native m f) = S ''ok''" "m \<noteq> []" "hosting f = HostOpenai"
    and "uses_native_openai_endpoint w f = Inr native"
  shows "usable_route w (openai_route native m f)"
  using assms by (cases native) (auto simp: usable_route_def openai_route_def check_model_route_def
      uses_native_openai_endpoint_def Let_def split: if_splits)

lemma usable_azure_check:
  assumes "well_formed_family f" "hosting f = HostAzure" "family_checks w f = Inr cs"
    and "\<forall>c \<in> set cs. snd c = S ''ok''" "m \<noteq> []"
  shows "usable_route w (azure_route m f)"
proof -
  obtain version c where p: "mf_provider f = Some (AzureProviderParameters version)" "version \<noteq> []"
    "mf_credentials f = Some c" "case c of AzureApiKeyCredentialSource key \<Rightarrow> key \<noteq> []
      | AzureEntraCredentialSource t i s \<Rightarrow> t \<noteq> [] \<and> i \<noteq> [] \<and> s \<noteq> [] | _ \<Rightarrow> False"
    using wf_azureE [OF assms(1,2)] .
  have "check_azure_configuration w f = Inr (S ''ok'')"
    using assms(2,3,4) by (auto simp: family_checks_def result_simps)
  then have "truthy_str (mf_base_url f) \<and> (\<exists>u. urlsplit w (the (mf_base_url f)) = Inr u \<and>
      url_scheme u = S ''https'')"
    by (auto simp: check_azure_configuration_def Let_def result_simps split: if_splits)
  then show ?thesis using p assms(5)
    by (auto simp: usable_route_def azure_route_def parameters_for_def Let_def)
qed


text \<open>A ready configuration gives its constructor all it reads.\<close>

lemma ready_route_usable:
  assumes "resolve_model_family w = Inr f" "resolve_model_route w model (Some f) = Inr r"
    and "run_readiness_checks w f (Some r) = Inr (True, checks)"
  shows "usable_route w r"
proof -
  have wf: "well_formed_family f" using assms(1) by (rule resolve_model_family_wf)
  obtain cs where cs: "family_checks w f = Inr cs" "\<forall>c \<in> set cs. snd c = S ''ok''"
    using readiness_ok(1) [OF assms(3)] by blast
  note route_ok = readiness_ok(2) [OF assms(3)]
  obtain m where m: "m \<noteq> []" "route_model r = m" "mp_model (route_parameters r) = m" and
    c: "(family f = FamilyOpenai \<and> hosting f = HostAzure \<and> r = azure_route m f) \<or>
     (\<exists>native. family f = FamilyOpenai \<and> hosting f \<noteq> HostAzure \<and>
        uses_native_openai_endpoint w f = Inr native \<and> r = openai_route native m f) \<or>
     (family f = FamilyGoogle \<and> r = google_route m f) \<or>
     (family f = FamilyAnthropic \<and> hosting f = HostVertex \<and> create_model r = CreateVertexModel \<and>
        route r = S ''vertex/anthropic'' \<and> route_parameters r = parameters_for m f) \<or>
     (family f = FamilyAnthropic \<and> hosting f = HostBedrock \<and> create_model r = CreateBedrockModel \<and>
        route r = S ''bedrock/anthropic'' \<and> route_parameters r = parameters_for m f) \<or>
     (family f = FamilyAnthropic \<and> hosting f \<notin> {HostVertex, HostBedrock} \<and>
        create_model r = CreateDirectModel \<and> route r = S ''anthropic'' \<and>
        mp_credentials (route_parameters r) = mf_credentials f)"
    by (rule route_cases [OF assms(2)])
  from c show ?thesis
  proof (elim disjE exE conjE)
    assume a: "hosting f = HostAzure" "r = azure_route m f"
    then show ?thesis using usable_azure_check [OF wf a(1) cs m(1)] by simp
  next
    fix native assume a: "family f = FamilyOpenai" "hosting f \<noteq> HostAzure"
      "uses_native_openai_endpoint w f = Inr native" "r = openai_route native m f"
    then show ?thesis using usable_openai_check [of native m f w] route_ok m(1) wf_hosting(2) [OF wf] by simp
  next
    assume a: "family f = FamilyGoogle" "r = google_route m f"
    then have "usable_vertex w (route_parameters r)"
      using usable_vertex_check [OF wf wf_hosting(1) [OF wf] cs route_ok] by (simp add: google_route_def)
    then show ?thesis using a m by (simp add: usable_route_def google_route_def)
  next
    assume a: "hosting f = HostVertex" "create_model r = CreateVertexModel"
      "route r = S ''vertex/anthropic''" "route_parameters r = parameters_for m f"
    then show ?thesis using usable_vertex_check [OF wf a(1) cs route_ok] m
      by (simp add: usable_route_def)
  next
    assume a: "hosting f = HostBedrock" "create_model r = CreateBedrockModel"
      "route_parameters r = parameters_for m f"
    obtain region key secret tok role where p: "mf_provider f = Some (BedrockProviderParameters region)"
      "region \<noteq> []" "mf_credentials f = Some (BedrockCredentialSource key secret tok role)"
      using wf_bedrockE [OF wf a(1)] .
    then have "key \<noteq> [] \<and> secret \<noteq> []" using cs a(1)
      by (auto simp: family_checks_def check_bedrock_credentials_def Let_def split: if_splits)
    then show ?thesis using p a m by (simp add: usable_route_def parameters_for_def)
  next
    assume a: "create_model r = CreateDirectModel" "route r = S ''anthropic''"
    then show ?thesis using route_ok m
      by (auto simp: usable_route_def check_model_route_def Let_def
          split: option.splits credential_source.splits if_splits)
  qed
qed


section \<open>Properties\<close>

text \<open>
  A run that passes the readiness checks has everything its model constructor reads: for the
  family the environment resolves to and the route it gives, every required key, credential, region
  and endpoint is present and non-empty, a Vertex credential file is readable, an Azure endpoint is
  HTTPS, and the native OpenAI route goes to the public host over HTTPS.
\<close>

theorem readiness_makes_route_usable:
  assumes "resolve_model_family w = Inr f" "resolve_model_route w model (Some f) = Inr r"
    and "run_readiness_checks w f (Some r) = Inr (True, checks)"
  shows "usable_route w r"
  by (rule ready_route_usable [OF assms])

definition anthropic_world :: world where
  "anthropic_world = env_world [(S ''ANTHROPIC_API_KEY'', S ''k''), (S ''LIGHTSPEED_MODEL'', S ''m'')]"

lemma readiness_makes_route_usable_witness:
  "\<exists>r. resolve_model_route anthropic_world None (Some (resolve_anthropic anthropic_world (Some (S ''m'')) None))
     = Inr r \<and> route r = S ''anthropic'' \<and> usable_route anthropic_world r"
proof -
  have f: "resolve_model_family anthropic_world =
      Inr (resolve_anthropic anthropic_world (Some (S ''m'')) None)"
    by code_simp
  let ?r = "anthropic_route (S ''anthropic'') CreateDirectModel (S ''anthropic'') FunctionCalling (S ''m'')
     \<lparr>mp_model = S ''m'', mp_base_url = None, mp_provider = None,
      mp_credentials = Some (AnthropicCredentialSource (S ''k'') None), mp_api_key = None,
      mp_max_output_tokens = None\<rparr>"
  have r: "resolve_model_route anthropic_world None
      (Some (resolve_anthropic anthropic_world (Some (S ''m'')) None)) = Inr ?r"
    by code_simp
  have c: "run_readiness_checks anthropic_world (resolve_anthropic anthropic_world (Some (S ''m'')) None)
      (Some ?r) = Inr (True, [(S ''provider_env'', S ''ok''), (S ''model_route'', S ''ok'')])"
    by code_simp
  show ?thesis using r readiness_makes_route_usable [OF f r c]
    by (auto simp: anthropic_route_def)
qed

text \<open>
  For OpenAI hosting with an endpoint whose URL parses, the native route is chosen exactly for
  the public API host, and then the scheme is HTTPS: a plain-HTTP URL of that host is an error, and
  every other host gets the compatible route.
\<close>

theorem native_route_only_over_https:
  assumes "family f = FamilyOpenai" "hosting f = HostOpenai" "mf_base_url f = Some url" "url \<noteq> []"
    and "urlsplit w url = Inr u" "truthy_str (or_str model (mf_model f))"
  shows "case resolve_model_route w model (Some f) of
      Inl e \<Rightarrow> exn_class e = CValueError \<and> canonical_host u = S ''api.openai.com'' \<and>
        lower (url_scheme u) \<noteq> S ''https''
    | Inr r \<Rightarrow>
        if canonical_host u = S ''api.openai.com''
        then create_model r = CreateNativeOpenaiModel \<and> lower (url_scheme u) = S ''https''
        else create_model r = CreateOpenaiCompatibleModel"
  using assms by (auto simp: resolve_model_route_def uses_native_openai_endpoint_def Let_def
      is_native_openai_endpoint_def openai_route_def)

lemma native_route_only_over_https_witness:
  "\<exists>r. resolve_model_route empty_world (Some (S ''m'')) (Some \<lparr>family = FamilyOpenai, expected_envs = [],
      credential_file_envs = [], hosting = HostOpenai, mf_model = None,
      mf_base_url = Some (S ''https://api.openai.com/v1''), mf_provider = None, mf_credentials = None,
      mf_api_key = None\<rparr>) = Inr r \<and> create_model r = CreateNativeOpenaiModel"
proof -
  let ?f = "\<lparr>family = FamilyOpenai, expected_envs = [], credential_file_envs = [], hosting = HostOpenai,
      mf_model = None, mf_base_url = Some (S ''https://api.openai.com/v1''), mf_provider = None,
      mf_credentials = None, mf_api_key = None\<rparr>"
  have u: "urlsplit empty_world (S ''https://api.openai.com/v1'') =
      Inr \<lparr>url_scheme = S ''https'', url_netloc = S ''api.openai.com''\<rparr>" by code_simp
  have h: "canonical_host \<lparr>url_scheme = S ''https'', url_netloc = S ''api.openai.com''\<rparr>
      = S ''api.openai.com''" "lower (S ''https'') = S ''https''" by code_simp+
  have "truthy_str (or_str (Some (S ''m'')) (mf_model ?f))" by simp
  from native_route_only_over_https [of ?f, OF _ _ _ _ u this] h
  show ?thesis by (cases "resolve_model_route empty_world (Some (S ''m'')) (Some ?f)") simp_all
qed

end
