(* ===== verification/Mcp.thy ===== *)
theory Mcp
  imports Router
begin

text \<open>
  \<open>mcp.py\<close>: parsing of the MCP server configuration, resolution of header credentials from mounted
  secrets, admission of discovered tools and the policy text for the system prompt. The SDK's
  discovery call is a parameter. Proved: a secret header reads nothing outside the secret mount, the
  authentication class does not depend on which credentials are mounted, tool admission is exactly
  the stated rule, and policy data cannot close its tag in the prompt.
\<close>

definition SA_TOKEN_PATH :: pystr where
  "SA_TOKEN_PATH = S ''/var/run/secrets/kubernetes.io/serviceaccount/token''"
definition MCP_SECRET_MOUNT_ROOT :: pystr where
  "MCP_SECRET_MOUNT_ROOT = S ''/var/secrets/mcp''"

definition RESERVED_BUILTIN_TOOL_NAMES :: "pystr list" where
  "RESERVED_BUILTIN_TOOL_NAMES =
     [S ''ls'', S ''read_file'', S ''write_file'', S ''edit_file'', S ''delete'', S ''glob'',
      S ''grep'', S ''execute'', S ''task'', S ''write_todos'']"


section \<open>Data\<close>

datatype mcp_auth_class = KUBERNETES | NON_KUBERNETES

record resolved_header =
  header_name :: pystr
  header_value :: pystr

text \<open>The timeout is the number the configuration holds.\<close>

record resolved_server =
  rs_name :: pystr
  rs_url :: pystr
  rs_auth_class :: mcp_auth_class
  rs_timeout :: pyval
  rs_headers :: "resolved_header list"

record admitted_tool =
  at_name :: pystr
  at_description :: pystr
  at_input_schema :: pydict
  at_read_only :: bool
  at_rbac_metadata :: "pydict option"

record admitted_server =
  as_name :: pystr
  as_url :: pystr
  as_auth_class :: mcp_auth_class
  as_timeout :: pyval
  as_headers :: "resolved_header list"
  as_tools :: "admitted_tool list"

record provider_server =
  ps_name :: pystr
  ps_url :: pystr
  ps_timeout :: pyval
  ps_headers :: "resolved_header list"
  ps_allowed_tool_names :: "pystr list"

record policy_entry =
  pe_server_name :: pystr
  pe_tool_name :: pystr
  pe_rbac_metadata :: pydict

text \<open>A discovered SDK tool; its schema is a dictionary or a class that renders one.\<close>

datatype args_schema = DictSchema pydict | ModelSchema "pydict result"

record sdk_tool =
  tool_name :: pystr
  tool_description :: "pystr option"
  tool_metadata :: pyval
  tool_args_schema :: args_schema


section \<open>Header resolution\<close>

definition resolution_error :: "string \<Rightarrow> exn" where
  "resolution_error m = Exn CMCPServerResolutionError (S m)"

definition directory_file :: "world \<Rightarrow> pystr \<Rightarrow> pystr result" where
  "directory_file w path =
     (case files w path of
        Some (Directory names) \<Rightarrow>
          (case filter (path_is_file w) (map (\<lambda>n. path @ S ''/'' @ n) names) of
             [file] \<Rightarrow> Inr file
           | _ \<Rightarrow> Inl (resolution_error ''secret mount must contain exactly one file''))
      | _ \<Rightarrow> Inl (resolution_error ''secret directory is unreadable''))"

definition secret_or_error :: "pystr option \<Rightarrow> pystr result" where
  "secret_or_error v =
     (case v of Some value \<Rightarrow> Inr value
      | None \<Rightarrow> Inl (resolution_error ''secret value is missing or unreadable''))"

definition read_secret_value :: "world \<Rightarrow> pystr \<Rightarrow> pystr result" where
  "read_secret_value w path =
     (if path_is_file w path then secret_or_error (read_mounted_secret w path)
      else if path_is_dir w path
      then bindE (directory_file w path) (\<lambda>file. secret_or_error (read_mounted_secret w file))
      else secret_or_error None)"

definition is_relative_to :: "pystr \<Rightarrow> pystr \<Rightarrow> bool" where
  "is_relative_to path root \<longleftrightarrow>
     path = root \<or> starts_with path (if root = S ''/'' then root else root @ S ''/'')"

text \<open>\<open>root / name\<close>: an absolute name replaces the root.\<close>

definition join_any :: "pystr \<Rightarrow> pystr \<Rightarrow> pystr" where
  "join_any root name = (if starts_with name (S ''/'') then path_text name else path_join root name)"

definition resolve_header :: "world \<Rightarrow> pydict \<Rightarrow> resolved_header option result" where
  "resolve_header w header =
     (case (dgetn header (S ''name''), dgetn header (S ''source'')) of
        (PStr name, PStr source) \<Rightarrow>
          if source = S ''ServiceAccountToken'' then
            (case read_mounted_secret w SA_TOKEN_PATH of
               None \<Rightarrow> Inr None
             | Some token \<Rightarrow>
                 Inr (Some \<lparr>header_name = name, header_value = S ''Bearer '' @ token\<rparr>))
          else if source = S ''Secret'' then
            (case (case dget header (S ''secretName'') of None \<Rightarrow> PStr [] | Some v \<Rightarrow> v) of
               PStr secret_name \<Rightarrow>
                 bindE (realpath w MCP_SECRET_MOUNT_ROOT) (\<lambda>root.
                 bindE (realpath w (join_any root secret_name)) (\<lambda>secret_path.
                   if secret_name = [] \<or> \<not> is_relative_to secret_path root
                   then Inl (resolution_error ''invalid secret path'')
                   else bindE (read_secret_value w secret_path) (\<lambda>value.
                          Inr (Some \<lparr>header_name = name, header_value = value\<rparr>))))
             | _ \<Rightarrow> Inl (resolution_error ''secretName must be a string''))
          else Inl (Exn CMCPConfigError (S ''LIGHTSPEED_MCP_SERVERS header '' @ repr_str name
                 @ S '' has unsupported source '' @ repr_str source))
      | _ \<Rightarrow> Inl (Exn CKeyError (S ''name or source'')))"


section \<open>Server entries\<close>

definition mcp_config_error :: "pystr \<Rightarrow> exn" where
  "mcp_config_error m = Exn CMCPConfigError (S ''LIGHTSPEED_MCP_SERVERS'' @ m)"

definition entry_text :: "nat \<Rightarrow> pystr" where
  "entry_text index = S ''['' @ nat_dec index @ S '']''"

definition header_text :: "nat \<Rightarrow> nat \<Rightarrow> pystr" where
  "header_text index header_index =
     entry_text index @ S ''.headers['' @ nat_dec header_index @ S '']''"

definition blank :: "pyval \<Rightarrow> bool" where
  "blank v \<longleftrightarrow> (case v of PStr s \<Rightarrow> strip s = [] | _ \<Rightarrow> True)"

definition check_header :: "nat \<Rightarrow> nat \<Rightarrow> pyval \<Rightarrow> pydict result" where
  "check_header index header_index header =
     (case header of
        PDict h \<Rightarrow>
          if \<not> has_key h (S ''name'') \<or> \<not> has_key h (S ''source'')
          then Inl (mcp_config_error (header_text index header_index @ S '' must include name and source''))
          else if blank (dgetn h (S ''name''))
          then Inl (mcp_config_error (header_text index header_index @ S '' missing or invalid name''))
          else if blank (dgetn h (S ''source''))
          then Inl (mcp_config_error (header_text index header_index @ S '' missing or invalid source''))
          else Inr h
      | _ \<Rightarrow> Inl (mcp_config_error (header_text index header_index @ S '' must be a JSON object'')))"

text \<open>The loop over the headers: \<open>None\<close> is the early return that omits the server.\<close>

fun resolve_headers ::
  "world \<Rightarrow> nat \<Rightarrow> nat \<Rightarrow> pyval list \<Rightarrow> resolved_header list option result"
where
  "resolve_headers w index header_index [] = Inr (Some [])"
| "resolve_headers w index header_index (header # hs) =
     bindE (check_header index header_index header) (\<lambda>h.
       case resolve_header w h of
         Inl e \<Rightarrow> if exn_class e = CMCPServerResolutionError then Inr None else Inl e
       | Inr resolved \<Rightarrow>
           bindE (resolve_headers w index (Suc header_index) hs) (\<lambda>rest.
             Inr (map_option (\<lambda>rs. (case resolved of None \<Rightarrow> rs | Some r \<Rightarrow> r # rs)) rest)))"

definition uses_service_account :: "pyval \<Rightarrow> bool" where
  "uses_service_account header \<longleftrightarrow>
     (case header of PDict h \<Rightarrow> dgetn h (S ''source'') = PStr (S ''ServiceAccountToken'') | _ \<Rightarrow> False)"

definition auth_class_of :: "pyval list \<Rightarrow> mcp_auth_class" where
  "auth_class_of raw_headers =
     (if \<exists>h \<in> set raw_headers. uses_service_account h then KUBERNETES else NON_KUBERNETES)"

definition timeout_of :: "pydict \<Rightarrow> pyval" where
  "timeout_of entry =
     (case dget entry (S ''timeout'') of
        Some (PInt n) \<Rightarrow> PInt n | Some (PFloat r) \<Rightarrow> PFloat r | _ \<Rightarrow> PInt 60)"

definition parse_server_entry :: "world \<Rightarrow> pyval \<Rightarrow> nat \<Rightarrow> resolved_server option result" where
  "parse_server_entry w raw index =
     (case raw of
        PDict entry \<Rightarrow>
          (case dgetn entry (S ''name'') of
             PStr name \<Rightarrow>
               if strip name = []
               then Inl (mcp_config_error (entry_text index @ S '' missing or invalid name''))
               else
               (case dgetn entry (S ''url'') of
                  PStr url \<Rightarrow>
                    if strip url = []
                    then Inl (mcp_config_error (entry_text index @ S '' missing or invalid url''))
                    else
                    bindE (case dgetn entry (S ''headers'') of
                             PNone \<Rightarrow> Inr []
                           | PList hs \<Rightarrow> Inr hs
                           | _ \<Rightarrow> Inl (mcp_config_error (entry_text index @ S '' headers must be a JSON array'')))
                      (\<lambda>raw_headers.
                         bindE (resolve_headers w index 0 raw_headers) (\<lambda>resolved.
                           Inr (map_option (\<lambda>headers.
                             \<lparr>rs_name = name, rs_url = url, rs_auth_class = auth_class_of raw_headers,
                              rs_timeout = timeout_of entry, rs_headers = headers\<rparr>) resolved)))
                | _ \<Rightarrow> Inl (mcp_config_error (entry_text index @ S '' missing or invalid url'')))
           | _ \<Rightarrow> Inl (mcp_config_error (entry_text index @ S '' missing or invalid name'')))
      | _ \<Rightarrow> Inl (mcp_config_error (entry_text index @ S '' must be a JSON object, got '' @ type_name raw)))"

definition entry_name :: "pyval \<Rightarrow> pystr option" where
  "entry_name raw =
     (case raw of
        PDict entry \<Rightarrow>
          (case dgetn entry (S ''name'') of PStr n \<Rightarrow> if strip n \<noteq> [] then Some n else None | _ \<Rightarrow> None)
      | _ \<Rightarrow> None)"

fun parse_entries ::
  "world \<Rightarrow> nat \<Rightarrow> pystr list \<Rightarrow> pyval list \<Rightarrow> resolved_server list result"
where
  "parse_entries w index seen [] = Inr []"
| "parse_entries w index seen (raw # raws) =
     (case entry_name raw of
        Some name \<Rightarrow>
          if name \<in> set seen
          then Inl (Exn CMCPConfigError (S ''duplicate MCP server name '' @ [39] @ name @ [39]
                 @ S '' at index '' @ nat_dec index))
          else bindE (parse_server_entry w raw index) (\<lambda>server.
               bindE (parse_entries w (Suc index) (name # seen) raws) (\<lambda>servers.
                 Inr (case server of None \<Rightarrow> servers | Some s \<Rightarrow> s # servers)))
      | None \<Rightarrow>
          bindE (parse_server_entry w raw index) (\<lambda>server.
          bindE (parse_entries w (Suc index) seen raws) (\<lambda>servers.
            Inr (case server of None \<Rightarrow> servers | Some s \<Rightarrow> s # servers))))"

definition parse_mcp_servers :: "world \<Rightarrow> resolved_server list result" where
  "parse_mcp_servers w =
     (let raw = env_strip w (S ''LIGHTSPEED_MCP_SERVERS'')
      in if raw = [] then Inr []
         else (case json_loads raw of
                 Inl e \<Rightarrow>
                   if exn_class e = CJSONDecodeError
                   then Inl (mcp_config_error (S '' contains invalid JSON: '' @ exn_msg e))
                   else Inl e
               | Inr (PList entries) \<Rightarrow> parse_entries w 0 [] entries
               | Inr v \<Rightarrow> Inl (mcp_config_error (S '' must be a JSON array, got '' @ type_name v))))"



section \<open>Admission\<close>

definition flag_set :: "pydict \<Rightarrow> string \<Rightarrow> bool" where
  "flag_set d k \<longleftrightarrow> dgetn d (S k) = PBool True"

definition has_valid_rbac_metadata :: "pyval \<Rightarrow> bool" where
  "has_valid_rbac_metadata metadata =
     (case metadata of
        PDict d \<Rightarrow>
          if flag_set d ''noRbac'' \<or> flag_set d ''unbounded'' then False
          else (case List.map_filter (dget d) [S ''rules'', S ''deriveFromArgs'', S ''deriveFromManifest''] of
                  [form] \<Rightarrow> (is_dict form \<or> is_list form) \<and> truthy form
                | _ \<Rightarrow> False)
      | _ \<Rightarrow> False)"

definition metadata_dict :: "sdk_tool \<Rightarrow> pydict" where
  "metadata_dict tool = (case tool_metadata tool of PDict d \<Rightarrow> d | _ \<Rightarrow> [])"

definition read_only_hint :: "sdk_tool \<Rightarrow> bool" where
  "read_only_hint tool = truthy (dgetn (metadata_dict tool) (S ''readOnlyHint''))"

definition destructive_hint :: "sdk_tool \<Rightarrow> bool" where
  "destructive_hint tool = truthy (dgetn (metadata_dict tool) (S ''destructiveHint''))"

definition rbac_metadata_of :: "sdk_tool \<Rightarrow> pyval" where
  "rbac_metadata_of tool =
     (case dgetn (metadata_dict tool) (S ''_meta'') of
        PDict m \<Rightarrow> dgetn m (S ''openshift.io/rbac'') | _ \<Rightarrow> PNone)"

text \<open>The three \<open>continue\<close>s of the loop.\<close>

definition tool_filtered :: "mcp_auth_class \<Rightarrow> sdk_tool \<Rightarrow> bool" where
  "tool_filtered auth tool =
     (if tool_name tool \<in> set RESERVED_BUILTIN_TOOL_NAMES then True
      else if auth = KUBERNETES \<and> read_only_hint tool \<and> destructive_hint tool then True
      else (let read_only = read_only_hint tool \<and> \<not> destructive_hint tool
            in auth = KUBERNETES \<and> \<not> (read_only \<or> has_valid_rbac_metadata (rbac_metadata_of tool))))"

definition admit_tool :: "sdk_tool \<Rightarrow> admitted_tool result" where
  "admit_tool tool =
     bindE (case tool_args_schema tool of DictSchema d \<Rightarrow> Inr d | ModelSchema r \<Rightarrow> r) (\<lambda>schema.
       Inr \<lparr>at_name = tool_name tool,
            at_description = (case tool_description tool of None \<Rightarrow> [] | Some d \<Rightarrow> d),
            at_input_schema = schema,
            at_read_only = read_only_hint tool \<and> \<not> destructive_hint tool,
            at_rbac_metadata = (case rbac_metadata_of tool of PDict d \<Rightarrow> Some d | _ \<Rightarrow> None)\<rparr>)"

definition admit_discovered_tools ::
  "mcp_auth_class \<Rightarrow> sdk_tool list \<Rightarrow> admitted_tool list result"
where
  "admit_discovered_tools auth tools =
     mapE admit_tool (filter (\<lambda>t. \<not> tool_filtered auth t) tools)"

text \<open>
  \<open>list_tools\<close> stands for the SDK's connection and its \<open>tools/list\<close> call. Cancellation is no
  \<open>Exception\<close> and passes through; every other failure omits the server.
\<close>

definition discover_and_admit_mcp_server ::
  "(resolved_server \<Rightarrow> sdk_tool list result) \<Rightarrow> resolved_server \<Rightarrow> admitted_server option result"
where
  "discover_and_admit_mcp_server list_tools server =
     (case bindE (list_tools server) (admit_discovered_tools (rs_auth_class server)) of
        Inl e \<Rightarrow> if exn_class e = CCancelledError then Inl e else Inr None
      | Inr admitted \<Rightarrow>
          Inr (if admitted = [] then None
               else Some \<lparr>as_name = rs_name server, as_url = rs_url server,
                          as_auth_class = rs_auth_class server, as_timeout = rs_timeout server,
                          as_headers = rs_headers server, as_tools = admitted\<rparr>))"

definition discover_and_admit_mcp_servers ::
  "(resolved_server \<Rightarrow> sdk_tool list result) \<Rightarrow> resolved_server list \<Rightarrow> admitted_server list result"
where
  "discover_and_admit_mcp_servers list_tools servers =
     bindE (mapE (discover_and_admit_mcp_server list_tools) servers) (\<lambda>results.
       Inr (List.map_filter id results))"

definition server_policies :: "admitted_server \<Rightarrow> policy_entry list" where
  "server_policies server =
     List.map_filter (\<lambda>tool.
       case at_rbac_metadata tool of
         Some m \<Rightarrow> if at_read_only tool then None
                   else Some \<lparr>pe_server_name = as_name server, pe_tool_name = at_name tool,
                              pe_rbac_metadata = m\<rparr>
       | None \<Rightarrow> None) (as_tools server)"

definition split_admitted_mcp_servers ::
  "admitted_server list \<Rightarrow> provider_server list \<times> policy_entry list"
where
  "split_admitted_mcp_servers servers =
     (map (\<lambda>s. \<lparr>ps_name = as_name s, ps_url = as_url s, ps_timeout = as_timeout s,
                ps_headers = as_headers s, ps_allowed_tool_names = map at_name (as_tools s)\<rparr>) servers,
      concat (map server_policies servers))"

definition sorted_format :: json_format where
  "sorted_format = default_format\<lparr>sort_keys := True\<rparr>"

definition policy_payload :: "policy_entry list \<Rightarrow> pystr" where
  "policy_payload policies =
     replace (S ''>'') (92 # S ''u003e'') (replace (S ''<'') (92 # S ''u003c'')
       (json_dumps sorted_format
          (PList (map (\<lambda>p. PDict [(S ''server'', PStr (pe_server_name p)),
                                  (S ''tool'', PStr (pe_tool_name p)),
                                  (S ''rbac'', PDict (pe_rbac_metadata p))]) policies))))"

definition render_mcp_policy_context :: "policy_entry list \<Rightarrow> pystr" where
  "render_mcp_policy_context policies =
     (if policies = [] then []
      else S ''<MCP_MUTATING_TOOL_POLICIES>'' @ [10] @ policy_payload policies @ [10]
           @ S ''</MCP_MUTATING_TOOL_POLICIES>'')"

definition headers_dict :: "resolved_header list \<Rightarrow> pystr dict" where
  "headers_dict headers = dict_of_pairs (map (\<lambda>h. (header_name h, header_value h)) headers)"



section \<open>Lemmas\<close>

lemma is_relative_child: "is_relative_to p root \<Longrightarrow> is_relative_to (p @ S ''/'' @ n) root"
proof (cases "p = root")
  case True
  then show ?thesis by (auto simp: is_relative_to_def starts_with_def)
next
  case False
  moreover assume "is_relative_to p root"
  moreover have "starts_with p q \<Longrightarrow> starts_with (p @ x) q" for q x
    by (auto simp: starts_with_def) (metis length_take min.absorb_iff2 nat_le_linear take_all)
  ultimately show ?thesis by (auto simp: is_relative_to_def split: if_splits)
qed

lemma file_congs:
  assumes "files w' p = files w p"
  shows "path_is_file w' p = path_is_file w p" "path_is_dir w' p = path_is_dir w p"
    "read_mounted_secret w' p = read_mounted_secret w p"
  using assms by (simp_all add: path_is_file_def path_is_dir_def read_mounted_secret_def
      read_stripped_def read_text_def)

lemma directory_file_confined:
  assumes "\<And>q. is_relative_to q root \<Longrightarrow> files w' q = files w q" "is_relative_to p root"
  shows "directory_file w' p = directory_file w p"
    and "directory_file w p = Inr file \<Longrightarrow> is_relative_to file root"
proof -
  have f: "path_is_file w' (p @ S ''/'' @ n) = path_is_file w (p @ S ''/'' @ n)" for n
    by (rule file_congs(1)) (rule assms(1) [OF is_relative_child [OF assms(2)]])
  then have "filter (path_is_file w') (map (\<lambda>n. p @ S ''/'' @ n) names) =
      filter (path_is_file w) (map (\<lambda>n. p @ S ''/'' @ n) names)" for names
    by (induction names) auto
  then show "directory_file w' p = directory_file w p"
    by (simp only: directory_file_def assms(1) [OF assms(2)])
  assume "directory_file w p = Inr file"
  then obtain names where "filter (path_is_file w) (map (\<lambda>n. p @ S ''/'' @ n) names) = [file]"
    by (auto simp: directory_file_def split: option.splits fnode.splits list.splits)
  then have "file \<in> set (filter (path_is_file w) (map (\<lambda>n. p @ S ''/'' @ n) names))" by simp
  then show "is_relative_to file root" using is_relative_child [OF assms(2)] by auto
qed

lemma read_secret_confined:
  assumes "\<And>q. is_relative_to q root \<Longrightarrow> files w' q = files w q" "is_relative_to p root"
  shows "read_secret_value w' p = read_secret_value w p"
proof -
  note c = file_congs [OF assms(1)]
  show ?thesis
  proof (cases "directory_file w p")
    case (Inl e)
    then show ?thesis using c [OF assms(2)] directory_file_confined(1) [OF assms]
      by (simp add: read_secret_value_def)
  next
    case (Inr fl)
    then show ?thesis using c [OF assms(2)] directory_file_confined [OF assms]
      c [of fl] by (simp add: read_secret_value_def)
  qed
qed

lemma parse_server_entry_ok:
  assumes "parse_server_entry w raw i = Inr (Some s)"
  obtains entry hs where "raw = PDict entry" "entry_name raw = Some (rs_name s)"
    "dgetn entry (S ''url'') = PStr (rs_url s)" "strip (rs_url s) \<noteq> []"
    "dgetn entry (S ''headers'') = PList hs \<or> dgetn entry (S ''headers'') = PNone \<and> hs = []"
    "rs_auth_class s = auth_class_of hs"
proof -
  obtain entry where e: "raw = PDict entry" using assms by (cases raw) (auto simp: parse_server_entry_def)
  obtain name where n: "dgetn entry (S ''name'') = PStr name" "strip name \<noteq> []"
    using assms e by (cases "dgetn entry (S ''name'')") (auto simp: parse_server_entry_def split: if_splits)
  obtain url where u: "dgetn entry (S ''url'') = PStr url" "strip url \<noteq> []"
    using assms e n by (cases "dgetn entry (S ''url'')") (auto simp: parse_server_entry_def split: if_splits)
  obtain hs where h: "dgetn entry (S ''headers'') = PList hs \<or> dgetn entry (S ''headers'') = PNone \<and> hs = []"
    using assms e n u by (cases "dgetn entry (S ''headers'')") (auto simp: parse_server_entry_def)
  then obtain rs where "s = \<lparr>rs_name = name, rs_url = url, rs_auth_class = auth_class_of hs,
      rs_timeout = timeout_of entry, rs_headers = rs\<rparr>"
    using assms e n u by (auto simp: parse_server_entry_def result_simps)
  then show ?thesis using that [OF e] n u h e by (simp add: entry_name_def)
qed

lemma parse_entries_ok:
  "parse_entries w i seen raws = Inr ss \<Longrightarrow>
    distinct (map rs_name ss) \<and> set (map rs_name ss) \<inter> set seen = {} \<and>
    (\<forall>s \<in> set ss. \<exists>raw \<in> set raws. \<exists>j. parse_server_entry w raw j = Inr (Some s))"
proof (induction raws arbitrary: i seen ss)
  case Nil
  then show ?case by simp
next
  case (Cons raw raws)
  show ?case
  proof (cases "entry_name raw")
    case None
    then obtain server servers where p: "parse_server_entry w raw i = Inr server"
      "parse_entries w (Suc i) seen raws = Inr servers"
      "ss = (case server of None \<Rightarrow> servers | Some s \<Rightarrow> s # servers)"
      using Cons.prems by (auto simp: result_simps)
    moreover have "server = None"
    proof (rule ccontr)
      assume "server \<noteq> None"
      then obtain s where "parse_server_entry w raw i = Inr (Some s)" using p(1) by auto
      then show False by (rule parse_server_entry_ok) (use None in simp)
    qed
    ultimately show ?thesis using Cons.IH [OF p(2)] by auto
  next
    case (Some name)
    then obtain server servers where p: "name \<notin> set seen" "parse_server_entry w raw i = Inr server"
      "parse_entries w (Suc i) (name # seen) raws = Inr servers"
      "ss = (case server of None \<Rightarrow> servers | Some s \<Rightarrow> s # servers)"
      using Cons.prems by (auto simp: result_simps split: if_splits)
    have "rs_name s = name" if "server = Some s" for s
      by (rule parse_server_entry_ok [of w raw i s]) (use p(2) Some that in simp_all)
    with p Cons.IH [OF p(3)] show ?thesis by (cases server) auto
  qed
qed

lemma admitted_tool_ok:
  assumes "admit_discovered_tools auth tools = Inr ats" "t \<in> set ats"
  obtains tool where "tool \<in> set tools" "\<not> tool_filtered auth tool" "admit_tool tool = Inr t"
proof -
  have l: "list_all2 (\<lambda>x y. admit_tool x = Inr y) (filter (\<lambda>t. \<not> tool_filtered auth t) tools) ats"
    using assms(1) by (simp add: admit_discovered_tools_def mapE_ok_all2)
  then obtain n where "n < length ats" "t = ats ! n" using assms(2) by (auto simp: in_set_conv_nth)
  then have "admit_tool (filter (\<lambda>t. \<not> tool_filtered auth t) tools ! n) = Inr t"
    and n: "n < length (filter (\<lambda>t. \<not> tool_filtered auth t) tools)"
    using l by (auto simp: list_all2_conv_all_nth)
  moreover have "filter (\<lambda>t. \<not> tool_filtered auth t) tools ! n \<in>
      {t \<in> set tools. \<not> tool_filtered auth t}"
    using nth_mem [OF n] by simp
  ultimately show ?thesis using that by blast
qed

lemma admit_tool_fields:
  "admit_tool tool = Inr t \<Longrightarrow> at_name t = tool_name tool \<and>
    at_read_only t = (read_only_hint tool \<and> \<not> destructive_hint tool) \<and>
    at_rbac_metadata t = (case rbac_metadata_of tool of PDict d \<Rightarrow> Some d | _ \<Rightarrow> None)"
  by (auto simp: admit_tool_def result_simps)

lemma has_valid_rbac_dict: "has_valid_rbac_metadata v \<Longrightarrow> \<exists>d. v = PDict d"
  by (cases v) (auto simp: has_valid_rbac_metadata_def)

lemma discovered_server:
  assumes "discover_and_admit_mcp_server list_tools s = Inr (Some a)"
  obtains tools where "list_tools s = Inr tools"
    "admit_discovered_tools (rs_auth_class s) tools = Inr (as_tools a)" "as_tools a \<noteq> []"
    "as_auth_class a = rs_auth_class s" "as_name a = rs_name s"
  using assms by (auto simp: discover_and_admit_mcp_server_def bindE_def
      split: sum.splits if_splits)

lemma map_filter_id_append: "List.map_filter id (xs @ ys) = List.map_filter id xs @ List.map_filter id ys"
  by (simp add: map_filter_def)

lemma mapE_append: "mapE f (xs @ ys) =
    bindE (mapE f xs) (\<lambda>as. bindE (mapE f ys) (\<lambda>bs. Inr (as @ bs)))"
  by (induction xs) (auto simp: bindE_def split: sum.splits)


section \<open>Properties\<close>

text \<open>
  C35. Path traversal. The value of a header with a \<open>Secret\<close> source depends on no file outside the
  secret mount, whatever the configured secret name is: two file systems that agree below the
  resolved mount root give the same header.
\<close>

theorem secret_headers_confined:
  assumes "dgetn h (S ''source'') = PStr (S ''Secret'')"
    and "realpath w MCP_SECRET_MOUNT_ROOT = Inr root"
    and "\<And>p. is_relative_to p root \<Longrightarrow> fs p = files w p"
  shows "resolve_header (w\<lparr>files := fs\<rparr>) h = resolve_header w h"
proof -
  have "read_secret_value (w\<lparr>files := fs\<rparr>) p = read_secret_value w p" if "is_relative_to p root" for p
    by (rule read_secret_confined [OF _ that]) (simp add: assms(3))
  then show ?thesis
    using assms(1,2) by (auto simp: resolve_header_def bindE_def split: pyval.splits option.splits sum.splits)
qed

lemma secret_headers_confined_witness:
  "resolve_header (empty_world\<lparr>files := [S ''/etc/passwd'' \<mapsto> RegularFile [120]]\<rparr>)
     [(S ''name'', PStr (S ''n'')), (S ''source'', PStr (S ''Secret'')),
      (S ''secretName'', PStr (S ''../../../etc/passwd''))] =
   resolve_header empty_world
     [(S ''name'', PStr (S ''n'')), (S ''source'', PStr (S ''Secret'')),
      (S ''secretName'', PStr (S ''../../../etc/passwd''))]"
proof (rule secret_headers_confined)
  show "realpath empty_world MCP_SECRET_MOUNT_ROOT = Inr (S ''/var/secrets/mcp'')" by code_simp
  show "dgetn [(S ''name'', PStr (S ''n'')), (S ''source'', PStr (S ''Secret'')),
      (S ''secretName'', PStr (S ''../../../etc/passwd''))] (S ''source'') = PStr (S ''Secret'')"
    by code_simp
  have "\<not> is_relative_to (S ''/etc/passwd'') (S ''/var/secrets/mcp'')" by code_simp
  then show "is_relative_to p (S ''/var/secrets/mcp'') \<Longrightarrow>
      [S ''/etc/passwd'' \<mapsto> RegularFile [120]] p = files empty_world p" for p
    by (auto simp: empty_world_def)
qed

text \<open>
  The servers parsed from the configuration have distinct names, each comes from an entry with
  that name, and its authentication class is decided by the configured header sources alone: it is
  \<open>KUBERNETES\<close> exactly when one of them is the service account token, also when no token is mounted.
\<close>

theorem parsed_servers:
  assumes "parse_mcp_servers w = Inr servers"
  shows "distinct (map rs_name servers) \<and>
    (servers = [] \<or> (\<exists>entries. json_loads (env_strip w (S ''LIGHTSPEED_MCP_SERVERS'')) = Inr (PList entries) \<and>
      (\<forall>s \<in> set servers. \<exists>entry. PDict entry \<in> set entries \<and> dgetn entry (S ''name'') = PStr (rs_name s) \<and>
         strip (rs_name s) \<noteq> [] \<and> dgetn entry (S ''url'') = PStr (rs_url s) \<and> strip (rs_url s) \<noteq> [] \<and>
         rs_auth_class s = (case dgetn entry (S ''headers'') of
             PList hs \<Rightarrow> if \<exists>h. PDict h \<in> set hs \<and> dgetn h (S ''source'') = PStr (S ''ServiceAccountToken'')
               then KUBERNETES else NON_KUBERNETES
           | _ \<Rightarrow> NON_KUBERNETES))))"
proof (cases "env_strip w (S ''LIGHTSPEED_MCP_SERVERS'') = []")
  case True
  then show ?thesis using assms by (simp add: parse_mcp_servers_def)
next
  case False
  then obtain entries where e: "json_loads (env_strip w (S ''LIGHTSPEED_MCP_SERVERS'')) = Inr (PList entries)"
    "parse_entries w 0 [] entries = Inr servers"
    using assms by (auto simp: parse_mcp_servers_def Let_def split: sum.splits pyval.splits if_splits)
  have a: "auth_class_of hs = (if \<exists>h. PDict h \<in> set hs \<and> dgetn h (S ''source'') = PStr (S ''ServiceAccountToken'')
               then KUBERNETES else NON_KUBERNETES)" for hs
  proof -
    have u: "uses_service_account h \<longleftrightarrow>
        (\<exists>d. h = PDict d \<and> dgetn d (S ''source'') = PStr (S ''ServiceAccountToken''))" for h
      by (cases h) (simp_all add: uses_service_account_def)
    show ?thesis by (auto simp: auth_class_of_def u)
  qed
  have "\<exists>entry. PDict entry \<in> set entries \<and> dgetn entry (S ''name'') = PStr (rs_name s) \<and>
         strip (rs_name s) \<noteq> [] \<and> dgetn entry (S ''url'') = PStr (rs_url s) \<and> strip (rs_url s) \<noteq> [] \<and>
         rs_auth_class s = (case dgetn entry (S ''headers'') of
             PList hs \<Rightarrow> if \<exists>h. PDict h \<in> set hs \<and> dgetn h (S ''source'') = PStr (S ''ServiceAccountToken'')
               then KUBERNETES else NON_KUBERNETES
           | _ \<Rightarrow> NON_KUBERNETES)" if s: "s \<in> set servers" for s
  proof -
    obtain raw j where raw: "raw \<in> set entries" "parse_server_entry w raw j = Inr (Some s)"
      using parse_entries_ok [OF e(2)] s by blast
    obtain entry hs where p: "raw = PDict entry" "entry_name raw = Some (rs_name s)"
      "dgetn entry (S ''url'') = PStr (rs_url s)" "strip (rs_url s) \<noteq> []"
      "dgetn entry (S ''headers'') = PList hs \<or> dgetn entry (S ''headers'') = PNone \<and> hs = []"
      "rs_auth_class s = auth_class_of hs"
      by (rule parse_server_entry_ok [OF raw(2)])
    have n: "dgetn entry (S ''name'') = PStr (rs_name s) \<and> strip (rs_name s) \<noteq> []"
      using p(1,2) by (auto simp: entry_name_def split: pyval.split_asm if_split_asm)
    have "auth_class_of [] = NON_KUBERNETES" by (simp add: auth_class_of_def)
    then have "rs_auth_class s = (case dgetn entry (S ''headers'') of
             PList hs \<Rightarrow> if \<exists>h. PDict h \<in> set hs \<and> dgetn h (S ''source'') = PStr (S ''ServiceAccountToken'')
               then KUBERNETES else NON_KUBERNETES
           | _ \<Rightarrow> NON_KUBERNETES)" using p(5,6) a [of hs] by auto
    with n p(1,3,4) raw(1) show ?thesis by (intro exI [of _ entry] conjI) simp_all
  qed
  then show ?thesis using parse_entries_ok [OF e(2)] e(1) by blast
qed

lemma parsed_servers_witness:
  "\<exists>w s. parse_mcp_servers w = Inr [s] \<and> rs_auth_class s = KUBERNETES \<and> rs_headers s = [] \<and>
     distinct (map rs_name [s])"
proof -
  let ?w = "env_world [(S ''LIGHTSPEED_MCP_SERVERS'', concat [[91, 123, 34], S ''name'', [34, 58, 34], S ''a'',
      [34, 44, 34], S ''url'', [34, 58, 34], S ''u'', [34, 44, 34], S ''headers'', [34, 58, 91, 123, 34],
      S ''name'', [34, 58, 34], S ''h'', [34, 44, 34], S ''source'', [34, 58, 34], S ''ServiceAccountToken'',
      [34, 125, 93, 125, 93]])]"
  have p: "parse_mcp_servers ?w = Inr [\<lparr>rs_name = S ''a'', rs_url = S ''u'', rs_auth_class = KUBERNETES,
      rs_timeout = PInt 60, rs_headers = []\<rparr>]"
    by code_simp
  then obtain w where w: "parse_mcp_servers w = Inr [\<lparr>rs_name = S ''a'', rs_url = S ''u'',
      rs_auth_class = KUBERNETES, rs_timeout = PInt 60, rs_headers = []\<rparr>]" by blast
  have "distinct (map rs_name [\<lparr>rs_name = S ''a'', rs_url = S ''u'', rs_auth_class = KUBERNETES,
      rs_timeout = PInt 60, rs_headers = []\<rparr>])" using parsed_servers [OF w] by blast
  then show ?thesis using w by (intro exI conjI) (assumption, simp_all)
qed

text \<open>
  C36. Tool admission. A server that is admitted has at least one tool; none of its tools has the
  name of a built-in one; and a tool of a Kubernetes-authenticated server is admitted only if it is
  marked read-only without being marked destructive, or carries a valid RBAC declaration, which
  then appears in the policy entries of the server.
\<close>

theorem admitted_tools_are_safe:
  assumes "discover_and_admit_mcp_server list_tools s = Inr (Some a)"
  shows "as_tools a \<noteq> [] \<and> as_auth_class a = rs_auth_class s \<and>
    (\<forall>t \<in> set (as_tools a). at_name t \<notin> set RESERVED_BUILTIN_TOOL_NAMES \<and>
      (rs_auth_class s = NON_KUBERNETES \<or> at_read_only t \<or>
       (\<exists>m. at_rbac_metadata t = Some m \<and> has_valid_rbac_metadata (PDict m) \<and>
          \<lparr>pe_server_name = rs_name s, pe_tool_name = at_name t, pe_rbac_metadata = m\<rparr>
            \<in> set (snd (split_admitted_mcp_servers [a])))))"
proof -
  obtain tools where d: "admit_discovered_tools (rs_auth_class s) tools = Inr (as_tools a)" "as_tools a \<noteq> []"
    "as_auth_class a = rs_auth_class s" "as_name a = rs_name s"
    by (rule discovered_server [OF assms])
  have "at_name t \<notin> set RESERVED_BUILTIN_TOOL_NAMES \<and>
      (rs_auth_class s = NON_KUBERNETES \<or> at_read_only t \<or>
       (\<exists>m. at_rbac_metadata t = Some m \<and> has_valid_rbac_metadata (PDict m) \<and>
          \<lparr>pe_server_name = rs_name s, pe_tool_name = at_name t, pe_rbac_metadata = m\<rparr>
            \<in> set (snd (split_admitted_mcp_servers [a]))))" if t: "t \<in> set (as_tools a)" for t
  proof -
    obtain tool where tool: "\<not> tool_filtered (rs_auth_class s) tool" "admit_tool tool = Inr t"
      by (rule admitted_tool_ok [OF d(1) t])
    note fs = admit_tool_fields [OF tool(2)]
    have name: "at_name t \<notin> set RESERVED_BUILTIN_TOOL_NAMES"
      using tool(1) fs by (auto simp: tool_filtered_def split: if_splits)
    have "rs_auth_class s = NON_KUBERNETES \<or> at_read_only t \<or> has_valid_rbac_metadata (rbac_metadata_of tool)"
      using tool(1) fs by (cases "rs_auth_class s") (auto simp: tool_filtered_def Let_def split: if_splits)
    moreover have "\<exists>m. at_rbac_metadata t = Some m \<and> has_valid_rbac_metadata (PDict m) \<and>
          \<lparr>pe_server_name = rs_name s, pe_tool_name = at_name t, pe_rbac_metadata = m\<rparr>
            \<in> set (snd (split_admitted_mcp_servers [a]))"
      if v: "has_valid_rbac_metadata (rbac_metadata_of tool)" "\<not> at_read_only t"
    proof -
      obtain m where m: "rbac_metadata_of tool = PDict m" using has_valid_rbac_dict [OF v(1)] by blast
      then have "at_rbac_metadata t = Some m" using fs by simp
      then show ?thesis using v m t d(4)
        by (auto simp: split_admitted_mcp_servers_def server_policies_def set_map_filter
            intro!: exI [of _ m] bexI [of _ t])
    qed
    ultimately show ?thesis using name by blast
  qed
  with d show ?thesis by blast
qed

definition sample_server :: resolved_server where
  "sample_server = \<lparr>rs_name = S ''k'', rs_url = S ''u'', rs_auth_class = KUBERNETES, rs_timeout = PInt 60,
     rs_headers = []\<rparr>"

text \<open>A scaling tool with RBAC rules, one without any annotation and one with a built-in name.\<close>

definition sample_tools :: "sdk_tool list" where
  "sample_tools =
    [\<lparr>tool_name = S ''scale'', tool_description = None,
      tool_metadata = PDict [(S ''_meta'', PDict [(S ''openshift.io/rbac'',
        PDict [(S ''rules'', PList [PStr (S ''r'')])])])],
      tool_args_schema = DictSchema []\<rparr>,
     \<lparr>tool_name = S ''drain'', tool_description = None, tool_metadata = PNone,
      tool_args_schema = DictSchema []\<rparr>,
     \<lparr>tool_name = S ''execute'', tool_description = None,
      tool_metadata = PDict [(S ''readOnlyHint'', PBool True)], tool_args_schema = DictSchema []\<rparr>]"

definition sample_admitted :: admitted_server where
  "sample_admitted = \<lparr>as_name = S ''k'', as_url = S ''u'', as_auth_class = KUBERNETES, as_timeout = PInt 60,
     as_headers = [], as_tools = [\<lparr>at_name = S ''scale'', at_description = [], at_input_schema = [],
       at_read_only = False, at_rbac_metadata = Some [(S ''rules'', PList [PStr (S ''r'')])]\<rparr>]\<rparr>"

lemma admitted_tools_are_safe_witness:
  "discover_and_admit_mcp_server (\<lambda>_. Inr sample_tools) sample_server = Inr (Some sample_admitted) \<and>
   at_name (hd (as_tools sample_admitted)) \<notin> set RESERVED_BUILTIN_TOOL_NAMES"
proof -
  have d: "discover_and_admit_mcp_server (\<lambda>_. Inr sample_tools) sample_server = Inr (Some sample_admitted)"
    by code_simp
  have "hd (as_tools sample_admitted) \<in> set (as_tools sample_admitted)"
    using admitted_tools_are_safe [OF d] by (intro hd_in_set) blast
  with admitted_tools_are_safe [OF d] d show ?thesis by blast
qed

text \<open>
  One failing server does not affect the others: whatever error its discovery raises, short of
  cancellation, the admitted servers are those of the remaining configuration, in its order.
\<close>

theorem failing_server_is_isolated:
  assumes "bindE (list_tools s) (admit_discovered_tools (rs_auth_class s)) = Inl e"
    and "exn_class e \<noteq> CCancelledError"
  shows "discover_and_admit_mcp_servers list_tools (xs @ s # ys) =
    discover_and_admit_mcp_servers list_tools (xs @ ys)"
proof -
  have "discover_and_admit_mcp_server list_tools s = Inr None"
    using assms by (simp add: discover_and_admit_mcp_server_def)
  then show ?thesis
    by (simp add: discover_and_admit_mcp_servers_def mapE_append)
      (auto simp: bindE_def map_filter_def split: sum.splits)
qed

lemma failing_server_is_isolated_witness:
  "discover_and_admit_mcp_servers
     (\<lambda>s. if rs_name s = S ''k'' then Inl (Exn COSError []) else Inr []) ([] @ sample_server # []) = Inr []"
proof -
  have "discover_and_admit_mcp_servers
     (\<lambda>s. if rs_name s = S ''k'' then Inl (Exn COSError []) else Inr []) ([] @ sample_server # []) =
    discover_and_admit_mcp_servers
     (\<lambda>s. if rs_name s = S ''k'' then Inl (Exn COSError []) else Inr []) ([] @ [])"
    by (rule failing_server_is_isolated [where e = "Exn COSError []"]) (simp_all add: sample_server_def)
  then show ?thesis by (simp add: discover_and_admit_mcp_servers_def map_filter_def)
qed

text \<open>
  The policy text cannot be closed from inside: the payload between the opening and the closing
  tag holds no angle bracket, whatever names and metadata the servers declare; and the text is empty
  exactly when there is no policy.
\<close>

theorem policy_text_keeps_its_tags:
  "(render_mcp_policy_context policies = [] \<longleftrightarrow> policies = []) \<and>
   (policies = [] \<or> render_mcp_policy_context policies =
      S ''<MCP_MUTATING_TOOL_POLICIES>'' @ [10] @ policy_payload policies @ [10]
        @ S ''</MCP_MUTATING_TOOL_POLICIES>'') \<and>
   60 \<notin> set (policy_payload policies) \<and> 62 \<notin> set (policy_payload policies)"
proof -
  have "S ''>'' = [62]" "S ''<'' = [60]" by (simp_all add: S_def)
  moreover have "x \<notin> set (92 # S ''u003e'')" "x \<notin> set (92 # S ''u003c'')" if "x = 60 \<or> x = 62" for x
    using that by (auto simp: S_def)
  ultimately have "x \<notin> set (policy_payload policies)" if "x = 60 \<or> x = 62" for x
    using that by (auto simp: policy_payload_def replace_char split: if_splits)
  then show ?thesis by (auto simp: render_mcp_policy_context_def)
qed

end
