(* ===== verification/AgentStream.thy ===== *)
theory AgentStream
  imports Middleware Mcp "HOL-Library.Multiset"
begin

text \<open>
  \<open>providers/deepagents.py\<close>, the event stream of a query: how the messages of the agent graph become
  provider events, when tool results are released, and how the MCP tools are collected. The graph is
  the list of items it streams; LangChain's merging of tool-call chunks is a parameter. Every step
  returns the events it yields, also when it then raises. Proved: a tool result is yielded only after
  an acknowledgement with its signature, and exactly once; text is never yielded inside a thinking
  block; the final text is the concatenation of the text events.
\<close>

section \<open>Messages of the stream\<close>

text \<open>LangChain's standard content blocks; a missing payload is the empty text.\<close>

datatype content_block = TextBlock pystr | ReasoningBlock pystr | OtherBlock pystr

text \<open>
  A message of type \<open>ai\<close> or, when \<open>ai_is_chunk\<close>, \<open>AIMessageChunk\<close>. \<open>'c\<close> is the type of a tool-call
  chunk.
\<close>

record 'c ai_message =
  ai_is_chunk :: bool
  ai_content :: pyval
  ai_blocks :: "content_block list"
  ai_tool_calls :: "tool_call list"
  ai_chunks :: "'c list"
  ai_is_last :: bool
  ai_usage :: "int dict"

text \<open>
  A custom item carries the accepted signatures, if it is the acknowledgement; the type of any other
  message is not one the loop handles.
\<close>

datatype 'c stream_item =
    CustomItem "signature list option"
  | AiItem "'c ai_message"
  | ToolItem tool_message
  | OtherItem

definition usage_count :: "int dict \<Rightarrow> string \<Rightarrow> int" where
  "usage_count usage k = (case dget usage (S k) of None \<Rightarrow> 0 | Some n \<Rightarrow> n)"

definition tool_call_events :: "tool_call list \<Rightarrow> provider_event list" where
  "tool_call_events calls =
     map (\<lambda>c. ToolCallEvent \<lparr>ev_name = tc_name c, ev_input = json_dumps default_format (PDict (tc_args c)),
       ev_call_id = tc_id c, ev_trace_input = None\<rparr>) calls"

fun block_events :: "content_block list \<Rightarrow> provider_event list" where
  "block_events [] = []"
| "block_events (ReasoningBlock r # bs) =
     (if r \<noteq> [] then ThinkingDeltaEvent r # block_events bs else block_events bs)"
| "block_events (TextBlock t # bs) =
     (if t \<noteq> [] then TextDeltaEvent t # block_events bs else block_events bs)"
| "block_events (OtherBlock k # bs) = block_events bs"

definition events_text :: "provider_event list \<Rightarrow> pystr" where
  "events_text es = concat (map delta_text (filter is_text_delta es))"

text \<open>The text of a message without content blocks.\<close>

definition plain_content_events :: "'c ai_message \<Rightarrow> provider_event list" where
  "plain_content_events m =
     (if ai_blocks m = [] \<and> truthy (ai_content m) \<and> ai_tool_calls m = []
      then (case stringify (Plain (VPy (ai_content m))) of
              Inr t \<Rightarrow> if t \<noteq> [] then [TextDeltaEvent t] else []
            | Inl _ \<Rightarrow> [])
      else [])"

definition process_ai_message :: "'c ai_message \<Rightarrow> bool \<Rightarrow> provider_event list \<times> pystr \<times> int \<times> int" where
  "process_ai_message m include_tool_calls =
     (let events = (if include_tool_calls then tool_call_events (ai_tool_calls m) else [])
            @ block_events (ai_blocks m) @ plain_content_events m;
          stop = (if (\<exists>e \<in> set events. is_thinking_delta e) \<and> (\<not> ai_is_chunk m \<or> ai_is_last m)
                  then [ContentBlockStopEvent] else [])
      in (events @ stop, events_text events,
          usage_count (ai_usage m) ''input_tokens'', usage_count (ai_usage m) ''output_tokens''))"


section \<open>The stream loop\<close>

text \<open>A tool result that waits for its acknowledgement: the arguments of its signature, and its event.\<close>

record pending_result =
  pr_name :: pystr
  pr_type :: pystr
  pr_call_id :: pystr
  pr_content :: tool_value
  pr_event :: tool_result_event

record 'c stream_state =
  result_text :: pystr
  thinking_active :: bool
  pending_results :: "pending_result list"
  input_tokens :: int
  output_tokens :: int
  pending_chunk :: "('c list \<times> bool) list option"

definition initial_stream :: "'c stream_state" where
  "initial_stream = \<lparr>result_text = [], thinking_active = False, pending_results = [],
     input_tokens = 0, output_tokens = 0, pending_chunk = None\<rparr>"

text \<open>What a query fixes: the digest, the merging of chunks, and whether results are inspected.\<close>

record 'c stream_env =
  sha256_of :: "int list \<Rightarrow> pystr"
  merged_calls :: "('c list \<times> bool) list \<Rightarrow> tool_call list"
  inspection_enabled :: bool

definition flush_events :: "'c stream_env \<Rightarrow> ('c list \<times> bool) list option \<Rightarrow> provider_event list" where
  "flush_events env chunk = (case chunk of None \<Rightarrow> [] | Some cs \<Rightarrow> tool_call_events (merged_calls env cs))"

definition pending_signature :: "'c stream_env \<Rightarrow> pending_result \<Rightarrow> signature result" where
  "pending_signature env p = signature_of (sha256_of env) (pr_name p) (pr_type p) (pr_call_id p) (pr_content p)"

text \<open>The released and the remaining results of an acknowledgement.\<close>

fun release_accepted ::
  "'c stream_env \<Rightarrow> signature list \<Rightarrow> pending_result list
     \<Rightarrow> (tool_result_event list \<times> pending_result list) result"
where
  "release_accepted env accepted [] = Inr ([], [])"
| "release_accepted env accepted (p # ps) =
     bindE (pending_signature env p) (\<lambda>sig.
     bindE (release_accepted env accepted ps) (\<lambda>(released, remaining).
       Inr (if sig \<in> set accepted then (pr_event p # released, remaining)
            else (released, p # remaining))))"

text \<open>The handling of chunks before the message itself: the events and the new pending chunk.\<close>

definition chunk_step ::
  "'c stream_env \<Rightarrow> 'c ai_message \<Rightarrow> ('c list \<times> bool) list option
     \<Rightarrow> provider_event list \<times> ('c list \<times> bool) list option"
where
  "chunk_step env m pending =
     (if ai_is_chunk m then
        (let pending1 =
           (if ai_chunks m \<noteq> [] \<or> (pending \<noteq> None \<and> ai_is_last m)
            then Some ((case pending of None \<Rightarrow> [] | Some cs \<Rightarrow> cs) @ [(ai_chunks m, ai_is_last m)])
            else pending)
         in if ai_is_last m then (flush_events env pending1, None) else ([], pending1))
      else if pending \<noteq> None then
        (if ai_tool_calls m \<noteq> [] then ([], None) else (flush_events env pending, None))
      else ([], None))"

fun emit_events :: "bool \<Rightarrow> provider_event list \<Rightarrow> provider_event list \<times> bool" where
  "emit_events thinking [] = ([], thinking)"
| "emit_events thinking (e # es) =
     (let stop = thinking \<and> is_text_delta e;
          thinking1 = (if stop then False else thinking);
          thinking2 = (if is_thinking_delta e then True
                       else if is_block_stop e \<or> is_tool_call e then False else thinking1);
          (out, thinking3) = emit_events thinking2 es
      in ((if stop then [ContentBlockStopEvent] else []) @ e # out, thinking3))"

definition ai_step ::
  "'c stream_env \<Rightarrow> 'c ai_message \<Rightarrow> 'c stream_state \<Rightarrow> provider_event list \<times> 'c stream_state result"
where
  "ai_step env m s =
     (if pending_results s \<noteq> [] then ([], Inl inspection_failed)
      else
      (let (flushed, chunk) = chunk_step env m (pending_chunk s);
           (events, delta, in_tok, out_tok) = process_ai_message m (\<not> ai_is_chunk m);
           (emitted, thinking) = emit_events (thinking_active s) events;
           (stop, thinking1) = (if ai_is_chunk m \<and> ai_is_last m \<and> thinking
                                then ([ContentBlockStopEvent], False) else ([], thinking))
       in (flushed @ emitted @ stop,
           Inr (s\<lparr>pending_chunk := chunk, thinking_active := thinking1,
                  result_text := result_text s @ delta,
                  input_tokens := input_tokens s + in_tok,
                  output_tokens := output_tokens s + out_tok\<rparr>))))"

definition tool_event :: "tool_message \<Rightarrow> tool_result_event result" where
  "tool_event m =
     bindE (stringify (Plain (msg_content m))) (\<lambda>t.
       Inr \<lparr>ev_output = t, ev_result_call_id = msg_call_id m,
            ev_error_type = (if result_type_of m = S ''error'' then Some (S ''tool_error'') else None)\<rparr>)"

definition tool_step ::
  "'c stream_env \<Rightarrow> tool_message \<Rightarrow> 'c stream_state \<Rightarrow> provider_event list \<times> 'c stream_state result"
where
  "tool_step env m s =
     (let flushed = flush_events env (pending_chunk s); s1 = s\<lparr>pending_chunk := None\<rparr>
      in case tool_event m of
           Inl e \<Rightarrow> (flushed, Inl e)
         | Inr ev \<Rightarrow>
             if \<not> inspection_enabled env then (flushed @ [ToolResultEvent ev], Inr s1)
             else (flushed, Inr (s1\<lparr>pending_results := pending_results s @
               [\<lparr>pr_name = name_of m, pr_type = result_type_of m, pr_call_id = msg_call_id m,
                 pr_content = msg_content m, pr_event = ev\<rparr>]\<rparr>)))"

definition custom_step ::
  "'c stream_env \<Rightarrow> signature list option \<Rightarrow> 'c stream_state \<Rightarrow> provider_event list \<times> 'c stream_state result"
where
  "custom_step env ack s =
     (case ack of
        None \<Rightarrow> ([], Inr s)
      | Some accepted \<Rightarrow>
          (case release_accepted env accepted (pending_results s) of
             Inl e \<Rightarrow> ([], Inl e)
           | Inr (released, remaining) \<Rightarrow>
               (map ToolResultEvent released, Inr (s\<lparr>pending_results := remaining\<rparr>))))"

fun stream_step ::
  "'c stream_env \<Rightarrow> 'c stream_item \<Rightarrow> 'c stream_state \<Rightarrow> provider_event list \<times> 'c stream_state result"
where
  "stream_step env (CustomItem ack) s = custom_step env ack s"
| "stream_step env (AiItem m) s = ai_step env m s"
| "stream_step env (ToolItem m) s = tool_step env m s"
| "stream_step env OtherItem s = ([], Inr s)"

fun stream_loop ::
  "'c stream_env \<Rightarrow> 'c stream_item list \<Rightarrow> 'c stream_state \<Rightarrow> provider_event list \<times> 'c stream_state result"
where
  "stream_loop env [] s = ([], Inr s)"
| "stream_loop env (i # is) s =
     (case stream_step env i s of
        (out, Inl e) \<Rightarrow> (out, Inl e)
      | (out, Inr s1) \<Rightarrow> (let (rest, r) = stream_loop env is s1 in (out @ rest, r)))"

text \<open>The whole stream: at its end no result may still wait.\<close>

definition run_stream ::
  "'c stream_env \<Rightarrow> 'c stream_item list \<Rightarrow> provider_event list \<times> 'c stream_state result"
where
  "run_stream env items =
     (case stream_loop env items initial_stream of
        (out, Inl e) \<Rightarrow> (out, Inl e)
      | (out, Inr s) \<Rightarrow>
          if pending_results s \<noteq> [] then (out, Inl inspection_failed)
          else (out @ flush_events env (pending_chunk s), Inr (s\<lparr>pending_chunk := None\<rparr>)))"


section \<open>Lemmas: released results\<close>

lemma tool_calls_no_results: "filter is_tool_result (tool_call_events cs) = []"
  by (auto simp: tool_call_events_def filter_empty_conv)

lemma flush_no_results: "filter is_tool_result (flush_events env chunk) = []"
  by (simp add: flush_events_def tool_calls_no_results split: option.split)

lemma blocks_no_results: "filter is_tool_result (block_events bs) = []"
  by (induction bs rule: block_events.induct) auto

lemma content_no_results: "filter is_tool_result (plain_content_events m) = []"
proof (cases "stringify (Plain (VPy (ai_content m)))")
  case (Inl e)
  then show ?thesis by (simp only: plain_content_events_def sum.case if_cancel filter.simps)
next
  case (Inr t)
  then show ?thesis by (simp only: plain_content_events_def sum.case) auto
qed

lemmas no_tool_results = tool_calls_no_results flush_no_results blocks_no_results content_no_results

lemma emit_no_tool_results:
  "filter is_tool_result es = [] \<Longrightarrow> filter is_tool_result (fst (emit_events t es)) = []"
  by (induction t es rule: emit_events.induct) (auto simp: Let_def split: prod.split if_split_asm)

lemma chunk_step_no_tool_results: "filter is_tool_result (fst (chunk_step env m c)) = []"
  by (auto simp: chunk_step_def Let_def no_tool_results)

lemma process_no_tool_results: "filter is_tool_result (fst (process_ai_message m b)) = []"
  by (auto simp: process_ai_message_def Let_def no_tool_results)

lemma ai_step_result:
  assumes "ai_step env m s = (out, r)"
  shows "filter is_tool_result out = []"
    and "r = Inr s' \<Longrightarrow> pending_results s = [] \<and> pending_results s' = []"
  using assms chunk_step_no_tool_results [of env m "pending_chunk s"]
    emit_no_tool_results [OF process_no_tool_results [of m "\<not> ai_is_chunk m"], of "thinking_active s"]
  by (auto simp: ai_step_def Let_def split: if_split_asm prod.split_asm)

text \<open>Where a waiting result comes from: a tool message with no message of the model after it.\<close>

definition no_ai :: "'c stream_item list \<Rightarrow> bool" where
  "no_ai items \<longleftrightarrow> (\<forall>m. AiItem m \<notin> set items)"

definition pending_from :: "tool_message \<Rightarrow> pending_result \<Rightarrow> bool" where
  "pending_from m p \<longleftrightarrow> tool_event m = Inr (pr_event p) \<and> pr_name p = name_of m \<and>
     pr_type p = result_type_of m \<and> pr_call_id p = msg_call_id m \<and> pr_content p = msg_content m"

definition waits_since :: "'c stream_item list \<Rightarrow> pending_result \<Rightarrow> bool" where
  "waits_since seen p \<longleftrightarrow>
     (\<exists>pre m mid. seen = pre @ ToolItem m # mid \<and> no_ai mid \<and> pending_from m p)"

definition origin :: "'c stream_item list \<Rightarrow> 'c stream_state \<Rightarrow> bool" where
  "origin seen s \<longleftrightarrow> (\<forall>p \<in> set (pending_results s). waits_since seen p)"

definition released_by ::
  "'c stream_env \<Rightarrow> 'c stream_item list \<Rightarrow> tool_result_event \<Rightarrow> bool"
where
  "released_by env items ev \<longleftrightarrow> (\<exists>pre m mid ack post sig.
     items = pre @ ToolItem m # mid @ CustomItem (Some ack) # post \<and> no_ai mid \<and>
     tool_event m = Inr ev \<and> message_signature (sha256_of env) m = Inr sig \<and> sig \<in> set ack)"

lemma released_by_append: "released_by env items ev \<Longrightarrow> released_by env (items @ later) ev"
  unfolding released_by_def by (metis append.assoc append_Cons)

definition is_accepted :: "'c stream_env \<Rightarrow> signature list \<Rightarrow> pending_result \<Rightarrow> bool" where
  "is_accepted env accepted p \<longleftrightarrow>
     (case pending_signature env p of Inr sig \<Rightarrow> sig \<in> set accepted | Inl _ \<Rightarrow> False)"

lemma is_acceptedD:
  "is_accepted env accepted p \<Longrightarrow> \<exists>sig. pending_signature env p = Inr sig \<and> sig \<in> set accepted"
  unfolding is_accepted_def by (cases "pending_signature env p"; simp only: sum.case; blast)

lemma release_accepted_split:
  "release_accepted env accepted ps = Inr (released, remaining) \<Longrightarrow>
    set remaining \<subseteq> set ps \<and>
    mset released + mset (map pr_event remaining) = mset (map pr_event ps) \<and>
    (\<forall>ev \<in> set released. \<exists>p \<in> set ps. pr_event p = ev \<and> is_accepted env accepted p)"
proof (induction ps arbitrary: released remaining)
  case (Cons p ps)
  obtain sig rel rem where p: "pending_signature env p = Inr sig"
    "release_accepted env accepted ps = Inr (rel, rem)"
    "(released, remaining) = (if sig \<in> set accepted then (pr_event p # rel, rem) else (rel, p # rem))"
    using Cons.prems by (auto simp: result_simps)
  have "is_accepted env accepted p = (sig \<in> set accepted)" using p(1) by (simp add: is_accepted_def)
  then show ?case using Cons.IH [OF p(2)] p(3) by (auto split: if_split_asm)
qed simp

lemma waits_since_snoc:
  assumes "waits_since seen p" "\<And>m. i \<noteq> AiItem m"
  shows "waits_since (seen @ [i]) p"
proof -
  obtain pre m mid where "seen = pre @ ToolItem m # mid" "no_ai mid" "pending_from m p"
    using assms(1) unfolding waits_since_def by blast
  then show ?thesis using assms(2) unfolding waits_since_def
    by (intro exI [of _ pre] exI [of _ m] exI [of _ "mid @ [i]"]) (auto simp: no_ai_def)
qed

lemma origin_snoc: "origin seen s \<Longrightarrow> (\<And>m. i \<noteq> AiItem m) \<Longrightarrow> origin (seen @ [i]) s"
  by (simp add: origin_def waits_since_snoc)

lemma pending_from_signature:
  "pending_from m p \<Longrightarrow> pending_signature env p = message_signature (sha256_of env) m"
  by (simp add: pending_from_def pending_signature_def message_signature_def)

text \<open>One step: where its results come from, and what it leaves waiting.\<close>

lemma stream_step_origin:
  assumes "stream_step env i s = (out, r)" "origin seen s" "inspection_enabled env"
  shows "(\<forall>ev. ToolResultEvent ev \<in> set out \<longrightarrow> released_by env (seen @ [i]) ev) \<and>
    (\<forall>s'. r = Inr s' \<longrightarrow> origin (seen @ [i]) s')"
proof (cases i)
  case (CustomItem ack)
  have keep: "origin (seen @ [i]) s"
    using origin_snoc [OF assms(2)] CustomItem by blast
  show ?thesis
  proof (cases ack)
    case None
    then show ?thesis using assms(1) CustomItem keep by (auto simp: custom_step_def)
  next
    case (Some accepted)
    show ?thesis
    proof (cases "release_accepted env accepted (pending_results s)")
      case (Inr rr)
      obtain released remaining where rr: "rr = (released, remaining)" by fastforce
      note sp = release_accepted_split [OF Inr [unfolded rr]]
      have "released_by env (seen @ [i]) ev" if rel: "ev \<in> set released" for ev
      proof -
        obtain p where p0: "p \<in> set (pending_results s)" "pr_event p = ev" "is_accepted env accepted p"
          using bspec [OF sp [THEN conjunct2, THEN conjunct2] rel] by blast
        obtain sig where p1: "pending_signature env p = Inr sig" and p2: "sig \<in> set accepted"
          using is_acceptedD [OF p0(3)] by blast
        obtain pre m mid where pm: "seen = pre @ ToolItem m # mid" "no_ai mid" "pending_from m p"
          using assms(2) p0(1) unfolding origin_def waits_since_def by blast
        have "message_signature (sha256_of env) m = Inr sig"
          by (rule trans [OF pending_from_signature [OF pm(3), symmetric] p1])
        moreover have "tool_event m = Inr ev" using pm(3) p0(2) by (simp add: pending_from_def)
        moreover have "seen @ [i] = pre @ ToolItem m # mid @ CustomItem (Some accepted) # []"
          using pm(1) CustomItem Some by simp
        ultimately show ?thesis using pm(2) p2 unfolding released_by_def by blast
      qed
      moreover have "origin (seen @ [i]) (s\<lparr>pending_results := remaining\<rparr>)"
        using keep sp by (auto simp: origin_def)
      ultimately show ?thesis using assms(1) CustomItem Some Inr rr by (auto simp: custom_step_def)
    qed (use assms(1) CustomItem Some in \<open>auto simp: custom_step_def\<close>)
  qed
next
  case (AiItem m)
  then have a: "ai_step env m s = (out, r)" using assms(1) by simp
  have "filter is_tool_result out = []" using ai_step_result(1) [OF a] .
  then have "\<forall>ev. ToolResultEvent ev \<notin> set out" by (auto simp: filter_empty_conv)
  then show ?thesis using ai_step_result(2) [OF a] by (auto simp: origin_def)
next
  case (ToolItem m)
  have o: "origin (seen @ [i]) s"
    using origin_snoc [OF assms(2)] ToolItem by blast
  have f: "ToolResultEvent ev \<notin> set (flush_events env c)" for ev c
    using no_tool_results(2) [of env c] by (auto simp: filter_empty_conv)
  show ?thesis
  proof (cases "tool_event m")
    case (Inr ev)
    have "waits_since (seen @ [i])
        \<lparr>pr_name = name_of m, pr_type = result_type_of m, pr_call_id = msg_call_id m,
         pr_content = msg_content m, pr_event = ev\<rparr>"
      unfolding waits_since_def using ToolItem Inr
      by (intro exI [of _ seen] exI [of _ m] exI [of _ "[]"]) (simp add: no_ai_def pending_from_def)
    then show ?thesis using assms(1,3) ToolItem Inr o f by (auto simp: tool_step_def Let_def origin_def)
  qed (use assms(1) ToolItem f in \<open>auto simp: tool_step_def Let_def\<close>)
next
  case OtherItem
  have "origin (seen @ [i]) s"
    using origin_snoc [OF assms(2)] OtherItem by blast
  then show ?thesis using assms(1) OtherItem by auto
qed

lemma stream_loop_origin:
  assumes "stream_loop env items s = (out, r)" "origin seen s" "inspection_enabled env"
    and "ToolResultEvent ev \<in> set out"
  shows "released_by env (seen @ items) ev"
  using assms
proof (induction items arbitrary: seen s out)
  case (Cons i items)
  obtain out1 r1 where st: "stream_step env i s = (out1, r1)" by fastforce
  note one = stream_step_origin [OF st Cons.prems(2,3)]
  show ?case
  proof (cases "ToolResultEvent ev \<in> set out1")
    case True
    then have "released_by env ((seen @ [i]) @ items) ev" using one released_by_append by blast
    then show ?thesis by simp
  next
    case False
    then obtain s1 rest where "r1 = Inr s1" "stream_loop env items s1 = (rest, r)" "ToolResultEvent ev \<in> set rest"
      using Cons.prems(1,4) st by (cases r1) (auto simp: Let_def split: prod.split_asm)
    then have "released_by env ((seen @ [i]) @ items) ev" using Cons.IH one Cons.prems(3) by blast
    then show ?thesis by simp
  qed
qed simp


section \<open>Lemmas: every result once, the text, the thinking blocks\<close>

definition released_results :: "provider_event list \<Rightarrow> tool_result_event multiset" where
  "released_results out = mset (map the_result (filter is_tool_result out))"

definition item_results :: "'c stream_item \<Rightarrow> tool_result_event list" where
  "item_results i =
     (case i of ToolItem m \<Rightarrow> (case tool_event m of Inr ev \<Rightarrow> [ev] | Inl _ \<Rightarrow> []) | _ \<Rightarrow> [])"

lemma released_results_append [simp]: "released_results (a @ b) = released_results a + released_results b"
  by (simp add: released_results_def)

lemma released_results_none: "filter is_tool_result out = [] \<Longrightarrow> released_results out = {#}"
  by (simp add: released_results_def)

lemma released_results_map [simp]: "released_results (map ToolResultEvent evs) = mset evs"
  by (induction evs) (simp_all add: released_results_def)

lemma released_results_flush: "released_results (flush_events env c) = {#}"
  by (rule released_results_none [OF flush_no_results])

lemma released_results_single: "released_results [ToolResultEvent ev] = {#ev#}"
  by (simp add: released_results_def)

lemma stream_step_results:
  assumes "stream_step env i s = (out, Inr s')"
  shows "released_results out + mset (map pr_event (pending_results s')) =
    mset (map pr_event (pending_results s)) + mset (item_results i)"
proof (cases i)
  case (CustomItem ack)
  then show ?thesis using assms
    by (auto simp: custom_step_def item_results_def released_results_none
        split: option.split_asm sum.split_asm dest: release_accepted_split)
next
  case (AiItem m)
  then have a: "ai_step env m s = (out, Inr s')" using assms by simp
  show ?thesis using ai_step_result(1) [OF a] ai_step_result(2) [OF a refl] AiItem
    by (simp add: released_results_none item_results_def)
next
  case (ToolItem m)
  then show ?thesis using assms
    by (auto simp: tool_step_def Let_def item_results_def released_results_flush
        released_results_single split: sum.split_asm if_split_asm)
next
  case OtherItem
  then show ?thesis using assms by (auto simp: item_results_def released_results_none)
qed

lemma stream_loop_results:
  "stream_loop env items s = (out, Inr s') \<Longrightarrow>
    released_results out + mset (map pr_event (pending_results s')) =
    mset (map pr_event (pending_results s)) + mset (concat (map item_results items))"
proof (induction items arbitrary: s out)
  case (Cons i items)
  obtain out1 s1 rest where st: "stream_step env i s = (out1, Inr s1)"
    "stream_loop env items s1 = (rest, Inr s')" "out = out1 @ rest"
    using Cons.prems by (auto simp: Let_def split: prod.split_asm sum.split_asm)
  show ?case using stream_step_results [OF st(1)] Cons.IH [OF st(2)] st(3)
    by (simp add: ac_simps)
qed (auto simp: released_results_def)

lemma events_text_simps [simp]:
  "events_text [] = []" "events_text (a @ b) = events_text a @ events_text b"
  "events_text (TextDeltaEvent t # es) = t @ events_text es"
  "\<not> is_text_delta e \<Longrightarrow> events_text (e # es) = events_text es"
  by (simp_all add: events_text_def)

lemma events_text_calls [simp]: "events_text (tool_call_events cs) = []"
  by (simp add: events_text_def tool_call_events_def filter_empty_conv)

lemma events_text_flush [simp]: "events_text (flush_events env chunk) = []"
  by (simp add: flush_events_def split: option.split)

lemma events_text_results [simp]: "events_text (map ToolResultEvent evs) = []"
  by (induction evs) simp_all

lemma events_text_emit: "emit_events t es = (out, t') \<Longrightarrow> events_text out = events_text es"
proof (induction es arbitrary: t out)
  case (Cons e es)
  then show ?case by (cases e) (auto simp: Let_def split: prod.split_asm if_split_asm)
qed simp

lemma chunk_step_text: "events_text (fst (chunk_step env m c)) = []"
  by (simp add: chunk_step_def Let_def)

lemma stream_step_text:
  assumes "stream_step env i s = (out, Inr s')"
  shows "result_text s' = result_text s @ events_text out"
proof (cases i)
  case (AiItem m)
  obtain flushed chunk where c: "chunk_step env m (pending_chunk s) = (flushed, chunk)" by fastforce
  obtain events delta n k where p: "process_ai_message m (\<not> ai_is_chunk m) = (events, delta, n, k)"
    by (metis prod_cases4)
  obtain emitted thinking where e: "emit_events (thinking_active s) events = (emitted, thinking)" by fastforce
  have "events_text flushed = []" using chunk_step_text [of env m "pending_chunk s"] c by simp
  moreover have "events_text emitted = delta"
    using events_text_emit [OF e] p by (auto simp: process_ai_message_def Let_def)
  ultimately show ?thesis using assms AiItem c p e by (auto simp: ai_step_def Let_def split: if_split_asm)
qed (use assms in \<open>auto simp: custom_step_def tool_step_def Let_def split: option.split_asm sum.split_asm if_split_asm\<close>)

lemma stream_loop_text:
  "stream_loop env items s = (out, Inr s') \<Longrightarrow> result_text s' = result_text s @ events_text out"
proof (induction items arbitrary: s out)
  case (Cons i items)
  obtain out1 s1 rest where st: "stream_step env i s = (out1, Inr s1)"
    "stream_loop env items s1 = (rest, Inr s')" "out = out1 @ rest"
    using Cons.prems by (auto simp: Let_def split: prod.split_asm sum.split_asm)
  show ?case using stream_step_text [OF st(1)] Cons.IH [OF st(2)] st(3) by simp
qed simp

text \<open>
  A consumer that tracks the thinking block: a delta opens it, a stop or a tool call closes it, and a
  text delta must find it closed.
\<close>

fun thinking_after :: "bool \<Rightarrow> provider_event list \<Rightarrow> bool" where
  "thinking_after t [] = t"
| "thinking_after t (e # es) =
     thinking_after (is_thinking_delta e \<or> (t \<and> \<not> is_block_stop e \<and> \<not> is_tool_call e)) es"

fun text_outside_thinking :: "bool \<Rightarrow> provider_event list \<Rightarrow> bool" where
  "text_outside_thinking t [] \<longleftrightarrow> True"
| "text_outside_thinking t (e # es) \<longleftrightarrow> \<not> (t \<and> is_text_delta e) \<and>
     text_outside_thinking (is_thinking_delta e \<or> (t \<and> \<not> is_block_stop e \<and> \<not> is_tool_call e)) es"

lemma thinking_after_append: "thinking_after t (a @ b) = thinking_after (thinking_after t a) b"
  by (induction a arbitrary: t) auto

lemma text_outside_append:
  "text_outside_thinking t (a @ b) \<longleftrightarrow>
    text_outside_thinking t a \<and> text_outside_thinking (thinking_after t a) b"
  by (induction a arbitrary: t) auto

lemma calls_thinking:
  "text_outside_thinking t (tool_call_events cs) \<and> (thinking_after t (tool_call_events cs) \<longrightarrow> t)"
  unfolding tool_call_events_def by (induction cs arbitrary: t) auto

lemma flush_events_thinking:
  "text_outside_thinking t (flush_events env c) \<and> (thinking_after t (flush_events env c) \<longrightarrow> t)"
  using calls_thinking by (auto simp: flush_events_def split: option.split)

lemma chunk_step_thinking:
  "chunk_step env m c = (out, c') \<Longrightarrow> text_outside_thinking t out \<and> (thinking_after t out \<longrightarrow> t)"
  using flush_events_thinking by (auto simp: chunk_step_def Let_def split: if_split_asm)

lemma results_thinking:
  "text_outside_thinking t (map ToolResultEvent evs) \<and> thinking_after t (map ToolResultEvent evs) = t"
  by (induction evs) auto

lemma emit_thinking:
  "emit_events active es = (out, active') \<Longrightarrow> (t \<longrightarrow> active) \<Longrightarrow>
    text_outside_thinking t out \<and> (thinking_after t out \<longrightarrow> active')"
proof (induction es arbitrary: active t out)
  case (Cons e es)
  define stop where "stop \<longleftrightarrow> active \<and> is_text_delta e"
  define active2 where "active2 = (if is_thinking_delta e then True
    else if is_block_stop e \<or> is_tool_call e then False else if stop then False else active)"
  define t2 where "t2 \<longleftrightarrow> is_thinking_delta e \<or> ((t \<and> \<not> stop) \<and> \<not> is_block_stop e \<and> \<not> is_tool_call e)"
  obtain rest where r: "emit_events active2 es = (rest, active')"
    and o: "out = (if stop then [ContentBlockStopEvent] else []) @ e # rest"
    using Cons.prems(1) unfolding active2_def stop_def emit_events.simps Let_def
    by (auto split: prod.split_asm)
  have "t2 \<longrightarrow> active2" using Cons.prems(2) by (auto simp: t2_def active2_def stop_def)
  from Cons.IH [OF r this] Cons.prems(2) show ?case
    by (cases e) (auto simp: o t2_def stop_def)
qed simp

lemma stream_step_thinking:
  assumes "stream_step env i s = (out, r)" "t \<longrightarrow> thinking_active s"
  shows "text_outside_thinking t out \<and> (\<forall>s'. r = Inr s' \<longrightarrow> thinking_after t out \<longrightarrow> thinking_active s')"
proof (cases i)
  case (AiItem m)
  obtain flushed chunk where c: "chunk_step env m (pending_chunk s) = (flushed, chunk)" by fastforce
  obtain events delta n k where p: "process_ai_message m (\<not> ai_is_chunk m) = (events, delta, n, k)"
    by (metis prod_cases4)
  obtain emitted thinking where e: "emit_events (thinking_active s) events = (emitted, thinking)" by fastforce
  show ?thesis
    using assms AiItem c p e chunk_step_thinking [OF c, of t]
      emit_thinking [OF e, of "thinking_after t flushed"]
    by (auto simp: ai_step_def text_outside_append thinking_after_append split: if_split_asm)
next
  case (ToolItem m)
  then show ?thesis using assms flush_events_thinking [of t env "pending_chunk s"]
    by (auto simp: tool_step_def Let_def text_outside_append thinking_after_append
        split: sum.split_asm if_split_asm)
qed (use assms results_thinking in \<open>auto simp: custom_step_def split: option.split_asm sum.split_asm\<close>)

lemma stream_loop_thinking:
  "stream_loop env items s = (out, r) \<Longrightarrow> (t \<longrightarrow> thinking_active s) \<Longrightarrow> text_outside_thinking t out"
proof (induction items arbitrary: s out t)
  case (Cons i items)
  obtain out1 r1 where st: "stream_step env i s = (out1, r1)" by fastforce
  note one = stream_step_thinking [OF st Cons.prems(2)]
  show ?case
  proof (cases r1)
    case (Inl e)
    then show ?thesis using Cons.prems(1) st one by simp
  next
    case (Inr s1)
    then obtain rest where r: "stream_loop env items s1 = (rest, r)" "out = out1 @ rest"
      using Cons.prems(1) st by (auto simp: Let_def split: prod.split_asm)
    show ?thesis using one Inr r(2) Cons.IH [OF r(1), of "thinking_after t out1"]
      by (auto simp: text_outside_append)
  qed
qed simp


lemma run_stream_loop:
  assumes "run_stream env items = (out, r)"
  obtains out1 r1 where "stream_loop env items initial_stream = (out1, r1)"
    "out = out1 \<or> (\<exists>c. out = out1 @ flush_events env c)"
  using assms by (auto simp: run_stream_def split: prod.split_asm sum.split_asm if_split_asm)

lemma run_stream_Inr:
  assumes "run_stream env items = (out, Inr s)"
  obtains out1 s1 where "stream_loop env items initial_stream = (out1, Inr s1)"
    "pending_results s1 = []" "out = out1 @ flush_events env (pending_chunk s1)"
    "s = s1\<lparr>pending_chunk := None\<rparr>"
  using assms by (auto simp: run_stream_def split: prod.split_asm sum.split_asm if_split_asm)

lemma flush_no_result_event: "ToolResultEvent ev \<notin> set (flush_events env c)"
  using flush_no_results [of env c] by (auto simp: filter_empty_conv)

lemma run_stream_released:
  assumes "run_stream env items = (out, r)" "inspection_enabled env" "ToolResultEvent ev \<in> set out"
  shows "released_by env items ev"
proof -
  obtain out1 r1 where l: "stream_loop env items initial_stream = (out1, r1)"
    "out = out1 \<or> (\<exists>c. out = out1 @ flush_events env c)"
    by (rule run_stream_loop [OF assms(1)])
  have "ToolResultEvent ev \<in> set out1" using assms(3) l(2) by (auto simp: flush_no_result_event)
  from stream_loop_origin [OF l(1) _ assms(2) this, of "[]"] show ?thesis
    by (simp add: origin_def initial_stream_def)
qed


section \<open>Properties\<close>

text \<open>
  C4. With inspection on, a tool result is yielded only after its acknowledgement. Whenever a run of
  the stream, also one that fails later, yields a tool result, the graph had streamed the tool's
  message and, later, an acknowledgement that holds its signature, and the model had said nothing in
  between.
\<close>

theorem results_only_after_acknowledgement:
  assumes "run_stream env items = (out, r)" "inspection_enabled env" "ToolResultEvent ev \<in> set out"
  shows "\<exists>pre m mid ack post sig. items = pre @ ToolItem m # mid @ CustomItem (Some ack) # post \<and>
    tool_event m = Inr ev \<and> message_signature (sha256_of env) m = Inr sig \<and> sig \<in> set ack \<and>
    (\<forall>a. AiItem a \<notin> set mid)"
  using run_stream_released [OF assms] unfolding released_by_def no_ai_def by blast

definition sample_stream_env :: "nat stream_env" where
  "sample_stream_env = \<lparr>sha256_of = (\<lambda>bs. bs), merged_calls = (\<lambda>_. []), inspection_enabled = True\<rparr>"

definition sample_items :: "nat stream_item list" where
  "sample_items = [ToolItem sample_message,
     CustomItem (Some [(S ''pods'', S ''result'', S ''c1'', utf8_bytes (S ''ok''))])]"

definition sample_event :: tool_result_event where
  "sample_event = \<lparr>ev_output = S ''ok'', ev_result_call_id = S ''c1'', ev_error_type = None\<rparr>"

lemma sample_run: "run_stream sample_stream_env sample_items = ([ToolResultEvent sample_event], Inr initial_stream)"
  by code_simp

lemma results_only_after_acknowledgement_witness:
  "\<exists>pre m mid ack post. sample_items = pre @ ToolItem m # mid @ CustomItem (Some ack) # post"
proof -
  have "inspection_enabled sample_stream_env" by code_simp
  from results_only_after_acknowledgement [OF sample_run this, of sample_event] show ?thesis by (simp, blast)
qed

text \<open>
  C5. No result is lost or repeated: a run that ends well has yielded, as a multiset, exactly one event
  for every tool message of the graph, whether inspection is on or off.
\<close>

theorem every_result_released_once:
  assumes "run_stream env items = (out, Inr s)"
  shows "mset (map the_result (filter is_tool_result out)) = mset (concat (map item_results items))"
proof -
  obtain out1 s1 where l: "stream_loop env items initial_stream = (out1, Inr s1)"
    "pending_results s1 = []" "out = out1 @ flush_events env (pending_chunk s1)"
    "s = s1\<lparr>pending_chunk := None\<rparr>"
    by (rule run_stream_Inr [OF assms])
  have "released_results out = mset (concat (map item_results items))"
    using stream_loop_results [OF l(1)] l(2,3) released_results_flush [of env "pending_chunk s1"]
    by (simp add: initial_stream_def)
  then show ?thesis by (simp add: released_results_def)
qed

lemma every_result_released_once_witness:
  "mset (map the_result (filter is_tool_result [ToolResultEvent sample_event])) = mset [sample_event]"
proof -
  have e: "concat (map item_results sample_items) = [sample_event]" by code_simp
  show ?thesis using every_result_released_once [OF sample_run] unfolding e .
qed

text \<open>
  The text of a run. Text events never come inside an open thinking block, also when the run
  fails; and when it ends well, the text it leaves is the concatenation of its text events.
\<close>

theorem stream_text:
  "text_outside_thinking False (fst (run_stream env items)) \<and>
   (case snd (run_stream env items) of Inl _ \<Rightarrow> True
    | Inr s \<Rightarrow> result_text s = concat (map delta_text (filter is_text_delta (fst (run_stream env items)))))"
proof -
  obtain out r where run: "run_stream env items = (out, r)" by fastforce
  obtain out1 r1 where l: "stream_loop env items initial_stream = (out1, r1)"
    "out = out1 \<or> (\<exists>c. out = out1 @ flush_events env c)"
    by (rule run_stream_loop [OF run])
  have "text_outside_thinking False out1"
    using stream_loop_thinking [OF l(1), of False] by simp
  then have "text_outside_thinking False out"
    using l(2) by (auto simp: text_outside_append flush_events_thinking [THEN conjunct1])
  moreover have "result_text s = events_text out" if r: "r = Inr s" for s
  proof -
    obtain out2 s2 where l2: "stream_loop env items initial_stream = (out2, Inr s2)"
      "out = out2 @ flush_events env (pending_chunk s2)" "s = s2\<lparr>pending_chunk := None\<rparr>"
      by (rule run_stream_Inr [OF run [unfolded r]])
    show ?thesis using stream_loop_text [OF l2(1)] l2(2,3) by (simp add: initial_stream_def)
  qed
  ultimately show ?thesis by (simp add: run events_text_def split: sum.split)
qed

end
