(* ===== verification/StrictSchema.thy ===== *)
theory StrictSchema
  imports PyValue
begin

text \<open>
  \<open>providers/models/openai.py\<close>, \<open>make_openai_json_schema_strict\<close>: the form in which a JSON schema is
  sent to OpenAI's strict mode. A schema is a JSON value and the recursion follows its nesting. The
  code copies every dictionary it changes, so the caller's schema stays as it was; the model is a
  function. Proved: the strict form is a fixed point of the translation, and in it every schema the
  translation reaches is closed, requires all its properties and has no \<open>oneOf\<close>.
\<close>

section \<open>Strict schemas\<close>

lemma mapE_cong [fundef_cong]:
  "xs = ys \<Longrightarrow> (\<And>x. x \<in> set ys \<Longrightarrow> f x = g x) \<Longrightarrow> mapE f xs = mapE g ys"
  by (induction xs arbitrary: ys) (auto simp: bindE_def split: sum.split)

definition on_values :: "(pyval \<Rightarrow> pyval result) \<Rightarrow> pydict \<Rightarrow> pydict result" where
  "on_values f d = mapE (\<lambda>kv. bindE (f (snd kv)) (\<lambda>w. Inr (fst kv, w))) d"

lemma on_values_cong [fundef_cong]:
  "d = d' \<Longrightarrow> (\<And>v. v \<in> snd ` set d' \<Longrightarrow> f v = g v) \<Longrightarrow> on_values f d = on_values g d'"
  unfolding on_values_def by (rule mapE_cong) auto

lemma size_dget: "dget d k = Some v \<Longrightarrow> size v < size (PDict d)"
  by (induction d) (auto split: if_splits)

lemma size_value: "(k, v) \<in> set d \<Longrightarrow> size v < Suc (size_list (size_prod (\<lambda>x. 0) size) d)"
  by (induction d) auto

lemma size_element: "v \<in> set vs \<Longrightarrow> size v < size (PList vs)"
  by (induction vs) auto

definition attribute_error :: "pyval \<Rightarrow> string \<Rightarrow> exn" where
  "attribute_error v attr =
     Exn CAttributeError (39 # type_name v @ 39 # S '' object has no attribute '' @ 39 # S attr @ [39])"

definition put_given :: "string \<Rightarrow> pyval option \<Rightarrow> pydict \<Rightarrow> pydict" where
  "put_given k v d = (case v of None \<Rightarrow> d | Some w \<Rightarrow> dset d (S k) w)"

text \<open>
  The translation of one dictionary, part by part: \<open>f\<close> translates what is nested in it. \<open>None\<close> says
  that a part is left as it is.
\<close>

definition strict_properties :: "(pyval \<Rightarrow> pyval result) \<Rightarrow> pydict \<Rightarrow> pydict option result" where
  "strict_properties f d =
     (if dget d (S ''type'') = Some (PStr (S ''object'')) then
        (case dget d (S ''properties'') of
           None \<Rightarrow> Inr None
         | Some (PDict ps) \<Rightarrow> bindE (on_values f ps) (\<lambda>ps'. Inr (Some ps'))
         | Some v \<Rightarrow> Inl (attribute_error v ''keys''))
      else Inr None)"

definition strict_child :: "(pyval \<Rightarrow> pyval result) \<Rightarrow> string \<Rightarrow> pydict \<Rightarrow> pyval option result" where
  "strict_child f k d =
     (case dget d (S k) of
        Some v \<Rightarrow> if is_dict v then bindE (f v) (\<lambda>w. Inr (Some w)) else Inr None
      | None \<Rightarrow> Inr None)"

definition strict_alternatives :: "(pyval \<Rightarrow> pyval result) \<Rightarrow> pydict \<Rightarrow> pyval list option result" where
  "strict_alternatives f d =
     (case dget d (S ''oneOf'') of
        Some (PList alts) \<Rightarrow>
          bindE (case dget d (S ''anyOf'') of
                   None \<Rightarrow> Inr []
                 | Some (PList vs) \<Rightarrow> mapE f vs
                 | Some v \<Rightarrow> py_iter v) (\<lambda>first.
          bindE (mapE f alts) (\<lambda>rest. Inr (Some (first @ rest))))
      | _ \<Rightarrow>
          (case dget d (S ''anyOf'') of
             Some (PList vs) \<Rightarrow> bindE (mapE f vs) (\<lambda>ws. Inr (Some ws))
           | _ \<Rightarrow> Inr None))"

definition strict_array :: "(pyval \<Rightarrow> pyval result) \<Rightarrow> string \<Rightarrow> pydict \<Rightarrow> pyval option result" where
  "strict_array f k d =
     (case dget d (S k) of
        Some (PList vs) \<Rightarrow> bindE (mapE f vs) (\<lambda>ws. Inr (Some (PList ws)))
      | _ \<Rightarrow> Inr None)"

definition strict_definitions :: "(pyval \<Rightarrow> pyval result) \<Rightarrow> string \<Rightarrow> pydict \<Rightarrow> pyval option result" where
  "strict_definitions f k d =
     (case dget d (S k) of
        Some (PDict ds) \<Rightarrow> bindE (on_values f ds) (\<lambda>es. Inr (Some (PDict es)))
      | _ \<Rightarrow> Inr None)"

text \<open>An object schema with its translated properties is closed and requires all of them.\<close>

definition close_object :: "pydict option \<Rightarrow> pydict \<Rightarrow> pydict" where
  "close_object props d =
     (case props of
        None \<Rightarrow> d
      | Some ps \<Rightarrow>
          dset (dset (dset d (S ''additionalProperties'') (PBool False))
            (S ''required'') (PList (map (PStr \<circ> fst) ps))) (S ''properties'') (PDict ps))"

text \<open>The alternatives of \<open>oneOf\<close> are moved to \<open>anyOf\<close>.\<close>

definition put_any_of :: "pyval list option \<Rightarrow> pydict \<Rightarrow> pydict" where
  "put_any_of alts d =
     (case alts of
        None \<Rightarrow> d
      | Some vs \<Rightarrow>
          dset (case dget d (S ''oneOf'') of Some (PList _) \<Rightarrow> ddel d (S ''oneOf'') | _ \<Rightarrow> d) (S ''anyOf'') (PList vs))"

lemma strict_parts_cong:
  assumes "\<And>w. size w < size (PDict d) \<Longrightarrow> f w = g w"
  shows "strict_properties f d = strict_properties g d" "strict_child f k d = strict_child g k d"
    "strict_alternatives f d = strict_alternatives g d" "strict_array f k d = strict_array g k d"
    "strict_definitions f k d = strict_definitions g k d"
proof -
  have v: "f v = g v" if "dget d k = Some v" for k v using assms size_dget [OF that] by simp
  have m: "mapE f vs = mapE g vs" if "dget d k = Some (PList vs)" for k vs
    by (rule mapE_cong) (use assms size_dget [OF that] size_element less_trans in \<open>blast+\<close>)
  have o: "on_values f ds = on_values g ds" if "dget d k = Some (PDict ds)" for k ds
  proof (rule on_values_cong)
    fix v assume "v \<in> snd ` set ds"
    then have "size v < size (PDict ds)" using size_value by auto
    then show "f v = g v" using assms size_dget [OF that] less_trans by blast
  qed simp
  show "strict_properties f d = strict_properties g d"
    by (auto simp: strict_properties_def o split: option.split pyval.split)
  show "strict_child f k d = strict_child g k d"
    by (auto simp: strict_child_def v split: option.split)
  show "strict_alternatives f d = strict_alternatives g d"
    by (auto simp: strict_alternatives_def m split: option.split pyval.split)
  show "strict_array f k d = strict_array g k d"
    by (auto simp: strict_array_def m split: option.split pyval.split)
  show "strict_definitions f k d = strict_definitions g k d"
    by (auto simp: strict_definitions_def o split: option.split pyval.split)
qed

lemma strict_parts_congs [fundef_cong]:
  "d = d' \<Longrightarrow> (\<And>w. size w < size (PDict d') \<Longrightarrow> f w = g w) \<Longrightarrow> strict_properties f d = strict_properties g d'"
  "d = d' \<Longrightarrow> k = k' \<Longrightarrow> (\<And>w. size w < size (PDict d') \<Longrightarrow> f w = g w) \<Longrightarrow> strict_child f k d = strict_child g k' d'"
  "d = d' \<Longrightarrow> (\<And>w. size w < size (PDict d') \<Longrightarrow> f w = g w) \<Longrightarrow> strict_alternatives f d = strict_alternatives g d'"
  "d = d' \<Longrightarrow> k = k' \<Longrightarrow> (\<And>w. size w < size (PDict d') \<Longrightarrow> f w = g w) \<Longrightarrow> strict_array f k d = strict_array g k' d'"
  "d = d' \<Longrightarrow> k = k' \<Longrightarrow> (\<And>w. size w < size (PDict d') \<Longrightarrow> f w = g w) \<Longrightarrow>
    strict_definitions f k d = strict_definitions g k' d'"
  using strict_parts_cong by blast+

text \<open>\<open>make_openai_json_schema_strict\<close>.\<close>

function make_strict :: "pyval \<Rightarrow> pyval result" where
  "make_strict (PDict d) =
     bindE (strict_properties make_strict d) (\<lambda>props.
     bindE (strict_child make_strict ''items'' d) (\<lambda>items.
     bindE (strict_alternatives make_strict d) (\<lambda>any_of.
     bindE (strict_array make_strict ''allOf'' d) (\<lambda>all_of.
     bindE (strict_child make_strict ''not'' d) (\<lambda>negated.
     bindE (strict_definitions make_strict ''$defs'' d) (\<lambda>defs.
     bindE (strict_definitions make_strict ''definitions'' d) (\<lambda>definitions.
       Inr (PDict (put_given ''definitions'' definitions (put_given ''$defs'' defs
         (put_given ''not'' negated (put_given ''allOf'' all_of
           (put_any_of any_of (put_given ''items'' items (close_object props d)))))))))))))))"
| "make_strict PNone = Inr PNone"
| "make_strict (PBool b) = Inr (PBool b)"
| "make_strict (PInt i) = Inr (PInt i)"
| "make_strict (PFloat r) = Inr (PFloat r)"
| "make_strict (PStr s) = Inr (PStr s)"
| "make_strict (PList vs) = Inr (PList vs)"
  by pat_completeness auto
termination
  by (relation "measure size") auto

lemma make_strict_other [simp]: "\<not> is_dict v \<Longrightarrow> make_strict v = Inr v"
  by (cases v) simp_all

declare make_strict.simps(1) [simp del]

lemma dset_same: "dget d k = Some v \<Longrightarrow> dset d k v = d"
  by (induction d) (auto split: if_splits)

lemma on_values_keys: "on_values f d = Inr d' \<Longrightarrow> map fst d' = map fst d"
  unfolding on_values_def
proof (induction d arbitrary: d')
  case (Cons kv d)
  obtain w ds where "mapE (\<lambda>kv. bindE (f (snd kv)) (\<lambda>w. Inr (fst kv, w))) d = Inr ds" "d' = (fst kv, w) # ds"
    using Cons.prems by (auto simp: result_simps)
  then show ?case using Cons.IH by simp
qed simp

text \<open>Translating what was translated changes nothing, when that holds of the nested values.\<close>

definition fixes_below :: "pydict \<Rightarrow> bool" where
  "fixes_below d \<longleftrightarrow> (\<forall>v w. size v < size (PDict d) \<and> make_strict v = Inr w \<longrightarrow> make_strict w = Inr w)"

lemma fixes_belowD: "fixes_below d \<Longrightarrow> size v < size (PDict d) \<Longrightarrow> make_strict v = Inr w \<Longrightarrow> make_strict w = Inr w"
  by (simp add: fixes_below_def)

lemma mapE_fixed:
  "mapE f xs = Inr ys \<Longrightarrow> (\<forall>x \<in> set xs. \<forall>y. f x = Inr y \<longrightarrow> f y = Inr y) \<Longrightarrow> mapE f ys = Inr ys"
  unfolding mapE_ok_all2 list_all2_conv_all_nth by (metis nth_mem)

lemma on_values_fixed:
  assumes "on_values f d = Inr d'" "\<forall>(k, v) \<in> set d. \<forall>w. f v = Inr w \<longrightarrow> f w = Inr w"
  shows "on_values f d' = Inr d'"
  unfolding on_values_def
  by (rule mapE_fixed [OF assms(1) [unfolded on_values_def]])
    (use assms(2) in \<open>fastforce simp: result_simps\<close>)

lemma below_list:
  assumes "fixes_below d" "dget d k = Some (PList vs)" "mapE make_strict vs = Inr ws"
  shows "mapE make_strict ws = Inr ws"
proof (rule mapE_fixed [OF assms(3)], intro ballI allI impI)
  fix x y assume "x \<in> set vs" "make_strict x = Inr y"
  then show "make_strict y = Inr y"
    using fixes_belowD [OF assms(1)] size_dget [OF assms(2)] size_element less_trans by blast
qed

lemma below_dict:
  assumes "fixes_below d" "dget d k = Some (PDict ds)" "on_values make_strict ds = Inr es"
  shows "on_values make_strict es = Inr es"
proof (rule on_values_fixed [OF assms(3)], clarify)
  fix n v w assume "(n, v) \<in> set ds" "make_strict v = Inr w"
  moreover from this have "size v < size (PDict ds)" using size_value by auto
  ultimately show "make_strict w = Inr w"
    using fixes_belowD [OF assms(1)] size_dget [OF assms(2)] less_trans by blast
qed

lemma py_iter_no_dicts: "py_iter v = Inr vs \<Longrightarrow> \<not> is_list v \<Longrightarrow> \<forall>w \<in> set vs. \<not> is_dict w"
  by (cases v) auto

lemma mapE_same: "\<forall>x \<in> set xs. f x = Inr x \<Longrightarrow> mapE f xs = Inr xs"
  by (induction xs) auto

lemma mapE_append_same: "mapE f xs = Inr xs \<Longrightarrow> mapE f ys = Inr ys \<Longrightarrow> mapE f (xs @ ys) = Inr (xs @ ys)"
  by (simp add: mapE_ok_all2 list_all2_appendI)

lemma alternatives_fixed:
  assumes "fixes_below d" "strict_alternatives make_strict d = Inr (Some vs)"
  shows "mapE make_strict vs = Inr vs"
proof (cases "\<exists>alts. dget d (S ''oneOf'') = Some (PList alts)")
  case True
  then obtain alts where alts: "dget d (S ''oneOf'') = Some (PList alts)" by blast
  obtain front rest where fr: "(case dget d (S ''anyOf'') of None \<Rightarrow> Inr [] | Some (PList vs) \<Rightarrow> mapE make_strict vs
      | Some v \<Rightarrow> py_iter v) = Inr front" "mapE make_strict alts = Inr rest" "vs = front @ rest"
    using assms(2) alts by (auto simp: strict_alternatives_def result_simps)
  have "mapE make_strict front = Inr front"
  proof (cases "dget d (S ''anyOf'')")
    case None
    then show ?thesis using fr(1) by simp
  next
    case (Some v)
    show ?thesis
    proof (cases "is_list v")
      case True
      then show ?thesis using Some fr(1) below_list [OF assms(1)] by (cases v) auto
    next
      case False
      then have "py_iter v = Inr front" using Some fr(1) by (cases v) auto
      then show ?thesis using py_iter_no_dicts [OF _ False] by (intro mapE_same) simp
    qed
  qed
  moreover have "mapE make_strict rest = Inr rest" by (rule below_list [OF assms(1) alts fr(2)])
  ultimately show ?thesis using fr(3) mapE_append_same by blast
next
  case False
  then have "(case dget d (S ''anyOf'') of Some (PList vs) \<Rightarrow> bindE (mapE make_strict vs) (\<lambda>ws. Inr (Some ws))
      | _ \<Rightarrow> Inr None) = Inr (Some vs)"
    using assms(2) by (auto simp: strict_alternatives_def split: option.split_asm pyval.split_asm)
  then show ?thesis using below_list [OF assms(1)]
    by (auto simp: result_simps split: option.split_asm pyval.split_asm)
qed

text \<open>What the translated dictionary holds under a key.\<close>

lemma put_given_get [simp]:
  "dget (put_given k v d) (S k') = (if k' = k then (case v of None \<Rightarrow> dget d (S k') | Some w \<Rightarrow> Some w) else dget d (S k'))"
  by (simp add: put_given_def split: option.split)

lemma close_object_get [simp]:
  "k' \<notin> {''additionalProperties'', ''required'', ''properties''} \<Longrightarrow> dget (close_object props d) (S k') = dget d (S k')"
  "dget (close_object props d) (S ''properties'') = (case props of None \<Rightarrow> dget d (S ''properties'') | Some ps \<Rightarrow> Some (PDict ps))"
  "dget (close_object (Some ps) d) (S ''additionalProperties'') = Some (PBool False)"
  "dget (close_object (Some ps) d) (S ''required'') = Some (PList (map (PStr \<circ> fst) ps))"
  by (simp_all add: close_object_def split: option.split)

lemma put_any_of_get [simp]:
  "k' \<notin> {''oneOf'', ''anyOf''} \<Longrightarrow> dget (put_any_of alts d) (S k') = dget d (S k')"
  "dget (put_any_of alts d) (S ''anyOf'') = (case alts of None \<Rightarrow> dget d (S ''anyOf'') | Some vs \<Rightarrow> Some (PList vs))"
  "dget (put_any_of (Some vs) d) (S ''oneOf'') = (case dget d (S ''oneOf'') of Some (PList _) \<Rightarrow> None | v \<Rightarrow> v)"
  by (auto simp: put_any_of_def split: option.split pyval.split)

lemma put_given_same: "dget d (S k) = Some w \<Longrightarrow> put_given k (Some w) d = d"
  by (simp add: put_given_def dset_same)

lemma put_given_None [simp]: "put_given k None d = d"
  by (simp add: put_given_def)

lemma child_fixed:
  assumes "fixes_below d" "strict_child make_strict k d = Inr v"
    and "dget d' (S k) = (case v of None \<Rightarrow> dget d (S k) | Some w \<Rightarrow> Some w)"
  shows "\<exists>v'. strict_child make_strict k d' = Inr v' \<and> put_given k v' d' = d'"
proof (cases v)
  case None
  then have "strict_child make_strict k d' = Inr None"
    using assms(2,3) by (auto simp: strict_child_def result_simps split: option.split_asm if_split_asm)
  then show ?thesis by simp
next
  case (Some w)
  then obtain it where it: "dget d (S k) = Some it" "make_strict it = Inr w"
    using assms(2) by (auto simp: strict_child_def result_simps split: option.split_asm if_split_asm)
  have "make_strict w = Inr w" by (rule fixes_belowD [OF assms(1) size_dget [OF it(1)] it(2)])
  then show ?thesis using assms(3) Some by (cases "is_dict w") (simp_all add: strict_child_def put_given_same)
qed

lemma array_fixed:
  assumes "fixes_below d" "strict_array make_strict k d = Inr v"
    and "dget d' (S k) = (case v of None \<Rightarrow> dget d (S k) | Some w \<Rightarrow> Some w)"
  shows "\<exists>v'. strict_array make_strict k d' = Inr v' \<and> put_given k v' d' = d'"
proof (cases v)
  case None
  then have "strict_array make_strict k d' = Inr None"
    using assms(2,3) by (auto simp: strict_array_def result_simps split: option.split_asm pyval.split_asm)
  then show ?thesis by simp
next
  case (Some w)
  then obtain vs ws where vs: "dget d (S k) = Some (PList vs)" "mapE make_strict vs = Inr ws" "w = PList ws"
    using assms(2) by (auto simp: strict_array_def result_simps split: option.split_asm pyval.split_asm)
  then show ?thesis using assms(3) Some below_list [OF assms(1) vs(1,2)]
    by (simp add: strict_array_def put_given_same)
qed

lemma definitions_fixed:
  assumes "fixes_below d" "strict_definitions make_strict k d = Inr v"
    and "dget d' (S k) = (case v of None \<Rightarrow> dget d (S k) | Some w \<Rightarrow> Some w)"
  shows "\<exists>v'. strict_definitions make_strict k d' = Inr v' \<and> put_given k v' d' = d'"
proof (cases v)
  case None
  then have "strict_definitions make_strict k d' = Inr None"
    using assms(2,3) by (auto simp: strict_definitions_def result_simps split: option.split_asm pyval.split_asm)
  then show ?thesis by simp
next
  case (Some w)
  then obtain ds es where ds: "dget d (S k) = Some (PDict ds)" "on_values make_strict ds = Inr es" "w = PDict es"
    using assms(2) by (auto simp: strict_definitions_def result_simps split: option.split_asm pyval.split_asm)
  then show ?thesis using assms(3) Some below_dict [OF assms(1) ds(1,2)]
    by (simp add: strict_definitions_def put_given_same)
qed

lemma properties_fixed:
  assumes "fixes_below d" "strict_properties make_strict d = Inr v"
    and "\<forall>k \<in> {''type'', ''properties'', ''additionalProperties'', ''required''}. dget d' (S k) = dget (close_object v d) (S k)"
  shows "\<exists>v'. strict_properties make_strict d' = Inr v' \<and> close_object v' d' = d'"
proof (cases v)
  case None
  then have "strict_properties make_strict d' = Inr None"
    using assms(2,3) by (auto simp: strict_properties_def result_simps close_object_def
        split: option.split_asm pyval.split_asm if_split_asm)
  then show ?thesis by (simp add: close_object_def)
next
  case (Some ps')
  then obtain ps where ps: "dget d (S ''type'') = Some (PStr (S ''object''))" "dget d (S ''properties'') = Some (PDict ps)"
      "on_values make_strict ps = Inr ps'"
    using assms(2) by (auto simp: strict_properties_def result_simps split: option.split_asm pyval.split_asm if_split_asm)
  have "strict_properties make_strict d' = Inr (Some ps')"
    using assms(3) Some ps(1) below_dict [OF assms(1) ps(2,3)] by (simp add: strict_properties_def)
  moreover have "close_object (Some ps') d' = d'"
    using assms(3) Some by (simp add: close_object_def dset_same)
  ultimately show ?thesis by blast
qed

lemma alternatives_left:
  assumes "fixes_below d" "strict_alternatives make_strict d = Inr v"
    and "\<forall>k \<in> {''oneOf'', ''anyOf''}. dget d' (S k) = dget (put_any_of v d) (S k)"
  shows "(\<forall>alts. dget d' (S ''oneOf'') \<noteq> Some (PList alts)) \<and>
    (\<exists>v'. strict_alternatives make_strict d' = Inr v' \<and> put_any_of v' d' = d')"
proof (cases v)
  case None
  then have n: "dget d (S ''oneOf'') \<noteq> Some (PList alts)" "dget d (S ''anyOf'') \<noteq> Some (PList alts)" for alts
    using assms(2) by (auto simp: strict_alternatives_def result_simps split: option.split_asm pyval.split_asm)
  then have "strict_alternatives make_strict d' = Inr None"
    using assms(3) None by (auto simp: strict_alternatives_def put_any_of_def split: option.split pyval.split)
  then show ?thesis using n assms(3) None by (simp add: put_any_of_def)
next
  case (Some vs)
  have m: "mapE make_strict vs = Inr vs" using alternatives_fixed [OF assms(1)] assms(2) Some by simp
  have g: "dget d' (S ''anyOf'') = Some (PList vs)" "dget d' (S ''oneOf'') \<noteq> Some (PList alts)" for alts
    using assms(3) Some by (auto split: option.splits pyval.splits)
  then have "strict_alternatives make_strict d' = Inr (Some vs)" "put_any_of (Some vs) d' = d'"
    using m by (auto simp: strict_alternatives_def put_any_of_def dset_same split: option.split pyval.split)
  then show ?thesis using g by blast
qed

lemma make_strict_parts:
  assumes "make_strict (PDict d) = Inr v"
  obtains props items any_of all_of negated defs definitions where
    "strict_properties make_strict d = Inr props" "strict_child make_strict ''items'' d = Inr items"
    "strict_alternatives make_strict d = Inr any_of" "strict_array make_strict ''allOf'' d = Inr all_of"
    "strict_child make_strict ''not'' d = Inr negated" "strict_definitions make_strict ''$defs'' d = Inr defs"
    "strict_definitions make_strict ''definitions'' d = Inr definitions"
    "v = PDict (put_given ''definitions'' definitions (put_given ''$defs'' defs
         (put_given ''not'' negated (put_given ''allOf'' all_of
           (put_any_of any_of (put_given ''items'' items (close_object props d)))))))"
  using assms unfolding make_strict.simps(1) bindE_eq_Inr sum.inject(2) by blast

lemma make_strict_idem: "make_strict v = Inr w \<Longrightarrow> make_strict w = Inr w"
proof (induction v arbitrary: w rule: measure_induct_rule [of size])
  case (less v)
  show ?case
  proof (cases "is_dict v")
    case False
    then show ?thesis using less.prems by simp
  next
    case True
    then obtain d where v: "v = PDict d" by (cases v) auto
    have below: "fixes_below d" using less.IH unfolding fixes_below_def v by blast
    obtain props items any_of all_of negated defs definitions where p:
        "strict_properties make_strict d = Inr props" "strict_child make_strict ''items'' d = Inr items"
        "strict_alternatives make_strict d = Inr any_of" "strict_array make_strict ''allOf'' d = Inr all_of"
        "strict_child make_strict ''not'' d = Inr negated" "strict_definitions make_strict ''$defs'' d = Inr defs"
        "strict_definitions make_strict ''definitions'' d = Inr definitions"
      and w: "w = PDict (put_given ''definitions'' definitions (put_given ''$defs'' defs
         (put_given ''not'' negated (put_given ''allOf'' all_of
           (put_any_of any_of (put_given ''items'' items (close_object props d)))))))"
      by (rule make_strict_parts [OF less.prems [unfolded v]])
    define d' where "d' = put_given ''definitions'' definitions (put_given ''$defs'' defs
         (put_given ''not'' negated (put_given ''allOf'' all_of
           (put_any_of any_of (put_given ''items'' items (close_object props d))))))"
    have "\<exists>v'. strict_properties make_strict d' = Inr v' \<and> close_object v' d' = d'"
      by (rule properties_fixed [OF below p(1)]) (simp add: d'_def split: option.split)
    moreover have "\<exists>v'. strict_child make_strict ''items'' d' = Inr v' \<and> put_given ''items'' v' d' = d'"
      by (rule child_fixed [OF below p(2)]) (simp add: d'_def split: option.split)
    moreover have "\<exists>v'. strict_alternatives make_strict d' = Inr v' \<and> put_any_of v' d' = d'"
      by (rule alternatives_left [OF below p(3), THEN conjunct2])
        (cases any_of; simp add: d'_def put_any_of_def split: option.split pyval.split)
    moreover have "\<exists>v'. strict_array make_strict ''allOf'' d' = Inr v' \<and> put_given ''allOf'' v' d' = d'"
      by (rule array_fixed [OF below p(4)]) (simp add: d'_def split: option.split)
    moreover have "\<exists>v'. strict_child make_strict ''not'' d' = Inr v' \<and> put_given ''not'' v' d' = d'"
      by (rule child_fixed [OF below p(5)]) (simp add: d'_def split: option.split)
    moreover have "\<exists>v'. strict_definitions make_strict ''$defs'' d' = Inr v' \<and> put_given ''$defs'' v' d' = d'"
      by (rule definitions_fixed [OF below p(6)]) (simp add: d'_def split: option.split)
    moreover have "\<exists>v'. strict_definitions make_strict ''definitions'' d' = Inr v' \<and> put_given ''definitions'' v' d' = d'"
      by (rule definitions_fixed [OF below p(7)]) (simp add: d'_def split: option.split)
    ultimately have "make_strict (PDict d') = Inr (PDict d')" by (auto simp: make_strict.simps(1))
    then show ?thesis unfolding w d'_def .
  qed
qed

text \<open>The schemas the translation reaches.\<close>

inductive subschema :: "pyval \<Rightarrow> pyval \<Rightarrow> bool" where
  self: "subschema v v"
| property: "dget d (S ''type'') = Some (PStr (S ''object'')) \<Longrightarrow> dget d (S ''properties'') = Some (PDict ps) \<Longrightarrow>
    (k, p) \<in> set ps \<Longrightarrow> subschema p v \<Longrightarrow> subschema (PDict d) v"
| child: "k \<in> {''items'', ''not''} \<Longrightarrow> dget d (S k) = Some c \<Longrightarrow> subschema c v \<Longrightarrow> subschema (PDict d) v"
| element: "k \<in> {''anyOf'', ''allOf''} \<Longrightarrow> dget d (S k) = Some (PList cs) \<Longrightarrow> c \<in> set cs \<Longrightarrow>
    subschema c v \<Longrightarrow> subschema (PDict d) v"
| shared: "k \<in> {''$defs'', ''definitions''} \<Longrightarrow> dget d (S k) = Some (PDict ds) \<Longrightarrow> (n, c) \<in> set ds \<Longrightarrow>
    subschema c v \<Longrightarrow> subschema (PDict d) v"

lemma mapE_same_elements: "mapE f xs = Inr xs \<Longrightarrow> x \<in> set xs \<Longrightarrow> f x = Inr x"
  by (auto simp: mapE_ok_all2 list_all2_same)

lemma on_values_same: "on_values f d = Inr d \<Longrightarrow> (k, v) \<in> set d \<Longrightarrow> f v = Inr v"
  unfolding on_values_def by (drule (1) mapE_same_elements) (simp add: result_simps)

text \<open>A fixed point is closed, has no \<open>oneOf\<close>, and consists of fixed points.\<close>

lemma fixed_schema:
  assumes "make_strict (PDict d) = Inr (PDict d)"
  shows "dget d (S ''type'') = Some (PStr (S ''object'')) \<Longrightarrow> dget d (S ''properties'') = Some v \<Longrightarrow>
      \<exists>ps. v = PDict ps \<and> on_values make_strict ps = Inr ps
        \<and> dget d (S ''additionalProperties'') = Some (PBool False)
        \<and> dget d (S ''required'') = Some (PList (map (PStr \<circ> fst) ps))"
    and "dget d (S ''oneOf'') \<noteq> Some (PList alts)"
    and "k \<in> {''items'', ''not''} \<Longrightarrow> dget d (S k) = Some c \<Longrightarrow> make_strict c = Inr c"
    and "k \<in> {''anyOf'', ''allOf''} \<Longrightarrow> dget d (S k) = Some (PList cs) \<Longrightarrow> mapE make_strict cs = Inr cs"
    and "k \<in> {''$defs'', ''definitions''} \<Longrightarrow> dget d (S k) = Some (PDict ds) \<Longrightarrow> on_values make_strict ds = Inr ds"
proof -
  obtain props items any_of all_of negated defs definitions where p:
      "strict_properties make_strict d = Inr props" "strict_child make_strict ''items'' d = Inr items"
      "strict_alternatives make_strict d = Inr any_of" "strict_array make_strict ''allOf'' d = Inr all_of"
      "strict_child make_strict ''not'' d = Inr negated" "strict_definitions make_strict ''$defs'' d = Inr defs"
      "strict_definitions make_strict ''definitions'' d = Inr definitions"
    and w: "PDict d = PDict (put_given ''definitions'' definitions (put_given ''$defs'' defs
       (put_given ''not'' negated (put_given ''allOf'' all_of
         (put_any_of any_of (put_given ''items'' items (close_object props d)))))))"
    by (rule make_strict_parts [OF assms])
  have g: "dget d (S k) = dget (put_given ''definitions'' definitions (put_given ''$defs'' defs
       (put_given ''not'' negated (put_given ''allOf'' all_of
         (put_any_of any_of (put_given ''items'' items (close_object props d))))))) (S k)" for k
    by (rule arg_cong [where f = "\<lambda>x. dget x (S k)"]) (use w in simp)
  show "\<exists>ps. v = PDict ps \<and> on_values make_strict ps = Inr ps
      \<and> dget d (S ''additionalProperties'') = Some (PBool False)
      \<and> dget d (S ''required'') = Some (PList (map (PStr \<circ> fst) ps))"
    if o: "dget d (S ''type'') = Some (PStr (S ''object''))" "dget d (S ''properties'') = Some v"
  proof -
    obtain ps ps' where ps: "v = PDict ps" "on_values make_strict ps = Inr ps'" "props = Some ps'"
      using p(1) o by (auto simp: strict_properties_def result_simps split: pyval.split_asm)
    moreover have "ps' = ps" using g [of "''properties''"] o ps by simp
    moreover have "dget d (S ''additionalProperties'') = Some (PBool False)"
      using g [of "''additionalProperties''"] ps by simp
    moreover have "dget d (S ''required'') = Some (PList (map (PStr \<circ> fst) ps'))"
      using g [of "''required''"] ps by simp
    ultimately show ?thesis by blast
  qed
  have one: "dget d (S ''oneOf'') \<noteq> Some (PList alts)" for alts
  proof
    assume o: "dget d (S ''oneOf'') = Some (PList alts)"
    then obtain vs where "any_of = Some vs" using p(3) by (auto simp: strict_alternatives_def result_simps)
    then show False using g [of "''oneOf''"] o by simp
  qed
  then show "dget d (S ''oneOf'') \<noteq> Some (PList alts)" .
  show "make_strict c = Inr c" if k: "k \<in> {''items'', ''not''}" "dget d (S k) = Some c"
  proof (cases "is_dict c")
    case True
    then obtain w where "make_strict c = Inr w" "strict_child make_strict k d = Inr (Some w)"
      using p(2,5) k by (auto simp: strict_child_def result_simps)
    moreover from this have "w = c" using g [of k] k p(2,5) by auto
    ultimately show ?thesis by simp
  qed simp
  show "mapE make_strict cs = Inr cs" if k: "k \<in> {''anyOf'', ''allOf''}" "dget d (S k) = Some (PList cs)"
  proof (cases "k = ''anyOf''")
    case True
    then have o: "dget d (S ''anyOf'') = Some (PList cs)" using k(2) by simp
    then obtain vs where vs: "any_of = Some vs"
      using p(3) by (auto simp: strict_alternatives_def result_simps split: option.split_asm pyval.split_asm)
    then have "vs = cs" using g [of "''anyOf''"] o by simp
    then show ?thesis using vs p(3) o one
      by (auto simp: strict_alternatives_def result_simps split: option.split_asm pyval.split_asm)
  next
    case False
    then have o: "dget d (S ''allOf'') = Some (PList cs)" using k by simp
    then show ?thesis using p(4) g [of "''allOf''"] by (auto simp: strict_array_def result_simps)
  qed
  show "on_values make_strict ds = Inr ds" if k: "k \<in> {''$defs'', ''definitions''}" "dget d (S k) = Some (PDict ds)"
  proof -
    obtain es where "on_values make_strict ds = Inr es" "strict_definitions make_strict k d = Inr (Some (PDict es))"
      using p(6,7) k by (auto simp: strict_definitions_def result_simps)
    moreover from this have "es = ds" using g [of k] k p(6,7) by auto
    ultimately show ?thesis by simp
  qed
qed

lemma subschema_fixed: "subschema v u \<Longrightarrow> make_strict v = Inr v \<Longrightarrow> make_strict u = Inr u"
proof (induction rule: subschema.induct)
  case (property d ps k p v)
  obtain ps' where "PDict ps = PDict ps'" "on_values make_strict ps' = Inr ps'"
    using fixed_schema(1) [OF property.prems property.hyps(1,2)] by blast
  then show ?case using property.IH on_values_same [of make_strict ps k p] property.hyps(3) by simp
next
  case (child k d c v)
  show ?case by (rule child.IH) (rule fixed_schema(3) [OF child.prems child.hyps(1,2)])
next
  case (element k d cs c v)
  show ?case
    by (rule element.IH)
      (rule mapE_same_elements [OF fixed_schema(4) [OF element.prems element.hyps(1,2)] element.hyps(3)])
next
  case (shared k d ds n c v)
  show ?case
    by (rule shared.IH)
      (rule on_values_same [OF fixed_schema(5) [OF shared.prems shared.hyps(1,2)] shared.hyps(3)])
qed


section \<open>Property\<close>

text \<open>
  C20. Strict schemas are strict. When a schema is translated, translating the result again changes
  nothing; and in every subschema of the result an object with properties forbids others and requires
  each of its own, in their order, and no list of \<open>oneOf\<close> alternatives is left.
\<close>

theorem strict_schemas_are_strict:
  assumes "make_strict v = Inr w"
  shows "make_strict w = Inr w \<and>
    (\<forall>d ps alts. subschema w (PDict d) \<longrightarrow>
      dget d (S ''oneOf'') \<noteq> Some (PList alts) \<and>
      (dget d (S ''type'') = Some (PStr (S ''object'')) \<and> dget d (S ''properties'') = Some (PDict ps) \<longrightarrow>
        dget d (S ''additionalProperties'') = Some (PBool False) \<and>
        dget d (S ''required'') = Some (PList (map (PStr \<circ> fst) ps))))"
proof (intro conjI allI impI; (elim conjE)?)
  show w: "make_strict w = Inr w" by (rule make_strict_idem [OF assms])
  fix d ps alts assume "subschema w (PDict d)"
  from subschema_fixed [OF this w] have f: "make_strict (PDict d) = Inr (PDict d)" .
  show "dget d (S ''oneOf'') \<noteq> Some (PList alts)" by (rule fixed_schema(2) [OF f])
  assume "dget d (S ''type'') = Some (PStr (S ''object''))" "dget d (S ''properties'') = Some (PDict ps)"
  from fixed_schema(1) [OF f this]
  show "dget d (S ''additionalProperties'') = Some (PBool False)"
    "dget d (S ''required'') = Some (PList (map (PStr \<circ> fst) ps))" by auto
qed

definition sample_schema :: pyval where
  "sample_schema = PDict [(S ''type'', PStr (S ''object'')), (S ''properties'', PDict [(S ''a'', PDict
     [(S ''oneOf'', PList [PDict [(S ''type'', PStr (S ''string''))]])])])]"

definition strict_sample :: pyval where
  "strict_sample = PDict [(S ''type'', PStr (S ''object'')), (S ''properties'', PDict [(S ''a'', PDict
     [(S ''anyOf'', PList [PDict [(S ''type'', PStr (S ''string''))]])])]),
     (S ''additionalProperties'', PBool False), (S ''required'', PList [PStr (S ''a'')])]"

lemma strict_schemas_are_strict_witness:
  "make_strict sample_schema = Inr strict_sample \<and> make_strict strict_sample = Inr strict_sample"
proof -
  have "make_strict sample_schema = Inr strict_sample"
    by (simp add: sample_schema_def strict_sample_def make_strict.simps(1) strict_properties_def strict_child_def
        strict_alternatives_def strict_array_def strict_definitions_def on_values_def close_object_def put_any_of_def
        put_given_def)
  then show ?thesis using strict_schemas_are_strict by blast
qed

end
