(* ===== verification/OutputSchema.thy ===== *)
theory OutputSchema
  imports StrictSchema Router Classifier
begin

text \<open>
  The rest of the output schemas. \<open>providers/models/openai.py\<close> and \<open>anthropic.py\<close>: the wrapping of a
  schema for a route, how a shaped reply is parsed, the reasoning options of the two OpenAI
  interfaces, Azure's input filter. \<open>providers/deepagents.py\<close>: the Pydantic model of a schema, whose
  construction by Pydantic is a parameter. Proved: no reasoning option is dropped or repeated; an
  Azure filter block is always an unsafe decision; a Pydantic model has exactly the schema's properties.
\<close>

section \<open>Schemas of the routes\<close>

definition wrapped_schema :: "pyval \<Rightarrow> bool \<Rightarrow> pyval" where
  "wrapped_schema schema strict =
     PDict [(S ''name'', PStr (S ''structured_output'')), (S ''schema'', schema), (S ''strict'', PBool strict)]"

definition native_openai_structured_output_schema :: "pyval \<Rightarrow> pyval result" where
  "native_openai_structured_output_schema schema =
     bindE (make_strict schema) (\<lambda>s. Inr (wrapped_schema s True))"

definition openai_compatible_structured_output_schema :: "pyval \<Rightarrow> pyval" where
  "openai_compatible_structured_output_schema schema = wrapped_schema schema False"

definition require_azure_structured_output :: "pystr option \<Rightarrow> unit result" where
  "require_azure_structured_output version =
     (if azure_api_version_supports_structured_outputs version then Inr ()
      else Inl (ValueError (S ''Azure OpenAI structured output requires API version 2024-08-01 or later'')))"

definition azure_structured_output_schema :: "pyval \<Rightarrow> pystr option \<Rightarrow> pyval result" where
  "azure_structured_output_schema schema version =
     bindE (require_azure_structured_output version) (\<lambda>_.
       if azure_api_version_supports_responses version then native_openai_structured_output_schema schema
       else Inr (openai_compatible_structured_output_schema schema))"

text \<open>The translations a route may carry; \<open>to_tool\<close> is LangChain's \<open>convert_to_anthropic_tool\<close>.\<close>

fun apply_translation :: "(pyval \<Rightarrow> pyval result) \<Rightarrow> schema_translation \<Rightarrow> pyval \<Rightarrow> pyval result" where
  "apply_translation to_tool (AzureStructuredOutputSchema (Some (AzureProviderParameters v))) schema =
     azure_structured_output_schema schema (Some v)"
| "apply_translation to_tool (AzureStructuredOutputSchema _) schema =
     Inl (Exn CAttributeError (S ''api_version''))"
| "apply_translation to_tool NativeOpenaiStructuredOutputSchema schema = native_openai_structured_output_schema schema"
| "apply_translation to_tool OpenaiCompatibleStructuredOutputSchema schema =
     Inr (openai_compatible_structured_output_schema schema)"
| "apply_translation to_tool AnthropicToolSchema schema = to_tool schema"


section \<open>Shaped replies\<close>

text \<open>The two runnables: an exception of the parser becomes the \<open>parsing_error\<close> of a reply without value.\<close>

definition with_fallback :: "pyval result \<Rightarrow> pyval \<times> exn option" where
  "with_fallback r = (case r of Inr v \<Rightarrow> (v, None) | Inl e \<Rightarrow> (PNone, Some e))"

definition parse_openai_reply :: "pystr \<Rightarrow> pyval \<times> exn option" where
  "parse_openai_reply reply_text = with_fallback (json_loads reply_text)"

text \<open>
  The names and the arguments of the reply's tool calls, and its content. LangChain's parser returns
  the arguments of the first call.
\<close>

definition parse_anthropic_reply :: "pyval \<Rightarrow> (pyval \<times> pyval) list \<Rightarrow> pyval \<Rightarrow> pyval \<times> exn option" where
  "parse_anthropic_reply tool_name calls content =
     with_fallback (case calls of
         (name, args) # _ \<Rightarrow>
           if name \<noteq> tool_name then Inl (ValueError (S ''shaping response called an unexpected tool''))
           else Inr args
       | [] \<Rightarrow>
           (case content of
              PStr t \<Rightarrow> json_loads t
            | _ \<Rightarrow> Inl (ValueError (S ''shaping response is not a tool call or JSON text''))))"

text \<open>
  What a model is bound to in the shape pass: the SDK's own structured output, a response format, or a
  shaping tool (with its name) whose call is not forced. \<open>version\<close> is the API version of the model.
\<close>

datatype bound_output =
    SdkStructured output_method (bound_schema: pyval)
  | ResponseFormat (bound_schema: pyval)
  | ShapingTool (bound_schema: pyval) pyval

definition bind_openai_compatible_output :: "pyval \<Rightarrow> bound_output" where
  "bind_openai_compatible_output schema = ResponseFormat schema"

definition bind_azure_output :: "pystr option \<Rightarrow> pyval \<Rightarrow> bound_output result" where
  "bind_azure_output version schema =
     bindE (require_azure_structured_output version) (\<lambda>_. Inr (bind_openai_compatible_output schema))"

definition shaping_tool :: "(pyval \<Rightarrow> pyval result) \<Rightarrow> pyval \<Rightarrow> pyval result" where
  "shaping_tool to_tool schema =
     (case schema of
        PDict d \<Rightarrow> if has_key d (S ''input_schema'') then Inr schema else to_tool schema
      | _ \<Rightarrow> to_tool schema)"

definition bind_anthropic_output :: "(pyval \<Rightarrow> pyval result) \<Rightarrow> pyval \<Rightarrow> bound_output result" where
  "bind_anthropic_output to_tool schema =
     bindE (shaping_tool to_tool schema) (\<lambda>tool.
       case tool of
         PDict d \<Rightarrow> (case dget d (S ''name'') of
             None \<Rightarrow> Inl (Exn CKeyError (S ''name'')) | Some name \<Rightarrow> Inr (ShapingTool tool name))
       | _ \<Rightarrow> Inl (TypeError (type_name tool)))"

definition bind_output :: "(pyval \<Rightarrow> pyval result) \<Rightarrow> pystr option \<Rightarrow> model_route \<Rightarrow> pyval \<Rightarrow> bound_output result" where
  "bind_output to_tool version r schema =
     (case bind_structured_output r of
        None \<Rightarrow> Inr (SdkStructured (structured_output_method r) schema)
      | Some BindAzureOutput \<Rightarrow> bind_azure_output version schema
      | Some BindOpenaiCompatibleOutput \<Rightarrow> Inr (bind_openai_compatible_output schema)
      | Some BindAnthropicOutput \<Rightarrow> bind_anthropic_output to_tool schema)"

text \<open>The parser of a binding; the SDK's is \<open>None\<close>.\<close>

definition parse_shaped :: "bound_output \<Rightarrow> pystr \<Rightarrow> (pyval \<times> pyval) list \<Rightarrow> pyval \<Rightarrow> (pyval \<times> exn option) option" where
  "parse_shaped bound reply_text calls content =
     (case bound of
        SdkStructured _ _ \<Rightarrow> None
      | ResponseFormat _ \<Rightarrow> Some (parse_openai_reply reply_text)
      | ShapingTool _ name \<Rightarrow> Some (parse_anthropic_reply name calls content))"



section \<open>Reasoning options\<close>

definition responses_reasoning_kwargs :: "pydict option \<Rightarrow> pydict" where
  "responses_reasoning_kwargs config =
     (case config of
        None \<Rightarrow> []
      | Some c \<Rightarrow>
          (let rest = ddel c (S ''verbosity'')
           in (case dget c (S ''verbosity'') of Some v \<Rightarrow> [(S ''verbosity'', v)] | None \<Rightarrow> [])
              @ (if rest \<noteq> [] then [(S ''reasoning'', PDict rest)] else [])))"

definition chat_completions_reasoning_kwargs :: "pydict option \<Rightarrow> pydict" where
  "chat_completions_reasoning_kwargs config =
     (case config of
        None \<Rightarrow> []
      | Some c \<Rightarrow>
          (let rest = ddel (ddel c (S ''verbosity'')) (S ''effort'')
           in (case dget c (S ''verbosity'') of Some v \<Rightarrow> [(S ''verbosity'', v)] | None \<Rightarrow> [])
              @ (case dget c (S ''effort'') of Some v \<Rightarrow> [(S ''reasoning_effort'', v)] | None \<Rightarrow> [])
              @ (if rest \<noteq> [] then [(S ''reasoning'', PDict rest)] else [])))"


section \<open>Azure's input filter\<close>

text \<open>\<open>bad_request\<close> says whether an exception is the SDK's \<open>BadRequestError\<close>.\<close>

definition unsafe_decision :: classifier_decision where
  "unsafe_decision = \<lparr>injection_detected = True, category = S ''unknown''\<rparr>"

definition filter_block :: "raised \<Rightarrow> bool" where
  "filter_block exc \<longleftrightarrow>
     (case provider_error_metadata exc of
        (status, _, reason) \<Rightarrow> status = Some 400 \<and>
          (reason = Some (S ''content_filter'') \<or> reason = Some (S ''prompt_attack_filtered'')))"

definition azure_classify ::
  "(raised \<Rightarrow> bool) \<Rightarrow> bool \<Rightarrow> (prompt_message list \<Rightarrow> model_output checked) \<Rightarrow> classifier_request
     \<Rightarrow> classifier_decision checked"
where
  "azure_classify bad_request structured ainvoke request =
     (case classify structured ainvoke request of
        Inr d \<Rightarrow> Inr d
      | Inl exc \<Rightarrow> if bad_request exc \<and> filter_block exc then Inr unsafe_decision else Inl exc)"


section \<open>Pydantic models\<close>

text \<open>
  The type of a field: a builtin by its name, a literal, a list, a model with its fields (name, whether
  it is required, type, description), or a constrained text with the constraints given.
\<close>

datatype field_type =
    BuiltinType pystr
  | LiteralType "pyval list"
  | ListType field_type
  | ModelType pystr "(pystr \<times> bool \<times> field_type \<times> pyval) list"
  | ConstrainedType field_type pydict

type_synonym model_fields = "(pystr \<times> bool \<times> field_type \<times> pyval) list"

text \<open>\<open>str.title\<close>, on ASCII letters; other characters are kept and end a word.\<close>

fun title_from :: "bool \<Rightarrow> pystr \<Rightarrow> pystr" where
  "title_from in_word [] = []"
| "title_from in_word (c # cs) =
     (if 97 \<le> c \<and> c \<le> 122 then (if in_word then c else c - 32) # title_from True cs
      else if 65 \<le> c \<and> c \<le> 90 then (if in_word then c + 32 else c) # title_from True cs
      else c # title_from False cs)"

definition nested_name :: "pystr \<Rightarrow> pystr" where
  "nested_name name = replace (S ''_'') [] (title_from False name)"

definition unhashable :: "pyval \<Rightarrow> bool" where
  "unhashable v \<longleftrightarrow> is_list v \<or> is_dict v"

definition unhashable_error :: "pyval \<Rightarrow> exn" where
  "unhashable_error v = TypeError (S ''unhashable type: '' @ 39 # type_name v @ [39])"

definition required_names :: "pydict \<Rightarrow> pyval list result" where
  "required_names d =
     bindE (py_iter (case dget d (S ''required'') of None \<Rightarrow> PList [] | Some v \<Rightarrow> v)) (\<lambda>names.
       case find unhashable names of Some v \<Rightarrow> Inl (unhashable_error v) | None \<Rightarrow> Inr names)"

definition fields_of ::
  "(pyval \<Rightarrow> pystr \<Rightarrow> field_type result) \<Rightarrow> pyval list \<Rightarrow> pydict \<Rightarrow> model_fields result"
where
  "fields_of fld required props =
     mapE (\<lambda>kv. bindE (fld (snd kv) (fst kv)) (\<lambda>t.
       Inr (fst kv, PStr (fst kv) \<in> set required, t,
            case snd kv of PDict f \<Rightarrow> dgetn f (S ''description'') | _ \<Rightarrow> PNone))) props"

text \<open>One model, \<open>fld\<close> being the translation of a field; \<open>build\<close> is \<open>pydantic.create_model\<close>.\<close>

definition model_of ::
  "(pystr \<Rightarrow> model_fields \<Rightarrow> unit result) \<Rightarrow> (pyval \<Rightarrow> pystr \<Rightarrow> field_type result) \<Rightarrow> pydict \<Rightarrow> pystr
     \<Rightarrow> field_type result"
where
  "model_of build fld d name =
     (case dget d (S ''properties'') of
        None \<Rightarrow> Inl (ValueError (S ''Schema '' @ repr_str name @ S '' missing '' @ S (CHR 0x27 # ''properties'' @ [CHR 0x27])))
      | Some props \<Rightarrow>
          bindE (required_names d) (\<lambda>required.
            case props of
              PDict ps \<Rightarrow>
                bindE (fields_of fld required ps) (\<lambda>fields.
                bindE (build name fields) (\<lambda>_. Inr (ModelType name fields)))
            | v \<Rightarrow> Inl (attribute_error v ''items'')))"

definition constraint_keys :: "string list" where
  "constraint_keys = [''minLength'', ''maxLength'', ''pattern'']"

definition scalar_type :: "pydict \<Rightarrow> pyval \<Rightarrow> field_type result" where
  "scalar_type d json_type =
     bindE (case dget d (S ''enum'') of
              Some v \<Rightarrow> bindE (py_iter v) (\<lambda>vs. Inr (LiteralType vs))
            | None \<Rightarrow>
                if unhashable json_type then Inl (unhashable_error json_type)
                else Inr (BuiltinType
                  (case json_type of
                     PStr t \<Rightarrow> if t = S ''integer'' then S ''int'' else if t = S ''number'' then S ''float''
                               else if t = S ''boolean'' then S ''bool'' else S ''str''
                   | _ \<Rightarrow> S ''str''))) (\<lambda>t.
       let given = concat (map (\<lambda>k. case dget d (S k) of Some v \<Rightarrow> [(S k, v)] | None \<Rightarrow> []) constraint_keys)
       in Inr (if json_type = PStr (S ''string'') \<and> given \<noteq> [] then ConstrainedType t given else t))"

definition schema_type :: "pydict \<Rightarrow> pyval" where
  "schema_type d = (case dget d (S ''type'') of None \<Rightarrow> PStr (S ''string'') | Some v \<Rightarrow> v)"

lemma model_of_cong [fundef_cong]:
  assumes "build = build'" "d = d'" "name = name'" "\<And>v k. size v < size (PDict d') \<Longrightarrow> fld v k = fld' v k"
  shows "model_of build fld d name = model_of build' fld' d' name'"
proof -
  have "fields_of fld required ps = fields_of fld' required ps"
    if ps: "dget d (S ''properties'') = Some (PDict ps)" for ps required
    unfolding fields_of_def
  proof (rule mapE_cong)
    fix kv assume "kv \<in> set ps"
    then have "size (snd kv) < size (PDict ps)" using size_value [of "fst kv" "snd kv" ps] by simp
    then have "fld (snd kv) (fst kv) = fld' (snd kv) (fst kv)"
      using assms(2,4) size_dget [OF ps] less_trans by metis
    then show "bindE (fld (snd kv) (fst kv)) (\<lambda>t. Inr (fst kv, PStr (fst kv) \<in> set required, t,
          case snd kv of PDict f \<Rightarrow> dgetn f (S ''description'') | _ \<Rightarrow> PNone)) =
        bindE (fld' (snd kv) (fst kv)) (\<lambda>t. Inr (fst kv, PStr (fst kv) \<in> set required, t,
          case snd kv of PDict f \<Rightarrow> dgetn f (S ''description'') | _ \<Rightarrow> PNone))" by simp
  qed simp
  then show ?thesis using assms(1,2,3) unfolding model_of_def
    by (auto split: option.split pyval.split intro!: arg_cong2 [where f = bindE] ext)
qed

function resolve_field_type ::
  "(pystr \<Rightarrow> model_fields \<Rightarrow> unit result) \<Rightarrow> pyval \<Rightarrow> pystr \<Rightarrow> field_type result"
where
  "resolve_field_type build v name =
     (case v of
        PDict d \<Rightarrow>
          (if schema_type d = PStr (S ''object'') then model_of build (resolve_field_type build) d (nested_name name)
           else if schema_type d = PStr (S ''array'') then
             (case dget d (S ''items'') of
                None \<Rightarrow> Inl (ValueError (S ''Array field '' @ repr_str name @ S '' missing '' @ S (CHR 0x27 # ''items'' @ [CHR 0x27])))
              | Some item \<Rightarrow> bindE (resolve_field_type build item (name @ S ''_item'')) (\<lambda>t. Inr (ListType t)))
           else scalar_type d (schema_type d))
      | _ \<Rightarrow> Inl (attribute_error v ''get''))"
  by pat_completeness auto
termination
  by (relation "measure (\<lambda>(build, v, name). size v)") (auto dest!: size_dget)

declare resolve_field_type.simps [simp del]

definition json_schema_to_pydantic :: "(pystr \<Rightarrow> model_fields \<Rightarrow> unit result) \<Rightarrow> pydict \<Rightarrow> field_type result" where
  "json_schema_to_pydantic build schema = model_of build (resolve_field_type build) schema (S ''OutputModel'')"


section \<open>Properties\<close>

text \<open>The options below \<open>reasoning\<close>.\<close>

definition nested_options :: "pydict \<Rightarrow> pydict" where
  "nested_options kwargs = (case dget kwargs (S ''reasoning'') of Some (PDict r) \<Rightarrow> r | _ \<Rightarrow> [])"

definition lifted_options :: "bool \<Rightarrow> (string \<times> string) list" where
  "lifted_options responses =
     (''verbosity'', ''verbosity'') # (if responses then [] else [(''effort'', ''reasoning_effort'')])"

definition reasoning_kwargs :: "bool \<Rightarrow> pydict option \<Rightarrow> pydict" where
  "reasoning_kwargs responses config =
     (if responses then responses_reasoning_kwargs config else chat_completions_reasoning_kwargs config)"

text \<open>
  No reasoning option is dropped, repeated or made up, for either OpenAI interface: the options
  that have a parameter of their own are passed there, every other one is passed under
  \<open>reasoning\<close> with its value, and there are no other parameters.
\<close>

theorem reasoning_options_are_kept:
  "(\<forall>(source, target) \<in> set (lifted_options responses).
      dget (reasoning_kwargs responses (Some c)) (S target) = dget c (S source)) \<and>
   (\<forall>k. dget (nested_options (reasoning_kwargs responses (Some c))) k =
      (if k \<in> (\<lambda>(source, target). S source) ` set (lifted_options responses) then None else dget c k)) \<and>
   fst ` set (reasoning_kwargs responses (Some c)) \<subseteq>
     insert (S ''reasoning'') ((\<lambda>(source, target). S target) ` set (lifted_options responses))"
proof (cases responses)
  case True
  have "nested_options (responses_reasoning_kwargs (Some c)) = ddel c (S ''verbosity'')"
    by (simp add: nested_options_def responses_reasoning_kwargs_def Let_def split: option.split)
  then show ?thesis using True
    by (auto simp: lifted_options_def reasoning_kwargs_def)
      (auto simp: responses_reasoning_kwargs_def Let_def split: option.split_asm if_split_asm option.split)
next
  case False
  have "nested_options (chat_completions_reasoning_kwargs (Some c)) = ddel (ddel c (S ''verbosity'')) (S ''effort'')"
    by (simp add: nested_options_def chat_completions_reasoning_kwargs_def Let_def split: option.split)
  then show ?thesis using False
    by (auto simp: lifted_options_def reasoning_kwargs_def)
      (auto simp: chat_completions_reasoning_kwargs_def Let_def split: option.split_asm if_split_asm option.split)
qed

text \<open>
  Azure's input filter can only make a decision unsafe. A bad request whose error code is
  \<open>content_filter\<close>, with status 400, is an unsafe decision; any other decision is the classifier's own;
  and every other failure is raised as it was.
\<close>

theorem azure_filter_is_unsafe:
  "(\<forall>exc. classify structured ainvoke request = Inl exc \<and> bad_request exc \<and> http_status exc = Some 400
      \<and> dgetn (error_object exc) (S ''code'') = PStr (S ''content_filter'') \<longrightarrow>
      azure_classify bad_request structured ainvoke request = Inr unsafe_decision) \<and>
   (\<forall>d. azure_classify bad_request structured ainvoke request = Inr d \<longrightarrow>
      classify structured ainvoke request = Inr d \<or> d = unsafe_decision \<and> injection_detected d) \<and>
   (\<forall>exc. azure_classify bad_request structured ainvoke request = Inl exc \<longrightarrow>
      classify structured ainvoke request = Inl exc)"
proof -
  have "filter_block exc" if "http_status exc = Some 400" "dgetn (error_object exc) (S ''code'') = PStr (S ''content_filter'')" for exc
    using that by (auto simp: filter_block_def provider_error_metadata_def Let_def known_text_def PROVIDER_ERROR_CODES_def)
  then show ?thesis
    by (auto simp: azure_classify_def unsafe_decision_def split: sum.split if_split_asm)
qed

definition sample_block :: raised where
  "sample_block = (plain_exception (COther (S ''BadRequestError'')))\<lparr>ex_status_code := PInt 400,
     ex_body := PDict [(S ''error'', PDict [(S ''code'', PStr (S ''content_filter''))])]\<rparr>"

lemma azure_filter_is_unsafe_witness:
  "azure_classify (\<lambda>_. True) True (\<lambda>_. Inl sample_block) sample_request = Inr unsafe_decision"
proof -
  have "classify True (\<lambda>_. Inl sample_block) sample_request = Inl sample_block" "http_status sample_block = Some 400"
    "dgetn (error_object sample_block) (S ''code'') = PStr (S ''content_filter'')"
    by (simp_all add: classify_def sample_block_def plain_exception_def http_status_def error_object_def dgetn_def)
  then show ?thesis
    using azure_filter_is_unsafe [of True "\<lambda>_. Inl sample_block" sample_request "\<lambda>_. True", THEN conjunct1] by blast
qed

text \<open>
  A Pydantic model is the schema's: a schema that is accepted gives a model whose fields are the
  properties in their order, each required exactly when its name is listed, and Pydantic accepted it.
\<close>

theorem pydantic_model_has_the_properties:
  assumes "json_schema_to_pydantic build schema = Inr t"
  shows "\<exists>props names fields.
    dget schema (S ''properties'') = Some (PDict props) \<and> required_names schema = Inr names \<and>
    t = ModelType (S ''OutputModel'') fields \<and> build (S ''OutputModel'') fields = Inr () \<and>
    map (\<lambda>(name, required, ft, description). (name, required)) fields =
      map (\<lambda>(name, p). (name, PStr name \<in> set names)) props"
proof -
  obtain v where v: "dget schema (S ''properties'') = Some v" and
    "is_dict v" using assms unfolding json_schema_to_pydantic_def model_of_def
    by (cases "dget schema (S ''properties'')"; cases "the (dget schema (S ''properties''))") (auto simp: result_simps)
  then obtain props names fields where f: "dget schema (S ''properties'') = Some (PDict props)"
      "required_names schema = Inr names" "fields_of (resolve_field_type build) names props = Inr fields"
      "build (S ''OutputModel'') fields = Inr ()" "t = ModelType (S ''OutputModel'') fields"
    using assms unfolding json_schema_to_pydantic_def model_of_def
    by (cases v) (auto simp: result_simps)
  have "map (\<lambda>(name, required, ft, description). (name, required)) fs =
      map (\<lambda>(name, p). (name, PStr name \<in> set names)) ps"
    if "fields_of fld names ps = Inr fs" for fld ps fs
    using that unfolding fields_of_def
  proof (induction ps arbitrary: fs)
    case (Cons kv ps)
    obtain x rest where "mapE (\<lambda>kv. bindE (fld (snd kv) (fst kv)) (\<lambda>t.
       Inr (fst kv, PStr (fst kv) \<in> set names, t,
            case snd kv of PDict f \<Rightarrow> dgetn f (S ''description'') | _ \<Rightarrow> PNone))) ps = Inr rest"
      "fs = (fst kv, PStr (fst kv) \<in> set names, x) # rest"
      using Cons.prems by (auto simp: result_simps)
    then show ?case using Cons.IH by (cases kv) (auto split: prod.split)
  qed simp
  then show ?thesis using f by blast
qed

lemma pydantic_model_has_the_properties_witness:
  "\<exists>fields. json_schema_to_pydantic (\<lambda>_ _. Inr ())
     [(S ''properties'', PDict [(S ''a'', PDict [(S ''type'', PStr (S ''integer''))]), (S ''b'', PDict [])]),
      (S ''required'', PList [PStr (S ''a'')])] = Inr (ModelType (S ''OutputModel'') fields) \<and>
    map (\<lambda>(name, required, ft, description). (name, required)) fields = [(S ''a'', True), (S ''b'', False)]"
proof -
  let ?s = "[(S ''properties'', PDict [(S ''a'', PDict [(S ''type'', PStr (S ''integer''))]), (S ''b'', PDict [])]),
      (S ''required'', PList [PStr (S ''a'')])]"
  have "json_schema_to_pydantic (\<lambda>_ _. Inr ()) ?s = Inr (ModelType (S ''OutputModel'')
      [(S ''a'', True, BuiltinType (S ''int''), PNone), (S ''b'', False, BuiltinType (S ''str''), PNone)])"
    by (simp add: json_schema_to_pydantic_def model_of_def required_names_def unhashable_def fields_of_def
        resolve_field_type.simps schema_type_def scalar_type_def constraint_keys_def dgetn_def)
  from pydantic_model_has_the_properties [OF this] this show ?thesis by (auto simp: required_names_def unhashable_def)
qed

end
