(* ===== verification/EventLog.thy ===== *)
theory EventLog
  imports Types
begin

text \<open>
  \<open>logging.py\<close>: provider events as log lines, with thinking deltas buffered into blocks of bounded
  length. Proved: the bounded buffer logs exactly what an unbounded one would, cut into pieces of at
  most 2000 characters, so nothing is lost and no line is longer.
\<close>

definition MAX_RESULT_LOG :: nat where
  "MAX_RESULT_LOG = 500"

definition THINKING_BUF_FLUSH :: nat where
  "THINKING_BUF_FLUSH = 2000"

text \<open>The log lines; \<open>ThinkingLine True\<close> carries the marker of a continued block.\<close>

datatype log_line =
    ThinkingLine bool pystr
  | ToolUseLine pystr
  | ToolResultLine
  | ResultLine int
  | OutputLine pystr

record log_state =
  thinking_buf :: "pystr list"
  thinking_len :: nat
  continuation :: bool

definition initial_log :: log_state where
  "initial_log = \<lparr>thinking_buf = [], thinking_len = 0, continuation = False\<rparr>"

definition flush_thinking :: "bool \<Rightarrow> log_state \<Rightarrow> log_line list \<times> log_state" where
  "flush_thinking end_of_block st =
     (let t = concat (thinking_buf st);
          lines = (if t \<noteq> [] then [ThinkingLine (continuation st) t] else []);
          st1 = (if thinking_buf st \<noteq> [] then st\<lparr>thinking_buf := [], thinking_len := 0\<rparr> else st)
      in (lines, if end_of_block then st1\<lparr>continuation := False\<rparr> else st1))"

text \<open>
  The \<open>while remaining\<close> loop. The length never exceeds the bound; the condition repeats it, where it
  makes the rest shorter.
\<close>

function log_thinking :: "log_state \<Rightarrow> pystr \<Rightarrow> log_line list \<times> log_state" where
  "log_thinking st remaining =
     (if remaining = [] \<or> THINKING_BUF_FLUSH < thinking_len st then ([], st)
      else
      (let (lines, st1) =
         (if thinking_len st = THINKING_BUF_FLUSH
          then (case flush_thinking False st of (ls, s) \<Rightarrow> (ls, s\<lparr>thinking_len := 0, continuation := True\<rparr>))
          else ([], st));
           available = THINKING_BUF_FLUSH - thinking_len st1;
           part = take available remaining;
           (rest, st2) = log_thinking
             (st1\<lparr>thinking_buf := thinking_buf st1 @ [part], thinking_len := thinking_len st1 + length part\<rparr>)
             (drop available remaining)
       in (lines @ rest, st2)))"
  by pat_completeness auto
termination
  by (relation "measure (\<lambda>(st, remaining). length remaining)")
    (auto simp: THINKING_BUF_FLUSH_def split: prod.splits if_splits simp flip: length_greater_0_conv)

declare log_thinking.simps [simp del]

definition event_lines :: "provider_event \<Rightarrow> log_line list" where
  "event_lines e =
     (case e of
        ToolCallEvent c \<Rightarrow> [ToolUseLine (ev_name c)]
      | ToolResultEvent r \<Rightarrow> [ToolResultLine]
      | ResultEvent r \<Rightarrow>
          ResultLine (ev_input_tokens r + ev_output_tokens r)
          # (if ev_text r \<noteq> [] then [OutputLine (take MAX_RESULT_LOG (ev_text r))] else [])
      | _ \<Rightarrow> [])"

fun log_event :: "provider_event \<Rightarrow> log_state \<Rightarrow> log_line list \<times> log_state" where
  "log_event (ThinkingDeltaEvent t) st = log_thinking st t"
| "log_event (TextDeltaEvent t) st = ([], st)"
| "log_event e st = (let (lines, st1) = flush_thinking True st in (lines @ event_lines e, st1))"

fun log_events :: "provider_event list \<Rightarrow> log_state \<Rightarrow> log_line list \<times> log_state" where
  "log_events [] st = ([], st)"
| "log_events (e # es) st =
     (let (lines, st1) = log_event e st; (rest, st2) = log_events es st1 in (lines @ rest, st2))"


section \<open>The unbounded logger\<close>

text \<open>A block of thinking as lines: pieces of bounded length, all but the first one marked.\<close>

function block_lines :: "bool \<Rightarrow> pystr \<Rightarrow> log_line list" where
  "block_lines continued t =
     (if t = [] then []
      else ThinkingLine continued (take THINKING_BUF_FLUSH t) # block_lines True (drop THINKING_BUF_FLUSH t))"
  by pat_completeness auto
termination
  by (relation "measure (\<lambda>(c, t). length t)") (auto simp: THINKING_BUF_FLUSH_def)

declare block_lines.simps [simp del]

text \<open>A logger that keeps a whole block and writes it when the block ends.\<close>

fun reference_log :: "bool \<Rightarrow> pystr \<Rightarrow> provider_event list \<Rightarrow> log_line list" where
  "reference_log continued block [] = block_lines continued block"
| "reference_log continued block (ThinkingDeltaEvent t # es) = reference_log continued (block @ t) es"
| "reference_log continued block (TextDeltaEvent t # es) = reference_log continued block es"
| "reference_log continued block (e # es) =
     block_lines continued block @ event_lines e @ reference_log False [] es"

lemma block_lines_Nil [simp]: "block_lines c [] = []"
  by (simp add: block_lines.simps)

lemma block_lines_short: "length t \<le> THINKING_BUF_FLUSH \<Longrightarrow> t \<noteq> [] \<Longrightarrow> block_lines c t = [ThinkingLine c t]"
  by (subst block_lines.simps) simp

lemma block_lines_full:
  "length b = THINKING_BUF_FLUSH \<Longrightarrow> block_lines c (b @ t) = ThinkingLine c b # block_lines True t"
  by (subst block_lines.simps) (auto simp: THINKING_BUF_FLUSH_def)

definition log_inv :: "log_state \<Rightarrow> bool" where
  "log_inv st \<longleftrightarrow> thinking_len st = length (concat (thinking_buf st)) \<and> thinking_len st \<le> THINKING_BUF_FLUSH"

text \<open>The contract of the buffer: what it has written and what it holds make up the block.\<close>

lemma log_thinking_block:
  "log_thinking st t = (lines, st') \<Longrightarrow> log_inv st \<Longrightarrow>
    log_inv st' \<and> (\<forall>more. block_lines (continuation st) (concat (thinking_buf st) @ t @ more) =
      lines @ block_lines (continuation st') (concat (thinking_buf st') @ more))"
proof (induction st t arbitrary: lines st' rule: log_thinking.induct)
  case (1 st t)
  show ?case
  proof (cases "t = []")
    case True
    then show ?thesis using 1(2,3) by (subst (asm) log_thinking.simps) simp
  next
    case False
    define full where "full = (thinking_len st = THINKING_BUF_FLUSH)"
    define st1 where "st1 = (if full then st\<lparr>thinking_buf := [], thinking_len := 0, continuation := True\<rparr> else st)"
    define ls where "ls = (if full then [ThinkingLine (continuation st) (concat (thinking_buf st))] else [])"
    define k where "k = THINKING_BUF_FLUSH - thinking_len st1"
    define st2 where "st2 = st1\<lparr>thinking_buf := thinking_buf st1 @ [take k t],
      thinking_len := thinking_len st1 + length (take k t)\<rparr>"
    have nb: "\<not> (t = [] \<or> THINKING_BUF_FLUSH < thinking_len st)" using False 1(3) by (simp add: log_inv_def)
    have ne: "full \<Longrightarrow> concat (thinking_buf st) \<noteq> []"
    proof -
      assume full
      then have "length (concat (thinking_buf st)) \<noteq> 0"
        using 1(3) by (simp add: full_def log_inv_def THINKING_BUF_FLUSH_def)
      then show ?thesis unfolding length_0_conv .
    qed
    have fl: "(if thinking_len st = THINKING_BUF_FLUSH
        then (case flush_thinking False st of (ls, s) \<Rightarrow> (ls, s\<lparr>thinking_len := 0, continuation := True\<rparr>))
        else ([], st)) = (ls, st1)"
      using ne by (auto simp: flush_thinking_def full_def ls_def st1_def Let_def)
    obtain rest where r: "log_thinking st2 (drop k t) = (rest, st')" "lines = ls @ rest"
      using 1(2) nb fl by (subst (asm) log_thinking.simps) (auto simp: k_def st2_def Let_def split: prod.split_asm)
    have inv2: "log_inv st2"
      using 1(3) by (auto simp: log_inv_def st2_def st1_def k_def full_def)
    have ih: "log_inv st' \<and> (\<forall>more. block_lines (continuation st2) (concat (thinking_buf st2) @ drop k t @ more) =
        rest @ block_lines (continuation st') (concat (thinking_buf st') @ more))"
      using 1(1) [OF nb fl [symmetric]] r(1) inv2 by (simp add: k_def st2_def)
    have "block_lines (continuation st) (concat (thinking_buf st) @ t @ more) =
        ls @ block_lines (continuation st1) (concat (thinking_buf st1) @ t @ more)" for more
      using 1(3) block_lines_full [of "concat (thinking_buf st)"]
      by (auto simp: ls_def st1_def full_def log_inv_def)
    moreover have "concat (thinking_buf st1) @ t @ more = concat (thinking_buf st2) @ drop k t @ more" for more
      by (simp add: st2_def)
    moreover have "continuation st2 = continuation st1" by (simp add: st2_def)
    ultimately show ?thesis using ih r(2) by simp
  qed
qed

lemma flush_block:
  assumes "log_inv st"
  shows "flush_thinking True st = (block_lines (continuation st) (concat (thinking_buf st)), initial_log)"
proof -
  have e: "thinking_buf st = [] \<Longrightarrow> thinking_len st = 0" using assms by (simp add: log_inv_def)
  define t where "t = concat (thinking_buf st)"
  have "length t \<le> THINKING_BUF_FLUSH" using assms by (simp add: log_inv_def t_def)
  then have "block_lines (continuation st) t = (if t \<noteq> [] then [ThinkingLine (continuation st) t] else [])"
    using block_lines_short [of t] by simp
  then show ?thesis using e
    unfolding flush_thinking_def Let_def t_def [symmetric] by (simp add: initial_log_def)
qed

lemma log_events_reference:
  "log_events es st = (lines, st') \<Longrightarrow> log_inv st \<Longrightarrow>
    lines @ fst (flush_thinking True st') = reference_log (continuation st) (concat (thinking_buf st)) es"
proof (induction es arbitrary: st lines)
  case Nil
  then show ?case by (simp add: flush_block)
next
  case (Cons e es)
  obtain l1 st1 l2 where l: "log_event e st = (l1, st1)" "log_events es st1 = (l2, st')" "lines = l1 @ l2"
    using Cons.prems(1) by (auto simp: Let_def split: prod.split_asm)
  have init: "log_inv initial_log" "continuation initial_log = False" "thinking_buf initial_log = []"
    by (simp_all add: log_inv_def initial_log_def)
  show ?case
  proof (cases e)
    case (TextDeltaEvent t)
    then show ?thesis using l Cons by simp
  next
    case (ThinkingDeltaEvent t)
    then have t: "log_thinking st t = (l1, st1)" using l(1) by simp
    have "reference_log (continuation st) (concat (thinking_buf st) @ t) es =
        l1 @ reference_log (continuation st1) (concat (thinking_buf st1)) es"
      if b: "\<forall>more. block_lines (continuation st) (concat (thinking_buf st) @ t @ more) =
        l1 @ block_lines (continuation st1) (concat (thinking_buf st1) @ more)"
    proof -
      have "reference_log c (b @ u) es = l1 @ reference_log c1 (b1 @ u) es"
        if "\<forall>more. block_lines c (b @ more) = l1 @ block_lines c1 (b1 @ more)" for c b c1 b1 u
        using that
      proof (induction es arbitrary: u)
        case (Cons a es)
        then show ?case by (cases a) auto
      qed simp
      from this [of "continuation st" "concat (thinking_buf st) @ t" "continuation st1" "concat (thinking_buf st1)" "[]"]
      show ?thesis using b by simp
    qed
    then show ?thesis using log_thinking_block [OF t Cons.prems(2)] Cons.IH [OF l(2)] l(3) ThinkingDeltaEvent
      by simp
  qed (use l flush_block [OF Cons.prems(2)] Cons.IH [of initial_log] init in auto)
qed


text \<open>The lines of the unbounded logger are short, and its thinking lines make up the thinking.\<close>

definition thinking_of_line :: "log_line \<Rightarrow> pystr" where
  "thinking_of_line l = (case l of ThinkingLine c t \<Rightarrow> t | _ \<Rightarrow> [])"

definition line_ok :: "log_line \<Rightarrow> bool" where
  "line_ok l \<longleftrightarrow> (case l of ThinkingLine c t \<Rightarrow> t \<noteq> [] \<and> length t \<le> THINKING_BUF_FLUSH
     | OutputLine t \<Rightarrow> length t \<le> MAX_RESULT_LOG | _ \<Rightarrow> True)"

lemma block_lines_ok:
  "(\<forall>l \<in> set (block_lines c t). line_ok l) \<and> concat (map thinking_of_line (block_lines c t)) = t"
proof (induction c t rule: block_lines.induct)
  case (1 c t)
  have "line_ok (ThinkingLine c (take THINKING_BUF_FLUSH t)) \<and> thinking_of_line (ThinkingLine c u) = u"
    if "t \<noteq> []" for u
    using that by (simp add: line_ok_def thinking_of_line_def THINKING_BUF_FLUSH_def)
  then show ?case using 1 by (cases "t = []") (simp_all add: block_lines.simps [of c t])
qed

lemma event_lines_ok:
  "(\<forall>l \<in> set (event_lines e). line_ok l) \<and> concat (map thinking_of_line (event_lines e)) = []"
  by (cases e) (auto simp: event_lines_def line_ok_def thinking_of_line_def)

lemma reference_log_ok:
  "(\<forall>l \<in> set (reference_log c b es). line_ok l) \<and>
   concat (map thinking_of_line (reference_log c b es)) =
     b @ concat (map (\<lambda>e. case e of ThinkingDeltaEvent t \<Rightarrow> t | _ \<Rightarrow> []) es)"
proof (induction es arbitrary: c b)
  case Nil
  then show ?case using block_lines_ok [of c b] by simp
next
  case (Cons e es)
  show ?case using block_lines_ok [of c b] event_lines_ok [of e] Cons.IH by (cases e) auto
qed


section \<open>Properties\<close>

text \<open>
  C38. The bounded log is the unbounded one. For every sequence of events, what the logger writes, with
  its final flush, is what a logger that keeps each thinking block whole would write, cut into
  pieces; so every thinking line has between 1 and 2000 characters, every output line at most 500, and
  the thinking lines put together are all the thinking there was.
\<close>

theorem bounded_log_is_complete:
  "case log_events es initial_log of (lines, st) \<Rightarrow>
     lines @ fst (flush_thinking True st) = reference_log False [] es \<and>
     (\<forall>l \<in> set (lines @ fst (flush_thinking True st)). line_ok l) \<and>
     concat (map thinking_of_line (lines @ fst (flush_thinking True st))) =
       concat (map (\<lambda>e. case e of ThinkingDeltaEvent t \<Rightarrow> t | _ \<Rightarrow> []) es)"
proof -
  obtain lines st where l: "log_events es initial_log = (lines, st)" by fastforce
  have i: "log_inv initial_log" by (simp add: log_inv_def initial_log_def)
  have r: "lines @ fst (flush_thinking True st) = reference_log False [] es"
    using log_events_reference [OF l i] by (simp add: initial_log_def)
  show ?thesis unfolding l prod.case r using reference_log_ok [of False "[]" es] by simp
qed

lemma bounded_log_is_complete_witness:
  "fst (log_events [ThinkingDeltaEvent (S ''ab''), ContentBlockStopEvent] initial_log) @
     fst (flush_thinking True (snd (log_events [ThinkingDeltaEvent (S ''ab''), ContentBlockStopEvent] initial_log))) =
   reference_log False [] [ThinkingDeltaEvent (S ''ab''), ContentBlockStopEvent]"
  using bounded_log_is_complete [of "[ThinkingDeltaEvent (S ''ab''), ContentBlockStopEvent]"]
  by (simp add: case_prod_beta)

end
