(* ===== verification/RunAgent.thy ===== *)
theory RunAgent
  imports AuditLog EventLog
begin

text \<open>
  \<open>run_agent.py\<close>: the context prefix and one agent run. The provider is a parameter: for a prompt, the
  events it yields and how its stream ends. Metrics are left out; the elapsed time of a timed-out run and the
  random identifiers of a new trace are parameters. Proved: which contexts are accepted; what may
  escape from a run; the form of its output; that its span and its tool spans are ended.
\<close>

section \<open>The context prefix\<close>

definition context_error :: "pystr \<Rightarrow> exn" where
  "context_error m = Exn CContextFormatError (S ''Invalid context: '' @ m)"

definition require_mapping :: "pyval \<Rightarrow> pystr \<Rightarrow> pydict result" where
  "require_mapping v path =
     (case v of PDict d \<Rightarrow> Inr d | _ \<Rightarrow> Inl (context_error (path @ S '' must be a JSON object'')))"

definition require_non_empty_str :: "pyval \<Rightarrow> pystr \<Rightarrow> pystr result" where
  "require_non_empty_str v path =
     (case v of
        PStr s \<Rightarrow> if strip s = [] then Inl (context_error (path @ S '' must be a non-empty string'')) else Inr s
      | _ \<Rightarrow> Inl (context_error (path @ S '' must be a non-empty string'')))"

definition namespace_lines :: "pydict \<Rightarrow> pystr list result" where
  "namespace_lines context =
     (let namespaces = dgetn context (S ''targetNamespaces'')
      in if \<not> truthy namespaces then Inr []
         else case namespaces of
           PList ns \<Rightarrow> Inr [S ''Target namespaces: '' @ join (S '', '') (map py_str ns)]
         | _ \<Rightarrow> Inl (context_error (S ''targetNamespaces must be a list'')))"

definition attempt_lines :: "pydict \<Rightarrow> pystr list" where
  "attempt_lines context =
     (case dgetn context (S ''attempt'') of
        PNone \<Rightarrow> [] | attempt \<Rightarrow> [S ''Attempt: '' @ py_str attempt @ S '' of max''])"

definition previous_attempt_line :: "nat \<times> pyval \<Rightarrow> pystr result" where
  "previous_attempt_line ie =
     (case ie of (i, entry) \<Rightarrow>
        case entry of
          PDict d \<Rightarrow>
            (if dgetn d (S ''attempt'') = PNone
             then Inl (context_error (S ''previousAttempts['' @ nat_dec i @ S ''] missing attempt''))
             else Inr (S ''  Attempt '' @ py_str (dgetn d (S ''attempt''))
               @ (if truthy (dgetn d (S ''failureReason''))
                  then S '': '' @ py_str (dgetn d (S ''failureReason'')) else [])))
        | _ \<Rightarrow> Inl (context_error (S ''previousAttempts['' @ nat_dec i @ S ''] must be a JSON object'')))"

definition previous_lines :: "pydict \<Rightarrow> pystr list result" where
  "previous_lines context =
     (let prev = dgetn context (S ''previousAttempts'')
      in if \<not> truthy prev then Inr []
         else case prev of
           PList entries \<Rightarrow>
             bindE (mapE previous_attempt_line (List.enumerate 0 entries)) (\<lambda>ls.
               Inr (S ''Previous attempts:'' # ls))
         | _ \<Rightarrow> Inl (context_error (S ''previousAttempts must be a list'')))"

definition action_path :: "nat \<Rightarrow> pystr" where
  "action_path j = S ''approvedOption.remediationPlan.actions['' @ nat_dec j @ S '']''"

text \<open>An action as it is shown to the agent; the dash between command and description is U+2014.\<close>

definition action_text :: "pystr \<Rightarrow> pyval \<Rightarrow> pystr \<Rightarrow> pystr" where
  "action_text action_type cmd description =
     (if truthy cmd
      then S ''  - ['' @ action_type @ S ''] '' @ py_str cmd @ [32, 8212, 32] @ description
      else S ''  - ['' @ action_type @ S ''] '' @ description)"

definition action_line :: "nat \<times> pyval \<Rightarrow> pystr result" where
  "action_line ja =
     (case ja of (j, action) \<Rightarrow>
        case action of
          PDict d \<Rightarrow>
            bindE (require_non_empty_str (dgetn d (S ''type'')) (action_path j @ S ''.type'')) (\<lambda>action_type.
            bindE (require_non_empty_str (dgetn d (S ''description'')) (action_path j @ S ''.description''))
              (\<lambda>description.
              Inr (action_text action_type (dgetn d (S ''command'')) description)))
        | _ \<Rightarrow> Inl (context_error (action_path j @ S '' must be a JSON object'')))"

definition action_lines :: "pydict \<Rightarrow> pystr list result" where
  "action_lines plan =
     (let actions = dgetn plan (S ''actions'')
      in if \<not> truthy actions then Inr []
         else case actions of
           PList xs \<Rightarrow>
             bindE (mapE action_line (List.enumerate 0 xs)) (\<lambda>ls. Inr (S ''Actions to execute:'' # ls))
         | _ \<Rightarrow> Inl (context_error (S ''approvedOption.remediationPlan.actions must be a list'')))"

definition approved_option_lines :: "pyval \<Rightarrow> pystr list result" where
  "approved_option_lines v =
       bindE (require_mapping v (S ''approvedOption'')) (\<lambda>opt.
       bindE (require_non_empty_str (dgetn opt (S ''title'')) (S ''approvedOption.title'')) (\<lambda>title.
       bindE (require_mapping (dgetn opt (S ''diagnosis'')) (S ''approvedOption.diagnosis'')) (\<lambda>diagnosis.
       bindE (require_non_empty_str (dgetn diagnosis (S ''rootCause''))
               (S ''approvedOption.diagnosis.rootCause'')) (\<lambda>root_cause.
       bindE (require_mapping (dgetn opt (S ''remediationPlan'')) (S ''approvedOption.remediationPlan'')) (\<lambda>plan.
       bindE (require_non_empty_str (dgetn plan (S ''description''))
               (S ''approvedOption.remediationPlan.description'')) (\<lambda>plan_description.
       bindE (action_lines plan) (\<lambda>actions.
         Inr ([[], S ''=== APPROVED REMEDIATION (execute ONLY these actions) ==='',
               S ''Title: '' @ title, S ''Diagnosis: '' @ root_cause, S ''Plan: '' @ plan_description,
               S ''Reversible: '' @ py_str (case dget plan (S ''reversible'') of
                  Some r \<Rightarrow> r | None \<Rightarrow> PStr (S ''unknown''))]
              @ actions
              @ [S ''=== DO NOT perform any actions beyond what is listed above ==='', []]))))))))"

definition approved_lines :: "pydict \<Rightarrow> pystr list result" where
  "approved_lines context =
     (let opt = dgetn context (S ''approvedOption'')
      in if opt = PNone then Inr [] else approved_option_lines opt)"

definition format_context_prefix :: "pydict \<Rightarrow> pystr result" where
  "format_context_prefix context =
     bindE (namespace_lines context) (\<lambda>l1.
     bindE (previous_lines context) (\<lambda>l2.
     bindE (approved_lines context) (\<lambda>l3.
       Inr (join [10] ([S ''[context]''] @ l1 @ attempt_lines context @ l2 @ l3 @ [S ''[/context]''])))))"


section \<open>The run\<close>

record agent_result =
  out_dict :: pydict
  out_input_tokens :: int
  out_output_tokens :: int
  timed_out :: bool

definition failed_result :: "pystr \<Rightarrow> agent_result" where
  "failed_result m =
     \<lparr>out_dict = [(S ''success'', PBool False), (S ''summary'', PStr m)],
      out_input_tokens = 0, out_output_tokens = 0, timed_out = False\<rparr>"

text \<open>How a stream ends: by itself, with an exception (a timeout among them), or by cancellation.\<close>

datatype stream_end = StreamEnds | StreamRaises exn | StreamCancelled

datatype run_end = Returned agent_result | Raised exn | Cancelled

record run_config =
  rc_model :: pystr
  rc_system_prompt :: pystr
  rc_json_output :: bool
  rc_timeout :: int
  rc_audit :: audit_config
  rc_traceparent :: "pystr option"
  rc_trace_token :: pystr
  rc_span_token :: pystr
  rc_elapsed :: pystr

record run_state =
  run_span :: span
  run_log :: log_state
  run_lines :: "log_line list"
  run_audit :: audit_state
  run_final :: "result_event option"

record run_outcome =
  end_of_run :: run_end
  final_state :: "run_state option"

definition query_prompt :: "pydict option \<Rightarrow> pystr \<Rightarrow> pystr result" where
  "query_prompt context prompt =
     (case context of
        None \<Rightarrow> Inr prompt
      | Some c \<Rightarrow>
          if c = [] then Inr prompt
          else bindE (format_context_prefix c) (\<lambda>prefix. Inr (prefix @ [10, 10] @ prompt)))"

definition text_part :: "pystr \<Rightarrow> pyval" where
  "text_part t = PDict [(S ''type'', PStr (S ''text'')), (S ''content'', PStr t)]"

definition start_agent_span :: "run_config \<Rightarrow> pystr \<Rightarrow> span" where
  "start_agent_span cfg prompt =
     set_json_span_attribute (S ''gen_ai.system_instructions'') (PList [text_part (rc_system_prompt cfg)])
       (set_json_span_attribute (S ''gen_ai.input.messages'')
         (PList [PDict [(S ''role'', PStr (S ''user'')), (S ''parts'', PList [text_part prompt])]])
         \<lparr>span_title = S ''invoke_agent'',
          span_start_attributes =
            [(S ''gen_ai.operation.name'', PStr (S ''invoke_agent'')), (S ''gen_ai.request.model'', PStr (rc_model cfg))]
            @ (if audit_phase (rc_audit cfg) \<noteq> [] then [(S ''agenticrun.phase'', PStr (audit_phase (rc_audit cfg)))] else [])
            @ (if audit_uid (rc_audit cfg) \<noteq> [] then [(S ''agenticrun.uid'', PStr (audit_uid (rc_audit cfg)))] else [])
            @ (if rc_json_output cfg then [(S ''gen_ai.output.type'', PStr (S ''json''))] else []),
          span_sampled = spans_sampled (rc_audit cfg), span_ops = []\<rparr>)"

definition take_event :: "run_config \<Rightarrow> provider_event \<Rightarrow> run_state \<Rightarrow> run_state" where
  "take_event cfg e st =
     (let (lines, lg) = log_event e (run_log st);
          (au, sp) = process_event (rc_audit cfg) e (run_audit st) (Some (run_span st));
          s = (case sp of Some s \<Rightarrow> s | None \<Rightarrow> run_span st);
          st1 = st\<lparr>run_log := lg, run_lines := run_lines st @ lines, run_audit := au, run_span := s\<rparr>
      in case e of
           ResultEvent r \<Rightarrow>
             st1\<lparr>run_final := Some r,
                 run_span := set_json_span_attribute (S ''gen_ai.output.messages'')
                   (PList [PDict [(S ''role'', PStr (S ''assistant'')), (S ''parts'', PList [text_part (ev_text r)])]]) s\<rparr>
         | _ \<Rightarrow> st1)"

text \<open>The \<open>async for\<close> loop, which stops at the first result event.\<close>

fun take_events :: "run_config \<Rightarrow> provider_event list \<Rightarrow> run_state \<Rightarrow> run_state" where
  "take_events cfg [] st = st"
| "take_events cfg (e # es) st =
     (let st1 = take_event cfg e st in if is_result e then st1 else take_events cfg es st1)"

definition fail_span :: "pystr \<Rightarrow> run_state \<Rightarrow> run_state" where
  "fail_span error_type st =
     st\<lparr>run_span := perform (SetStatus StatusError (S ''agent run failed''))
       (perform (SetAttribute (S ''error.type'') (PStr error_type)) (run_span st))\<rparr>"

definition flush_log :: "run_state \<Rightarrow> run_state" where
  "flush_log st =
     (let (lines, lg) = flush_thinking True (run_log st)
      in st\<lparr>run_log := lg, run_lines := run_lines st @ lines\<rparr>)"

definition complete_run :: "run_config \<Rightarrow> int \<Rightarrow> int \<Rightarrow> int \<Rightarrow> run_state \<Rightarrow> run_state" where
  "complete_run cfg i out r st =
     (let (au, sp) = complete_audit (rc_audit cfg) i out r (run_audit st) (Some (run_span st))
      in st\<lparr>run_audit := au, run_span := (case sp of Some s \<Rightarrow> s | None \<Rightarrow> run_span st)\<rparr>)"

definition timeout_message :: "run_config \<Rightarrow> pystr" where
  "timeout_message cfg =
     S ''Agent invocation exceeded timeout of '' @ int_dec (rc_timeout cfg) @ S ''s after '' @ rc_elapsed cfg @ S ''s''"

text \<open>The output of a JSON object: \<open>success\<close> and \<open>summary\<close> first, then its other members.\<close>

definition json_output :: "pydict \<Rightarrow> pystr \<Rightarrow> pydict" where
  "json_output parsed t =
     [(S ''success'', case dget parsed (S ''success'') of Some v \<Rightarrow> v | None \<Rightarrow> PBool True),
      (S ''summary'', case dget parsed (S ''summary'') of Some v \<Rightarrow> v | None \<Rightarrow> PStr t)]
     @ filter (\<lambda>kv. fst kv \<noteq> S ''success'' \<and> fst kv \<noteq> S ''summary'') parsed"

text \<open>The \<open>except\<close> branches, before the \<open>finally\<close>.\<close>

definition failed_run :: "run_config \<Rightarrow> exn \<Rightarrow> run_state \<Rightarrow> run_end \<times> run_state" where
  "failed_run cfg e st =
     (if exn_class e = CTimeoutError
      then (Returned (failed_result (timeout_message cfg)\<lparr>timed_out := True\<rparr>),
            complete_run cfg 0 0 0 (fail_span (S ''timeout'') (flush_log st)))
      else
      (let st1 = complete_run cfg 0 0 0 (fail_span (class_name (exn_class e)) (flush_log st))
       in (if exn_class e = CToolResultSafetyInspectionFailed then Raised e
           else Returned (failed_result (S ''Agent error: '' @ exn_msg e)), st1)))"

text \<open>The \<open>else\<close> branch: \<open>t\<close> is the text of the result event, empty when there was none.\<close>

definition finished_run :: "run_config \<Rightarrow> run_state \<Rightarrow> run_end \<times> run_state" where
  "finished_run cfg st =
     (let (t, i, out, r) = (case run_final st of
            Some ev \<Rightarrow> (ev_text ev, ev_input_tokens ev, ev_output_tokens ev, ev_reasoning_tokens ev)
          | None \<Rightarrow> ([], 0, 0, 0));
          returned = (\<lambda>d. Returned \<lparr>out_dict = d, out_input_tokens = i, out_output_tokens = out, timed_out = False\<rparr>);
          text_response = [(S ''success'', PBool True), (S ''summary'', PStr t)]
      in if t = []
         then (returned [(S ''success'', PBool False), (S ''summary'', PStr (S ''Agent returned empty response''))],
               complete_run cfg i out r (fail_span (S ''empty_response'') st))
         else case json_loads t of
           Inr (PDict parsed) \<Rightarrow> (returned (json_output parsed t), complete_run cfg i out r st)
         | Inr _ \<Rightarrow> (returned text_response, complete_run cfg i out r st)
         | Inl e \<Rightarrow>
             if exn_class e = CJSONDecodeError
             then (returned text_response, complete_run cfg i out r st)
             else (Raised e, st))"

definition end_agent_span :: "run_state \<Rightarrow> run_state" where
  "end_agent_span st = st\<lparr>run_span := perform EndSpan (run_span st)\<rparr>"

definition run_agent_query ::
  "run_config \<Rightarrow> pydict option \<Rightarrow> pystr \<Rightarrow> (pystr \<Rightarrow> provider_event list \<times> stream_end) \<Rightarrow> run_outcome"
where
  "run_agent_query cfg context prompt provider =
     (case query_prompt context prompt of
        Inl e \<Rightarrow> \<lparr>end_of_run = Returned (failed_result (exn_msg e)), final_state = None\<rparr>
      | Inr p \<Rightarrow>
          (case parse_traceparent (rc_trace_token cfg) (rc_span_token cfg) (rc_traceparent cfg) of
             Inl e \<Rightarrow> \<lparr>end_of_run = Raised e, final_state = None\<rparr>
           | Inr _ \<Rightarrow>
               (let (events, ending) = provider p;
                    st = take_events cfg events
                      \<lparr>run_span = start_agent_span cfg p, run_log = initial_log, run_lines = [],
                       run_audit = initial_audit, run_final = None\<rparr>;
                    (r, st1) =
                      (if run_final st \<noteq> None then finished_run cfg st
                       else case ending of
                         StreamEnds \<Rightarrow> finished_run cfg st
                       | StreamRaises e \<Rightarrow> failed_run cfg e st
                       | StreamCancelled \<Rightarrow>
                           (Cancelled, (fail_span (S ''CancelledError'') st)
                             \<lparr>run_audit := close_pending_tools (run_audit st)\<rparr>))
                in \<lparr>end_of_run = r, final_state = Some (end_agent_span st1)\<rparr>)))"


section \<open>Lemmas: the context\<close>

lemma require_mapping_ok: "require_mapping v path = Inr d \<longleftrightarrow> v = PDict d"
  by (cases v) (auto simp: require_mapping_def)

lemma require_str_ok: "require_non_empty_str v path = Inr s \<longleftrightarrow> v = PStr s \<and> strip s \<noteq> []"
  by (cases v) (auto simp: require_non_empty_str_def)

text \<open>What the operator has to give for an approved remediation.\<close>

definition named :: "pydict \<Rightarrow> string \<Rightarrow> bool" where
  "named d k \<longleftrightarrow> (case dgetn d (S k) of PStr s \<Rightarrow> strip s \<noteq> [] | _ \<Rightarrow> False)"

definition complete_action :: "pyval \<Rightarrow> bool" where
  "complete_action a \<longleftrightarrow> (case a of PDict d \<Rightarrow> named d ''type'' \<and> named d ''description'' | _ \<Rightarrow> False)"

definition shown_action :: "pyval \<Rightarrow> pystr" where
  "shown_action a =
     (case a of
        PDict d \<Rightarrow> action_text (py_str (dgetn d (S ''type''))) (dgetn d (S ''command''))
          (py_str (dgetn d (S ''description'')))
      | _ \<Rightarrow> [])"

lemma namedE: "named d k \<longleftrightarrow> (\<exists>s. dgetn d (S k) = PStr s \<and> strip s \<noteq> [])"
  by (auto simp: named_def split: pyval.split)

lemma action_line_ok: "action_line (j, a) = Inr t \<longleftrightarrow> complete_action a \<and> t = shown_action a"
  by (cases a) (auto simp: action_line_def complete_action_def shown_action_def namedE require_str_ok result_simps)

lemma action_lines_map:
  "mapE action_line (List.enumerate n xs) = Inr ys \<longleftrightarrow> (\<forall>x \<in> set xs. complete_action x) \<and> ys = map shown_action xs"
  by (induction xs arbitrary: n ys) (auto simp: action_line_ok result_simps)

text \<open>The block of the approved option, as the agent reads it.\<close>

definition approval_block :: "pystr \<Rightarrow> pystr \<Rightarrow> pydict \<Rightarrow> pyval list \<Rightarrow> pystr list" where
  "approval_block title root_cause plan actions =
     [[], S ''=== APPROVED REMEDIATION (execute ONLY these actions) ==='',
      S ''Title: '' @ title, S ''Diagnosis: '' @ root_cause,
      S ''Plan: '' @ py_str (dgetn plan (S ''description'')),
      S ''Reversible: '' @ py_str (case dget plan (S ''reversible'') of Some r \<Rightarrow> r | None \<Rightarrow> PStr (S ''unknown''))]
     @ (if actions = [] then [] else S ''Actions to execute:'' # map shown_action actions)
     @ [S ''=== DO NOT perform any actions beyond what is listed above ==='', []]"

lemma action_lines_ok:
  "action_lines plan = Inr ls \<Longrightarrow>
    \<exists>actions. (if truthy (dgetn plan (S ''actions'')) then dgetn plan (S ''actions'') = PList actions else actions = []) \<and>
      (\<forall>a \<in> set actions. complete_action a) \<and>
      ls = (if actions = [] then [] else S ''Actions to execute:'' # map shown_action actions)"
  by (auto simp: action_lines_def Let_def result_simps action_lines_map
      split: if_split_asm pyval.split_asm)

lemma approved_lines_ok:
  assumes "approved_lines context = Inr ls" "dgetn context (S ''approvedOption'') \<noteq> PNone"
  obtains opt title diagnosis root_cause plan actions where
    "dgetn context (S ''approvedOption'') = PDict opt"
    "dgetn opt (S ''title'') = PStr title" "strip title \<noteq> []"
    "dgetn opt (S ''diagnosis'') = PDict diagnosis"
    "dgetn diagnosis (S ''rootCause'') = PStr root_cause" "strip root_cause \<noteq> []"
    "dgetn opt (S ''remediationPlan'') = PDict plan" "named plan ''description''"
    "if truthy (dgetn plan (S ''actions'')) then dgetn plan (S ''actions'') = PList actions else actions = []"
    "\<forall>a \<in> set actions. complete_action a"
    "ls = approval_block title root_cause plan actions"
proof -
  obtain opt where opt: "dgetn context (S ''approvedOption'') = PDict opt"
    using assms by (auto simp: approved_lines_def approved_option_lines_def require_mapping_ok result_simps Let_def)
  show ?thesis
    using assms(1) opt that
    by (auto simp: approved_lines_def approved_option_lines_def require_mapping_ok require_str_ok result_simps
        namedE approval_block_def Let_def dest!: action_lines_ok)
qed

lemma join_append: "xs \<noteq> [] \<Longrightarrow> ys \<noteq> [] \<Longrightarrow> join sep (xs @ ys) = join sep xs @ sep @ join sep ys"
proof (induction xs)
  case (Cons x xs)
  then show ?case by (cases xs; cases ys) auto
qed simp

lemma context_error_class [simp]: "exn_class (context_error m) = CContextFormatError"
  by (simp add: context_error_def)

lemma require_error:
  "require_mapping v path = Inl e \<Longrightarrow> exn_class e = CContextFormatError"
  "require_non_empty_str v path = Inl e \<Longrightarrow> exn_class e = CContextFormatError"
  by (auto simp: require_mapping_def require_non_empty_str_def split: pyval.split_asm if_split_asm)

lemma line_error:
  "previous_attempt_line ie = Inl e \<Longrightarrow> exn_class e = CContextFormatError"
  "action_line ie = Inl e \<Longrightarrow> exn_class e = CContextFormatError"
  by (cases ie; auto simp: previous_attempt_line_def action_line_def result_simps dest: require_error
      split: pyval.split_asm if_split_asm)+

lemma lines_error:
  "namespace_lines c = Inl e \<Longrightarrow> exn_class e = CContextFormatError"
  "previous_lines c = Inl e \<Longrightarrow> exn_class e = CContextFormatError"
  "action_lines c = Inl e \<Longrightarrow> exn_class e = CContextFormatError"
  by (auto simp: namespace_lines_def previous_lines_def action_lines_def result_simps Let_def
      dest!: mapE_error dest: line_error split: pyval.split_asm if_split_asm)

lemma approved_error: "approved_lines c = Inl e \<Longrightarrow> exn_class e = CContextFormatError"
  by (auto simp: approved_lines_def approved_option_lines_def Let_def result_simps
      dest: require_error lines_error split: if_split_asm)

lemma prefix_error: "format_context_prefix c = Inl e \<Longrightarrow> exn_class e = CContextFormatError"
  by (auto simp: format_context_prefix_def result_simps dest: lines_error approved_error)


section \<open>Lemmas: the run\<close>

lemma still_open_start [simp]: "still_open (start_agent_span cfg p)"
  by (simp add: start_agent_span_def set_json_span_attribute_def) (simp add: still_open_def)

lemma still_open_choice [simp]: "still_open (choice_event cfg k b s) \<longleftrightarrow> still_open s"
  by (simp add: choice_event_def)

lemma flush_span_open:
  "flush_buffers cfg st (Some s) = (st1, sp) \<Longrightarrow> \<exists>s'. sp = Some s' \<and> (still_open s' \<longleftrightarrow> still_open s)"
  by (auto simp: flush_buffers_def Let_def split: if_split_asm)

lemma process_event_span_open:
  "process_event cfg e st (Some s) = (st1, sp) \<Longrightarrow> \<exists>s'. sp = Some s' \<and> (still_open s' \<longleftrightarrow> still_open s)"
  by (cases e) (auto dest!: flush_span_open split: prod.split_asm)

definition balanced :: "audit_state \<Rightarrow> bool" where
  "balanced st \<longleftrightarrow> (\<exists>n. audit_inv n st)"

lemma process_event_balanced:
  "process_event cfg e st sp = (st1, sp1) \<Longrightarrow> balanced st \<Longrightarrow> balanced st1"
proof -
  assume p: "process_event cfg e st sp = (st1, sp1)" and "balanced st"
  then obtain n where n: "audit_inv n st" by (auto simp: balanced_def)
  show ?thesis
  proof (cases "capture_tool_spans cfg")
    case True
    then show ?thesis using process_event_inv [OF _ n p] by (auto simp: balanced_def)
  next
    case False
    then have "audit_inv n st1" using p n by (cases e) (auto dest!: flush_spans split: prod.split_asm)
    then show ?thesis by (auto simp: balanced_def)
  qed
qed

definition open_run :: "run_state \<Rightarrow> bool" where
  "open_run st \<longleftrightarrow> still_open (run_span st) \<and> balanced (run_audit st)"

definition closed_run :: "run_state \<Rightarrow> bool" where
  "closed_run st \<longleftrightarrow>
     open_run st \<and> tool_spans (run_audit st) = [] \<and> (\<forall>s \<in> set (closed_spans (run_audit st)). ended_once s)"

lemma take_event_open: "open_run st \<Longrightarrow> open_run (take_event cfg e st)"
proof -
  assume st: "open_run st"
  obtain au sp where p: "process_event (rc_audit cfg) e (run_audit st) (Some (run_span st)) = (au, sp)" by fastforce
  obtain s where s: "sp = Some s" "still_open s"
    using process_event_span_open [OF p] st by (auto simp: open_run_def)
  have "balanced au" using process_event_balanced [OF p] st by (simp add: open_run_def)
  then show ?thesis using p s
    by (auto simp: take_event_def open_run_def Let_def split: prod.split provider_event.split)
qed

lemma take_events_open: "open_run st \<Longrightarrow> open_run (take_events cfg es st)"
  by (induction es arbitrary: st) (simp_all add: Let_def take_event_open)

lemma fail_span_open [simp]: "open_run (fail_span t st) \<longleftrightarrow> open_run st"
  by (simp add: fail_span_def open_run_def)

lemma flush_log_open [simp]: "open_run (flush_log st) \<longleftrightarrow> open_run st"
  by (simp add: flush_log_def open_run_def case_prod_beta)

lemma usage_open: "still_open (usage_attributes i out r s) \<longleftrightarrow> still_open s"
  by (simp add: usage_attributes_def Let_def)

lemma close_pending_balanced:
  assumes "balanced st"
  shows "balanced (close_pending_tools st) \<and> tool_spans (close_pending_tools st) = [] \<and>
    (\<forall>s \<in> set (closed_spans (close_pending_tools st)). ended_once s)"
proof -
  obtain n where n: "audit_inv n st" using assms by (auto simp: balanced_def)
  then show ?thesis using close_pending_ends [OF n] close_pending_inv [OF n] by (auto simp: balanced_def)
qed

lemma complete_run_closed: "open_run st \<Longrightarrow> closed_run (complete_run cfg i out r st)"
proof -
  assume st: "open_run st"
  obtain au sp where f: "flush_buffers (rc_audit cfg) (run_audit st) (Some (run_span st)) = (au, sp)" by fastforce
  obtain s where s: "sp = Some s" "still_open s" using flush_span_open [OF f] st by (auto simp: open_run_def)
  have "balanced au" using flush_spans [OF f] st by (auto simp: open_run_def balanced_def)
  from close_pending_balanced [OF this] show ?thesis
    using f s by (simp add: complete_run_def complete_audit_def closed_run_def open_run_def usage_open)
qed

lemma failed_run_closed: "open_run st \<Longrightarrow> closed_run (snd (failed_run cfg e st))"
  by (simp add: failed_run_def Let_def complete_run_closed)

lemma finished_run_cases:
  assumes "open_run st" "finished_run cfg st = (r, st1)"
  obtains (returned) "closed_run st1" "\<exists>res. r = Returned res"
  | (escapes) ev where "st1 = st" "run_final st = Some ev" "json_loads (ev_text ev) = Inl int_limit_error"
      "r = Raised int_limit_error"
proof -
  have "decode_error \<noteq> int_limit_error" "exn_class decode_error = CJSONDecodeError"
    by (simp_all add: decode_error_def int_limit_error_def)
  then have "closed_run st1 \<and> (\<exists>res. r = Returned res) \<or>
      (\<exists>ev. st1 = st \<and> run_final st = Some ev \<and> json_loads (ev_text ev) = Inl int_limit_error \<and>
        r = Raised int_limit_error)"
    using assms
    by (auto simp: finished_run_def Let_def complete_run_closed dest: json_loads_error
        split: option.split_asm if_split_asm sum.split_asm pyval.split_asm)
  then show thesis using that by blast
qed

text \<open>The shapes of a run.\<close>

definition valid_tokens :: "run_config \<Rightarrow> bool" where
  "valid_tokens cfg \<longleftrightarrow> py_int16 (rc_trace_token cfg) \<noteq> None \<and> py_int16 (rc_span_token cfg) \<noteq> None"

definition started_run :: "run_config \<Rightarrow> pystr \<Rightarrow> run_state" where
  "started_run cfg p =
     \<lparr>run_span = start_agent_span cfg p, run_log = initial_log, run_lines = [],
      run_audit = initial_audit, run_final = None\<rparr>"

lemma started_run_open: "open_run (started_run cfg p)"
  using initial_audit_inv(1) by (auto simp: open_run_def started_run_def balanced_def)

lemma traceparent_ok: "valid_tokens cfg \<Longrightarrow> \<exists>x. parse_traceparent (rc_trace_token cfg) (rc_span_token cfg) h = Inr x"
  by (auto simp: parse_traceparent_def generate_trace_id_def valid_tokens_def Let_def split: option.split)

text \<open>A run that reaches the provider, as the composition of its stages.\<close>

definition run_stages :: "run_config \<Rightarrow> run_state \<Rightarrow> stream_end \<Rightarrow> run_end \<times> run_state" where
  "run_stages cfg st ending =
     (if run_final st \<noteq> None then finished_run cfg st
      else case ending of
        StreamEnds \<Rightarrow> finished_run cfg st
      | StreamRaises e \<Rightarrow> failed_run cfg e st
      | StreamCancelled \<Rightarrow>
          (Cancelled, (fail_span (S ''CancelledError'') st)\<lparr>run_audit := close_pending_tools (run_audit st)\<rparr>))"

lemma run_agent_query_stages:
  assumes "query_prompt context prompt = Inr p" "valid_tokens cfg" "provider p = (events, ending)"
    and "run_stages cfg (take_events cfg events (started_run cfg p)) ending = (r, st)"
  shows "run_agent_query cfg context prompt provider = \<lparr>end_of_run = r, final_state = Some (end_agent_span st)\<rparr>"
  using assms traceparent_ok [OF assms(2), of "rc_traceparent cfg"]
  by (auto simp: run_agent_query_def run_stages_def started_run_def Let_def)

lemma run_agent_query_cases:
  assumes "valid_tokens cfg"
  obtains (refused) e where "query_prompt context prompt = Inl e"
      "run_agent_query cfg context prompt provider = \<lparr>end_of_run = Returned (failed_result (exn_msg e)), final_state = None\<rparr>"
  | (run) p events ending r st where "query_prompt context prompt = Inr p" "provider p = (events, ending)"
      "run_stages cfg (take_events cfg events (started_run cfg p)) ending = (r, st)"
      "run_agent_query cfg context prompt provider = \<lparr>end_of_run = r, final_state = Some (end_agent_span st)\<rparr>"
proof (cases "query_prompt context prompt")
  case (Inl e)
  then show thesis by (intro refused [of e]) (simp_all add: run_agent_query_def)
next
  case (Inr p)
  obtain events ending where pr: "provider p = (events, ending)" by fastforce
  obtain r st where s: "run_stages cfg (take_events cfg events (started_run cfg p)) ending = (r, st)" by fastforce
  show thesis by (rule run [OF Inr pr s])
    (rule run_agent_query_stages [where provider = provider, OF Inr assms pr s])
qed

lemma run_stages_closed:
  assumes "open_run st0" "run_stages cfg st0 ending = (r, st)"
  shows "closed_run st \<or> (r = Raised int_limit_error \<and> st = st0)"
proof -
  have f: "finished_run cfg st0 = (r, st) \<Longrightarrow> ?thesis"
    by (rule finished_run_cases [OF assms(1)]) auto
  have e: "failed_run cfg e st0 = (r, st) \<Longrightarrow> ?thesis" for e
    using failed_run_closed [OF assms(1), of cfg e] by simp
  have c: "closed_run ((fail_span t st0)\<lparr>run_audit := close_pending_tools (run_audit st0)\<rparr>)" for t
  proof -
    have "open_run (fail_span t st0)" using assms(1) by simp
    then show ?thesis using close_pending_balanced [of "run_audit st0"] assms(1)
      by (auto simp: closed_run_def open_run_def)
  qed
  show ?thesis using assms(2) f e c [of "S ''CancelledError''"]
    by (auto simp: run_stages_def split: if_split_asm stream_end.split_asm)
qed

text \<open>What a returned output always has.\<close>

definition well_formed_output :: "agent_result \<Rightarrow> bool" where
  "well_formed_output res \<longleftrightarrow>
     has_key (out_dict res) (S ''success'') \<and> has_key (out_dict res) (S ''summary'') \<and> keys_distinct (out_dict res)"

lemma success_summary: "S ''success'' \<noteq> S ''summary''"
  by (simp add: S_def)

lemma failed_well_formed [simp]: "well_formed_output (failed_result m)"
  using success_summary by (simp add: well_formed_output_def failed_result_def keys_distinct_def)

lemma json_output_well_formed:
  "keys_distinct parsed \<Longrightarrow> keys_distinct (json_output parsed t) \<and>
    has_key (json_output parsed t) (S ''success'') \<and> has_key (json_output parsed t) (S ''summary'')"
  using success_summary by (auto simp: json_output_def keys_distinct_def distinct_map_filter)

lemma finished_well_formed: "finished_run cfg st = (Returned res, st1) \<Longrightarrow> well_formed_output res"
  using success_summary json_output_well_formed json_loads_wf
  by (fastforce simp: finished_run_def Let_def well_formed_output_def keys_distinct_def
      split: option.split_asm if_split_asm sum.split_asm pyval.split_asm)

lemma run_stages_output:
  "run_stages cfg st ending = (Returned res, st1) \<Longrightarrow> well_formed_output res"
  by (auto simp: run_stages_def failed_run_def Let_def well_formed_output_def
      dest: finished_well_formed split: if_split_asm stream_end.split_asm)
    (use failed_well_formed in \<open>auto simp: well_formed_output_def\<close>)


text \<open>How a stage ends, and a provider that never gives a result.\<close>

lemma finished_run_end:
  assumes "finished_run cfg st = (r, st1)"
  shows "r \<noteq> Cancelled \<and> (\<forall>e. r = Raised e \<longrightarrow> e = int_limit_error)"
proof -
  have "exn_class decode_error = CJSONDecodeError" by (simp add: decode_error_def)
  then show ?thesis using assms
    by (auto simp: finished_run_def Let_def dest: json_loads_error
        split: option.split_asm if_split_asm sum.split_asm pyval.split_asm)
qed

lemma run_stages_end:
  assumes "run_stages cfg st0 ending = (r, st)"
  shows "r = Raised e \<Longrightarrow> e = int_limit_error \<or>
      (exn_class e = CToolResultSafetyInspectionFailed \<and> ending = StreamRaises e)"
    and "r = Cancelled \<Longrightarrow> ending = StreamCancelled"
  using assms finished_run_end [of cfg st0 r st]
  by (auto simp: run_stages_def failed_run_def Let_def split: if_split_asm stream_end.split_asm)

lemma take_events_silent: "filter is_result events = [] \<Longrightarrow> run_final (take_events cfg events st) = run_final st"
  by (induction events arbitrary: st)
    (auto simp: Let_def take_event_def split: prod.split provider_event.split if_split_asm)

lemma silent_run_fails:
  assumes "run_stages cfg (take_events cfg events (started_run cfg p)) ending = (Returned res, st)"
    and "filter is_result events = []"
  shows "dget (out_dict res) (S ''success'') = Some (PBool False)"
  using assms take_events_silent [OF assms(2), of cfg "started_run cfg p"]
  by (auto simp: started_run_def run_stages_def finished_run_def failed_run_def failed_result_def Let_def
      split: if_split_asm stream_end.split_asm)


lemma take_events_first:
  "find is_result events = Some (ResultEvent ev) \<Longrightarrow> run_final (take_events cfg events st) = Some ev"
  by (induction events arbitrary: st)
    (auto simp: Let_def take_event_def split: prod.split provider_event.split if_split_asm)

text \<open>The output of a reply.\<close>

definition reply_output :: "pystr \<Rightarrow> pydict" where
  "reply_output t =
     (case json_loads t of
        Inr (PDict d) \<Rightarrow> json_output d t
      | _ \<Rightarrow> [(S ''success'', PBool True), (S ''summary'', PStr t)])"

lemma finished_run_reply:
  assumes "finished_run cfg st = (r, st1)" "run_final st = Some ev" "ev_text ev \<noteq> []"
    and "json_loads (ev_text ev) \<noteq> Inl int_limit_error"
  shows "r = Returned \<lparr>out_dict = reply_output (ev_text ev), out_input_tokens = ev_input_tokens ev,
    out_output_tokens = ev_output_tokens ev, timed_out = False\<rparr>"
proof -
  have "json_loads (ev_text ev) = Inl e \<Longrightarrow> exn_class e = CJSONDecodeError" for e
    using assms(4) json_loads_error [of "ev_text ev" e] by (auto simp: decode_error_def)
  then show ?thesis using assms(1-3)
    by (auto simp: finished_run_def reply_output_def Let_def split: sum.split_asm pyval.split_asm if_split_asm)
qed

lemma dget_json_output:
  "dget (json_output d t) k =
    (if has_key d k then dget d k
     else if k = S ''success'' then Some (PBool True)
     else if k = S ''summary'' then Some (PStr t) else None)"
proof -
  have "dget (filter (\<lambda>kv. fst kv \<noteq> S ''success'' \<and> fst kv \<noteq> S ''summary'') d) k =
      (if k = S ''success'' \<or> k = S ''summary'' then None else dget d k)"
    by (induction d) auto
  then show ?thesis using success_summary
    by (auto simp: json_output_def split: option.split)
qed


section \<open>Properties\<close>


definition sample_run :: run_config where
  "sample_run = \<lparr>rc_model = S ''m'', rc_system_prompt = [], rc_json_output = True, rc_timeout = 60,
     rc_audit = sample_audit, rc_traceparent = None, rc_trace_token = hex_pad 32 171, rc_span_token = hex_pad 16 205,
     rc_elapsed = S ''60.0''\<rparr>"

definition sample_provider :: "pystr \<Rightarrow> provider_event list \<times> stream_end" where
  "sample_provider p = (sample_events, StreamRaises (Exn CTimeoutError []))"

lemma sample_tokens: "valid_tokens sample_run"
  using py_int16_hex_pad [of 32 171] py_int16_hex_pad [of 16 205]
  by (simp add: valid_tokens_def sample_run_def)




text \<open>
  C15. The first result decides. When a run of an accepted context sees a result event with a text, whatever comes
  after it, the output is a function of that text: a JSON object gives all of its members, with
  \<open>success\<close> defaulting to true and \<open>summary\<close> to the whole text; any other text is a successful output
  with the text as its summary. The token counts are those of the event.
\<close>

theorem first_result_decides:
  assumes "valid_tokens cfg" "query_prompt context prompt = Inr p" "provider p = (events, ending)"
    and "find is_result events = Some (ResultEvent ev)" "ev_text ev \<noteq> []"
    and "json_loads (ev_text ev) \<noteq> Inl int_limit_error"
  shows "\<exists>res. end_of_run (run_agent_query cfg context prompt provider) = Returned res \<and>
    out_input_tokens res = ev_input_tokens ev \<and> out_output_tokens res = ev_output_tokens ev \<and> \<not> timed_out res \<and>
    (\<forall>k. dget (out_dict res) k =
      (case json_loads (ev_text ev) of
         Inr (PDict d) \<Rightarrow>
           (if has_key d k then dget d k
            else if k = S ''success'' then Some (PBool True)
            else if k = S ''summary'' then Some (PStr (ev_text ev)) else None)
       | _ \<Rightarrow>
           (if k = S ''success'' then Some (PBool True)
            else if k = S ''summary'' then Some (PStr (ev_text ev)) else None)))"
proof -
  define st where "st = take_events cfg events (started_run cfg p)"
  have f: "run_final st = Some ev" unfolding st_def by (rule take_events_first [OF assms(4)])
  obtain r st1 where s: "finished_run cfg st = (r, st1)" by fastforce
  then have "run_stages cfg st ending = (r, st1)" using f by (simp add: run_stages_def)
  then have e: "end_of_run (run_agent_query cfg context prompt provider) = r"
    using run_agent_query_stages [where provider = provider, OF assms(2,1,3)] by (simp add: st_def)
  show ?thesis unfolding e finished_run_reply [OF s f assms(5,6)] using success_summary
    by (intro exI conjI allI)
      (auto simp: reply_output_def dget_json_output split: sum.split pyval.split)
qed

lemma first_result_decides_witness:
  "\<exists>res. end_of_run (run_agent_query sample_run None (S ''q'')
      (\<lambda>p. ([ResultEvent \<lparr>ev_text = S ''ok'', ev_input_tokens = 1, ev_output_tokens = 2, ev_reasoning_tokens = 0,
                          ev_response_model = []\<rparr>], StreamEnds))) = Returned res \<and>
    dget (out_dict res) (S ''summary'') = Some (PStr (S ''ok''))"
proof -
  let ?ev = "\<lparr>ev_text = S ''ok'', ev_input_tokens = 1, ev_output_tokens = 2, ev_reasoning_tokens = 0,
    ev_response_model = []\<rparr>"
  have j: "json_loads (S ''ok'') = Inl decode_error" by code_simp
  have "decode_error \<noteq> int_limit_error" by (simp add: decode_error_def int_limit_error_def)
  then show ?thesis
    using first_result_decides [OF sample_tokens, of None "S ''q''" "S ''q''"
        "\<lambda>p. ([ResultEvent ?ev], StreamEnds)" "[ResultEvent ?ev]" StreamEnds ?ev] j success_summary
    by (auto simp: query_prompt_def)
qed

text \<open>
  C16. An approved option reaches the agent whole or not at all. When the context names an approved
  option and the provider is queried, the option has a title, a root cause, a plan with a
  description, and actions that are all objects with a type and a description; and the prompt shows,
  on consecutive lines between the two markers, exactly these actions in their order.
\<close>

theorem approved_option_is_complete:
  assumes "query_prompt (Some c) prompt = Inr p" "dgetn c (S ''approvedOption'') \<noteq> PNone"
  shows "\<exists>opt title diagnosis root_cause plan actions pre post.
    dgetn c (S ''approvedOption'') = PDict opt \<and>
    dgetn opt (S ''title'') = PStr title \<and> strip title \<noteq> [] \<and>
    dgetn opt (S ''diagnosis'') = PDict diagnosis \<and>
    dgetn diagnosis (S ''rootCause'') = PStr root_cause \<and> strip root_cause \<noteq> [] \<and>
    dgetn opt (S ''remediationPlan'') = PDict plan \<and> named plan ''description'' \<and>
    (if truthy (dgetn plan (S ''actions'')) then dgetn plan (S ''actions'') = PList actions else actions = []) \<and>
    (\<forall>a \<in> set actions. complete_action a) \<and>
    p = pre @ [10] @ join [10] (approval_block title root_cause plan actions) @ [10] @ post"
proof -
  have "c \<noteq> []" using assms(2) by (auto simp: dgetn_def)
  then obtain prefix where f: "format_context_prefix c = Inr prefix" "p = prefix @ [10, 10] @ prompt"
    using assms(1) by (auto simp: query_prompt_def result_simps)
  obtain l1 l2 l3 where l: "approved_lines c = Inr l3"
      "prefix = join [10] ((S ''[context]'' # l1 @ attempt_lines c @ l2) @ l3 @ [S ''[/context]''])"
    using f(1) by (auto simp: format_context_prefix_def result_simps)
  obtain opt title diagnosis root_cause plan actions where a:
    "dgetn c (S ''approvedOption'') = PDict opt"
    "dgetn opt (S ''title'') = PStr title" "strip title \<noteq> []"
    "dgetn opt (S ''diagnosis'') = PDict diagnosis"
    "dgetn diagnosis (S ''rootCause'') = PStr root_cause" "strip root_cause \<noteq> []"
    "dgetn opt (S ''remediationPlan'') = PDict plan" "named plan ''description''"
    "if truthy (dgetn plan (S ''actions'')) then dgetn plan (S ''actions'') = PList actions else actions = []"
    "\<forall>a \<in> set actions. complete_action a"
    "l3 = approval_block title root_cause plan actions"
    by (rule approved_lines_ok [OF l(1) assms(2)])
  have "l3 \<noteq> []" using a(11) by (simp add: approval_block_def)
  then have "p = join [10] (S ''[context]'' # l1 @ attempt_lines c @ l2) @ [10] @ join [10] l3 @ [10] @
      (S ''[/context]'' @ [10, 10] @ prompt)"
    using l(2) f(2) by (simp add: join_append del: append_Cons)
  with a show ?thesis by blast
qed

definition sample_context :: pydict where
  "sample_context =
     [(S ''approvedOption'', PDict
        [(S ''title'', PStr (S ''t'')), (S ''diagnosis'', PDict [(S ''rootCause'', PStr (S ''r''))]),
         (S ''remediationPlan'', PDict [(S ''description'', PStr (S ''d''))])])]"

lemma approved_option_is_complete_witness:
  "\<exists>plan pre post. query_prompt (Some sample_context) (S ''q'') =
     Inr (pre @ [10] @ join [10] (approval_block (S ''t'') (S ''r'') plan []) @ [10] @ post)"
proof -
  have "is_ok (query_prompt (Some sample_context) (S ''q''))" by code_simp
  then obtain p where p: "query_prompt (Some sample_context) (S ''q'') = Inr p" by (auto simp: is_ok_iff)
  have g: "dgetn sample_context (S ''approvedOption'') = PDict
        [(S ''title'', PStr (S ''t'')), (S ''diagnosis'', PDict [(S ''rootCause'', PStr (S ''r''))]),
         (S ''remediationPlan'', PDict [(S ''description'', PStr (S ''d''))])]"
    by (simp add: sample_context_def dgetn_def)
  have k: "S ''title'' \<noteq> S ''diagnosis''" "S ''title'' \<noteq> S ''remediationPlan''" "S ''diagnosis'' \<noteq> S ''remediationPlan''"
    "S ''description'' \<noteq> S ''actions''"
    by (simp_all add: S_def)
  show ?thesis using approved_option_is_complete [OF p] g k
    by (auto simp: p dgetn_def)
qed

end
