(* ===== verification/Tls.thy ===== *)
theory Tls
  imports PyJson PyWorld
begin

text \<open>
  \<open>tls.py\<close>: the TLS settings of the operator, the bundle of trusted certificates, and the context that
  the HTTP clients share. OpenSSL and the temporary file are parameters (\<open>tls_env\<close>); PEM and base64 are
  those of the standard library. Proved: what a successful configuration trusts and enforces,
  that a failing one changes neither environment nor context, and that a certificate the platform
  lists passes the validation once it is rendered as PEM.
\<close>

section \<open>Settings\<close>

datatype tls_version = TLSv1 | TLSv1_1 | TLSv1_2 | TLSv1_3

definition TLS_VERSION_NAMES :: "tls_version dict" where
  "TLS_VERSION_NAMES =
     [(S ''VersionTLS10'', TLSv1), (S ''VersionTLS11'', TLSv1_1),
      (S ''VersionTLS12'', TLSv1_2), (S ''VersionTLS13'', TLSv1_3)]"

definition TLS13_CIPHER_NAMES :: "pystr list" where
  "TLS13_CIPHER_NAMES =
     [S ''TLS_AES_128_CCM_SHA256'', S ''TLS_AES_128_CCM_8_SHA256'', S ''TLS_AES_128_GCM_SHA256'',
      S ''TLS_AES_256_GCM_SHA384'', S ''TLS_CHACHA20_POLY1305_SHA256'']"

definition TLS_MOUNT_ROOT :: pystr where
  "TLS_MOUNT_ROOT = S ''/var/run/secrets/lightspeed/tls''"

definition SERVICE_ACCOUNT_CA :: pystr where
  "SERVICE_ACCOUNT_CA = S ''/var/run/secrets/kubernetes.io/serviceaccount/ca.crt''"

text \<open>The part of an \<open>ssl.SSLContext\<close> that the code sets.\<close>

record ssl_context =
  context_cafile :: "pystr option"
  context_minimum :: "tls_version option"
  context_ciphers :: "pystr option"
  context_ciphersuites :: "pystr option"

record tls_config =
  tls_profile :: "pystr option"
  tls_minimum :: "tls_version option"
  cipher_suites :: "pystr list"
  ca_bundle_path :: "pystr option"
  config_context :: "ssl_context option"

definition str_items :: "pyval list \<Rightarrow> pystr list option" where
  "str_items vs =
     (if \<forall>v \<in> set vs. is_str v then Some (map (\<lambda>v. case v of PStr s \<Rightarrow> s | _ \<Rightarrow> []) vs) else None)"

definition parse_tls_config :: "world \<Rightarrow> tls_config result" where
  "parse_tls_config w =
     (let version_name = env_strip w (S ''LIGHTSPEED_TLS_MIN_VERSION'');
          cipher_value = env_strip w (S ''LIGHTSPEED_TLS_CIPHER_SUITES'')
      in bindE
        (if version_name = [] then Inr None
         else case dget TLS_VERSION_NAMES version_name of
                Some v \<Rightarrow> Inr (Some v)
              | None \<Rightarrow> Inl (ValueError (S ''Unsupported LIGHTSPEED_TLS_MIN_VERSION '' @ repr_str version_name
                  @ S ''; expected one of: '' @ join (S '', '') (map fst TLS_VERSION_NAMES)))) (\<lambda>min_version.
        bindE
        (if cipher_value = [] then Inr []
         else case json_loads cipher_value of
                Inl e \<Rightarrow>
                  if exn_class e = CJSONDecodeError
                  then Inl (ValueError (S ''LIGHTSPEED_TLS_CIPHER_SUITES must be valid JSON'')) else Inl e
              | Inr (PList vs) \<Rightarrow>
                  (case str_items vs of
                     Some cs \<Rightarrow> Inr cs
                   | None \<Rightarrow> Inl (ValueError (S ''LIGHTSPEED_TLS_CIPHER_SUITES must be a JSON array of strings'')))
              | Inr _ \<Rightarrow> Inl (ValueError (S ''LIGHTSPEED_TLS_CIPHER_SUITES must be a JSON array of strings''))) (\<lambda>suites.
          Inr \<lparr>tls_profile = or_none (env_strip w (S ''LIGHTSPEED_TLS_PROFILE'')), tls_minimum = min_version,
               cipher_suites = suites, ca_bundle_path = None, config_context = None\<rparr>)))"


section \<open>Certificates\<close>

text \<open>
  \<open>root.rglob("*")\<close>: everything below a directory, unreadable directories skipped. A path has at most
  4096 bytes on the platform, so 2048 levels are enough.
\<close>

fun below :: "nat \<Rightarrow> world \<Rightarrow> pystr \<Rightarrow> pystr list" where
  "below 0 w d = []"
| "below (Suc depth) w d =
     (case files w d of
        Some (Directory names) \<Rightarrow>
          concat (map (\<lambda>n. path_join d n # below depth w (path_join d n)) names)
      | _ \<Rightarrow> [])"

definition max_depth :: nat where
  "max_depth = 2048"

text \<open>\<open>Path.suffix\<close>: from the last dot of the name, unless the dot is its first or last character.\<close>

definition path_suffix :: "pystr \<Rightarrow> pystr" where
  "path_suffix p =
     (let name = last (split_on 47 p);
          ext = rev (takeWhile (\<lambda>c. c \<noteq> 46) (rev name))
      in if ext = [] \<or> length name \<le> Suc (length ext) then [] else 46 # ext)"

definition discover_ca_files :: "world \<Rightarrow> pystr \<Rightarrow> pystr list" where
  "discover_ca_files w root =
     (if \<not> path_is_dir w root then []
      else sort_key (split_on 47)
        (filter (\<lambda>p. path_is_file w p \<and> lower (path_suffix p) \<in> {S ''.crt'', S ''.pem''})
          (below max_depth w root)))"

definition PEM_HEADER :: "int list" where "PEM_HEADER = S ''-----BEGIN CERTIFICATE-----''"
definition PEM_FOOTER :: "int list" where "PEM_FOOTER = S ''-----END CERTIFICATE-----''"

text \<open>The bytes before the first occurrence of a pattern, and those after it.\<close>

fun break_at :: "int list \<Rightarrow> int list \<Rightarrow> (int list \<times> int list) option" where
  "break_at pat [] = (if pat = [] then Some ([], []) else None)"
| "break_at pat (c # s) =
     (if starts_with (c # s) pat then Some ([], drop (length pat) (c # s))
      else map_option (\<lambda>(a, b). (c # a, b)) (break_at pat s))"

lemma break_at_split: "break_at pat s = Some (a, b) \<Longrightarrow> s = a @ pat @ b"
  by (induction s arbitrary: a b)
    (auto simp: starts_with_def split: if_split_asm, metis append_take_drop_id)

text \<open>\<open>_CERTIFICATE_RE.findall\<close>, without the two marker lines.\<close>

function certificate_bodies :: "int list \<Rightarrow> int list list" where
  "certificate_bodies s =
     (case break_at PEM_HEADER s of
        None \<Rightarrow> []
      | Some (_, r) \<Rightarrow>
          (case break_at PEM_FOOTER r of
             None \<Rightarrow> [] | Some (body, r') \<Rightarrow> body # certificate_bodies r'))"
  by pat_completeness auto
termination
  by (relation "measure length") (auto dest!: break_at_split simp: PEM_HEADER_def)

declare certificate_bodies.simps [simp del]

definition is_b64 :: "int \<Rightarrow> bool" where
  "is_b64 c \<longleftrightarrow> (65 \<le> c \<and> c \<le> 90) \<or> (97 \<le> c \<and> c \<le> 122) \<or> (48 \<le> c \<and> c \<le> 57) \<or> c = 43 \<or> c = 47"

text \<open>
  \<open>base64.decodebytes\<close> accepts its input: characters outside the alphabet are skipped, and the groups of
  four are complete or padded, after which nothing more is read.
\<close>

fun b64_accepts :: "nat \<Rightarrow> nat \<Rightarrow> int list \<Rightarrow> bool" where
  "b64_accepts quad pads [] \<longleftrightarrow> quad = 0"
| "b64_accepts quad pads (c # cs) \<longleftrightarrow>
     (if c = 61 then
        (if 2 \<le> quad then (if 4 \<le> quad + Suc pads then True else b64_accepts quad (Suc pads) cs)
         else b64_accepts quad pads cs)
      else if is_b64 c then b64_accepts (Suc quad mod 4) 0 cs
      else b64_accepts quad pads cs)"

definition valid_certificate :: "int list \<Rightarrow> bool" where
  "valid_certificate body \<longleftrightarrow> (\<forall>b \<in> set body. b < 128) \<and> b64_accepts 0 0 body"

definition read_bytes :: "world \<Rightarrow> pystr \<Rightarrow> int list result" where
  "read_bytes w p =
     (case files w p of
        None \<Rightarrow> Inl (Exn CFileNotFoundError (S ''No such file or directory: '' @ repr_str p))
      | Some (RegularFile bs) \<Rightarrow> Inr bs
      | Some UnreadableFile \<Rightarrow> Inl (Exn COSError (S ''Permission denied: '' @ repr_str p))
      | Some _ \<Rightarrow> Inl (Exn COSError (S ''Is a directory: '' @ repr_str p)))"

definition validate_certificate_file :: "world \<Rightarrow> pystr \<Rightarrow> int list result" where
  "validate_certificate_file w p =
     (case read_bytes w p of
        Inl e \<Rightarrow> Inl (ValueError (S ''Unable to read CA certificate '' @ p @ S '': '' @ exn_msg e))
      | Inr content \<Rightarrow>
          (let certificates = certificate_bodies content
           in if certificates = []
              then Inl (ValueError (S ''CA file '' @ p @ S '' does not contain a PEM certificate''))
              else if \<exists>c \<in> set certificates. \<not> valid_certificate c
              then Inl (ValueError (S ''Malformed CA certificate in '' @ p))
              else Inr content))"

text \<open>\<open>ssl.DER_cert_to_PEM_cert\<close>: base64 in lines of 64 characters.\<close>

definition b64_char :: "int \<Rightarrow> int" where
  "b64_char n = (if n < 26 then 65 + n else if n < 52 then 71 + n else if n < 62 then n - 4
     else if n = 62 then 43 else 47)"

fun b64_encode :: "int list \<Rightarrow> int list" where
  "b64_encode [] = []"
| "b64_encode [a] = [b64_char (a div 4), b64_char (a mod 4 * 16), 61, 61]"
| "b64_encode [a, b] =
     [b64_char (a div 4), b64_char (a mod 4 * 16 + b div 16), b64_char (b mod 16 * 4), 61]"
| "b64_encode (a # b # c # r) =
     [b64_char (a div 4), b64_char (a mod 4 * 16 + b div 16), b64_char (b mod 16 * 4 + c div 64), b64_char (c mod 64)]
     @ b64_encode r"

function slices :: "int list \<Rightarrow> int list list" where
  "slices s = (if s = [] then [] else take 64 s # slices (drop 64 s))"
  by pat_completeness auto
termination
  by (relation "measure length") auto

declare slices.simps [simp del]

definition der_to_pem :: "int list \<Rightarrow> int list" where
  "der_to_pem der = join [10] (PEM_HEADER # slices (b64_encode der) @ [PEM_FOOTER @ [10]])"


section \<open>The bundle\<close>

text \<open>
  The environment of the module: the platform's default certificate file and, without one, its
  certificates; the errors of OpenSSL for a context, for cipher strings and (where the runtime has
  the method) for TLS 1.3 suites; the temporary file, the creation of its directory, and whether
  it can be written.
\<close>

record tls_env =
  default_cafile :: "pystr option"
  platform_certs :: "int list list result"
  context_error :: "pystr option \<Rightarrow> exn option"
  ciphers_error :: "pystr \<Rightarrow> exn option"
  ciphersuites_error :: "(pystr \<Rightarrow> exn option) option"
  temporary_file :: "pystr result"
  directory_error :: "exn option"
  write_error :: "pystr \<Rightarrow> exn option"

definition system_ca_bundle :: "tls_env \<Rightarrow> world \<Rightarrow> int list result" where
  "system_ca_bundle env w =
     (if truthy_str (default_cafile env)
      then (case read_bytes w (path_text (the (default_cafile env))) of
              Inl e \<Rightarrow> Inl (ValueError (S ''Unable to read system CA bundle ''
                @ path_text (the (default_cafile env)) @ S '': '' @ exn_msg e))
            | Inr bs \<Rightarrow> Inr bs)
      else bindE (platform_certs env) (\<lambda>certs.
        if certs = [] then Inl (ValueError (S ''Unable to locate the platform/system CA bundle''))
        else Inr (concat (map der_to_pem certs))))"

definition put_file :: "world \<Rightarrow> pystr \<Rightarrow> int list \<Rightarrow> world" where
  "put_file w p bs = w\<lparr>files := (files w)(p \<mapsto> RegularFile bs)\<rparr>"

text \<open>The temporary file exists (and stays) from \<open>mkstemp\<close> on.\<close>

definition open_output :: "tls_env \<Rightarrow> world \<Rightarrow> pystr option \<Rightarrow> world \<times> pystr result" where
  "open_output env w output_path =
     (case output_path of
        Some p \<Rightarrow> (w, Inr p)
      | None \<Rightarrow>
          (case temporary_file env of
             Inl e \<Rightarrow> (w, Inl e) | Inr p \<Rightarrow> (put_file w p [], Inr p)))"

definition mounted_certificates :: "world \<Rightarrow> pystr \<Rightarrow> int list list result" where
  "mounted_certificates w root =
     bindE (mapE (validate_certificate_file w) (discover_ca_files w root)) (\<lambda>mounted.
       if path_is_file w SERVICE_ACCOUNT_CA
       then bindE (validate_certificate_file w SERVICE_ACCOUNT_CA) (\<lambda>pod. Inr (pod # mounted))
       else Inr mounted)"

definition build_ca_bundle ::
  "tls_env \<Rightarrow> world \<Rightarrow> pystr \<Rightarrow> pystr option \<Rightarrow> world \<times> pystr option result"
where
  "build_ca_bundle env w root output_path =
     (if discover_ca_files w root = [] \<and> \<not> path_is_file w SERVICE_ACCOUNT_CA then (w, Inr None)
      else case bindE (mounted_certificates w root) (\<lambda>mounted.
                  bindE (system_ca_bundle env w) (\<lambda>sys. Inr (mounted, sys))) of
        Inl e \<Rightarrow> (w, Inl e)
      | Inr (mounted, sys) \<Rightarrow>
          (case open_output env w output_path of
             (w1, Inl e) \<Rightarrow> (w1, Inl e)
           | (w1, Inr p) \<Rightarrow>
               (case directory_error env of
                  Some e \<Rightarrow> (w1, Inl e)
                | None \<Rightarrow>
                    (case write_error env p of
                       Some e \<Rightarrow> (w1, Inl (ValueError (S ''Unable to write combined CA bundle '' @ p @ S '': '' @ exn_msg e)))
                     | None \<Rightarrow> (put_file w1 p (sys @ [10] @ join [10] mounted), Inr (Some p))))))"


section \<open>The context\<close>

definition is_tls13 :: "pystr \<Rightarrow> bool" where
  "is_tls13 c \<longleftrightarrow> c \<in> set TLS13_CIPHER_NAMES"

definition is_ssl_error :: "exn \<Rightarrow> bool" where
  "is_ssl_error e \<longleftrightarrow> exn_class e = COther (S ''SSLError'')"

definition create_ssl_context :: "tls_env \<Rightarrow> tls_config \<Rightarrow> ssl_context result" where
  "create_ssl_context env cfg =
     (case context_error env (ca_bundle_path cfg) of
        Some e \<Rightarrow> Inl e
      | None \<Rightarrow>
          (let tls13 = filter is_tls13 (cipher_suites cfg);
               legacy = filter (\<lambda>c. \<not> is_tls13 c) (cipher_suites cfg);
               c0 = \<lparr>context_cafile = ca_bundle_path cfg, context_minimum = tls_minimum cfg,
                     context_ciphers = None, context_ciphersuites = None\<rparr>
           in bindE
             (if legacy = [] then Inr c0
              else case ciphers_error env (join [58] legacy) of
                     None \<Rightarrow> Inr (c0\<lparr>context_ciphers := Some (join [58] legacy)\<rparr>)
                   | Some e \<Rightarrow> if is_ssl_error e
                               then Inl (ValueError (S ''Invalid TLS cipher suite configuration'')) else Inl e) (\<lambda>c1.
             if tls13 = [] then Inr c1
             else case ciphersuites_error env of
                    None \<Rightarrow> Inr c1
                  | Some check \<Rightarrow>
                      (case check (join [58] tls13) of
                         None \<Rightarrow> Inr (c1\<lparr>context_ciphersuites := Some (join [58] tls13)\<rparr>)
                       | Some e \<Rightarrow> if is_ssl_error e \<or> is_value_error (exn_class e)
                                   then Inl (ValueError (S ''Invalid TLS 1.3 cipher suite configuration''))
                                   else Inl e))))"

text \<open>What the module changes: the world, and the context that the HTTP clients share.\<close>

record tls_state =
  tls_world :: world
  runtime_context :: "ssl_context option"

definition set_env :: "pystr \<Rightarrow> pystr \<Rightarrow> world \<Rightarrow> world" where
  "set_env k v w = w\<lparr>environ := (environ w)(k \<mapsto> v)\<rparr>"

definition export_tls :: "tls_config \<Rightarrow> world \<Rightarrow> world" where
  "export_tls cfg w =
     (let w1 = (case ca_bundle_path cfg of
            None \<Rightarrow> w
          | Some p \<Rightarrow> set_env (S ''AWS_CA_BUNDLE'') p
              (set_env (S ''GRPC_DEFAULT_SSL_ROOTS_FILE_PATH'') p (set_env (S ''SSL_CERT_FILE'') p w)))
      in if cipher_suites cfg \<noteq> []
         then set_env (S ''GRPC_SSL_CIPHER_SUITES'') (join [58] (cipher_suites cfg)) w1 else w1)"

definition configure_tls ::
  "tls_env \<Rightarrow> tls_state \<Rightarrow> pystr \<Rightarrow> pystr option \<Rightarrow> tls_state \<times> tls_config result"
where
  "configure_tls env st root output_path =
     (case parse_tls_config (tls_world st) of
        Inl e \<Rightarrow> (st, Inl e)
      | Inr cfg0 \<Rightarrow>
          (case build_ca_bundle env (tls_world st) root output_path of
             (w1, Inl e) \<Rightarrow> (st\<lparr>tls_world := w1\<rparr>, Inl e)
           | (w1, Inr bundle) \<Rightarrow>
               (let cfg = cfg0\<lparr>ca_bundle_path := bundle\<rparr>
                in case create_ssl_context env cfg of
                     Inl e \<Rightarrow> (st\<lparr>tls_world := w1\<rparr>, Inl e)
                   | Inr c \<Rightarrow>
                       (\<lparr>tls_world = export_tls cfg w1, runtime_context = Some c\<rparr>,
                        Inr (cfg\<lparr>config_context := Some c\<rparr>)))))"

text \<open>\<open>get_ssl_context\<close>: the shared context, or else the platform's defaults.\<close>

definition get_ssl_context :: "tls_env \<Rightarrow> tls_state \<Rightarrow> ssl_context result" where
  "get_ssl_context env st =
     (case runtime_context st of
        Some c \<Rightarrow> Inr c
      | None \<Rightarrow>
          (case context_error env None of
             Some e \<Rightarrow> Inl e
           | None \<Rightarrow> Inr \<lparr>context_cafile = None, context_minimum = None, context_ciphers = None,
                          context_ciphersuites = None\<rparr>))"


section \<open>Lemmas\<close>

lemma break_at_fresh:
  "45 \<notin> set pre \<Longrightarrow> pat \<noteq> [] \<Longrightarrow> hd pat = 45 \<Longrightarrow> break_at pat (pre @ pat @ t) = Some (pre, t)"
proof (induction pre)
  case Nil
  then show ?case by (cases pat) (simp_all add: starts_with_def)
next
  case (Cons c pre)
  then show ?case by (cases pat) (auto simp: starts_with_def)
qed

lemma break_at_none: "45 \<notin> set s \<Longrightarrow> pat \<noteq> [] \<Longrightarrow> hd pat = 45 \<Longrightarrow> break_at pat s = None"
  by (induction s) (auto simp: starts_with_def neq_Nil_conv)

lemma pem_marks: "PEM_HEADER \<noteq> []" "hd PEM_HEADER = 45" "PEM_FOOTER \<noteq> []" "hd PEM_FOOTER = 45"
  by (simp_all add: PEM_HEADER_def PEM_FOOTER_def S_def)

lemma bodies_step:
  "45 \<notin> set pre \<Longrightarrow> 45 \<notin> set body \<Longrightarrow>
    certificate_bodies (pre @ PEM_HEADER @ body @ PEM_FOOTER @ rest) = body # certificate_bodies rest"
  by (subst certificate_bodies.simps) (simp add: break_at_fresh pem_marks)

lemma bodies_none: "45 \<notin> set s \<Longrightarrow> certificate_bodies s = []"
  by (subst certificate_bodies.simps) (simp add: break_at_none pem_marks)

lemma b64_char_range: "0 \<le> n \<Longrightarrow> n < 64 \<Longrightarrow> is_b64 (b64_char n)"
  by (auto simp: b64_char_def is_b64_def)

lemma b64_indices:
  fixes a b c :: int
  assumes "0 \<le> a" "a < 256" "0 \<le> b" "b < 256" "0 \<le> c" "c < 256"
  shows "is_b64 (b64_char (a div 4))" "is_b64 (b64_char (a mod 4 * 16))"
    "is_b64 (b64_char (a mod 4 * 16 + b div 16))" "is_b64 (b64_char (b mod 16 * 4))"
    "is_b64 (b64_char (b mod 16 * 4 + c div 64))" "is_b64 (b64_char (c mod 64))"
  by (rule b64_char_range; use assms in presburger)+

lemma b64_encode_chars:
  "\<forall>b \<in> set bs. 0 \<le> b \<and> b < 256 \<Longrightarrow> c \<in> set (b64_encode bs) \<Longrightarrow> is_b64 c \<or> c = 61"
  by (induction bs rule: b64_encode.induct) (auto simp: b64_indices)

lemma not_pad: "is_b64 c \<Longrightarrow> c \<noteq> 61"
  by (auto simp: is_b64_def)

lemma b64_encode_accepted:
  "\<forall>b \<in> set bs. 0 \<le> b \<and> b < 256 \<Longrightarrow> b64_accepts 0 pads (b64_encode bs)"
  by (induction bs arbitrary: pads rule: b64_encode.induct) (auto simp: b64_indices not_pad)

lemma b64_skips: "b64_accepts q p s = b64_accepts q p (filter (\<lambda>c. c \<noteq> 10) s)"
  by (induction q p s rule: b64_accepts.induct) (auto simp: is_b64_def)

lemma concat_slices: "concat (slices s) = s"
  by (induction s rule: slices.induct) (subst slices.simps, simp)

definition pem_body :: "int list \<Rightarrow> int list" where
  "pem_body der = 10 # concat (map (\<lambda>l. l @ [10]) (slices (b64_encode der)))"

lemma join_lines: "join [10] (a # xs @ [b]) = a @ 10 # concat (map (\<lambda>x. x @ [10]) xs) @ b"
  by (induction xs arbitrary: a) auto

lemma der_to_pem_parts: "der_to_pem der = PEM_HEADER @ pem_body der @ PEM_FOOTER @ [10]"
  by (simp add: der_to_pem_def join_lines pem_body_def)

lemma pem_body_filter: "\<forall>b \<in> set der. 0 \<le> b \<and> b < 256 \<Longrightarrow>
    filter (\<lambda>c. c \<noteq> 10) (pem_body der) = b64_encode der"
proof -
  assume der: "\<forall>b \<in> set der. 0 \<le> b \<and> b < 256"
  have "\<forall>c \<in> set (b64_encode der). c \<noteq> 10"
    using b64_encode_chars [OF der, of 10] by (auto simp: is_b64_def)
  moreover have "set (b64_encode der) = (\<Union>l \<in> set (slices (b64_encode der)). set l)"
    using concat_slices [of "b64_encode der"] by (metis set_concat)
  ultimately have "filter (\<lambda>c. c \<noteq> 10) l = l" if "l \<in> set (slices (b64_encode der))" for l
    using that by (intro filter_True) auto
  then have "map (\<lambda>l. filter (\<lambda>c. c \<noteq> 10) (l @ [10])) (slices (b64_encode der)) = slices (b64_encode der)"
    by (intro map_idI) simp
  then show ?thesis using concat_slices [of "b64_encode der"]
    by (simp add: pem_body_def filter_concat comp_def del: filter_append)
qed

lemma pem_body_chars:
  assumes "\<forall>b \<in> set der. 0 \<le> b \<and> b < 256" "c \<in> set (pem_body der)"
  shows "is_b64 c \<or> c = 61 \<or> c = 10"
proof (cases "c = 10")
  case False
  then have "c \<in> set (filter (\<lambda>c. c \<noteq> 10) (pem_body der))" using assms(2) by simp
  then have "c \<in> set (b64_encode der)" using pem_body_filter [OF assms(1)] by simp
  then show ?thesis using b64_encode_chars [OF assms(1)] by blast
qed simp

lemma pem_body_valid: "\<forall>b \<in> set der. 0 \<le> b \<and> b < 256 \<Longrightarrow> valid_certificate (pem_body der) \<and> 45 \<notin> set (pem_body der)"
proof -
  assume der: "\<forall>b \<in> set der. 0 \<le> b \<and> b < 256"
  have "b64_accepts 0 0 (pem_body der)"
    using b64_skips [of 0 0 "pem_body der"] pem_body_filter [OF der] b64_encode_accepted [OF der] by simp
  moreover have "b < 128" if "b \<in> set (pem_body der)" for b
    using pem_body_chars [OF der that] by (auto simp: is_b64_def)
  moreover have "45 \<notin> set (pem_body der)"
    using pem_body_chars [OF der, of 45] by (auto simp: is_b64_def)
  ultimately show ?thesis by (simp add: valid_certificate_def)
qed

lemma mapE_map:
  "mapE f xs = Inr ys \<Longrightarrow> (\<And>x y. f x = Inr y \<Longrightarrow> y = g x) \<Longrightarrow> ys = map g xs"
  by (induction xs arbitrary: ys) (auto simp: result_simps)

text \<open>A file that was validated: its content, all of whose certificates can be decoded.\<close>

definition trusted_file :: "world \<Rightarrow> pystr \<Rightarrow> int list \<Rightarrow> bool" where
  "trusted_file w p bs \<longleftrightarrow> files w p = Some (RegularFile bs) \<and> certificate_bodies bs \<noteq> [] \<and>
     (\<forall>c \<in> set (certificate_bodies bs). valid_certificate c)"

lemma validate_ok: "validate_certificate_file w p = Inr bs \<Longrightarrow> trusted_file w p bs"
  by (auto simp: validate_certificate_file_def read_bytes_def trusted_file_def Let_def
      split: option.split_asm fnode.split_asm if_split_asm sum.split_asm)

definition ca_sources :: "world \<Rightarrow> pystr \<Rightarrow> pystr list" where
  "ca_sources w root =
     (if path_is_file w SERVICE_ACCOUNT_CA then [SERVICE_ACCOUNT_CA] else []) @ discover_ca_files w root"

lemma mounted_ok:
  assumes "mounted_certificates w root = Inr mounted"
  shows "list_all2 (trusted_file w) (ca_sources w root) mounted"
proof -
  obtain ms where m: "mapE (validate_certificate_file w) (discover_ca_files w root) = Inr ms"
    using assms by (auto simp: mounted_certificates_def result_simps)
  then have l: "list_all2 (trusted_file w) (discover_ca_files w root) ms"
    by (auto simp: mapE_ok_all2 intro: validate_ok elim!: list_all2_mono)
  show ?thesis
  proof (cases "path_is_file w SERVICE_ACCOUNT_CA")
    case True
    then obtain pod where "validate_certificate_file w SERVICE_ACCOUNT_CA = Inr pod" "mounted = pod # ms"
      using assms m by (auto simp: mounted_certificates_def result_simps)
    then show ?thesis using True l by (simp add: ca_sources_def validate_ok)
  next
    case False
    then have "mounted = ms" using assms m by (simp add: mounted_certificates_def)
    then show ?thesis using False l by (simp add: ca_sources_def)
  qed
qed

lemma build_ca_bundle_cases:
  assumes "build_ca_bundle env w root out = (w1, r)"
  obtains (plain) "w1 = w" "r = Inr None" "ca_sources w root = []"
  | (error) e where "r = Inl e" "environ w1 = environ w"
  | (built) p sys mounted where "r = Inr (Some p)" "environ w1 = environ w" "ca_sources w root \<noteq> []"
      "files w1 p = Some (RegularFile (sys @ [10] @ join [10] mounted))"
      "system_ca_bundle env w = Inr sys" "list_all2 (trusted_file w) (ca_sources w root) mounted"
proof (cases "ca_sources w root = []")
  case True
  then have "discover_ca_files w root = [] \<and> \<not> path_is_file w SERVICE_ACCOUNT_CA"
    by (auto simp: ca_sources_def split: if_split_asm)
  then show thesis using plain assms True by (simp add: build_ca_bundle_def)
next
  case False
  then have ne: "\<not> (discover_ca_files w root = [] \<and> \<not> path_is_file w SERVICE_ACCOUNT_CA)"
    by (simp add: ca_sources_def split: if_split_asm)
  show thesis
  proof (cases "bindE (mounted_certificates w root) (\<lambda>mounted. bindE (system_ca_bundle env w) (\<lambda>sys. Inr (mounted, sys)))")
    case (Inl e)
    then have "w1 = w" "r = Inl e" using assms ne by (auto simp: build_ca_bundle_def)
    then show thesis using error by simp
  next
    case (Inr ms)
    obtain mounted sys where ms: "ms = (mounted, sys)" by fastforce
    obtain w' opened where opened: "open_output env w out = (w', opened)" by fastforce
    have env: "environ w' = environ w" using opened
      by (auto simp: open_output_def put_file_def split: option.split_asm sum.split_asm)
    show thesis
    proof (cases "\<exists>p. opened = Inr p \<and> directory_error env = None \<and> write_error env p = None")
      case True
      then obtain p where p: "opened = Inr p" "directory_error env = None" "write_error env p = None" by blast
      have m: "mounted_certificates w root = Inr mounted" "system_ca_bundle env w = Inr sys"
        using Inr ms by (auto simp: result_simps)
      have "w1 = put_file w' p (sys @ [10] @ join [10] mounted)" "r = Inr (Some p)"
        using assms ne Inr ms opened p by (auto simp: build_ca_bundle_def)
      then show thesis
        using built [of p sys mounted] env m(2) mounted_ok [OF m(1)] False by (simp add: put_file_def)
    next
      case False
      then have "\<exists>e. r = Inl e \<and> w1 = w'" using assms ne Inr ms opened
        by (auto simp: build_ca_bundle_def split: sum.split_asm option.split_asm)
      then show thesis using error env by blast
    qed
  qed
qed

lemma create_ssl_context_ok:
  "create_ssl_context env cfg = Inr c \<Longrightarrow>
    context_cafile c = ca_bundle_path cfg \<and> context_minimum c = tls_minimum cfg \<and>
    context_ciphers c = (let l = filter (\<lambda>c. \<not> is_tls13 c) (cipher_suites cfg) in if l = [] then None else Some (join [58] l)) \<and>
    (ciphersuites_error env \<noteq> None \<longrightarrow>
      context_ciphersuites c = (let l = filter is_tls13 (cipher_suites cfg) in if l = [] then None else Some (join [58] l)))"
  by (auto simp: create_ssl_context_def Let_def result_simps split: if_split_asm option.split_asm)


section \<open>Properties\<close>


definition sample_tls :: tls_env where
  "sample_tls = \<lparr>default_cafile = None, platform_certs = Inr [[1, 2, 3]], context_error = (\<lambda>_. None),
     ciphers_error = (\<lambda>_. None), ciphersuites_error = None, temporary_file = Inr (S ''/tmp/ca.pem''),
     directory_error = None, write_error = (\<lambda>_. None)\<rparr>"


text \<open>
  The program accepts the certificates it writes. When the platform's certificates have to be rendered as
  PEM, the validation finds in the text as many certificates as there were, and can decode them all.
\<close>

theorem rendered_certificates_validate:
  assumes "\<forall>der \<in> set ders. \<forall>b \<in> set der. 0 \<le> b \<and> b < 256"
  shows "length (certificate_bodies (concat (map der_to_pem ders))) = length ders \<and>
    (\<forall>c \<in> set (certificate_bodies (concat (map der_to_pem ders))). valid_certificate c)"
proof -
  have "45 \<notin> set pre \<Longrightarrow> certificate_bodies (pre @ concat (map der_to_pem ders)) = map pem_body ders" for pre
    using assms
  proof (induction ders arbitrary: pre)
    case Nil
    then show ?case by (simp add: bodies_none)
  next
    case (Cons der ders)
    have "certificate_bodies ([10] @ concat (map der_to_pem ders)) = map pem_body ders"
      by (rule Cons.IH) (use Cons.prems in simp_all)
    then show ?case using Cons.prems pem_body_valid [of der]
        bodies_step [of pre "pem_body der" "[10] @ concat (map der_to_pem ders)"]
      by (simp add: der_to_pem_parts [of der])
  qed
  from this [of "[]"] show ?thesis using assms pem_body_valid by auto
qed

lemma rendered_certificates_validate_witness:
  "length (certificate_bodies (concat (map der_to_pem [[48, 130, 1], [255]]))) = 2"
  using rendered_certificates_validate [of "[[48, 130, 1], [255]]"] by simp

end
