(* ===== verification/Status.thy ===== *)
theory Status
  imports PyValue
begin

text \<open>
  \<open>publish_results/status.py\<close>: the status of a Result CR, assembled from the agent's output. The
  Python code edits the option dictionaries in place; the model returns the edited ones. A loop
  over a field that is not iterable raises \<open>TypeError\<close> here as it does there. Proved: published
  options respect the CRD's length limits, a status carries a failure reason exactly when its
  Completed condition does not say \<open>Succeeded\<close>, and stripping leaves no empty field behind.
\<close>

section \<open>Constants\<close>

definition MAX_LEN_OPTION_TITLE :: nat where "MAX_LEN_OPTION_TITLE = 256"
definition MAX_LEN_OPTION_SUMMARY :: nat where "MAX_LEN_OPTION_SUMMARY = 1024"
definition MAX_LEN_DIAGNOSIS_SUMMARY :: nat where "MAX_LEN_DIAGNOSIS_SUMMARY = 8192"
definition MAX_LEN_DIAGNOSIS_ROOT_CAUSE :: nat where "MAX_LEN_DIAGNOSIS_ROOT_CAUSE = 1024"
definition MAX_LEN_PLAN_DESCRIPTION :: nat where "MAX_LEN_PLAN_DESCRIPTION = 8192"
definition MAX_LEN_ACTION_COMMAND :: nat where "MAX_LEN_ACTION_COMMAND = 4096"
definition MAX_LEN_ACTION_TYPE :: nat where "MAX_LEN_ACTION_TYPE = 256"
definition MAX_LEN_ACTION_DESCRIPTION :: nat where "MAX_LEN_ACTION_DESCRIPTION = 4096"
definition MAX_LEN_ROLLBACK_DESCRIPTION :: nat where "MAX_LEN_ROLLBACK_DESCRIPTION = 4096"
definition MAX_LEN_ROLLBACK_COMMAND :: nat where "MAX_LEN_ROLLBACK_COMMAND = 4096"
definition MAX_LEN_VERIFICATION_DESCRIPTION :: nat where "MAX_LEN_VERIFICATION_DESCRIPTION = 4096"
definition MAX_LEN_VERIFICATION_STEP_NAME :: nat where "MAX_LEN_VERIFICATION_STEP_NAME = 253"
definition MAX_LEN_VERIFICATION_STEP_COMMAND :: nat where "MAX_LEN_VERIFICATION_STEP_COMMAND = 4096"
definition MAX_LEN_VERIFICATION_STEP_EXPECTED :: nat where "MAX_LEN_VERIFICATION_STEP_EXPECTED = 1024"
definition MAX_LEN_VERIFICATION_STEP_TYPE :: nat where "MAX_LEN_VERIFICATION_STEP_TYPE = 256"
definition MAX_LEN_RBAC_JUSTIFICATION :: nat where "MAX_LEN_RBAC_JUSTIFICATION = 1024"
definition MAX_OPTIONS :: nat where "MAX_OPTIONS = 10"

definition STATUS_FIELDS_BY_KIND :: "pystr list dict" where
  "STATUS_FIELDS_BY_KIND =
    [(S ''AnalysisResult'', [S ''options'', S ''actionRequired'', S ''diagnosis'']),
     (S ''ExecutionResult'', [S ''actionsTaken'']),
     (S ''VerificationResult'', [S ''checks'', S ''summary'']),
     (S ''EscalationResult'', [S ''summary'', S ''content''])]"


section \<open>Conditions\<close>

text \<open>A \<open>datetime\<close>: its fields and, when it is aware, its UTC offset in minutes.\<close>

record pydatetime =
  dt_year :: nat
  dt_month :: nat
  dt_day :: nat
  dt_hour :: nat
  dt_minute :: nat
  dt_second :: nat
  dt_micro :: nat
  dt_offset :: "int option"

definition epoch :: pydatetime where
  "epoch = \<lparr>dt_year = 1970, dt_month = 1, dt_day = 1, dt_hour = 0, dt_minute = 0, dt_second = 0,
     dt_micro = 0, dt_offset = Some 0\<rparr>"

definition offset_text :: "int \<Rightarrow> pystr" where
  "offset_text off =
     (if off < 0 then S ''-'' else S ''+'') @ pad 2 (nat \<bar>off\<bar> div 60) @ S '':''
     @ pad 2 (nat \<bar>off\<bar> mod 60)"

definition isoformat :: "pydatetime \<Rightarrow> pystr" where
  "isoformat d =
     pad 4 (dt_year d) @ S ''-'' @ pad 2 (dt_month d) @ S ''-'' @ pad 2 (dt_day d) @ S ''T''
     @ pad 2 (dt_hour d) @ S '':'' @ pad 2 (dt_minute d) @ S '':'' @ pad 2 (dt_second d)
     @ (if dt_micro d = 0 then [] else S ''.'' @ pad 6 (dt_micro d))
     @ (case dt_offset d of None \<Rightarrow> [] | Some off \<Rightarrow> offset_text off)"

definition format_condition_time :: "pydatetime \<Rightarrow> pystr" where
  "format_condition_time when =
     (if dt_offset when = None then isoformat when @ S ''Z''
      else replace (S ''+00:00'') (S ''Z'') (isoformat when))"

definition action_required_value :: "bool \<Rightarrow> pystr" where
  "action_required_value value = (if value then S ''True'' else S ''False'')"

definition build_conditions :: "pydatetime \<Rightarrow> pydatetime \<Rightarrow> bool \<Rightarrow> bool \<Rightarrow> pyval list" where
  "build_conditions started_at completed_at succeeded timed_out =
     (let (completed_reason, completed_message) =
        (if timed_out then (S ''AgentTimeout'', S ''Agent invocation timeout'')
         else if succeeded then (S ''Succeeded'', S ''Step completed'')
         else (S ''Failed'', S ''Step failed''))
      in [PDict [(S ''type'', PStr (S ''Started'')),
                 (S ''status'', PStr (S ''True'')),
                 (S ''reason'', PStr (S ''StepStarted'')),
                 (S ''message'', PStr (S ''Step started'')),
                 (S ''lastTransitionTime'', PStr (format_condition_time started_at))],
          PDict [(S ''type'', PStr (S ''Completed'')),
                 (S ''status'', PStr (S ''True'')),
                 (S ''reason'', PStr completed_reason),
                 (S ''message'', PStr completed_message),
                 (S ''lastTransitionTime'', PStr (format_condition_time completed_at))]])"


section \<open>Failure inference\<close>

definition infer_failure_reason :: "pydict \<Rightarrow> pystr option \<Rightarrow> pystr option" where
  "infer_failure_reason agent_output failure_reason =
     (case failure_reason of
        Some r \<Rightarrow> Some r
      | None \<Rightarrow>
          if dgetn agent_output (S ''success'') = PBool False
          then (case dgetn agent_output (S ''summary'') of
                  PStr s \<Rightarrow> if s \<noteq> [] then Some s else Some (S ''Agent reported failure'')
                | _ \<Rightarrow> Some (S ''Agent reported failure''))
          else None)"

definition agent_succeeded :: "pydict \<Rightarrow> pystr option \<Rightarrow> bool" where
  "agent_succeeded agent_output failure_reason =
     (if failure_reason \<noteq> None then False
      else dgetn agent_output (S ''success'') \<noteq> PBool False)"


section \<open>Stripping empty values\<close>

definition is_empty_value :: "pyval \<Rightarrow> bool" where
  "is_empty_value v \<longleftrightarrow> v = PDict [] \<or> v = PList [] \<or> v = PStr []"

text \<open>
  A dictionary loses the fields whose value is, or becomes by stripping, an empty string, list or
  dictionary. The dictionaries in a list are stripped but stay in the list.
\<close>

fun strip_empty_values :: "pyval \<Rightarrow> pyval" where
  "strip_empty_values (PDict d) =
     PDict (filter (\<lambda>kv. \<not> is_empty_value (snd kv))
       (map (\<lambda>kv. (fst kv,
               case snd kv of
                 PDict e \<Rightarrow> strip_empty_values (PDict e)
               | PList vs \<Rightarrow> PList (map strip_empty_values vs)
               | v \<Rightarrow> v)) d))"
| "strip_empty_values v = v"


section \<open>Sanitising analysis options\<close>

definition truncate_text :: "pystr \<Rightarrow> nat \<Rightarrow> pystr" where
  "truncate_text value max_len = (if length value \<le> max_len then value else take max_len value)"

text \<open>\<open>if isinstance(d.get(k), str): d[k] = _truncate(d[k], n)\<close>.\<close>

definition trunc_field :: "pystr \<Rightarrow> nat \<Rightarrow> pydict \<Rightarrow> pydict" where
  "trunc_field k n d =
     (case dget d k of Some (PStr s) \<Rightarrow> dset d k (PStr (truncate_text s n)) | _ \<Rightarrow> d)"

text \<open>\<open>for x in d.get(k) or []: if isinstance(x, dict): f(x)\<close>, \<open>f\<close> editing in place.\<close>

definition for_each_dict :: "pystr \<Rightarrow> (pydict \<Rightarrow> pydict) \<Rightarrow> pydict \<Rightarrow> pydict result" where
  "for_each_dict k f d =
     (if \<not> truthy (dgetn d k) then Inr d
      else case dgetn d k of
        PList vs \<Rightarrow> Inr (dset d k (PList (map (\<lambda>v. case v of PDict a \<Rightarrow> PDict (f a) | _ \<Rightarrow> v) vs)))
      | v \<Rightarrow> bindE (py_iter v) (\<lambda>_. Inr d))"

text \<open>\<open>x = d.get(k); if isinstance(x, dict): f(x)\<close>, \<open>f\<close> editing in place.\<close>

definition on_dict_field :: "pystr \<Rightarrow> (pydict \<Rightarrow> pydict result) \<Rightarrow> pydict \<Rightarrow> pydict result" where
  "on_dict_field k f d =
     (case dgetn d k of
        PDict x \<Rightarrow> bindE (f x) (\<lambda>x'. Inr (dset d k (PDict x')))
      | _ \<Rightarrow> Inr d)"

definition sanitize_diagnosis :: "pydict \<Rightarrow> pydict" where
  "sanitize_diagnosis diag =
     trunc_field (S ''rootCause'') MAX_LEN_DIAGNOSIS_ROOT_CAUSE
       (trunc_field (S ''summary'') MAX_LEN_DIAGNOSIS_SUMMARY diag)"

definition sanitize_action :: "pydict \<Rightarrow> pydict" where
  "sanitize_action action =
     trunc_field (S ''description'') MAX_LEN_ACTION_DESCRIPTION
       (trunc_field (S ''type'') MAX_LEN_ACTION_TYPE
         (trunc_field (S ''command'') MAX_LEN_ACTION_COMMAND action))"

definition sanitize_rollback :: "pydict \<Rightarrow> pydict" where
  "sanitize_rollback rollback =
     trunc_field (S ''command'') MAX_LEN_ROLLBACK_COMMAND
       (trunc_field (S ''description'') MAX_LEN_ROLLBACK_DESCRIPTION rollback)"

definition sanitize_plan :: "pydict \<Rightarrow> pydict result" where
  "sanitize_plan plan =
     bindE (for_each_dict (S ''actions'') sanitize_action
              (trunc_field (S ''description'') MAX_LEN_PLAN_DESCRIPTION plan))
       (on_dict_field (S ''rollbackPlan'') (\<lambda>r. Inr (sanitize_rollback r)))"

definition sanitize_step :: "pydict \<Rightarrow> pydict" where
  "sanitize_step step =
     trunc_field (S ''type'') MAX_LEN_VERIFICATION_STEP_TYPE
       (trunc_field (S ''expected'') MAX_LEN_VERIFICATION_STEP_EXPECTED
         (trunc_field (S ''command'') MAX_LEN_VERIFICATION_STEP_COMMAND
           (trunc_field (S ''name'') MAX_LEN_VERIFICATION_STEP_NAME step)))"

definition sanitize_verification :: "pydict \<Rightarrow> pydict result" where
  "sanitize_verification verif =
     for_each_dict (S ''steps'') sanitize_step
       (trunc_field (S ''description'') MAX_LEN_VERIFICATION_DESCRIPTION verif)"

definition sanitize_rule :: "pydict \<Rightarrow> pydict" where
  "sanitize_rule rule = trunc_field (S ''justification'') MAX_LEN_RBAC_JUSTIFICATION rule"

definition sanitize_rbac :: "pydict \<Rightarrow> pydict result" where
  "sanitize_rbac rbac =
     bindE (for_each_dict (S ''namespaceScoped'') sanitize_rule rbac)
       (for_each_dict (S ''clusterScoped'') sanitize_rule)"

definition nonempty_str :: "pyval \<Rightarrow> bool" where
  "nonempty_str v \<longleftrightarrow> (case v of PStr s \<Rightarrow> s \<noteq> [] | _ \<Rightarrow> False)"

definition drop_pair :: "pydict \<Rightarrow> pydict" where
  "drop_pair opt = ddel (ddel opt (S ''diagnosis'')) (S ''remediationPlan'')"

definition option_error :: "nat \<Rightarrow> string \<Rightarrow> pystr" where
  "option_error idx what = S ''option '' @ nat_dec idx @ S '': '' @ S what"

definition pair_diagnosis :: "nat \<Rightarrow> pydict \<Rightarrow> pydict \<times> pystr list" where
  "pair_diagnosis idx opt =
     (let has_plan = has_key opt (S ''remediationPlan'')
      in case dgetn opt (S ''diagnosis'') of
           PDict diag \<Rightarrow>
             if nonempty_str (dgetn diag (S ''summary'')) \<and> nonempty_str (dgetn diag (S ''rootCause''))
             then (if has_plan
                   then (dset opt (S ''diagnosis'') (PDict (sanitize_diagnosis diag)), [])
                   else (ddel opt (S ''diagnosis''),
                         [option_error idx ''diagnosis without remediationPlan'']))
             else (drop_pair opt, [option_error idx ''incomplete diagnosis''])
         | _ \<Rightarrow>
             if has_plan
             then (drop_pair opt, [option_error idx ''remediationPlan without diagnosis''])
             else (opt, []))"

definition sanitize_option :: "nat \<Rightarrow> pydict \<Rightarrow> (pydict \<times> pystr list) result" where
  "sanitize_option idx opt =
     (let opt1 = trunc_field (S ''summary'') MAX_LEN_OPTION_SUMMARY
                   (trunc_field (S ''title'') MAX_LEN_OPTION_TITLE opt);
          (opt2, errors) = pair_diagnosis idx opt1
      in bindE (on_dict_field (S ''remediationPlan'') sanitize_plan opt2) (\<lambda>opt3.
         bindE (on_dict_field (S ''verification'') sanitize_verification opt3) (\<lambda>opt4.
         bindE (on_dict_field (S ''rbac'') sanitize_rbac opt4) (\<lambda>opt5.
         Inr (opt5, errors)))))"

definition dicts_of :: "pyval list \<Rightarrow> pydict list" where
  "dicts_of vs = concat (map (\<lambda>v. case v of PDict d \<Rightarrow> [d] | _ \<Rightarrow> []) vs)"

definition sanitize_analysis_options :: "pyval list \<Rightarrow> (pyval list \<times> pystr list) result" where
  "sanitize_analysis_options options =
     bindE (mapE (\<lambda>(idx, opt). sanitize_option idx opt)
              (List.enumerate 0 (take MAX_OPTIONS (dicts_of options))))
       (\<lambda>rs. Inr (map (PDict \<circ> fst) rs, concat (map snd rs)))"


section \<open>Assembling the status\<close>

fun copy_fields :: "pystr list \<Rightarrow> pydict \<Rightarrow> pydict \<Rightarrow> pydict" where
  "copy_fields [] agent_output status = status"
| "copy_fields (key # ks) agent_output status =
     copy_fields ks agent_output
       (case dget agent_output key of
          None \<Rightarrow> status
        | Some value \<Rightarrow>
            dset status key
              (case value of
                 PBool b \<Rightarrow> if key = S ''actionRequired'' then PStr (action_required_value b) else value
               | _ \<Rightarrow> value))"

definition resolve_failure :: "pydict \<Rightarrow> pystr option \<Rightarrow> bool \<Rightarrow> pystr option" where
  "resolve_failure agent_output failure_reason timed_out =
     (case infer_failure_reason agent_output failure_reason of
        Some r \<Rightarrow> Some r
      | None \<Rightarrow>
          if timed_out
          then (case dgetn agent_output (S ''summary'') of
                  PStr s \<Rightarrow> if s \<noteq> [] then Some s else Some (S ''Agent invocation timeout'')
                | _ \<Rightarrow> Some (S ''Agent invocation timeout''))
          else None)"

definition sanitize_status_options :: "pystr \<Rightarrow> pydict \<Rightarrow> bool \<Rightarrow> (pydict \<times> bool) result" where
  "sanitize_status_options kind status succeeded =
     (case dgetn status (S ''options'') of
        PList options \<Rightarrow>
          if kind = S ''AnalysisResult'' then
            bindE (sanitize_analysis_options options) (\<lambda>(options', errors).
              let status' = dset status (S ''options'') (PList options')
              in if errors \<noteq> []
                 then Inr (dset status' (S ''failureReason'') (PStr (join (S ''; '') errors)), False)
                 else Inr (status', succeeded))
          else Inr (status, succeeded)
      | _ \<Rightarrow> Inr (status, succeeded))"

definition sanitize_status_diagnosis :: "pystr \<Rightarrow> pydict \<Rightarrow> pydict" where
  "sanitize_status_diagnosis kind status =
     (case dgetn status (S ''diagnosis'') of
        PDict diag \<Rightarrow>
          if kind = S ''AnalysisResult''
          then dset status (S ''diagnosis'') (PDict (sanitize_diagnosis diag)) else status
      | _ \<Rightarrow> status)"

definition strip_status :: "pydict \<Rightarrow> pydict" where
  "strip_status status = (case strip_empty_values (PDict status) of PDict d \<Rightarrow> d | _ \<Rightarrow> [])"

definition build_status ::
  "pystr \<Rightarrow> pydict \<Rightarrow> pystr option \<Rightarrow> pydatetime \<Rightarrow> pydatetime \<Rightarrow> int \<Rightarrow> int \<Rightarrow> bool \<Rightarrow> pydict result"
where
  "build_status kind agent_output failure_reason started_at completed_at input_tokens output_tokens
     timed_out =
     (case dget STATUS_FIELDS_BY_KIND kind of
        None \<Rightarrow> Inl (ValueError (S ''unsupported Result kind: '' @ repr_str kind))
      | Some keys \<Rightarrow>
          let resolved_failure = resolve_failure agent_output failure_reason timed_out;
              succeeded = (agent_succeeded agent_output resolved_failure \<and> \<not> timed_out);
              status0 = (case resolved_failure of
                           None \<Rightarrow> [] | Some r \<Rightarrow> [(S ''failureReason'', PStr r)]);
              status1 = copy_fields keys agent_output status0
          in bindE (sanitize_status_options kind status1 succeeded) (\<lambda>(status2, succeeded').
             let status3 = strip_status (sanitize_status_diagnosis kind status2);
                 status4 = dset status3 (S ''tokenUsage'')
                   (PDict [(S ''inputTokens'', PInt input_tokens),
                           (S ''outputTokens'', PInt output_tokens)])
             in Inr (dset status4 (S ''conditions'')
                      (PList (build_conditions started_at completed_at succeeded' timed_out)))))"



section \<open>Lemmas: stripping\<close>

definition strip_field :: "pyval \<Rightarrow> pyval" where
  "strip_field v =
     (case v of
        PDict e \<Rightarrow> strip_empty_values (PDict e)
      | PList vs \<Rightarrow> PList (map strip_empty_values vs)
      | _ \<Rightarrow> v)"

lemma strip_dict:
  "strip_empty_values (PDict d) =
     PDict (filter (\<lambda>kv. \<not> is_empty_value (snd kv)) (map (\<lambda>kv. (fst kv, strip_field (snd kv))) d))"
proof -
  have "(case v of PDict e \<Rightarrow> strip_empty_values (PDict e) | PList vs \<Rightarrow> PList (map strip_empty_values vs)
      | v \<Rightarrow> v) = strip_field v" for v
    by (cases v) (simp_all add: strip_field_def)
  then show ?thesis by simp
qed

declare strip_empty_values.simps(1) [simp del]

lemma strip_status_eq: "PDict (strip_status d) = strip_empty_values (PDict d)"
  by (simp add: strip_status_def strip_dict)

lemma dget_strip_status:
  assumes "keys_distinct d"
  shows "dget (strip_status d) k =
    (case dget d k of None \<Rightarrow> None
     | Some v \<Rightarrow> if is_empty_value (strip_field v) then None else Some (strip_field v))"
  using assms unfolding strip_status_def strip_dict keys_distinct_def
  by (induction d) (auto split: option.splits simp: map_of_eq_None_iff [symmetric] rev_image_eqI
      dest: map_of_SomeD)

lemma keys_distinct_strip_status: "keys_distinct d \<Longrightarrow> keys_distinct (strip_status d)"
  by (simp add: keys_distinct_def strip_status_def strip_dict filter_map comp_def distinct_map_filter)

text \<open>No field of a dictionary, at any depth under dictionaries and lists of dictionaries, is empty.\<close>

fun stripped_value :: "pyval \<Rightarrow> bool" where
  "stripped_value (PDict d) \<longleftrightarrow>
     (\<forall>kv \<in> set d. \<not> is_empty_value (snd kv) \<and>
        (case snd kv of
           PDict e \<Rightarrow> stripped_value (PDict e)
         | PList vs \<Rightarrow> (\<forall>v \<in> set vs. stripped_value v)
         | _ \<Rightarrow> True))"
| "stripped_value _ \<longleftrightarrow> True"

lemma stripped_strip: "stripped_value (strip_empty_values v)"
proof (induction v rule: strip_empty_values.induct)
  case (1 d)
  have "\<not> is_empty_value (strip_field (snd kv)) \<Longrightarrow> kv \<in> set d \<Longrightarrow>
      (case strip_field (snd kv) of
         PDict e \<Rightarrow> stripped_value (PDict e)
       | PList vs \<Rightarrow> (\<forall>v \<in> set vs. stripped_value v)
       | _ \<Rightarrow> True)" for kv
  proof (cases "snd kv")
    case (PDict e)
    then show "kv \<in> set d \<Longrightarrow> ?thesis"
      using 1(2) [of kv e] by (simp add: strip_field_def strip_dict)
  next
    case (PList vs)
    then show "kv \<in> set d \<Longrightarrow> ?thesis"
      using 1(1) [of kv vs] by (auto simp: strip_field_def)
  qed (simp_all add: strip_field_def)
  then show ?case by (auto simp: strip_dict)
qed simp_all

lemma strip_of_stripped: "stripped_value v \<Longrightarrow> strip_empty_values v = v"
proof (induction v rule: strip_empty_values.induct)
  case (1 d)
  have f: "strip_field (snd kv) = snd kv \<and> \<not> is_empty_value (snd kv)" if "kv \<in> set d" for kv
  proof (cases "snd kv")
    case (PDict e)
    then show ?thesis using that 1(2) [of kv e] 1(3) by (auto simp: strip_field_def)
  next
    case (PList vs)
    then show ?thesis using that 1(1) [of kv vs] 1(3)
      by (auto simp: strip_field_def intro!: map_idI)
  qed (use that 1(3) in \<open>auto simp: strip_field_def\<close>)
  then have "map (\<lambda>kv. (fst kv, strip_field (snd kv))) d = d"
    by (intro map_idI) simp
  with f show ?case by (simp add: strip_dict filter_id_conv)
qed simp_all

interpretation stripping: normaliser strip_empty_values stripped_value
  by unfold_locales (rule stripped_strip, rule strip_of_stripped)


section \<open>Lemmas: length limits\<close>

text \<open>A schema of length limits: of a string, of the named fields of an object, of a list's items.\<close>

datatype limits = MaxLen nat | Fields "(pystr \<times> limits) list" | Items limits

fun within :: "limits \<Rightarrow> pyval \<Rightarrow> bool" where
  "within (MaxLen n) (PStr s) \<longleftrightarrow> length s \<le> n"
| "within (Fields fs) (PDict d) \<longleftrightarrow>
     (\<forall>kl \<in> set fs. case dget d (fst kl) of None \<Rightarrow> True | Some v \<Rightarrow> within (snd kl) v)"
| "within (Items l) (PList vs) \<longleftrightarrow> (\<forall>v \<in> set vs. within l v)"
| "within _ _ \<longleftrightarrow> True"

definition DIAGNOSIS_LIMITS :: limits where
  "DIAGNOSIS_LIMITS = Fields [(S ''summary'', MaxLen 8192), (S ''rootCause'', MaxLen 1024)]"

definition PLAN_LIMITS :: limits where
  "PLAN_LIMITS = Fields
     [(S ''description'', MaxLen 8192),
      (S ''actions'', Items (Fields [(S ''command'', MaxLen 4096), (S ''type'', MaxLen 256),
                                     (S ''description'', MaxLen 4096)])),
      (S ''rollbackPlan'', Fields [(S ''description'', MaxLen 4096), (S ''command'', MaxLen 4096)])]"

definition VERIFICATION_LIMITS :: limits where
  "VERIFICATION_LIMITS = Fields
     [(S ''description'', MaxLen 4096),
      (S ''steps'', Items (Fields [(S ''name'', MaxLen 253), (S ''command'', MaxLen 4096),
                                   (S ''expected'', MaxLen 1024), (S ''type'', MaxLen 256)]))]"

definition RBAC_LIMITS :: limits where
  "RBAC_LIMITS = Fields
     [(S ''namespaceScoped'', Items (Fields [(S ''justification'', MaxLen 1024)])),
      (S ''clusterScoped'', Items (Fields [(S ''justification'', MaxLen 1024)]))]"

definition OPTION_LIMITS :: limits where
  "OPTION_LIMITS = Fields
     [(S ''title'', MaxLen 256), (S ''summary'', MaxLen 1024), (S ''diagnosis'', DIAGNOSIS_LIMITS),
      (S ''remediationPlan'', PLAN_LIMITS), (S ''verification'', VERIFICATION_LIMITS),
      (S ''rbac'', RBAC_LIMITS)]"

lemma within_strip:
  "wf_val v \<Longrightarrow> within l v \<Longrightarrow> within l (strip_empty_values v) \<and> within l (strip_field v)"
proof (induction l v rule: within.induct)
  case (2 fs d)
  from 2(2) have kd: "keys_distinct d" by simp
  have "case dget (strip_status d) (fst kl) of None \<Rightarrow> True | Some v \<Rightarrow> within (snd kl) v"
    if kl: "kl \<in> set fs" for kl
  proof (cases "dget d (fst kl)")
    case None
    then show ?thesis by (simp add: dget_strip_status [OF kd])
  next
    case (Some v)
    then have "(fst kl, v) \<in> set d" by (rule map_of_SomeD)
    with 2(2) have "wf_val v" by fastforce
    moreover have "within (snd kl) v" using 2(3) kl Some by fastforce
    ultimately have "within (snd kl) (strip_field v)" using 2(1) [OF kl Some] by simp
    with Some show ?thesis by (simp add: dget_strip_status [OF kd])
  qed
  then have "within (Fields fs) (PDict (strip_status d))" by simp
  then show ?case by (simp only: strip_status_eq) (simp add: strip_field_def)
next
  case (3 l vs)
  then show ?case by (auto simp: strip_field_def)
qed (auto simp: strip_field_def strip_dict)

lemma truncate_text_length: "length (truncate_text s n) \<le> n"
  by (simp add: truncate_text_def)

lemma truncate_text_prefix: "\<exists>t. s = truncate_text s n @ t"
  by (simp add: truncate_text_def) (metis append_take_drop_id)

definition trunc_value :: "nat \<Rightarrow> pyval \<Rightarrow> pyval" where
  "trunc_value n v = (case v of PStr s \<Rightarrow> PStr (truncate_text s n) | _ \<Rightarrow> v)"

lemma within_trunc_value [simp]: "within (MaxLen n) (trunc_value n v)"
  by (cases v) (simp_all add: trunc_value_def truncate_text_length)

lemma dget_trunc_field [simp]:
  "dget (trunc_field k n d) k' = (if k' = k then map_option (trunc_value n) (dget d k) else dget d k')"
  by (auto simp: trunc_field_def trunc_value_def split: option.splits pyval.splits)

lemma wf_dset: "wf_val (PDict d) \<Longrightarrow> wf_val v \<Longrightarrow> wf_val (PDict (dset d k v))"
  by (auto simp: dict.inv_put dest!: dset_in)

lemma wf_ddel: "wf_val (PDict d) \<Longrightarrow> wf_val (PDict (ddel d k))"
  by (auto simp: dict.inv_del ddel_in)

lemma wf_dget: "wf_val (PDict d) \<Longrightarrow> dget d k = Some v \<Longrightarrow> wf_val v"
  by (fastforce dest: map_of_SomeD)

lemma wf_trunc_field: "wf_val (PDict d) \<Longrightarrow> wf_val (PDict (trunc_field k n d))"
  unfolding trunc_field_def by (auto split: option.splits pyval.splits simp del: wf_val.simps(2)
      intro!: wf_dset) 

lemmas wf_edits = wf_dset wf_ddel wf_trunc_field



definition map_dicts :: "(pydict \<Rightarrow> pydict) \<Rightarrow> pyval \<Rightarrow> pyval" where
  "map_dicts f v =
     (case v of PList vs \<Rightarrow> PList (map (\<lambda>v. case v of PDict a \<Rightarrow> PDict (f a) | _ \<Rightarrow> v) vs) | _ \<Rightarrow> v)"

lemma dget_for_each_dict:
  "for_each_dict k f d = Inr d' \<Longrightarrow>
    dget d' k' = (if k' = k then map_option (map_dicts f) (dget d k) else dget d k')"
  by (auto simp: for_each_dict_def dgetn_def map_dicts_def result_simps
      split: if_splits option.splits pyval.splits)

lemma on_dict_field_cases:
  assumes "on_dict_field k f d = Inr d'"
  obtains (dict) x x' where "dget d k = Some (PDict x)" "f x = Inr x'" "d' = dset d k (PDict x')"
  | (other) "\<And>x. dget d k \<noteq> Some (PDict x)" "d' = d"
  using assms
  by (auto simp: on_dict_field_def dgetn_def result_simps split: option.splits pyval.splits)

lemma within_map_dicts:
  "(\<And>a. within l (PDict (f a))) \<Longrightarrow> (\<And>v. \<not> is_dict v \<Longrightarrow> within l v) \<Longrightarrow>
    within (Items l) (map_dicts f v)"
  by (cases v) (auto simp: map_dicts_def split: pyval.splits)

lemma within_Fields_other: "\<not> is_dict v \<Longrightarrow> within (Fields fs) v"
  by (cases v) simp_all

lemmas item_sanitizers = sanitize_action_def sanitize_step_def sanitize_rule_def
  sanitize_rollback_def sanitize_diagnosis_def

lemmas max_lens = MAX_LEN_OPTION_TITLE_def MAX_LEN_OPTION_SUMMARY_def MAX_LEN_DIAGNOSIS_SUMMARY_def
  MAX_LEN_DIAGNOSIS_ROOT_CAUSE_def MAX_LEN_PLAN_DESCRIPTION_def MAX_LEN_ACTION_COMMAND_def
  MAX_LEN_ACTION_TYPE_def MAX_LEN_ACTION_DESCRIPTION_def MAX_LEN_ROLLBACK_DESCRIPTION_def
  MAX_LEN_ROLLBACK_COMMAND_def MAX_LEN_VERIFICATION_DESCRIPTION_def
  MAX_LEN_VERIFICATION_STEP_NAME_def MAX_LEN_VERIFICATION_STEP_COMMAND_def
  MAX_LEN_VERIFICATION_STEP_EXPECTED_def MAX_LEN_VERIFICATION_STEP_TYPE_def
  MAX_LEN_RBAC_JUSTIFICATION_def

definition field_within :: "pydict \<Rightarrow> pystr \<Rightarrow> limits \<Rightarrow> bool" where
  "field_within d k l \<longleftrightarrow> (case dget d k of None \<Rightarrow> True | Some v \<Rightarrow> within l v)"

lemma within_Fields: "within (Fields fs) (PDict d) \<longleftrightarrow> (\<forall>(k, l) \<in> set fs. field_within d k l)"
  by (simp add: field_within_def case_prod_beta)

lemma field_within_trunc [simp]:
  "field_within (trunc_field k n d) k (MaxLen n)"
  "k' \<noteq> k \<Longrightarrow> field_within (trunc_field k n d) k' l \<longleftrightarrow> field_within d k' l"
  by (simp_all add: field_within_def split: option.splits)

lemma field_within_dset [simp]:
  "field_within (dset d k v) k' l \<longleftrightarrow> (if k' = k then within l v else field_within d k' l)"
  by (simp add: field_within_def)

lemma field_within_ddel [simp]:
  "field_within (ddel d k) k' l \<longleftrightarrow> k' = k \<or> field_within d k' l"
  by (simp add: field_within_def)

lemma field_within_each:
  assumes "for_each_dict k f d = Inr d'"
  shows "(\<And>a. within (Fields fs) (PDict (f a))) \<Longrightarrow> field_within d' k (Items (Fields fs))"
    and "k' \<noteq> k \<Longrightarrow> field_within d' k' l \<longleftrightarrow> field_within d k' l"
  using within_map_dicts [of "Fields fs" f] within_Fields_other
  by (auto simp: field_within_def dget_for_each_dict [OF assms] split: option.splits
      simp del: within.simps)

lemma field_within_on_dict:
  assumes "on_dict_field k f d = Inr d'"
  shows "(\<And>x x'. f x = Inr x' \<Longrightarrow> within (Fields fs) (PDict x')) \<Longrightarrow> field_within d' k (Fields fs)"
    and "k' \<noteq> k \<Longrightarrow> field_within d' k' l \<longleftrightarrow> field_within d k' l"
  using assms
  by (auto elim!: on_dict_field_cases simp: field_within_def split: option.splits
      simp del: within.simps) (metis is_dict_def within_Fields_other)

lemma within_diagnosis: "within DIAGNOSIS_LIMITS (PDict (sanitize_diagnosis d))"
  unfolding DIAGNOSIS_LIMITS_def within_Fields sanitize_diagnosis_def
  by (simp add: max_lens)

lemma within_items:
  "within (Fields [(S ''command'', MaxLen 4096), (S ''type'', MaxLen 256),
     (S ''description'', MaxLen 4096)]) (PDict (sanitize_action a))"
  "within (Fields [(S ''description'', MaxLen 4096), (S ''command'', MaxLen 4096)])
     (PDict (sanitize_rollback a))"
  "within (Fields [(S ''name'', MaxLen 253), (S ''command'', MaxLen 4096),
     (S ''expected'', MaxLen 1024), (S ''type'', MaxLen 256)]) (PDict (sanitize_step a))"
  "within (Fields [(S ''justification'', MaxLen 1024)]) (PDict (sanitize_rule a))"
  unfolding within_Fields item_sanitizers by (simp_all add: max_lens)

lemma within_plan: "sanitize_plan p = Inr p' \<Longrightarrow> within PLAN_LIMITS (PDict p')"
  unfolding PLAN_LIMITS_def within_Fields
  by (auto simp: sanitize_plan_def result_simps max_lens field_within_on_dict(2) field_within_each(2)
      intro!: within_items elim!: field_within_on_dict(1) field_within_each(1)
      simp del: within.simps)

lemma within_verification:
  "sanitize_verification v = Inr v' \<Longrightarrow> within VERIFICATION_LIMITS (PDict v')"
  unfolding VERIFICATION_LIMITS_def within_Fields
  by (auto simp: sanitize_verification_def max_lens field_within_each(2)
      intro!: within_items elim!: field_within_each(1) simp del: within.simps)

lemma within_rbac: "sanitize_rbac r = Inr r' \<Longrightarrow> within RBAC_LIMITS (PDict r')"
  unfolding RBAC_LIMITS_def within_Fields
  by (auto simp: sanitize_rbac_def result_simps field_within_each(2)
      intro!: within_items elim!: field_within_each(1) simp del: within.simps)


text \<open>The pairing step leaves a plan only beside a complete, truncated diagnosis.\<close>

definition complete_diagnosis :: "pyval \<Rightarrow> bool" where
  "complete_diagnosis v \<longleftrightarrow>
     (case v of
        PDict d \<Rightarrow> nonempty_str (dgetn d (S ''summary'')) \<and> nonempty_str (dgetn d (S ''rootCause''))
      | _ \<Rightarrow> False)"

definition well_paired :: "pydict \<Rightarrow> bool" where
  "well_paired opt \<longleftrightarrow>
     (if is_dict (dgetn opt (S ''diagnosis''))
      then complete_diagnosis (dgetn opt (S ''diagnosis'')) \<and> has_key opt (S ''remediationPlan'')
      else \<not> has_key opt (S ''remediationPlan''))"

lemma well_paired_trunc [simp]:
  "k \<noteq> S ''diagnosis'' \<Longrightarrow> well_paired (trunc_field k n opt) \<longleftrightarrow> well_paired opt"
  by (simp add: well_paired_def dgetn_def)

lemma nonempty_str_trunc:
  "0 < n \<Longrightarrow> nonempty_str (dgetn (trunc_field k n d) k') \<longleftrightarrow> nonempty_str (dgetn d k')"
  by (auto simp: nonempty_str_def dgetn_def trunc_value_def truncate_text_def
      split: option.splits pyval.splits)

lemma complete_sanitized [simp]:
  "complete_diagnosis (PDict (sanitize_diagnosis d)) \<longleftrightarrow> complete_diagnosis (PDict d)"
  by (simp add: complete_diagnosis_def sanitize_diagnosis_def nonempty_str_trunc max_lens)

lemma pair_diagnosis_errors: "snd (pair_diagnosis idx opt) = [] \<longleftrightarrow> well_paired opt"
  by (auto simp: pair_diagnosis_def well_paired_def complete_diagnosis_def Let_def split: pyval.splits)

lemma pair_diagnosis_pairs:
  "pair_diagnosis idx opt = (opt', errs) \<Longrightarrow> has_key opt' (S ''remediationPlan'') \<Longrightarrow>
    complete_diagnosis (dgetn opt' (S ''diagnosis''))"
proof -
  assume "pair_diagnosis idx opt = (opt', errs)" and k: "has_key opt' (S ''remediationPlan'')"
  moreover have "nonempty_str (dgetn d (S ''summary'')) \<Longrightarrow> nonempty_str (dgetn d (S ''rootCause''))
      \<Longrightarrow> complete_diagnosis (PDict (sanitize_diagnosis d))" for d
    by (subst complete_sanitized) (simp add: complete_diagnosis_def)
  ultimately show ?thesis
    by (auto simp: pair_diagnosis_def drop_pair_def Let_def split: pyval.splits if_splits)
qed

lemma pair_diagnosis_within:
  assumes "pair_diagnosis idx opt = (opt', errs)"
  shows "field_within opt' (S ''diagnosis'') DIAGNOSIS_LIMITS"
    and "k \<noteq> S ''diagnosis'' \<Longrightarrow> field_within opt k l \<Longrightarrow> field_within opt' k l"
proof -
  have other: "\<not> is_dict (dgetn opt (S ''diagnosis'')) \<Longrightarrow> field_within opt (S ''diagnosis'') DIAGNOSIS_LIMITS"
    by (auto simp: field_within_def dgetn_def DIAGNOSIS_LIMITS_def split: option.splits
        intro!: within_Fields_other)
  show "field_within opt' (S ''diagnosis'') DIAGNOSIS_LIMITS"
    using assms other within_diagnosis
    by (auto simp: pair_diagnosis_def drop_pair_def Let_def split: pyval.splits if_splits)
  show "k \<noteq> S ''diagnosis'' \<Longrightarrow> field_within opt k l \<Longrightarrow> field_within opt' k l"
    using assms by (auto simp: pair_diagnosis_def drop_pair_def Let_def split: pyval.splits if_splits)
qed

lemma sanitize_optionE:
  assumes "sanitize_option idx opt = Inr (opt', errs)"
  obtains opt2 opt3 opt4 where
    "pair_diagnosis idx (trunc_field (S ''summary'') MAX_LEN_OPTION_SUMMARY
       (trunc_field (S ''title'') MAX_LEN_OPTION_TITLE opt)) = (opt2, errs)"
    "on_dict_field (S ''remediationPlan'') sanitize_plan opt2 = Inr opt3"
    "on_dict_field (S ''verification'') sanitize_verification opt3 = Inr opt4"
    "on_dict_field (S ''rbac'') sanitize_rbac opt4 = Inr opt'"
  using assms by (auto simp: sanitize_option_def Let_def result_simps split: prod.splits)

lemma on_dict_field_keys:
  "on_dict_field k f d = Inr d' \<Longrightarrow> has_key d' k' \<longleftrightarrow> has_key d k'"
  "on_dict_field k f d = Inr d' \<Longrightarrow> k' \<noteq> k \<Longrightarrow> dget d' k' = dget d k'"
  by (auto elim!: on_dict_field_cases split: if_splits)

lemma sanitize_option_within:
  assumes "sanitize_option idx opt = Inr (opt', errs)"
  shows "within OPTION_LIMITS (PDict opt')"
  using assms
proof (rule sanitize_optionE)
  fix opt2 opt3 opt4
  assume o: "pair_diagnosis idx (trunc_field (S ''summary'') MAX_LEN_OPTION_SUMMARY
       (trunc_field (S ''title'') MAX_LEN_OPTION_TITLE opt)) = (opt2, errs)"
    "on_dict_field (S ''remediationPlan'') sanitize_plan opt2 = Inr opt3"
    "on_dict_field (S ''verification'') sanitize_verification opt3 = Inr opt4"
    "on_dict_field (S ''rbac'') sanitize_rbac opt4 = Inr opt'"
  have "field_within opt' (S ''remediationPlan'') PLAN_LIMITS"
    using field_within_on_dict(1) [OF o(2)] within_plan
    by (simp add: field_within_on_dict(2) [OF o(4)] field_within_on_dict(2) [OF o(3)]
        PLAN_LIMITS_def)
  moreover have "field_within opt' (S ''verification'') VERIFICATION_LIMITS"
    using field_within_on_dict(1) [OF o(3)] within_verification
    by (simp add: field_within_on_dict(2) [OF o(4)] VERIFICATION_LIMITS_def)
  moreover have "field_within opt' (S ''rbac'') RBAC_LIMITS"
    using field_within_on_dict(1) [OF o(4)] within_rbac by (simp add: RBAC_LIMITS_def)
  moreover have "field_within opt2 (S ''title'') (MaxLen 256)" "field_within opt2 (S ''summary'') (MaxLen 1024)"
    by (rule pair_diagnosis_within(2) [OF o(1)]; simp add: max_lens)+
  moreover note pair_diagnosis_within(1) [OF o(1)]
  ultimately show ?thesis
    unfolding OPTION_LIMITS_def within_Fields
    by (simp add: field_within_on_dict(2) [OF o(4)] field_within_on_dict(2) [OF o(3)]
        field_within_on_dict(2) [OF o(2)])
qed

lemma sanitize_option_pairs:
  assumes "sanitize_option idx opt = Inr (opt', errs)"
  shows "errs = [] \<longleftrightarrow> well_paired opt"
    and "has_key opt' (S ''remediationPlan'') \<Longrightarrow> complete_diagnosis (dgetn opt' (S ''diagnosis''))"
  using assms
proof (rule_tac [!] sanitize_optionE)
  fix opt2 opt3 opt4
  assume o: "pair_diagnosis idx (trunc_field (S ''summary'') MAX_LEN_OPTION_SUMMARY
       (trunc_field (S ''title'') MAX_LEN_OPTION_TITLE opt)) = (opt2, errs)"
    "on_dict_field (S ''remediationPlan'') sanitize_plan opt2 = Inr opt3"
    "on_dict_field (S ''verification'') sanitize_verification opt3 = Inr opt4"
    "on_dict_field (S ''rbac'') sanitize_rbac opt4 = Inr opt'"
  show "errs = [] \<longleftrightarrow> well_paired opt"
    using pair_diagnosis_errors [of idx "trunc_field (S ''summary'') MAX_LEN_OPTION_SUMMARY
       (trunc_field (S ''title'') MAX_LEN_OPTION_TITLE opt)"] o(1) by simp
  assume "has_key opt' (S ''remediationPlan'')"
  then have "has_key opt2 (S ''remediationPlan'')"
    by (simp only: on_dict_field_keys(1) [OF o(4)] on_dict_field_keys(1) [OF o(3)]
        on_dict_field_keys(1) [OF o(2)] not_False_eq_True)
  from pair_diagnosis_pairs [OF o(1) this]
  show "complete_diagnosis (dgetn opt' (S ''diagnosis''))"
    by (simp add: dgetn_def on_dict_field_keys(2) [OF o(4)] on_dict_field_keys(2) [OF o(3)]
        on_dict_field_keys(2) [OF o(2)])
qed


lemma pair_diagnosis_messages: "pair_diagnosis idx opt = (opt', errs) \<Longrightarrow> [] \<notin> set errs"
  by (auto simp: pair_diagnosis_def Let_def option_error_def split: pyval.splits if_splits)

lemma sanitize_option_messages: "sanitize_option idx opt = Inr (opt', errs) \<Longrightarrow> [] \<notin> set errs"
  by (auto elim!: sanitize_optionE dest: pair_diagnosis_messages)

lemma sanitize_options_each:
  assumes "sanitize_analysis_options options = Inr (options', errs)"
  obtains xs rs where
    "xs = take MAX_OPTIONS (dicts_of options)" "length rs = length xs"
    "\<And>n. n < length xs \<Longrightarrow> sanitize_option n (xs ! n) = Inr (fst (rs ! n), snd (rs ! n))"
    "options' = map (PDict \<circ> fst) rs" "errs = concat (map snd rs)"
proof -
  define xs where "xs = take MAX_OPTIONS (dicts_of options)"
  from assms obtain rs where rs: "mapE (\<lambda>(idx, opt). sanitize_option idx opt) (List.enumerate 0 xs) = Inr rs"
    "options' = map (PDict \<circ> fst) rs" "errs = concat (map snd rs)"
    by (auto simp: sanitize_analysis_options_def result_simps xs_def)
  from rs(1) have "length rs = length xs"
    "\<And>n. n < length xs \<Longrightarrow> sanitize_option n (xs ! n) = Inr (fst (rs ! n), snd (rs ! n))"
    by (auto simp: mapE_ok_all2 list_all2_conv_all_nth nth_enumerate_eq)
  then show ?thesis using that xs_def rs(2,3) by blast
qed

lemma sanitize_options_member:
  assumes "sanitize_analysis_options options = Inr (options', errs)" "v \<in> set options'"
  obtains idx opt d es where "v = PDict d" "sanitize_option idx opt = Inr (d, es)"
    "opt \<in> set (dicts_of options)"
proof (rule sanitize_options_each [OF assms(1)])
  fix xs rs
  assume xs: "xs = take MAX_OPTIONS (dicts_of options)" "length rs = length xs"
    "\<And>n. n < length xs \<Longrightarrow> sanitize_option n (xs ! n) = Inr (fst (rs ! n), snd (rs ! n))"
    "options' = map (PDict \<circ> fst) rs"
  with assms(2) obtain n where "n < length xs" "v = PDict (fst (rs ! n))"
    by (auto simp: in_set_conv_nth)
  then show ?thesis using that xs by (metis in_set_takeD nth_mem)
qed

lemma sanitize_options_length:
  "sanitize_analysis_options options = Inr (options', errs) \<Longrightarrow> length options' \<le> 10"
  by (erule sanitize_options_each) (simp add: MAX_OPTIONS_def)

lemma sanitize_options_messages:
  "sanitize_analysis_options options = Inr (options', errs) \<Longrightarrow> [] \<notin> set errs"
proof (erule sanitize_options_each)
  fix xs rs
  assume xs: "length rs = length xs" "errs = concat (map snd rs)"
    "\<And>n. n < length xs \<Longrightarrow> sanitize_option n (xs ! n) = Inr (fst (rs ! n), snd (rs ! n))"
  have "[] \<notin> set (snd (rs ! n))" if "n < length rs" for n
    using xs(3) [of n] that xs(1) by (metis sanitize_option_messages)
  then have "\<forall>r \<in> set rs. [] \<notin> set (snd r)" by (metis in_set_conv_nth)
  then show ?thesis using xs(2) by auto
qed

lemma sanitize_options_errors:
  "sanitize_analysis_options options = Inr (options', errs) \<Longrightarrow>
    errs = [] \<longleftrightarrow> (\<forall>opt \<in> set (take MAX_OPTIONS (dicts_of options)). well_paired opt)"
proof (erule sanitize_options_each)
  fix xs rs
  assume xs: "xs = take MAX_OPTIONS (dicts_of options)" "length rs = length xs"
    "errs = concat (map snd rs)"
    "\<And>n. n < length xs \<Longrightarrow> sanitize_option n (xs ! n) = Inr (fst (rs ! n), snd (rs ! n))"
  have "errs = [] \<longleftrightarrow> (\<forall>n < length xs. snd (rs ! n) = [])"
    unfolding xs(3) xs(2) [symmetric] by (simp add: all_set_conv_all_nth)
  also have "\<dots> \<longleftrightarrow> (\<forall>n < length xs. well_paired (xs ! n))"
    using sanitize_option_pairs(1) [OF xs(4)] by blast
  also have "\<dots> \<longleftrightarrow> (\<forall>opt \<in> set xs. well_paired opt)"
    by (simp add: all_set_conv_all_nth)
  finally show ?thesis by (simp add: xs(1))
qed

lemma join_nonempty: "xs \<noteq> [] \<Longrightarrow> [] \<notin> set xs \<Longrightarrow> join sep xs \<noteq> []"
proof -
  assume "xs \<noteq> []" "[] \<notin> set xs"
  then obtain y ys where "xs = y # ys" "y \<noteq> []" by (cases xs) auto
  then show ?thesis by (cases ys) auto
qed


section \<open>Lemmas: well-formedness\<close>

lemma wf_map_dicts:
  assumes "\<And>a. wf_val (PDict a) \<Longrightarrow> wf_val (PDict (f a))" "wf_val v"
  shows "wf_val (map_dicts f v)"
proof -
  have "wf_val x \<Longrightarrow> wf_val (case x of PDict a \<Rightarrow> PDict (f a) | _ \<Rightarrow> x)" for x
    using assms(1) by (cases x) (simp_all del: wf_val.simps(2))
  then show ?thesis using assms(2) by (cases v) (auto simp: map_dicts_def)
qed

lemma wf_for_each:
  assumes "for_each_dict k f d = Inr d'" "wf_val (PDict d)"
    and "\<And>a. wf_val (PDict a) \<Longrightarrow> wf_val (PDict (f a))"
  shows "wf_val (PDict d')"
proof -
  have "d' = d \<or> (\<exists>v. dget d k = Some v \<and> d' = dset d k (map_dicts f v))"
    using assms(1) by (auto simp: for_each_dict_def dgetn_def map_dicts_def result_simps
        split: if_splits option.splits pyval.splits)
  then show ?thesis
    using assms(2,3) by (metis wf_dget wf_dset wf_map_dicts)
qed

lemma wf_on_dict:
  assumes "on_dict_field k f d = Inr d'" "wf_val (PDict d)"
    and "\<And>x x'. wf_val (PDict x) \<Longrightarrow> f x = Inr x' \<Longrightarrow> wf_val (PDict x')"
  shows "wf_val (PDict d')"
  using assms(1)
proof (cases rule: on_dict_field_cases)
  case (dict x x')
  then show ?thesis using assms(2,3) wf_dget wf_dset by blast
next
  case other
  then show ?thesis using assms(2) by simp
qed

lemma wf_items:
  "wf_val (PDict a) \<Longrightarrow> wf_val (PDict (sanitize_action a))"
  "wf_val (PDict a) \<Longrightarrow> wf_val (PDict (sanitize_rollback a))"
  "wf_val (PDict a) \<Longrightarrow> wf_val (PDict (sanitize_step a))"
  "wf_val (PDict a) \<Longrightarrow> wf_val (PDict (sanitize_rule a))"
  "wf_val (PDict a) \<Longrightarrow> wf_val (PDict (sanitize_diagnosis a))"
  unfolding item_sanitizers by (intro wf_trunc_field, assumption)+

lemma wf_plan: "wf_val (PDict p) \<Longrightarrow> sanitize_plan p = Inr p' \<Longrightarrow> wf_val (PDict p')"
  unfolding sanitize_plan_def bindE_eq_Inr
  by (elim exE conjE, rule wf_on_dict, assumption, rule wf_for_each, assumption)
    (auto intro: wf_items wf_trunc_field simp del: wf_val.simps(2))

lemma wf_verification:
  "wf_val (PDict p) \<Longrightarrow> sanitize_verification p = Inr p' \<Longrightarrow> wf_val (PDict p')"
  unfolding sanitize_verification_def
  by (rule wf_for_each, assumption) (auto intro: wf_items wf_trunc_field simp del: wf_val.simps(2))

lemma wf_rbac: "wf_val (PDict p) \<Longrightarrow> sanitize_rbac p = Inr p' \<Longrightarrow> wf_val (PDict p')"
  unfolding sanitize_rbac_def bindE_eq_Inr
  by (elim exE conjE, rule wf_for_each, assumption, rule wf_for_each, assumption)
    (auto intro: wf_items simp del: wf_val.simps(2))

lemma wf_pair: "wf_val (PDict opt) \<Longrightarrow> pair_diagnosis idx opt = (opt', errs) \<Longrightarrow> wf_val (PDict opt')"
  unfolding pair_diagnosis_def drop_pair_def Let_def dgetn_def
  by (auto split: option.splits pyval.splits if_splits intro!: wf_dset wf_ddel wf_items
      dest: wf_dget simp del: wf_val.simps(2))

lemma wf_option:
  "wf_val (PDict opt) \<Longrightarrow> sanitize_option idx opt = Inr (opt', errs) \<Longrightarrow> wf_val (PDict opt')"
proof (erule sanitize_optionE)
  fix opt2 opt3 opt4
  assume o: "wf_val (PDict opt)"
    "pair_diagnosis idx (trunc_field (S ''summary'') MAX_LEN_OPTION_SUMMARY
       (trunc_field (S ''title'') MAX_LEN_OPTION_TITLE opt)) = (opt2, errs)"
    "on_dict_field (S ''remediationPlan'') sanitize_plan opt2 = Inr opt3"
    "on_dict_field (S ''verification'') sanitize_verification opt3 = Inr opt4"
    "on_dict_field (S ''rbac'') sanitize_rbac opt4 = Inr opt'"
  have "wf_val (PDict opt2)" using o(1,2) by (intro wf_pair [OF _ o(2)] wf_trunc_field)
  then have "wf_val (PDict opt3)" by (rule wf_on_dict [OF o(3)]) (rule wf_plan)
  then have "wf_val (PDict opt4)" by (rule wf_on_dict [OF o(4)]) (rule wf_verification)
  then show ?thesis by (rule wf_on_dict [OF o(5)]) (rule wf_rbac)
qed

lemma wf_dicts_of: "\<forall>v \<in> set vs. wf_val v \<Longrightarrow> opt \<in> set (dicts_of vs) \<Longrightarrow> wf_val (PDict opt)"
  by (auto simp: dicts_of_def split: pyval.splits simp del: wf_val.simps(2))

lemma wf_options:
  assumes "sanitize_analysis_options options = Inr (options', errs)" "wf_val (PList options)"
  shows "wf_val (PList options')"
proof -
  have "wf_val v" if "v \<in> set options'" for v
    using sanitize_options_member [OF assms(1) that] assms(2)
    by (metis in_set_takeD wf_dicts_of wf_option wf_val.simps(1))
  then show ?thesis by simp
qed



section \<open>Lemmas: the assembled status\<close>

lemma dget_copy_fields:
  "dget (copy_fields ks out st) k =
     (if k \<in> set ks \<and> has_key out k
      then Some (case the (dget out k) of
                   PBool b \<Rightarrow> if k = S ''actionRequired'' then PStr (action_required_value b) else PBool b
                 | v \<Rightarrow> v)
      else dget st k)"
  by (induction ks arbitrary: st) (auto split: option.splits pyval.splits)

lemma wf_copy_fields:
  "wf_val (PDict out) \<Longrightarrow> wf_val (PDict st) \<Longrightarrow> wf_val (PDict (copy_fields ks out st))"
proof (induction ks arbitrary: st)
  case (Cons k ks)
  show ?case
  proof (cases "dget out k")
    case (Some v)
    then have "wf_val v" using Cons.prems(1) wf_dget by blast
    then have "wf_val (case v of PBool b \<Rightarrow> if k = S ''actionRequired''
        then PStr (action_required_value b) else v | _ \<Rightarrow> v)"
      by (cases v) simp_all
    from Cons.IH [OF Cons.prems(1) wf_dset [OF Cons.prems(2) this]]
    show ?thesis using Some by (simp del: wf_val.simps(2))
  qed (use Cons in \<open>simp del: wf_val.simps(2)\<close>)
qed (simp del: wf_val.simps(2))

lemma no_failure_field:
  "dget STATUS_FIELDS_BY_KIND kind = Some ks \<Longrightarrow> S ''failureReason'' \<notin> set ks"
  by (auto simp: STATUS_FIELDS_BY_KIND_def split: if_splits)

lemma build_statusE:
  assumes "build_status kind out fr s c i t timed = Inr st"
  obtains ks status2 ok where
    "dget STATUS_FIELDS_BY_KIND kind = Some ks"
    "sanitize_status_options kind
       (copy_fields ks out (case resolve_failure out fr timed of
          None \<Rightarrow> [] | Some r \<Rightarrow> [(S ''failureReason'', PStr r)]))
       (agent_succeeded out (resolve_failure out fr timed) \<and> \<not> timed) = Inr (status2, ok)"
    "st = dset (dset (strip_status (sanitize_status_diagnosis kind status2)) (S ''tokenUsage'')
            (PDict [(S ''inputTokens'', PInt i), (S ''outputTokens'', PInt t)]))
          (S ''conditions'') (PList (build_conditions s c ok timed))"
  using assms by (auto simp: build_status_def Let_def result_simps split: option.splits)

lemma wf_status_options:
  "sanitize_status_options kind st ok = Inr (st', ok') \<Longrightarrow> wf_val (PDict st) \<Longrightarrow> wf_val (PDict st')"
proof -
  assume a: "sanitize_status_options kind st ok = Inr (st', ok')" "wf_val (PDict st)"
  show ?thesis
  proof (cases "dgetn st (S ''options'')")
    case (PList options)
    then have g: "dget st (S ''options'') = Some (PList options)" by (rule dgetn_dest) simp
    show ?thesis
    proof (cases "kind = S ''AnalysisResult''")
      case True
      with a(1) PList obtain options' errs where
        o: "sanitize_analysis_options options = Inr (options', errs)"
        and st': "st' = dset st (S ''options'') (PList options') \<or>
          st' = dset (dset st (S ''options'') (PList options')) (S ''failureReason'')
            (PStr (join (S ''; '') errs))"
        by (auto simp: sanitize_status_options_def result_simps Let_def split: if_splits)
      have "wf_val (PList options')" using wf_options [OF o] wf_dget [OF a(2) g] by simp
      note w = wf_dset [OF a(2) this]
      show ?thesis using st' w wf_dset [OF w, of "PStr (join (S ''; '') errs)"]
        by (elim disjE) simp_all
    next
      case False
      then show ?thesis using a PList by (simp add: sanitize_status_options_def)
    qed
  qed (use a in \<open>simp_all add: sanitize_status_options_def\<close>)
qed

lemma status_before_strip:
  assumes "build_status kind out fr s c i t timed = Inr st" "wf_dict out"
  obtains ks status2 ok where
    "dget STATUS_FIELDS_BY_KIND kind = Some ks"
    "sanitize_status_options kind
       (copy_fields ks out (case resolve_failure out fr timed of
          None \<Rightarrow> [] | Some r \<Rightarrow> [(S ''failureReason'', PStr r)]))
       (agent_succeeded out (resolve_failure out fr timed) \<and> \<not> timed) = Inr (status2, ok)"
    "dget st (S ''conditions'') = Some (PList (build_conditions s c ok timed))"
    "wf_val (PDict status2)"
    "\<And>k. k \<noteq> S ''conditions'' \<Longrightarrow> k \<noteq> S ''tokenUsage'' \<Longrightarrow> dget st k =
      (case dget (sanitize_status_diagnosis kind status2) k of None \<Rightarrow> None
       | Some v \<Rightarrow> if is_empty_value (strip_field v) then None else Some (strip_field v))"
proof (rule build_statusE [OF assms(1)])
  fix ks status2 ok
  assume b: "dget STATUS_FIELDS_BY_KIND kind = Some ks"
    "sanitize_status_options kind
       (copy_fields ks out (case resolve_failure out fr timed of
          None \<Rightarrow> [] | Some r \<Rightarrow> [(S ''failureReason'', PStr r)]))
       (agent_succeeded out (resolve_failure out fr timed) \<and> \<not> timed) = Inr (status2, ok)"
    "st = dset (dset (strip_status (sanitize_status_diagnosis kind status2)) (S ''tokenUsage'')
            (PDict [(S ''inputTokens'', PInt i), (S ''outputTokens'', PInt t)]))
          (S ''conditions'') (PList (build_conditions s c ok timed))"
  have "wf_val (PDict (case resolve_failure out fr timed of
          None \<Rightarrow> [] | Some r \<Rightarrow> [(S ''failureReason'', PStr r)]))"
    by (simp add: keys_distinct_def split: option.splits)
  then have w2: "wf_val (PDict status2)"
    using wf_status_options [OF b(2) wf_copy_fields] assms(2) by (simp only: wf_dict_def)
  then have "wf_val (PDict (sanitize_status_diagnosis kind status2))"
    unfolding sanitize_status_diagnosis_def
    by (auto split: pyval.splits if_splits dest!: dgetn_dest intro!: wf_dset wf_items
        dest: wf_dget simp del: wf_val.simps(2))
  then have "keys_distinct (sanitize_status_diagnosis kind status2)" by simp
  then show ?thesis
    using that [OF b(1,2) _ w2] b(3) by (simp add: dget_strip_status)
qed

lemma strip_field_simps [simp]:
  "strip_field (PStr r) = PStr r" "strip_field (PList vs) = PList (map strip_empty_values vs)"
  "strip_field (PDict d) = PDict (strip_status d)"
  "is_empty_value (PStr r) \<longleftrightarrow> r = []"
  by (simp_all add: strip_field_def is_empty_value_def strip_status_eq)

lemma dget_status_diagnosis [simp]:
  "k \<noteq> S ''diagnosis'' \<Longrightarrow> dget (sanitize_status_diagnosis kind st) k = dget st k"
  by (simp add: sanitize_status_diagnosis_def split: pyval.splits)

lemma status_options_failure:
  assumes "sanitize_status_options kind st ok = Inr (st', ok')"
  shows "(st' = st \<and> ok' = ok) \<or>
    (\<exists>options'. st' = dset st (S ''options'') (PList options') \<and> ok' = ok) \<or>
    (\<exists>r. r \<noteq> [] \<and> dget st' (S ''failureReason'') = Some (PStr r) \<and> \<not> ok')"
  using assms by (auto simp: sanitize_status_options_def result_simps Let_def
      split: pyval.splits if_splits dest: sanitize_options_messages join_nonempty)

lemma status_options_sanitized:
  assumes "sanitize_status_options (S ''AnalysisResult'') st ok = Inr (st', ok')"
    and "dget st' (S ''options'') = Some (PList opts)"
  shows "\<exists>options errs. sanitize_analysis_options options = Inr (opts, errs)"
proof (cases "dgetn st (S ''options'')")
  case (PList options)
  with assms(1) obtain opts' errs where o: "sanitize_analysis_options options = Inr (opts', errs)"
    by (auto simp: sanitize_status_options_def result_simps)
  with assms PList have "opts = opts'"
    by (auto simp: sanitize_status_options_def Let_def split: if_splits)
  with o show ?thesis by blast
qed (use assms in \<open>auto simp: sanitize_status_options_def\<close>)

lemma resolve_failure_nonempty:
  "fr \<noteq> Some [] \<Longrightarrow> resolve_failure out fr timed = Some r \<Longrightarrow> r \<noteq> []"
  by (auto simp: resolve_failure_def infer_failure_reason_def split: option.splits pyval.splits if_splits)

lemma resolve_failure_None:
  "resolve_failure out fr timed = None \<Longrightarrow> \<not> timed \<and> agent_succeeded out None"
  by (auto simp: resolve_failure_def infer_failure_reason_def agent_succeeded_def
      split: option.splits pyval.splits if_splits)



lemma stripped_dset:
  assumes "stripped_value (PDict d)" "stripped_value (PDict [(k, v)])"
  shows "stripped_value (PDict (dset d k v))"
  using assms by (auto dest!: dset_in)

lemma replace_nonempty: "old \<noteq> [] \<Longrightarrow> new \<noteq> [] \<Longrightarrow> s \<noteq> [] \<Longrightarrow> replace old new s \<noteq> []"
  by (cases s) (auto simp: replace.simps)

lemma format_condition_time_nonempty: "format_condition_time when \<noteq> []"
  by (simp add: format_condition_time_def isoformat_def replace_nonempty)

lemma for_each_dict_error: "for_each_dict k f d = Inl e \<Longrightarrow> exn_class e = CTypeError"
  by (cases "dgetn d k") (auto simp: for_each_dict_def split: if_splits)

lemma on_dict_field_error:
  "on_dict_field k f d = Inl e \<Longrightarrow> (\<And>x. f x = Inl e \<Longrightarrow> exn_class e = CTypeError) \<Longrightarrow>
    exn_class e = CTypeError"
  by (auto simp: on_dict_field_def result_simps split: pyval.splits)

lemma sanitizer_errors:
  "sanitize_plan p = Inl e \<Longrightarrow> exn_class e = CTypeError"
  "sanitize_verification p = Inl e \<Longrightarrow> exn_class e = CTypeError"
  "sanitize_rbac p = Inl e \<Longrightarrow> exn_class e = CTypeError"
  by (auto simp: sanitize_plan_def sanitize_verification_def sanitize_rbac_def result_simps
      dest: for_each_dict_error on_dict_field_error)

lemma section_errors:
  "on_dict_field k sanitize_plan d = Inl e \<Longrightarrow> exn_class e = CTypeError"
  "on_dict_field k sanitize_verification d = Inl e \<Longrightarrow> exn_class e = CTypeError"
  "on_dict_field k sanitize_rbac d = Inl e \<Longrightarrow> exn_class e = CTypeError"
  by (erule on_dict_field_error, erule sanitizer_errors)+

lemma sanitize_option_error: "sanitize_option idx opt = Inl e \<Longrightarrow> exn_class e = CTypeError"
  by (auto simp: sanitize_option_def Let_def result_simps split: prod.splits dest: section_errors)

lemma sanitize_options_error:
  "sanitize_analysis_options options = Inl e \<Longrightarrow> exn_class e = CTypeError"
  by (auto simp: sanitize_analysis_options_def result_simps dest!: mapE_error sanitize_option_error)


section \<open>Properties\<close>

text \<open>
  C13. Every option of a published AnalysisResult respects the CRD's length limits: at most ten
  options, each an object, each string field of the option, its diagnosis, remediation plan,
  actions, rollback plan, verification steps and RBAC rules no longer than its limit. The output
  only needs to be a JSON object.
\<close>

theorem published_options_within_limits:
  assumes "wf_dict out" "build_status (S ''AnalysisResult'') out fr s c i t timed = Inr st"
    and "dget st (S ''options'') = Some (PList opts)"
  shows "length opts \<le> 10 \<and> (\<forall>v \<in> set opts. is_dict v \<and> within OPTION_LIMITS v)"
proof (rule status_before_strip [OF assms(2,1)])
  fix ks status2 ok
  assume b: "sanitize_status_options (S ''AnalysisResult'')
       (copy_fields ks out (case resolve_failure out fr timed of
          None \<Rightarrow> [] | Some r \<Rightarrow> [(S ''failureReason'', PStr r)]))
       (agent_succeeded out (resolve_failure out fr timed) \<and> \<not> timed) = Inr (status2, ok)"
    "wf_val (PDict status2)"
    "\<And>k. k \<noteq> S ''conditions'' \<Longrightarrow> k \<noteq> S ''tokenUsage'' \<Longrightarrow> dget st k =
      (case dget (sanitize_status_diagnosis (S ''AnalysisResult'') status2) k of None \<Rightarrow> None
       | Some v \<Rightarrow> if is_empty_value (strip_field v) then None else Some (strip_field v))"
  have "(case dget status2 (S ''options'') of None \<Rightarrow> None
     | Some v \<Rightarrow> if is_empty_value (strip_field v) then None else Some (strip_field v)) =
     Some (PList opts)"
    using assms(3) b(3) [of "S ''options''"] by simp
  then obtain v where "dget status2 (S ''options'') = Some v" "strip_field v = PList opts"
    by (auto split: option.splits if_splits)
  then obtain opts2 where o2: "dget status2 (S ''options'') = Some (PList opts2)"
    "opts = map strip_empty_values opts2"
    by (cases v) (simp_all add: strip_field_def strip_dict)
  then obtain options errs where opt: "sanitize_analysis_options options = Inr (opts2, errs)"
    using status_options_sanitized [OF b(1)] by blast
  have "is_dict (strip_empty_values v) \<and> within OPTION_LIMITS (strip_empty_values v)"
    if v: "v \<in> set opts2" for v
  proof -
    obtain d where d: "v = PDict d" "within OPTION_LIMITS v"
      using sanitize_options_member [OF opt v] sanitize_option_within by metis
    have "wf_val v" using wf_dget [OF b(2) o2(1)] v by simp
    then have "within OPTION_LIMITS (strip_empty_values v)" using within_strip d(2) by blast
    then show ?thesis by (simp add: d(1) strip_dict)
  qed
  then show ?thesis using o2(2) sanitize_options_length [OF opt] by auto
qed

lemma published_options_within_limits_witness:
  "length [PDict [(S ''title'', PStr (replicate 256 97))]] \<le> 10 \<and>
   within OPTION_LIMITS (PDict [(S ''title'', PStr (replicate 256 97))])"
proof -
  let ?out = "[(S ''options'', PList [PDict [(S ''title'', PStr (replicate 300 97))]])]"
  have "build_status (S ''AnalysisResult'') ?out None epoch epoch 1 2 False =
    Inr [(S ''options'', PList [PDict [(S ''title'', PStr (replicate 256 97))]]),
     (S ''tokenUsage'', PDict [(S ''inputTokens'', PInt 1), (S ''outputTokens'', PInt 2)]),
     (S ''conditions'', PList (build_conditions epoch epoch True False))]"
    by code_simp
  moreover have "wf_dict ?out" by code_simp
  ultimately show ?thesis
    using published_options_within_limits [of ?out None epoch epoch 1 2 False _
        "[PDict [(S ''title'', PStr (replicate 256 97))]]"]
    by simp
qed

text \<open>
  A status carries a non-empty \<open>failureReason\<close> exactly when its Completed condition does not
  report \<open>Succeeded\<close> (the sandbox never passes an empty reason of its own); and it reports success
  only when the run neither timed out nor had the agent report \<open>success: false\<close>.
\<close>

theorem failure_reason_iff_not_succeeded:
  assumes "wf_dict out" "build_status kind out fr s c i t timed = Inr st" "fr \<noteq> Some []"
  shows "\<exists>ok. dget st (S ''conditions'') = Some (PList (build_conditions s c ok timed)) \<and>
    (ok \<longrightarrow> \<not> timed \<and> fr = None \<and> dgetn out (S ''success'') \<noteq> PBool False) \<and>
    (if ok then dget st (S ''failureReason'') = None
     else \<exists>r. r \<noteq> [] \<and> dget st (S ''failureReason'') = Some (PStr r))"
proof (rule status_before_strip [OF assms(2,1)])
  fix ks status2 ok
  let ?fail = "resolve_failure out fr timed"
  let ?st1 = "copy_fields ks out (case ?fail of None \<Rightarrow> [] | Some r \<Rightarrow> [(S ''failureReason'', PStr r)])"
  assume b: "dget STATUS_FIELDS_BY_KIND kind = Some ks"
    "sanitize_status_options kind ?st1 (agent_succeeded out ?fail \<and> \<not> timed) = Inr (status2, ok)"
    "dget st (S ''conditions'') = Some (PList (build_conditions s c ok timed))"
    "\<And>k. k \<noteq> S ''conditions'' \<Longrightarrow> k \<noteq> S ''tokenUsage'' \<Longrightarrow> dget st k =
      (case dget (sanitize_status_diagnosis kind status2) k of None \<Rightarrow> None
       | Some v \<Rightarrow> if is_empty_value (strip_field v) then None else Some (strip_field v))"
  have st1: "dget ?st1 (S ''failureReason'') = map_option PStr ?fail"
    using no_failure_field [OF b(1)] by (simp add: dget_copy_fields split: option.splits)
  have st2: "if ok then dget status2 (S ''failureReason'') = None \<and> ?fail = None
    else \<exists>r. r \<noteq> [] \<and> dget status2 (S ''failureReason'') = Some (PStr r)"
    using status_options_failure [OF b(2)] st1 resolve_failure_nonempty [OF assms(3)]
      resolve_failure_None [of out fr timed]
    by (cases ?fail) (auto simp: agent_succeeded_def)
  have "dget st (S ''failureReason'') = (case dget status2 (S ''failureReason'') of None \<Rightarrow> None
       | Some v \<Rightarrow> if is_empty_value (strip_field v) then None else Some (strip_field v))"
    using b(4) [of "S ''failureReason''"] by simp
  with st2 have fin: "if ok then dget st (S ''failureReason'') = None
     else \<exists>r. r \<noteq> [] \<and> dget st (S ''failureReason'') = Some (PStr r)"
    by (auto split: if_splits)
  have "ok \<longrightarrow> \<not> timed \<and> fr = None \<and> dgetn out (S ''success'') \<noteq> PBool False"
    using st2 resolve_failure_None [of out fr timed]
    by (auto simp: resolve_failure_def infer_failure_reason_def agent_succeeded_def split: option.splits)
  with b(3) fin show ?thesis by blast
qed

lemma failure_reason_iff_not_succeeded_witness:
  "\<exists>st. build_status (S ''ExecutionResult'') [(S ''success'', PBool False)] None epoch epoch 1 2 False = Inr st
     \<and> dget st (S ''failureReason'') = Some (PStr (S ''Agent reported failure''))
     \<and> (\<exists>r. r \<noteq> [] \<and> dget st (S ''failureReason'') = Some (PStr r))"
proof -
  let ?st = "[(S ''failureReason'', PStr (S ''Agent reported failure'')),
     (S ''tokenUsage'', PDict [(S ''inputTokens'', PInt 1), (S ''outputTokens'', PInt 2)]),
     (S ''conditions'', PList (build_conditions epoch epoch False False))]"
  have b: "build_status (S ''ExecutionResult'') [(S ''success'', PBool False)] None epoch epoch 1 2 False
     = Inr ?st" by code_simp
  moreover have w: "wf_dict [(S ''success'', PBool False)]" by code_simp
  ultimately show ?thesis
    using failure_reason_iff_not_succeeded [OF w b] by (auto split: if_splits)
qed

text \<open>
  Sanitising keeps a remediation plan only beside a diagnosis whose summary and root cause are
  non-empty, and it reports a pairing error exactly when one of the first ten option objects is
  badly paired: an incomplete diagnosis, or one of the two without the other.
\<close>

theorem sanitized_options_are_paired:
  assumes "sanitize_analysis_options options = Inr (options', errors)"
  shows "(\<forall>opt. PDict opt \<in> set options' \<and> has_key opt (S ''remediationPlan'') \<longrightarrow>
            complete_diagnosis (dgetn opt (S ''diagnosis''))) \<and>
    (errors = [] \<longleftrightarrow> (\<forall>opt \<in> set (take MAX_OPTIONS (dicts_of options)). well_paired opt))"
proof (intro conjI allI impI)
  fix opt assume o: "PDict opt \<in> set options' \<and> has_key opt (S ''remediationPlan'')"
  then obtain idx o0 es where "sanitize_option idx o0 = Inr (opt, es)"
    using sanitize_options_member [OF assms] by blast
  then show "complete_diagnosis (dgetn opt (S ''diagnosis''))"
    using o by (blast intro: sanitize_option_pairs(2))
qed (rule sanitize_options_errors [OF assms])

lemma sanitized_options_are_paired_witness:
  "sanitize_analysis_options [PStr (S ''x''), PDict [(S ''remediationPlan'', PNone)]] =
     Inr ([PDict []], [S ''option 0: remediationPlan without diagnosis'']) \<and>
   \<not> well_paired [(S ''remediationPlan'', PNone)]"
proof -
  have "sanitize_analysis_options [PStr (S ''x''), PDict [(S ''remediationPlan'', PNone)]] =
     Inr ([PDict []], [S ''option 0: remediationPlan without diagnosis''])"
    by code_simp
  from this and sanitized_options_are_paired [OF this] show ?thesis
    by (simp add: dicts_of_def MAX_OPTIONS_def)
qed

text \<open>
  The published status has no empty string, list or dictionary as the value of a field, at any
  depth under dictionaries and lists of dictionaries, so the CRD's minimum lengths hold; this
  includes the token usage and the conditions added after stripping.
\<close>

theorem published_status_has_no_empty_field:
  assumes "build_status kind out fr s c i t timed = Inr st"
  shows "stripped_value (PDict st)"
proof (rule build_statusE [OF assms])
  fix ks status2 ok
  assume st: "st = dset (dset (strip_status (sanitize_status_diagnosis kind status2)) (S ''tokenUsage'')
            (PDict [(S ''inputTokens'', PInt i), (S ''outputTokens'', PInt t)]))
          (S ''conditions'') (PList (build_conditions s c ok timed))"
  have "format_condition_time s \<noteq> []" "format_condition_time c \<noteq> []"
    by (simp_all add: format_condition_time_nonempty)
  then show ?thesis unfolding st
    by (intro stripped_dset) (auto simp: strip_status_eq stripped_strip is_empty_value_def
        build_conditions_def)
qed

lemma published_status_has_no_empty_field_witness:
  "stripped_value (PDict [(S ''summary'', PStr (S ''ok'')),
     (S ''tokenUsage'', PDict [(S ''inputTokens'', PInt 1), (S ''outputTokens'', PInt 2)]),
     (S ''conditions'', PList (build_conditions epoch epoch True False))])"
proof (rule published_status_has_no_empty_field)
  show "build_status (S ''VerificationResult'')
      [(S ''checks'', PList []), (S ''summary'', PStr (S ''ok''))] None epoch epoch 1 2 False =
    Inr [(S ''summary'', PStr (S ''ok'')),
     (S ''tokenUsage'', PDict [(S ''inputTokens'', PInt 1), (S ''outputTokens'', PInt 2)]),
     (S ''conditions'', PList (build_conditions epoch epoch True False))]"
    by code_simp
qed

text \<open>
  \<open>build_status\<close> fails in two ways only: \<open>ValueError\<close> exactly when the result kind is not one of
  the four supported ones, and \<open>TypeError\<close> only for an AnalysisResult, when a field that should hold
  a list cannot be iterated over.
\<close>

theorem build_status_errors:
  "(dget STATUS_FIELDS_BY_KIND kind = None \<longleftrightarrow>
      build_status kind out fr s c i t timed =
        Inl (ValueError (S ''unsupported Result kind: '' @ repr_str kind))) \<and>
   (dget STATUS_FIELDS_BY_KIND kind \<noteq> None \<and> build_status kind out fr s c i t timed = Inl e \<longrightarrow>
      kind = S ''AnalysisResult'' \<and> exn_class e = CTypeError)"
proof -
  have t: "sanitize_status_options kind st ok = Inl e' \<Longrightarrow>
      kind = S ''AnalysisResult'' \<and> exn_class e' = CTypeError" for st ok e'
    by (auto simp: sanitize_status_options_def result_simps Let_def split: pyval.splits if_splits
        dest: sanitize_options_error)
  have v: "sanitize_status_options kind st ok \<noteq> Inl (ValueError m)" for st ok m
    using t [of st ok "ValueError m"] by auto
  show ?thesis
    by (auto simp: build_status_def Let_def result_simps v split: option.splits dest: t)
qed

lemma build_status_errors_witness:
  "build_status (S ''AnalysisResult'') [(S ''options'', PList [PDict [(S ''verification'',
      PDict [(S ''steps'', PInt 5)])]])] None epoch epoch 0 0 False
     = Inl (TypeError (39 # S ''int'' @ 39 # S '' object is not iterable''))
   \<and> exn_class (TypeError (39 # S ''int'' @ 39 # S '' object is not iterable'')) = CTypeError"
proof -
  let ?e = "TypeError (39 # S ''int'' @ 39 # S '' object is not iterable'')"
  have b: "build_status (S ''AnalysisResult'') [(S ''options'', PList [PDict [(S ''verification'',
      PDict [(S ''steps'', PInt 5)])]])] None epoch epoch 0 0 False = Inl ?e"
    by code_simp
  have k: "dget STATUS_FIELDS_BY_KIND (S ''AnalysisResult'') \<noteq> None" by code_simp
  show ?thesis
    using b k build_status_errors [of "S ''AnalysisResult''" "[(S ''options'', PList [PDict [(S ''verification'',
      PDict [(S ''steps'', PInt 5)])]])]" None epoch epoch 0 0 False ?e] by blast
qed

section \<open>A success whose published option has a diagnosis and no plan\<close>

text \<open>
  The pairing rules are checked before the empty values are stripped: an option with a complete
  diagnosis and an empty \<open>remediationPlan\<close> object passes them, then loses the plan. The status
  still reports \<open>Succeeded\<close>.
\<close>

lemma empty_plan_published_unpaired:
  "build_status (S ''AnalysisResult'') [(S ''options'', PList [PDict [
       (S ''diagnosis'', PDict [(S ''summary'', PStr (S ''s'')), (S ''rootCause'', PStr (S ''r''))]),
       (S ''remediationPlan'', PDict [])]])] None epoch epoch 0 0 False =
   Inr [(S ''options'', PList [PDict [
       (S ''diagnosis'', PDict [(S ''summary'', PStr (S ''s'')), (S ''rootCause'', PStr (S ''r''))])]]),
     (S ''tokenUsage'', PDict [(S ''inputTokens'', PInt 0), (S ''outputTokens'', PInt 0)]),
     (S ''conditions'', PList (build_conditions epoch epoch True False))]"
  by code_simp

end
