(* ===== verification/Publish.thy ===== *)
theory Publish
  imports Status PyWorld
begin

text \<open>
  \<open>publish_results/publish.py\<close>: publishing the Result CR through the Kubernetes API and writing the
  termination log. The Kubernetes client is a parameter: a function from a request and the state of
  the cluster to a new state and an answer. \<open>publish_result_cr\<close> also returns the requests it sent, in
  order. Proved: the protocol of requests (create, on a conflict get, then replace of the status with
  the resource version just read), the errors, and that the termination log holds the longest
  prefix of the message that fits.
\<close>

section \<open>Kinds and steps\<close>

definition CRD_GROUP :: pystr where "CRD_GROUP = S ''agentic.openshift.io''"
definition CRD_VERSION :: pystr where "CRD_VERSION = S ''v1alpha1''"
definition MAX_TERMINATION_LOG_BYTES :: nat where "MAX_TERMINATION_LOG_BYTES = 4096"

definition KIND_TO_PLURAL :: "pystr dict" where
  "KIND_TO_PLURAL =
    [(S ''AnalysisResult'', S ''analysisresults''),
     (S ''ExecutionResult'', S ''executionresults''),
     (S ''VerificationResult'', S ''verificationresults''),
     (S ''EscalationResult'', S ''escalationresults'')]"

definition KIND_TO_STEP :: "pystr dict" where
  "KIND_TO_STEP =
    [(S ''AnalysisResult'', S ''analysis''),
     (S ''ExecutionResult'', S ''execution''),
     (S ''VerificationResult'', S ''verification''),
     (S ''EscalationResult'', S ''escalation'')]"

definition step_from_result_kind :: "pystr \<Rightarrow> pystr result" where
  "step_from_result_kind kind =
     (case dget KIND_TO_STEP kind of
        None \<Rightarrow> Inl (ValueError (S ''unsupported Result kind: '' @ repr_str kind))
      | Some step \<Rightarrow> Inr step)"

definition step_from_result_template :: "pydict \<Rightarrow> pystr result" where
  "step_from_result_template template =
     (case dgetn template (S ''kind'') of
        PStr kind \<Rightarrow> step_from_result_kind kind
      | _ \<Rightarrow> Inl (ValueError (S ''result-template missing kind'')))"


section \<open>The termination log\<close>

fun truncate_chars :: "nat \<Rightarrow> int list \<Rightarrow> pystr \<Rightarrow> int list" where
  "truncate_chars max_bytes res [] = res"
| "truncate_chars max_bytes res (c # cs) =
     (let piece = utf8_char c
      in if length res + length piece > max_bytes then res
         else truncate_chars max_bytes (res @ piece) cs)"

definition truncate_utf8_message :: "pystr \<Rightarrow> nat \<Rightarrow> int list result" where
  "truncate_utf8_message message max_bytes =
     bindE (utf8_encode message) (\<lambda>encoded.
       Inr (if length encoded \<le> max_bytes then encoded else truncate_chars max_bytes [] message))"

text \<open>\<open>can_write\<close> is whether the operating system lets the file be opened for writing; when it does
  not, the \<open>OSError\<close> is logged and nothing else happens.\<close>

definition write_termination_log ::
  "(world \<Rightarrow> pystr \<Rightarrow> bool) \<Rightarrow> world \<Rightarrow> pystr \<Rightarrow> pystr \<Rightarrow> world result"
where
  "write_termination_log can_write w message path =
     bindE (truncate_utf8_message message MAX_TERMINATION_LOG_BYTES) (\<lambda>data.
       Inr (if can_write w path then w\<lparr>files := (files w)(path \<mapsto> RegularFile data)\<rparr> else w))"


section \<open>The Kubernetes API\<close>

text \<open>
  A request of the \<open>CustomObjectsApi\<close>: group, version, namespace and plural, then the name and the
  body where it has them. An error is an \<open>ApiException\<close> (status, reason, body), one of the two
  urllib3 timeouts, or any other exception.
\<close>

record k8s_target =
  tg_group :: pystr
  tg_version :: pystr
  tg_namespace :: pystr
  tg_plural :: pystr

datatype k8s_request =
    CreateObject k8s_target pydict
  | GetObject k8s_target pystr
  | ReplaceStatus k8s_target pystr pydict

datatype api_body = NoBody | TextBody pystr | BytesBody "int list"

datatype k8s_error =
    ApiException "int option" "pystr option" api_body
  | RequestTimedOut
  | OtherException exn

type_synonym 's k8s_client = "'s \<Rightarrow> k8s_request \<Rightarrow> 's \<times> (k8s_error + pyval)"

definition api_error_detail :: "pystr option \<Rightarrow> api_body \<Rightarrow> pystr" where
  "api_error_detail reason body =
     (let parts =
        (case reason of Some r \<Rightarrow> (if r \<noteq> [] then [r] else []) | None \<Rightarrow> [])
        @ (case body of
             NoBody \<Rightarrow> []
           | TextBody b \<Rightarrow> if b \<noteq> [] then [b] else []
           | BytesBody b \<Rightarrow> if b \<noteq> [] then [utf8_decode_replace b] else [])
      in if parts \<noteq> [] then join (S ''; '') parts else S ''unknown error'')"

definition status_text :: "int option \<Rightarrow> pystr" where
  "status_text status = (case status of None \<Rightarrow> S ''None'' | Some n \<Rightarrow> int_dec n)"

text \<open>\<open>_raise_publish_error\<close>: the exception it raises.\<close>

fun publish_error :: "pystr \<Rightarrow> pystr \<Rightarrow> k8s_error \<Rightarrow> exn" where
  "publish_error operation path (ApiException status reason body) =
     Exn CPublishError (operation @ S '' '' @ path @ S '': '' @ status_text status @ S '' ''
       @ api_error_detail reason body)"
| "publish_error operation path RequestTimedOut =
     Exn CPublishError (operation @ S '' '' @ path @ S '': request timed out'')"
| "publish_error operation path (OtherException e) = e"

text \<open>What an uncaught error of the client is to the caller.\<close>

fun raw_error :: "k8s_error \<Rightarrow> exn" where
  "raw_error (ApiException status reason body) =
     Exn (COther (S ''ApiException'')) (S ''('' @ status_text status @ S '')'')"
| "raw_error RequestTimedOut = Exn (COther (S ''MaxRetryError'')) []"
| "raw_error (OtherException e) = e"

text \<open>\<open>v[k]\<close> for a string \<open>k\<close>.\<close>

fun subscript :: "pyval \<Rightarrow> pystr \<Rightarrow> pyval result" where
  "subscript (PDict d) k =
     (case dget d k of None \<Rightarrow> Inl (Exn CKeyError (repr_str k)) | Some v \<Rightarrow> Inr v)"
| "subscript (PList _) k = Inl (TypeError (S ''list indices must be integers or slices, not str''))"
| "subscript (PStr _) k = Inl (TypeError (S ''string indices must be integers, not '' @ [39] @ S ''str'' @ [39]))"
| "subscript v k = Inl (TypeError (39 # type_name v @ 39 # S '' object is not subscriptable''))"


section \<open>The template\<close>

definition split_api_version :: "pystr \<Rightarrow> pystr \<times> pystr" where
  "split_api_version v = (takeWhile (\<lambda>c. c \<noteq> 47) v, drop 1 (dropWhile (\<lambda>c. c \<noteq> 47) v))"

definition parse_template :: "pydict \<Rightarrow> (k8s_target \<times> pystr) result" where
  "parse_template template =
     (case dgetn template (S ''apiVersion'') of
        PStr api_version \<Rightarrow>
          if 47 \<notin> set api_version
          then Inl (ValueError (S ''result-template missing valid apiVersion''))
          else
          (let (group, version) = split_api_version api_version;
               kind = dgetn template (S ''kind'');
               plural = (case kind of PStr k \<Rightarrow> dget KIND_TO_PLURAL k | _ \<Rightarrow> None)
           in case plural of
                None \<Rightarrow> Inl (ValueError (S ''result-template has unsupported kind: '' @ py_repr kind))
              | Some pl \<Rightarrow>
                  (case dgetn template (S ''metadata'') of
                     PDict metadata \<Rightarrow>
                       (case dgetn metadata (S ''name'') of
                          PStr name \<Rightarrow>
                            if name = []
                            then Inl (ValueError (S ''result-template metadata.name is required''))
                            else
                            (case dgetn metadata (S ''namespace'') of
                               PStr namespace \<Rightarrow>
                                 if namespace = []
                                 then Inl (ValueError (S ''result-template metadata.namespace is required''))
                                 else Inr (\<lparr>tg_group = group, tg_version = version,
                                            tg_namespace = namespace, tg_plural = pl\<rparr>, name)
                             | _ \<Rightarrow> Inl (ValueError (S ''result-template metadata.namespace is required'')))
                        | _ \<Rightarrow> Inl (ValueError (S ''result-template metadata.name is required'')))
                   | _ \<Rightarrow> Inl (ValueError (S ''result-template missing metadata''))))
      | _ \<Rightarrow> Inl (ValueError (S ''result-template missing valid apiVersion'')))"

definition create_body :: "pydict \<Rightarrow> pydict" where
  "create_body template = ddel template (S ''status'')"

definition kind_path :: "pystr \<Rightarrow> pystr \<Rightarrow> pystr \<Rightarrow> pystr" where
  "kind_path plural namespace name = plural @ S ''/'' @ namespace @ S ''/'' @ name"


section \<open>Connecting to the cluster\<close>

datatype config_source = InCluster | KubeConfig

text \<open>The \<open>kubernetes.config\<close> loaders (an error of class \<open>ConfigException\<close> is caught) and the client
  each configuration gives.\<close>

record 's kube =
  load_incluster_config :: "unit result"
  load_kube_config :: "unit result"
  cluster_client :: "config_source \<Rightarrow> 's k8s_client"

definition is_config_exception :: "exn \<Rightarrow> bool" where
  "is_config_exception e \<longleftrightarrow> exn_class e = COther (S ''ConfigException'')"

definition default_api :: "world \<Rightarrow> 's kube \<Rightarrow> config_source result" where
  "default_api w k =
     (let in_cluster = env_get w (S ''KUBERNETES_SERVICE_HOST'') \<noteq> []
      in case load_incluster_config k of
           Inr _ \<Rightarrow> Inr InCluster
         | Inl exc \<Rightarrow>
             if \<not> is_config_exception exc then Inl exc
             else if in_cluster
             then Inl (Exn CPublishError (S ''in-cluster Kubernetes config unavailable: '' @ exn_msg exc))
             else (case load_kube_config k of
                     Inr _ \<Rightarrow> Inr KubeConfig
                   | Inl kube_exc \<Rightarrow>
                       if \<not> is_config_exception kube_exc then Inl kube_exc
                       else Inl (Exn CPublishError (S ''local kubeconfig unavailable: '' @ exn_msg kube_exc))))"


section \<open>Publishing\<close>

text \<open>The state of the cluster, the requests sent so far and the result.\<close>

type_synonym ('s, 'a) publishing = "'s \<times> k8s_request list \<times> 'a result"

definition resource_version_of :: "pystr \<Rightarrow> pyval \<Rightarrow> pyval result" where
  "resource_version_of path obj =
     (case obj of
        PDict d \<Rightarrow>
          (case dgetn d (S ''metadata'') of
             PDict metadata \<Rightarrow>
               (case dgetn metadata (S ''resourceVersion'') of
                  PStr rv \<Rightarrow>
                    if rv = [] then Inl (Exn CPublishError (S ''get '' @ path @ S '': missing resourceVersion''))
                    else Inr (PStr rv)
                | _ \<Rightarrow> Inl (Exn CPublishError (S ''get '' @ path @ S '': missing resourceVersion'')))
           | _ \<Rightarrow> Inl (Exn CPublishError (S ''get '' @ path @ S '': missing metadata'')))
      | _ \<Rightarrow> Inl (Exn CPublishError (S ''get '' @ path @ S '': unexpected response type'')))"

definition get_resource_version ::
  "'s k8s_client \<Rightarrow> 's \<Rightarrow> k8s_target \<Rightarrow> pystr \<Rightarrow> ('s, pyval) publishing"
where
  "get_resource_version client s tg name =
     (let request = GetObject tg name;
          (s', answer) = client s request
      in (s', [request],
          case answer of
            Inl e \<Rightarrow> Inl (raw_error e)
          | Inr obj \<Rightarrow> resource_version_of (kind_path (tg_plural tg) (tg_namespace tg) name) obj))"

definition create_or_get ::
  "'s k8s_client \<Rightarrow> 's \<Rightarrow> k8s_target \<Rightarrow> pystr \<Rightarrow> pydict \<Rightarrow> ('s, pyval) publishing"
where
  "create_or_get client s tg name body =
     (let request = CreateObject tg body;
          (s1, answer) = client s request
      in case answer of
           Inr created \<Rightarrow>
             (s1, [request],
              bindE (subscript created (S ''metadata'')) (\<lambda>m. subscript m (S ''resourceVersion'')))
         | Inl exc \<Rightarrow>
             (case exc of
                ApiException status _ _ \<Rightarrow>
                  if status = Some 409
                  then (let (s2, requests, rv) = get_resource_version client s1 tg name
                        in (s2, request # requests, rv))
                  else (s1, [request], Inl (publish_error (S ''create'')
                         (kind_path (tg_plural tg) (tg_namespace tg) name) exc))
              | _ \<Rightarrow> (s1, [request], Inl (publish_error (S ''create'')
                       (kind_path (tg_plural tg) (tg_namespace tg) name) exc))))"

definition status_body :: "k8s_target \<Rightarrow> pyval \<Rightarrow> pystr \<Rightarrow> pyval \<Rightarrow> pydict \<Rightarrow> pydict" where
  "status_body tg kind name rv status =
     [(S ''apiVersion'', PStr (tg_group tg @ S ''/'' @ tg_version tg)),
      (S ''kind'', kind),
      (S ''metadata'', PDict [(S ''name'', PStr name), (S ''namespace'', PStr (tg_namespace tg)),
         (S ''resourceVersion'', rv)]),
      (S ''status'', PDict status)]"

definition publish_result_cr ::
  "world \<Rightarrow> 's kube \<Rightarrow> 's k8s_client option \<Rightarrow> 's \<Rightarrow> pydict \<Rightarrow> pydict \<Rightarrow> ('s, unit) publishing"
where
  "publish_result_cr w k api s template status =
     (case parse_template template of
        Inl e \<Rightarrow> (s, [], Inl e)
      | Inr (tg, name) \<Rightarrow>
          (case (case api of Some client \<Rightarrow> Inr client
                 | None \<Rightarrow> bindE (default_api w k) (\<lambda>src. Inr (cluster_client k src))) of
             Inl e \<Rightarrow> (s, [], Inl e)
           | Inr client \<Rightarrow>
               (let (s1, requests, got) = create_or_get client s tg name (create_body template)
                in case got of
                     Inl e \<Rightarrow> (s1, requests, Inl e)
                   | Inr rv \<Rightarrow>
                       (let request = ReplaceStatus tg name
                              (status_body tg (dgetn template (S ''kind'')) name rv status);
                            (s2, answer) = client s1 request
                        in (s2, requests @ [request],
                            case answer of
                              Inr _ \<Rightarrow> Inr ()
                            | Inl exc \<Rightarrow> Inl (publish_error (S ''update status'')
                                (kind_path (tg_plural tg) (tg_namespace tg) name) exc))))))"

definition publish_agent_result ::
  "world \<Rightarrow> 's kube \<Rightarrow> 's k8s_client option \<Rightarrow> 's \<Rightarrow> pydict \<Rightarrow> pydict \<Rightarrow> pystr option \<Rightarrow>
   pydatetime \<Rightarrow> pydatetime \<Rightarrow> int \<Rightarrow> int \<Rightarrow> bool \<Rightarrow> ('s, unit) publishing"
where
  "publish_agent_result w k api s template agent_output failure_reason started_at completed_at
     input_tokens output_tokens timed_out =
     (case dgetn template (S ''kind'') of
        PStr kind \<Rightarrow>
          (case build_status kind agent_output failure_reason started_at completed_at
                  input_tokens output_tokens timed_out of
             Inl e \<Rightarrow> (s, [], Inl e)
           | Inr status \<Rightarrow> publish_result_cr w k api s template status)
      | _ \<Rightarrow> (s, [], Inl (ValueError (S ''result-template missing kind''))))"


section \<open>Lemmas\<close>

lemma truncate_chars_fits:
  "length res \<le> n \<Longrightarrow> \<exists>k \<le> length m. truncate_chars n res m = res @ utf8_bytes (take k m) \<and>
     length res + length (utf8_bytes (take k m)) \<le> n \<and>
     (k < length m \<longrightarrow> n < length res + length (utf8_bytes (take (Suc k) m)))"
proof (induction m arbitrary: res)
  case Nil
  then show ?case by simp
next
  case (Cons c m)
  show ?case
  proof (cases "n < length res + length (utf8_char c)")
    case True
    then show ?thesis using Cons.prems by (intro exI [of _ 0]) simp
  next
    case False
    then obtain k where "k \<le> length m"
      "truncate_chars n (res @ utf8_char c) m = (res @ utf8_char c) @ utf8_bytes (take k m)"
      "length (res @ utf8_char c) + length (utf8_bytes (take k m)) \<le> n"
      "k < length m \<longrightarrow> n < length (res @ utf8_char c) + length (utf8_bytes (take (Suc k) m))"
      using Cons.IH [of "res @ utf8_char c"] by auto
    then show ?thesis using False
      by (intro exI [of _ "Suc k"]) (auto simp: Let_def)
  qed
qed

lemma truncate_message_cases:
  assumes "valid_str m"
  obtains k where "k \<le> length m" "truncate_utf8_message m n = Inr (utf8_bytes (take k m))"
    "length (utf8_bytes (take k m)) \<le> n" "k < length m \<longrightarrow> n < byte_pos m (Suc k)"
proof (cases "length (utf8_bytes m) \<le> n")
  case True
  then show ?thesis using that [of "length m"] assms
    by (simp add: truncate_utf8_message_def utf8_encode_def)
next
  case False
  then show ?thesis using that truncate_chars_fits [of "[]" n m] assms
    by (auto simp: truncate_utf8_message_def utf8_encode_def byte_pos_def)
qed

definition is_conflict :: "k8s_error \<Rightarrow> bool" where
  "is_conflict e \<longleftrightarrow> (case e of ApiException status _ _ \<Rightarrow> status = Some 409 | _ \<Rightarrow> False)"

lemma create_or_get_created:
  "client s (CreateObject tg body) = (s1, Inr created) \<Longrightarrow>
    create_or_get client s tg name body = (s1, [CreateObject tg body],
      bindE (subscript created (S ''metadata'')) (\<lambda>m. subscript m (S ''resourceVersion'')))"
  by (simp add: create_or_get_def)

lemma create_or_get_failed:
  "client s (CreateObject tg body) = (s1, Inl exc) \<Longrightarrow> \<not> is_conflict exc \<Longrightarrow>
    create_or_get client s tg name body = (s1, [CreateObject tg body],
      Inl (publish_error (S ''create'') (kind_path (tg_plural tg) (tg_namespace tg) name) exc))"
  by (cases exc) (simp_all add: create_or_get_def is_conflict_def Let_def)

lemma create_or_get_conflict:
  "client s (CreateObject tg body) = (s1, Inl exc) \<Longrightarrow> is_conflict exc \<Longrightarrow>
    client s1 (GetObject tg name) = (s2, read) \<Longrightarrow>
    create_or_get client s tg name body = (s2, [CreateObject tg body, GetObject tg name],
      case read of Inl e \<Rightarrow> Inl (raw_error e)
      | Inr obj \<Rightarrow> resource_version_of (kind_path (tg_plural tg) (tg_namespace tg) name) obj)"
  by (cases exc) (simp_all add: create_or_get_def get_resource_version_def is_conflict_def)

lemmas create_or_get_simps = create_or_get_created create_or_get_failed create_or_get_conflict

lemma publish_result_cr_eq:
  fixes status :: pydict
  assumes "parse_template template = Inr (tg, name)"
  defines "replace_with \<equiv> \<lambda>rv. ReplaceStatus tg name
           (status_body tg (dgetn template (S ''kind'')) name rv status)"
  shows "publish_result_cr w k (Some client) s template status =
    (case create_or_get client s tg name (create_body template) of
       (s0, requests, Inl e) \<Rightarrow> (s0, requests, Inl e)
     | (s0, requests, Inr rv) \<Rightarrow> (fst (client s0 (replace_with rv)), requests @ [replace_with rv],
        case snd (client s0 (replace_with rv)) of Inr _ \<Rightarrow> Inr ()
        | Inl exc \<Rightarrow> Inl (publish_error (S ''update status'')
            (kind_path (tg_plural tg) (tg_namespace tg) name) exc)))"
  using assms(1) by (auto simp: publish_result_cr_def replace_with_def case_prod_beta Let_def
      split: sum.splits)

lemma is_conflict_iff: "is_conflict e \<longleftrightarrow> (\<exists>reason body. e = ApiException (Some 409) reason body)"
  by (cases e) (auto simp: is_conflict_def)

lemma status_body_version:
  "dgetn (status_body tg kind name rv status) (S ''metadata'') =
     PDict [(S ''name'', PStr name), (S ''namespace'', PStr (tg_namespace tg)),
       (S ''resourceVersion'', rv)]"
  by (simp add: status_body_def dgetn_def)

lemma resource_version_of_ok:
  "resource_version_of path obj = Inr rv \<longleftrightarrow>
    (\<exists>d m r. obj = PDict d \<and> dgetn d (S ''metadata'') = PDict m \<and>
       dgetn m (S ''resourceVersion'') = PStr r \<and> r \<noteq> [] \<and> rv = PStr r)"
  by (auto simp: resource_version_of_def split: pyval.splits)

lemma resource_version_of_error:
  "resource_version_of path obj = Inl e \<Longrightarrow> exn_class e = CPublishError"
  by (auto simp: resource_version_of_def split: pyval.splits if_splits)

lemma parse_template_error: "parse_template template = Inl e \<Longrightarrow> exn_class e = CValueError"
  by (auto simp: parse_template_def Let_def split: pyval.splits if_splits option.splits prod.splits)

lemma split_at_slash:
  "47 \<in> set v \<Longrightarrow>
    takeWhile (\<lambda>c. c \<noteq> 47) v @ S ''/'' @ drop 1 (dropWhile (\<lambda>c. c \<noteq> 47) v) = v \<and>
    47 \<notin> set (takeWhile (\<lambda>c. c \<noteq> 47) v)"
  by (induction v) (auto simp: S_def)

lemma parse_template_ok:
  assumes "parse_template template = Inr (tg, name)"
  obtains k md where "dgetn template (S ''kind'') = PStr k" "dget KIND_TO_PLURAL k = Some (tg_plural tg)"
    "dgetn template (S ''apiVersion'') = PStr (tg_group tg @ S ''/'' @ tg_version tg)"
    "47 \<notin> set (tg_group tg)"
    "dgetn template (S ''metadata'') = PDict md" "dgetn md (S ''name'') = PStr name" "name \<noteq> []"
    "dgetn md (S ''namespace'') = PStr (tg_namespace tg)" "tg_namespace tg \<noteq> []"
proof -
  from assms obtain v k md where
    t: "dgetn template (S ''apiVersion'') = PStr v" "47 \<in> set v"
      "dgetn template (S ''kind'') = PStr k" "dget KIND_TO_PLURAL k = Some (tg_plural tg)"
      "dgetn template (S ''metadata'') = PDict md" "dgetn md (S ''name'') = PStr name" "name \<noteq> []"
      "dgetn md (S ''namespace'') = PStr (tg_namespace tg)" "tg_namespace tg \<noteq> []"
      "tg_group tg = takeWhile (\<lambda>c. c \<noteq> 47) v" "tg_version tg = drop 1 (dropWhile (\<lambda>c. c \<noteq> 47) v)"
    unfolding parse_template_def split_api_version_def Let_def
    by (clarsimp split: pyval.split_asm if_split_asm option.split_asm)
  show ?thesis using that [OF t(3,4) _ _ t(5-9)] split_at_slash [OF t(2)] t(1,10,11) by simp
qed


section \<open>Properties\<close>

text \<open>
  The termination log receives the longest prefix of the message, in whole characters, whose
  UTF-8 encoding fits in the limit, and that prefix decodes again; the only other outcome is the
  \<open>UnicodeEncodeError\<close> of a message with a surrogate.
\<close>

theorem termination_message_is_longest_prefix:
  "case truncate_utf8_message m n of
     Inl e \<Rightarrow> \<not> valid_str m \<and> exn_class e = CUnicodeEncodeError
   | Inr data \<Rightarrow> valid_str m \<and> (\<exists>k \<le> length m. data = utf8_bytes (take k m) \<and> length data \<le> n
       \<and> utf8_decode data = Inr (take k m)
       \<and> (k < length m \<longrightarrow> n < length (utf8_bytes (take (Suc k) m))))"
proof (cases "valid_str m")
  case True
  then obtain k where "k \<le> length m" "truncate_utf8_message m n = Inr (utf8_bytes (take k m))"
    "length (utf8_bytes (take k m)) \<le> n" "k < length m \<longrightarrow> n < byte_pos m (Suc k)"
    by (rule truncate_message_cases)
  moreover have "utf8_decode (utf8_bytes (take k m)) = Inr (take k m)"
    using True by (intro utf8_decode_encode valid_str_take)
  ultimately show ?thesis using True by (simp add: byte_pos_def) blast
next
  case False
  then show ?thesis by (simp add: truncate_utf8_message_def utf8_encode_def)
qed

lemma termination_message_is_longest_prefix_witness:
  "truncate_utf8_message [97, 233, 98] 2 = Inr [97] \<and> valid_str [97, 233, 98] \<and>
   (\<exists>k \<le> 3. [97] = utf8_bytes (take k [97, 233, 98]) \<and> k < 3 \<and>
      2 < length (utf8_bytes (take (Suc k) [97, 233, 98])))"
proof -
  have t: "truncate_utf8_message [97, 233, 98] 2 = Inr [97]" by code_simp
  have u: "utf8_bytes (take 3 [97, 233, 98]) \<noteq> [97]" by code_simp
  have "length [97, 233, 98 :: int] = 3" by simp
  then obtain k where k: "k \<le> 3" "[97] = utf8_bytes (take k [97, 233, 98])" "valid_str [97, 233, 98]"
    "k < 3 \<longrightarrow> 2 < length (utf8_bytes (take (Suc k) [97, 233, 98]))"
    using termination_message_is_longest_prefix [of "[97, 233, 98]" 2] unfolding t sum.case by metis
  from k(1,2) u have "k < 3" by (metis le_neq_implies_less)
  with k t show ?thesis by blast
qed

text \<open>
  C22. The protocol of requests. Publishing creates the object first; it reads the object back exactly
  when the create was answered 409; it replaces the status last, with the resource version of the
  created or of the read object; and it succeeds exactly when that replace is accepted. No other
  request is ever sent.
\<close>

theorem publish_request_protocol:
  fixes client :: "'s k8s_client"
  assumes "parse_template template = Inr (tg, name)"
    and "client s (CreateObject tg (create_body template)) = (s1, answer)"
    and "client s1 (GetObject tg name) = (s2, read)"
    and "publish_result_cr w k (Some client) s template status = (s', requests, res)"
  defines "conflict \<equiv> case answer of Inl e \<Rightarrow> is_conflict e | Inr _ \<Rightarrow> False"
    and "replace_with \<equiv> \<lambda>rv. ReplaceStatus tg name
           (status_body tg (dgetn template (S ''kind'')) name rv status)"
  shows "hd requests = CreateObject tg (create_body template) \<and>
    ((\<exists>e. res = Inl e \<and> \<not> conflict \<and> tl requests = []) \<or>
     (\<exists>e. res = Inl e \<and> conflict \<and> tl requests = [GetObject tg name]) \<or>
     (\<exists>created md rv. answer = Inr created \<and> subscript created (S ''metadata'') = Inr md \<and>
        subscript md (S ''resourceVersion'') = Inr rv \<and> tl requests = [replace_with rv] \<and>
        s' = fst (client s1 (replace_with rv)) \<and>
        (res = Inr () \<longleftrightarrow> (\<exists>v. snd (client s1 (replace_with rv)) = Inr v))) \<or>
     (\<exists>obj rv. conflict \<and> read = Inr obj \<and>
        resource_version_of (kind_path (tg_plural tg) (tg_namespace tg) name) obj = Inr rv \<and>
        tl requests = [GetObject tg name, replace_with rv] \<and>
        s' = fst (client s2 (replace_with rv)) \<and>
        (res = Inr () \<longleftrightarrow> (\<exists>v. snd (client s2 (replace_with rv)) = Inr v))))"
proof -
  note res = assms(4) [unfolded publish_result_cr_eq [OF assms(1)]]
  show ?thesis
  proof (cases answer)
    case (Inr created)
    then show ?thesis
      using res assms(2) by (auto simp: create_or_get_created conflict_def replace_with_def result_simps
          split: sum.splits)
  next
    case (Inl exc)
    show ?thesis
    proof (cases "is_conflict exc")
      case True
      then show ?thesis using res assms(2,3) Inl
        by (auto simp: create_or_get_conflict conflict_def replace_with_def split: sum.splits)
    next
      case False
      then show ?thesis using res assms(2) Inl by (auto simp: create_or_get_failed conflict_def)
    qed
  qed
qed

definition sample_template :: pydict where
  "sample_template =
    [(S ''apiVersion'', PStr (S ''agentic.openshift.io/v1alpha1'')),
     (S ''kind'', PStr (S ''AnalysisResult'')),
     (S ''metadata'', PDict [(S ''name'', PStr (S ''r1'')), (S ''namespace'', PStr (S ''ns''))])]"

definition sample_target :: k8s_target where
  "sample_target = \<lparr>tg_group = S ''agentic.openshift.io'', tg_version = S ''v1alpha1'',
     tg_namespace = S ''ns'', tg_plural = S ''analysisresults''\<rparr>"

text \<open>A cluster of one object: its version number and its status, if it exists.\<close>

fun sample_cluster :: "(nat \<times> pydict) option k8s_client" where
  "sample_cluster None (CreateObject _ _) =
     (Some (1, []), Inr (PDict [(S ''metadata'', PDict [(S ''resourceVersion'', PStr (nat_dec 1))])]))"
| "sample_cluster (Some x) (CreateObject _ _) =
     (Some x, Inl (ApiException (Some 409) (Some (S ''Conflict'')) NoBody))"
| "sample_cluster None _ = (None, Inl (ApiException (Some 404) (Some (S ''Not Found'')) NoBody))"
| "sample_cluster (Some (n, st)) (GetObject _ _) =
     (Some (n, st), Inr (PDict [(S ''metadata'', PDict [(S ''resourceVersion'', PStr (nat_dec n))])]))"
| "sample_cluster (Some (n, st)) (ReplaceStatus _ _ body) =
     (case dgetn body (S ''metadata'') of
        PDict md \<Rightarrow>
          if dgetn md (S ''resourceVersion'') = PStr (nat_dec n)
          then (Some (Suc n, case dgetn body (S ''status'') of PDict st' \<Rightarrow> st' | _ \<Rightarrow> []), Inr PNone)
          else (Some (n, st), Inl (ApiException (Some 409) (Some (S ''Conflict'')) NoBody))
      | _ \<Rightarrow> (Some (n, st), Inl (ApiException (Some 422) None NoBody)))"

definition no_kube :: "'s kube" where
  "no_kube = \<lparr>load_incluster_config = Inl (Exn (COther (S ''ConfigException'')) []),
     load_kube_config = Inl (Exn (COther (S ''ConfigException'')) []),
     cluster_client = \<lambda>_ s _. (s, Inl RequestTimedOut)\<rparr>"

lemma sample_template_parsed: "parse_template sample_template = Inr (sample_target, S ''r1'')"
  by code_simp

lemma publish_request_protocol_witness:
  "snd (snd (publish_result_cr empty_world no_kube (Some sample_cluster) (Some (7, []))
     sample_template [])) = Inr () \<and>
   length (tl (fst (snd (publish_result_cr empty_world no_kube (Some sample_cluster) (Some (7, []))
     sample_template [])))) = 2"
proof -
  obtain s' requests res where p: "publish_result_cr empty_world no_kube (Some sample_cluster)
      (Some (7, [])) sample_template [] = (s', requests, res)" by (metis prod_cases3)
  have "snd (snd (publish_result_cr empty_world no_kube (Some sample_cluster) (Some (7, []))
     sample_template [])) = Inr ()" by code_simp
  then have res: "res = Inr ()" using p by simp
  have "sample_cluster (Some (7, [])) (CreateObject sample_target (create_body sample_template)) =
      (Some (7, []), Inl (ApiException (Some 409) (Some (S ''Conflict'')) NoBody))"
    "sample_cluster (Some (7, [])) (GetObject sample_target (S ''r1'')) =
      (Some (7, []), Inr (PDict [(S ''metadata'', PDict [(S ''resourceVersion'', PStr (nat_dec 7))])]))"
    by simp_all
  note q = publish_request_protocol [OF sample_template_parsed this p]
  from q res show ?thesis unfolding p by (auto simp: is_conflict_def simp del: length_tl)
qed

text \<open>
  C23. Publishing converges: against a cluster that behaves as the Kubernetes API is documented to
  (create answers 409 on an existing object and stores a new one otherwise, get returns the stored
  object, replacing the status with the current resource version is accepted), publishing succeeds
  whether or not the object exists, leaves the new status stored, and so does publishing again
  after it.
\<close>

theorem publish_converges:
  fixes client :: "'s k8s_client" and version_of :: "'s \<Rightarrow> pystr option"
    and status_of :: "'s \<Rightarrow> pydict option"
  assumes template: "parse_template template = Inr (tg, name)"
    and create_new: "\<And>s body. version_of s = None \<Longrightarrow> \<exists>s' d md r.
      client s (CreateObject tg body) = (s', Inr (PDict d)) \<and> version_of s' = Some r \<and>
      dget d (S ''metadata'') = Some (PDict md) \<and> dget md (S ''resourceVersion'') = Some (PStr r)"
    and create_again: "\<And>s body v. version_of s = Some v \<Longrightarrow> \<exists>reason b.
      client s (CreateObject tg body) = (s, Inl (ApiException (Some 409) reason b))"
    and get: "\<And>s r. version_of s = Some r \<Longrightarrow> r \<noteq> [] \<and> (\<exists>d md.
      client s (GetObject tg name) = (s, Inr (PDict d)) \<and>
      dget d (S ''metadata'') = Some (PDict md) \<and> dget md (S ''resourceVersion'') = Some (PStr r))"
    and replace_status: "\<And>s r kind st. version_of s = Some r \<Longrightarrow> \<exists>s' v r'.
      client s (ReplaceStatus tg name (status_body tg kind name (PStr r) st)) = (s', Inr v) \<and>
      version_of s' = Some r' \<and> status_of s' = Some st"
  shows "\<exists>s1 reqs1 s2 reqs2.
    publish_result_cr w k (Some client) s template st1 = (s1, reqs1, Inr ()) \<and> status_of s1 = Some st1 \<and>
    publish_result_cr w k (Some client) s1 template st2 = (s2, reqs2, Inr ()) \<and> status_of s2 = Some st2"
proof -
  have one: "\<exists>s' reqs. publish_result_cr w k (Some client) s template st = (s', reqs, Inr ()) \<and>
      status_of s' = Some st" for s st
  proof (cases "version_of s")
    case None
    obtain s1 d md r where c: "client s (CreateObject tg (create_body template)) = (s1, Inr (PDict d))"
      "version_of s1 = Some r" "dget d (S ''metadata'') = Some (PDict md)"
      "dget md (S ''resourceVersion'') = Some (PStr r)"
      using create_new [OF None] by blast
    obtain s2 v r' where "client s1 (ReplaceStatus tg name
        (status_body tg (dgetn template (S ''kind'')) name (PStr r) st)) = (s2, Inr v)"
      "status_of s2 = Some st"
      using replace_status [OF c(2)] by blast
    then show ?thesis using template c by (simp add: publish_result_cr_def create_or_get_simps is_conflict_def)
  next
    case (Some r)
    obtain reason b where c: "client s (CreateObject tg (create_body template))
        = (s, Inl (ApiException (Some 409) reason b))"
      using create_again [OF Some] by blast
    obtain d md where g: "r \<noteq> []" "client s (GetObject tg name) = (s, Inr (PDict d))"
      "dget d (S ''metadata'') = Some (PDict md)" "dget md (S ''resourceVersion'') = Some (PStr r)"
      using get [OF Some] by blast
    have "resource_version_of (kind_path (tg_plural tg) (tg_namespace tg) name) (PDict d) = Inr (PStr r)"
      using g by (simp add: resource_version_of_def dgetn_def)
    moreover obtain s2 v r' where "client s (ReplaceStatus tg name
        (status_body tg (dgetn template (S ''kind'')) name (PStr r) st)) = (s2, Inr v)"
      "status_of s2 = Some st"
      using replace_status [OF Some] by blast
    ultimately show ?thesis using template c g(2) by (simp add: publish_result_cr_def create_or_get_simps is_conflict_def)
  qed
  then show ?thesis by metis
qed

lemma publish_converges_witness:
  "\<exists>s1 reqs1 s2 reqs2.
    publish_result_cr empty_world no_kube (Some sample_cluster) None sample_template [(S ''a'', PNone)]
      = (s1, reqs1, Inr ()) \<and> map_option snd s1 = Some [(S ''a'', PNone)] \<and>
    publish_result_cr empty_world no_kube (Some sample_cluster) s1 sample_template [(S ''b'', PNone)]
      = (s2, reqs2, Inr ()) \<and> map_option snd s2 = Some [(S ''b'', PNone)]"
proof (rule publish_converges [OF sample_template_parsed, where version_of =
      "map_option (\<lambda>x. nat_dec (fst x))" and status_of = "map_option snd"])
  fix s :: "(nat \<times> pydict) option" and r kind st
  show "map_option (\<lambda>x. nat_dec (fst x)) s = Some r \<Longrightarrow> \<exists>s' v r'.
      sample_cluster s (ReplaceStatus sample_target (S ''r1'')
        (status_body sample_target kind (S ''r1'') (PStr r) st)) = (s', Inr v) \<and>
      map_option (\<lambda>x. nat_dec (fst x)) s' = Some r' \<and> map_option snd s' = Some st"
    by (auto simp: status_body_def dgetn_def)
qed (auto simp del: nat_dec.simps)

text \<open>
  Inside a cluster (\<open>KUBERNETES_SERVICE_HOST\<close> set) a kubeconfig file is never used: the result does
  not depend on it, and it is the in-cluster configuration or an error, a \<open>PublishError\<close> when that
  configuration is unavailable.
\<close>

theorem in_cluster_ignores_kubeconfig:
  assumes "env_get w (S ''KUBERNETES_SERVICE_HOST'') \<noteq> []"
  shows "default_api w (k\<lparr>load_kube_config := r\<rparr>) = default_api w k \<and>
    default_api w k \<noteq> Inr KubeConfig \<and>
    (case load_incluster_config k of Inr _ \<Rightarrow> default_api w k = Inr InCluster
     | Inl exc \<Rightarrow> \<exists>e. default_api w k = Inl e \<and>
         exn_class e = (if is_config_exception exc then CPublishError else exn_class exc))"
  using assms by (auto simp: default_api_def Let_def split: sum.splits)

lemma in_cluster_ignores_kubeconfig_witness:
  "default_api (empty_world\<lparr>environ := (\<lambda>_. Some (S ''10.0.0.1''))\<rparr>)
     ((no_kube :: unit kube)\<lparr>load_kube_config := Inr ()\<rparr>) =
   default_api (empty_world\<lparr>environ := (\<lambda>_. Some (S ''10.0.0.1''))\<rparr>) (no_kube :: unit kube)"
  by (rule conjunct1 [OF in_cluster_ignores_kubeconfig]) (simp add: env_get_def)

text \<open>
  A template that does not parse stops the publication before any request, with \<open>ValueError\<close>; and
  once a client exists, an API error or a timeout of the create (other than 409) or of the status
  replace is reported as \<open>PublishError\<close>, never as the client's own exception.
\<close>

theorem publish_failures:
  assumes "publish_result_cr w k (Some client) s template status = (s', requests, Inl e)"
    and "\<And>s request s' e. client s request \<noteq> (s', Inl (OtherException e))"
  shows "(requests = [] \<and> s' = s \<and> exn_class e = CValueError \<and> parse_template template = Inl e) \<or>
    exn_class e = CPublishError \<or>
    (\<exists>tg name body. requests = [CreateObject tg body, GetObject tg name] \<and>
       (exn_class e = COther (S ''ApiException'') \<or> exn_class e = COther (S ''MaxRetryError''))) \<or>
    (\<exists>tg body s1 created. requests = [CreateObject tg body] \<and> client s (CreateObject tg body) = (s1, Inr created) \<and>
       (exn_class e = CKeyError \<or> exn_class e = CTypeError))"
proof (cases "parse_template template")
  case (Inl e')
  then show ?thesis using assms(1) parse_template_error [OF Inl] by (auto simp: publish_result_cr_def)
next
  case (Inr tn)
  obtain tg name where tn: "tn = (tg, name)" by (cases tn)
  obtain s1 answer where c: "client s (CreateObject tg (create_body template)) = (s1, answer)"
    by fastforce
  obtain s2 read where g: "client s1 (GetObject tg name) = (s2, read)" by fastforce
  have no: "snd (client s3 r) \<noteq> Inl (OtherException x)" for s3 r x
    by (metis assms(2) prod.collapse)
  have pub: "exn_class (publish_error op path x) = CPublishError" if "snd (client s3 r) = Inl x"
    for s3 r x op path
    using that no by (cases x) auto
  have raw: "exn_class (raw_error x) = COther (S ''ApiException'') \<or>
      exn_class (raw_error x) = COther (S ''MaxRetryError'')" if "snd (client s3 r) = Inl x" for s3 r x
    using that no by (cases x) auto
  have sub: "subscript v key = Inl x \<Longrightarrow> exn_class x = CKeyError \<or> exn_class x = CTypeError"
    for v key x by (cases "(v, key)" rule: subscript.cases) (auto split: option.splits)
  note res = assms(1) [unfolded publish_result_cr_eq [OF Inr [unfolded tn]]]
  show ?thesis
  proof (cases answer)
    case (Inr created)
    then show ?thesis using res c sub
        pub [of s1 "ReplaceStatus tg name (status_body tg (dgetn template (S ''kind'')) name rv status)" for rv]
      by (auto simp: create_or_get_created result_simps split: sum.splits)
  next
    case (Inl exc)
    show ?thesis
    proof (cases "is_conflict exc")
      case True
      then show ?thesis using res c g Inl raw [of s1 "GetObject tg name"]
        pub [of s2 "ReplaceStatus tg name (status_body tg (dgetn template (S ''kind'')) name rv status)" for rv]
        resource_version_of_error
        by (auto simp: create_or_get_conflict split: sum.splits)
    next
      case False
      then show ?thesis using res c Inl pub [of s "CreateObject tg (create_body template)"]
        by (auto simp: create_or_get_failed)
    qed
  qed
qed

lemma publish_failures_witness:
  "exn_class (publish_error (S ''create'') (S ''analysisresults/ns/r1'') RequestTimedOut) = CPublishError"
proof -
  have "publish_result_cr empty_world no_kube (Some (\<lambda>s r. ((), Inl RequestTimedOut))) () sample_template []
     = ((), [CreateObject sample_target (create_body sample_template)],
        Inl (publish_error (S ''create'') (S ''analysisresults/ns/r1'') RequestTimedOut))"
    by (simp add: publish_result_cr_def create_or_get_failed is_conflict_def sample_template_parsed kind_path_def sample_target_def S_def)
  from publish_failures [OF this] show ?thesis by auto
qed

end
