(* ===== verification/Batch.thy ===== *)
theory Batch
  imports RunAgent Tls Router Mcp Publish
begin

text \<open>
  \<open>batch.py\<close>: the entry point. It reads the operator's files, prepares TLS, configuration and MCP
  servers, runs the agent once every readiness check has passed, publishes the result and maps every
  failure to an exit status and a message in the termination log. It composes the models of the
  other components. The SDKs of the MCP servers and of the model, the Kubernetes client, OpenSSL and
  the clock are parameters (\<open>batch_env\<close>). Proved: what each exit status means; that the
  agent only runs on a ready configuration; that an unsafe tool result is never published; that telemetry is torn down.
\<close>

section \<open>Inputs\<close>

definition INPUT_DIR :: pystr where "INPUT_DIR = S ''/input''"
definition DEFAULT_SYSTEM_PROMPT :: pystr where "DEFAULT_SYSTEM_PROMPT = S ''You are an AI agent.''"
definition DEFAULT_SKILLS_DIR :: pystr where "DEFAULT_SKILLS_DIR = S ''/app/skills''"
definition TERMINATION_LOG_PATH :: pystr where "TERMINATION_LOG_PATH = S ''/dev/termination-log''"

record batch_input =
  bi_query :: pystr
  bi_output_schema :: pydict
  bi_context :: pydict
  bi_result_template :: pydict
  bi_system_prompt :: "pystr option"

definition input_error :: "pystr \<Rightarrow> exn" where
  "input_error m = Exn CInputReadError m"

definition read_failure :: "pystr \<Rightarrow> exn \<Rightarrow> exn" where
  "read_failure p e =
     (if is_os_error (exn_class e) then input_error (S ''read '' @ p @ S '': '' @ exn_msg e)
      else if exn_class e = CUnicodeDecodeError then input_error (S ''read '' @ p @ S '': invalid UTF-8'')
      else e)"

definition must_read_text :: "world \<Rightarrow> pystr \<Rightarrow> pystr result" where
  "must_read_text w p = (case read_text w p of Inl e \<Rightarrow> Inl (read_failure p e) | Inr t \<Rightarrow> Inr t)"

definition read_optional_text :: "world \<Rightarrow> pystr \<Rightarrow> pystr option result" where
  "read_optional_text w p =
     (case read_text w p of
        Inl e \<Rightarrow> if exn_class e = CFileNotFoundError then Inr None else Inl (read_failure p e)
      | Inr t \<Rightarrow> Inr (or_none (strip t)))"

definition json_input :: "pystr \<Rightarrow> pystr \<Rightarrow> pyval result" where
  "json_input input_dir raw =
     (case json_loads raw of
        Inl e \<Rightarrow> Inl (if exn_class e = CJSONDecodeError
          then input_error (S ''invalid JSON in '' @ input_dir @ S '': '' @ exn_msg e) else e)
      | Inr v \<Rightarrow> Inr v)"

definition object_input :: "string \<Rightarrow> pyval \<Rightarrow> pydict result" where
  "object_input name v =
     (case v of PDict d \<Rightarrow> Inr d | _ \<Rightarrow> Inl (input_error (S (name @ '' must be a JSON object''))))"

definition read_batch_inputs :: "world \<Rightarrow> pystr \<Rightarrow> batch_input result" where
  "read_batch_inputs w input_dir =
     bindE (must_read_text w (path_join input_dir (S ''query''))) (\<lambda>query.
     bindE (must_read_text w (path_join input_dir (S ''output-schema''))) (\<lambda>schema_raw.
     bindE (must_read_text w (path_join input_dir (S ''context''))) (\<lambda>context_raw.
     bindE (must_read_text w (path_join input_dir (S ''result-template''))) (\<lambda>template_raw.
     bindE (read_optional_text w (path_join input_dir (S ''system-prompt''))) (\<lambda>system_prompt.
     bindE (json_input input_dir schema_raw) (\<lambda>schema_value.
     bindE (json_input input_dir context_raw) (\<lambda>context_value.
     bindE (json_input input_dir template_raw) (\<lambda>template_value.
     bindE (object_input ''output-schema'' schema_value) (\<lambda>output_schema.
     bindE (object_input ''context'' context_value) (\<lambda>ctx.
     bindE (object_input ''result-template'' template_value) (\<lambda>template.
       Inr \<lparr>bi_query = query, bi_output_schema = output_schema, bi_context = ctx,
            bi_result_template = template, bi_system_prompt = system_prompt\<rparr>)))))))))))"

definition build_system_prompt :: "pystr \<Rightarrow> pystr \<Rightarrow> policy_entry list \<Rightarrow> pystr" where
  "build_system_prompt base_prompt step mcp_policies =
     (if step \<noteq> S ''analysis'' then base_prompt
      else (let policy_context = render_mcp_policy_context mcp_policies
            in if policy_context = [] then base_prompt else base_prompt @ [10, 10] @ policy_context))"

definition format_readiness_failure :: "pystr dict \<Rightarrow> pystr" where
  "format_readiness_failure checks =
     S ''readiness failed: '' @ join (S ''; '') (map (\<lambda>(name, status). name @ S ''='' @ status) checks)"

definition pick_namespace :: "pydict \<Rightarrow> pystr" where
  "pick_namespace context =
     (case dgetn context (S ''targetNamespaces'') of
        PList (n # ns) \<Rightarrow> if truthy n then py_str n else S ''default''
      | _ \<Rightarrow> S ''default'')"

definition resolve_traceparent :: "world \<Rightarrow> pystr option" where
  "resolve_traceparent w = or_none (env_strip w (S ''TRACEPARENT''))"

definition resolve_capture_content :: "world \<Rightarrow> bool \<Rightarrow> bool" where
  "resolve_capture_content w audit_on =
     (let raw = lower (env_strip w (S ''LIGHTSPEED_CAPTURE_CONTENT''))
      in if raw = S ''false'' then False else if raw = S ''true'' then True else audit_on)"


section \<open>The entry point\<close>

text \<open>
  What the provider is given besides the prompt. Its stream is a function of both; building it from
  the route may raise.
\<close>

record provider_options =
  po_route :: model_route
  po_system_prompt :: pystr
  po_output_schema :: pydict
  po_skills_dir :: pystr
  po_max_turns :: int
  po_timeout :: int
  po_mcp_servers :: "provider_server list"
  po_reasoning :: "pydict option"
  po_inspection :: bool

record 's batch_env =
  be_tls :: tls_env
  be_can_write :: "world \<Rightarrow> pystr \<Rightarrow> bool"
  be_list_tools :: "resolved_server \<Rightarrow> sdk_tool list result"
  be_provider_error :: "model_route \<Rightarrow> exn option"
  be_query :: "provider_options \<Rightarrow> pystr \<Rightarrow> provider_event list \<times> stream_end"
  be_kube :: "'s kube"
  be_started_at :: pydatetime
  be_completed_at :: pydatetime
  be_trace_token :: pystr
  be_span_token :: pystr
  be_elapsed :: pystr
  be_sampled :: bool
  be_tracer_error :: "exn option"
  be_logger_error :: "exn option"

datatype exit_status = Exit nat | Crashed exn

record 's batch_state =
  bs_tls :: tls_state
  bs_tracer :: tracer_state
  bs_cluster :: 's
  bs_requests :: "k8s_request list"
  bs_run :: "run_outcome option"

abbreviation bs_world :: "'s batch_state \<Rightarrow> world" where
  "bs_world st \<equiv> tls_world (bs_tls st)"

definition set_world :: "world \<Rightarrow> 's batch_state \<Rightarrow> 's batch_state" where
  "set_world w st = st\<lparr>bs_tls := (bs_tls st)\<lparr>tls_world := w\<rparr>\<rparr>"

text \<open>\<open>write_termination_log(m); sys.exit(1)\<close>: a message that cannot be encoded raises instead.\<close>

definition exit_with_message ::
  "'s batch_env \<Rightarrow> pystr \<Rightarrow> 's batch_state \<Rightarrow> exit_status \<times> 's batch_state"
where
  "exit_with_message env m st =
     (case write_termination_log (be_can_write env) (bs_world st) m TERMINATION_LOG_PATH of
        Inl e \<Rightarrow> (Crashed e, st)
      | Inr w \<Rightarrow> (Exit 1, set_world w st))"

text \<open>The settings, all of which are read before anything is started.\<close>

record settings =
  se_route :: model_route
  se_reasoning :: "pydict option"
  se_servers :: "resolved_server list"
  se_timeout :: int
  se_max_turns :: int
  se_inspection :: bool
  se_ready :: bool
  se_checks :: "pystr dict"

definition read_settings :: "world \<Rightarrow> settings result" where
  "read_settings w =
     bindE (resolve_model_family w) (\<lambda>model_family.
     bindE (resolve_model_route w None (Some model_family)) (\<lambda>model_route.
     bindE (parse_reasoning_config w) (\<lambda>reasoning_config.
     bindE (parse_mcp_servers w) (\<lambda>mcp_servers.
     bindE (parse_agent_timeout w) (\<lambda>agent_timeout.
     bindE (parse_max_turns w) (\<lambda>max_turns.
     bindE (parse_tool_output_inspection_enabled w) (\<lambda>inspection.
     bindE (run_readiness_checks w model_family (Some model_route)) (\<lambda>(ready, checks).
       Inr \<lparr>se_route = model_route, se_reasoning = reasoning_config, se_servers = mcp_servers,
            se_timeout = agent_timeout, se_max_turns = max_turns, se_inspection = inspection,
            se_ready = ready, se_checks = checks\<rparr>))))))))"

definition run_settings :: "'s batch_env \<Rightarrow> world \<Rightarrow> settings \<Rightarrow> pystr \<Rightarrow> run_config" where
  "run_settings env w se system_prompt =
     (let audit_on = audit_enabled_env w
      in \<lparr>rc_model = route_model (se_route se), rc_system_prompt = system_prompt, rc_json_output = True,
          rc_timeout = se_timeout se,
          rc_audit = \<lparr>audit_phase = env_strip w (S ''LIGHTSPEED_AGENTICRUN_STEP''), audit_enabled = audit_on,
            capture_content = resolve_capture_content w audit_on,
            audit_uid = env_strip w (S ''LIGHTSPEED_AGENTICRUN_UID''), capture_tool_spans = False,
            spans_sampled = be_sampled env\<rparr>,
          rc_traceparent = resolve_traceparent w, rc_trace_token = be_trace_token env,
          rc_span_token = be_span_token env, rc_elapsed = be_elapsed env\<rparr>)"

definition agent_options :: "world \<Rightarrow> batch_input \<Rightarrow> settings \<Rightarrow> pystr \<Rightarrow> provider_server list \<Rightarrow> provider_options" where
  "agent_options w inputs se system_prompt servers =
     \<lparr>po_route = se_route se, po_system_prompt = system_prompt, po_output_schema = bi_output_schema inputs,
      po_skills_dir = (case environ w (S ''LIGHTSPEED_SKILLS_DIR'') of Some d \<Rightarrow> d | None \<Rightarrow> DEFAULT_SKILLS_DIR),
      po_max_turns = se_max_turns se, po_timeout = se_timeout se, po_mcp_servers = servers,
      po_reasoning = se_reasoning se, po_inspection = se_inspection se\<rparr>"

text \<open>The end of the \<open>try\<close> block: the exception that reaches the handlers, if any.\<close>

definition publish_run ::
  "'s batch_env \<Rightarrow> batch_input \<Rightarrow> agent_result \<Rightarrow> 's batch_state \<Rightarrow> 's batch_state \<times> unit result"
where
  "publish_run env inputs res st =
     (case publish_agent_result (bs_world st) (be_kube env) None (bs_cluster st) (bi_result_template inputs)
        (out_dict res) None (be_started_at env) (be_completed_at env) (out_input_tokens res) (out_output_tokens res)
        (timed_out res) of
        (s, requests, r) \<Rightarrow> (st\<lparr>bs_cluster := s, bs_requests := requests\<rparr>, r))"

definition run_and_publish ::
  "'s batch_env \<Rightarrow> batch_input \<Rightarrow> pystr \<Rightarrow> settings \<Rightarrow> 's batch_state \<Rightarrow> 's batch_state \<times> unit result"
where
  "run_and_publish env inputs step se st =
     (case discover_and_admit_mcp_servers (be_list_tools env) (se_servers se) of
        Inl e \<Rightarrow> (st, Inl e)
      | Inr admitted \<Rightarrow>
          (case be_provider_error env (se_route se) of
             Some e \<Rightarrow> (st, Inl e)
           | None \<Rightarrow>
               (let (servers, policies) = split_admitted_mcp_servers admitted;
                    base = (case bi_system_prompt inputs of Some p \<Rightarrow> p | None \<Rightarrow> DEFAULT_SYSTEM_PROMPT);
                    system_prompt = build_system_prompt base step policies;
                    w = bs_world st;
                    out = run_agent_query (run_settings env w se system_prompt) (Some (bi_context inputs)) (bi_query inputs)
                      (be_query env (agent_options w inputs se system_prompt servers));
                    st1 = st\<lparr>bs_run := Some out\<rparr>
                in case end_of_run out of
                     Returned res \<Rightarrow> publish_run env inputs res st1
                   | Raised e \<Rightarrow> (st1, Inl e)
                   | Cancelled \<Rightarrow> (st1, Inl (Exn CCancelledError [])))))"

text \<open>
  The \<open>except\<close> clauses: every exception becomes its text, the safety failure its name; a cancellation is
  not caught.
\<close>

definition handle_failure :: "'s batch_env \<Rightarrow> exn \<Rightarrow> 's batch_state \<Rightarrow> exit_status \<times> 's batch_state" where
  "handle_failure env e st =
     (if exn_class e = CCancelledError then (Crashed e, st)
      else exit_with_message env
        (if exn_class e = CToolResultSafetyInspectionFailed then S ''ToolResultSafetyInspectionFailed'' else exn_msg e) st)"

text \<open>The \<open>finally\<close> clause, when telemetry is active: its own exception replaces the exit.\<close>

definition shut_down :: "'s batch_env \<Rightarrow> exit_status \<times> 's batch_state \<Rightarrow> exit_status \<times> 's batch_state" where
  "shut_down env x =
     (case x of (ex, st) \<Rightarrow>
        case shutdown_tracer (be_tracer_error env) (be_logger_error env) (bs_tracer st) of
          (tr, err) \<Rightarrow> (case err of Some e \<Rightarrow> Crashed e | None \<Rightarrow> ex, st\<lparr>bs_tracer := tr\<rparr>))"

definition finish_run :: "'s batch_env \<Rightarrow> 's batch_state \<times> unit result \<Rightarrow> exit_status \<times> 's batch_state" where
  "finish_run env x =
     (case x of (st, Inr _) \<Rightarrow> (Exit 0, st) | (st, Inl e) \<Rightarrow> handle_failure env e st)"

definition run_ready ::
  "'s batch_env \<Rightarrow> batch_input \<Rightarrow> pystr \<Rightarrow> settings \<Rightarrow> 's batch_state \<Rightarrow> exit_status \<times> 's batch_state"
where
  "run_ready env inputs step se st =
     (let w = bs_world st
      in if \<not> otel_runtime_enabled w then finish_run env (run_and_publish env inputs step se st)
         else case init_tracer w (Some (env_strip w (S ''LIGHTSPEED_AGENTICRUN_UID'')))
                (Some (env_strip w (S ''LIGHTSPEED_AGENTICRUN_STEP''))) (bs_tracer st) of
           Inl e \<Rightarrow> handle_failure env e st
         | Inr tr \<Rightarrow>
             shut_down env (finish_run env (run_and_publish env inputs step se (st\<lparr>bs_tracer := tr\<rparr>))))"

definition main_try ::
  "'s batch_env \<Rightarrow> batch_input \<Rightarrow> pystr \<Rightarrow> 's batch_state \<Rightarrow> exit_status \<times> 's batch_state"
where
  "main_try env inputs step st =
     (let (tls, configured) = configure_tls (be_tls env) (bs_tls st) TLS_MOUNT_ROOT None;
          st1 = st\<lparr>bs_tls := tls\<rparr>
      in case bindE configured (\<lambda>_. read_settings (tls_world tls)) of
           Inl e \<Rightarrow> handle_failure env e st1
         | Inr se \<Rightarrow>
             if \<not> se_ready se
             then (case exit_with_message env (format_readiness_failure (se_checks se)) st1 of
                     (Crashed e, st2) \<Rightarrow> handle_failure env e st2
                   | x \<Rightarrow> x)
             else run_ready env inputs step se st1)"

definition batch_main :: "'s batch_env \<Rightarrow> 's batch_state \<Rightarrow> exit_status \<times> 's batch_state" where
  "batch_main env st =
     (case read_batch_inputs (bs_world st) INPUT_DIR of
        Inl e \<Rightarrow>
          if exn_class e = CInputReadError then exit_with_message env (exn_msg e) st else (Crashed e, st)
      | Inr inputs \<Rightarrow>
          (case step_from_result_template (bi_result_template inputs) of
             Inl e \<Rightarrow> exit_with_message env (exn_msg e) st
           | Inr step \<Rightarrow> main_try env inputs step st))"


section \<open>Lemmas\<close>

lemma read_failure_class:
  "read_text w p = Inl e \<Longrightarrow> exn_class (read_failure p e) = CInputReadError"
  using read_text_class [of w p e] by (auto simp: read_failure_def input_error_def)

lemma input_classes:
  "must_read_text w p = Inl e \<Longrightarrow> exn_class e = CInputReadError"
  "read_optional_text w p = Inl e \<Longrightarrow> exn_class e = CInputReadError"
  "json_input d raw = Inl e \<Longrightarrow> exn_class e = CInputReadError \<or> e = int_limit_error"
  "object_input n v = Inl e \<Longrightarrow> exn_class e = CInputReadError"
  by (auto simp: must_read_text_def read_optional_text_def json_input_def object_input_def input_error_def
      decode_error_def dest!: json_loads_error dest: read_failure_class
      split: sum.split_asm if_split_asm pyval.split_asm)

lemma read_batch_inputs_error:
  "read_batch_inputs w d = Inl e \<Longrightarrow> exn_class e = CInputReadError \<or> e = int_limit_error"
  by (auto simp: read_batch_inputs_def result_simps dest: input_classes)

text \<open>A message in the termination log, cut to its bound; nothing is promised when the file cannot be written.\<close>

definition logged :: "'s batch_env \<Rightarrow> world \<Rightarrow> pystr \<Rightarrow> world \<Rightarrow> bool" where
  "logged env w m w' \<longleftrightarrow>
     (\<exists>data. truncate_utf8_message m MAX_TERMINATION_LOG_BYTES = Inr data \<and>
        (if be_can_write env w TERMINATION_LOG_PATH
         then files w' TERMINATION_LOG_PATH = Some (RegularFile data) else w' = w))"

definition same_run :: "'s batch_state \<Rightarrow> 's batch_state \<Rightarrow> bool" where
  "same_run st st' \<longleftrightarrow> bs_run st' = bs_run st \<and> bs_cluster st' = bs_cluster st \<and>
     bs_requests st' = bs_requests st \<and> bs_tracer st' = bs_tracer st"

lemma same_run_set_world [simp]: "same_run st (set_world w st)" "same_run st st"
  by (simp_all add: same_run_def set_world_def)

lemma encode_error_class: "truncate_utf8_message m n = Inl e \<Longrightarrow> exn_class e = CUnicodeEncodeError"
  by (auto simp: truncate_utf8_message_def utf8_encode_def result_simps split: if_split_asm)

lemma exit_with_message_cases:
  assumes "exit_with_message env m st = (ex, st')"
  shows "same_run st st' \<and>
    (ex = Exit 1 \<and> logged env (bs_world st) m (bs_world st') \<or> (\<exists>e. ex = Crashed e \<and> exn_class e = CUnicodeEncodeError \<and> st' = st))"
proof (cases "truncate_utf8_message m MAX_TERMINATION_LOG_BYTES")
  case (Inl e)
  then show ?thesis using assms encode_error_class [OF Inl]
    by (auto simp: exit_with_message_def write_termination_log_def)
next
  case (Inr data)
  then show ?thesis using assms
    by (auto simp: exit_with_message_def write_termination_log_def logged_def set_world_def same_run_def)
qed

text \<open>The ways a failure ends.\<close>

definition failed_exit :: "'s batch_env \<Rightarrow> 's batch_state \<Rightarrow> exit_status \<times> 's batch_state \<Rightarrow> bool" where
  "failed_exit env st x \<longleftrightarrow>
     (case x of (ex, st') \<Rightarrow> same_run st st' \<and>
        ((\<exists>m. ex = Exit 1 \<and> logged env (bs_world st) m (bs_world st')) \<or>
         (\<exists>e. ex = Crashed e \<and> (exn_class e = CUnicodeEncodeError \<or> exn_class e = CCancelledError \<or> e = int_limit_error))))"

lemma exit_with_message_failed: "failed_exit env st (exit_with_message env m st)"
proof -
  obtain ex st' where x: "exit_with_message env m st = (ex, st')" by fastforce
  from exit_with_message_cases [OF x] show ?thesis unfolding x failed_exit_def by auto
qed

lemma handle_failure_failed: "failed_exit env st (handle_failure env e st)"
  unfolding handle_failure_def
  by (cases "exn_class e = CCancelledError") (simp add: failed_exit_def, simp add: exit_with_message_failed)

text \<open>What a run of the agent leaves behind.\<close>

definition published :: "'s batch_env \<Rightarrow> batch_input \<Rightarrow> 's batch_state \<Rightarrow> agent_result \<Rightarrow> 's batch_state \<Rightarrow> unit result \<Rightarrow> bool" where
  "published env inputs st res st' r \<longleftrightarrow>
     publish_agent_result (bs_world st) (be_kube env) None (bs_cluster st) (bi_result_template inputs)
        (out_dict res) None (be_started_at env) (be_completed_at env) (out_input_tokens res) (out_output_tokens res)
        (timed_out res) = (bs_cluster st', bs_requests st', r)"

definition agent_outcome ::
  "'s batch_env \<Rightarrow> batch_input \<Rightarrow> 's batch_state \<Rightarrow> 's batch_state \<Rightarrow> unit result \<Rightarrow> bool"
where
  "agent_outcome env inputs st st' r \<longleftrightarrow> bs_tls st' = bs_tls st \<and> bs_tracer st' = bs_tracer st \<and>
     ((same_run st st' \<and> (\<exists>e. r = Inl e)) \<or>
      (\<exists>out. bs_run st' = Some out \<and>
         (case end_of_run out of
            Returned res \<Rightarrow> published env inputs st res st' r
          | _ \<Rightarrow> bs_cluster st' = bs_cluster st \<and> bs_requests st' = bs_requests st \<and> (\<exists>e. r = Inl e))))"

lemma run_and_publish_outcome:
  assumes "run_and_publish env inputs step se st = (st', r)"
  shows "agent_outcome env inputs st st' r"
proof (cases "\<exists>admitted. discover_and_admit_mcp_servers (be_list_tools env) (se_servers se) = Inr admitted \<and>
    be_provider_error env (se_route se) = None")
  case False
  then have "st' = st \<and> (\<exists>e. r = Inl e)" using assms
    by (auto simp: run_and_publish_def split: sum.split_asm option.split_asm)
  then show ?thesis by (auto simp: agent_outcome_def)
next
  case True
  then obtain admitted where a: "discover_and_admit_mcp_servers (be_list_tools env) (se_servers se) = Inr admitted"
      "be_provider_error env (se_route se) = None" by blast
  obtain servers policies where s: "split_admitted_mcp_servers admitted = (servers, policies)" by fastforce
  obtain out where o: "run_and_publish env inputs step se st =
      (case end_of_run out of
         Returned res \<Rightarrow> publish_run env inputs res (st\<lparr>bs_run := Some out\<rparr>)
       | Raised e \<Rightarrow> (st\<lparr>bs_run := Some out\<rparr>, Inl e)
       | Cancelled \<Rightarrow> (st\<lparr>bs_run := Some out\<rparr>, Inl (Exn CCancelledError [])))"
    using a s by (auto simp: run_and_publish_def Let_def)
  have "bs_run st' = Some out \<and> bs_tls st' = bs_tls st \<and> bs_tracer st' = bs_tracer st \<and>
      (case end_of_run out of
         Returned res \<Rightarrow> published env inputs st res st' r
       | _ \<Rightarrow> bs_cluster st' = bs_cluster st \<and> bs_requests st' = bs_requests st \<and> (\<exists>e. r = Inl e))"
    using assms o by (auto simp: publish_run_def published_def split: run_end.split run_end.split_asm prod.split_asm)
  then show ?thesis by (auto simp: agent_outcome_def)
qed

text \<open>What a run has done to the cluster, and what its exit status means.\<close>

definition run_effect ::
  "'s batch_env \<Rightarrow> batch_input \<Rightarrow> 's batch_state \<Rightarrow> exit_status \<Rightarrow> 's batch_state \<Rightarrow> bool"
where
  "run_effect env inputs st ex st' \<longleftrightarrow>
     (bs_run st' = bs_run st \<and> bs_cluster st' = bs_cluster st \<and> bs_requests st' = bs_requests st \<and> ex \<noteq> Exit 0) \<or>
     (\<exists>out. bs_run st' = Some out \<and>
        (case end_of_run out of
           Returned res \<Rightarrow> \<exists>r. published env inputs st res st' r \<and> (ex = Exit 0 \<longrightarrow> r = Inr ())
         | _ \<Rightarrow> bs_cluster st' = bs_cluster st \<and> bs_requests st' = bs_requests st \<and> ex \<noteq> Exit 0))"

definition exit_meaning :: "'s batch_env \<Rightarrow> world \<Rightarrow> exit_status \<Rightarrow> world \<Rightarrow> bool" where
  "exit_meaning env w ex w' \<longleftrightarrow>
     (case ex of
        Exit n \<Rightarrow> n = 0 \<or> n = 1 \<and> (\<exists>m. logged env w m w')
      | Crashed e \<Rightarrow> exn_class e = CUnicodeEncodeError \<or> exn_class e = CCancelledError \<or> e = int_limit_error \<or>
          be_tracer_error env = Some e \<or> be_logger_error env = Some e)"

lemma run_effect_cong:
  assumes "run_effect env inputs st ex st1" "ex' = Exit 0 \<Longrightarrow> ex = Exit 0"
    and "bs_run st2 = bs_run st1" "bs_cluster st2 = bs_cluster st1" "bs_requests st2 = bs_requests st1"
  shows "run_effect env inputs st ex' st2"
  using assms unfolding run_effect_def published_def
  by (elim disjE) (simp, blast, force split: run_end.split_asm run_end.split)

lemma failed_exit_meaning:
  "failed_exit env st (ex, st') \<Longrightarrow> exit_meaning env (bs_world st) ex (bs_world st') \<and> ex \<noteq> Exit 0"
  by (auto simp: failed_exit_def exit_meaning_def)

lemma finish_run_ends:
  assumes "agent_outcome env inputs st st1 r" "finish_run env (st1, r) = (ex, st2)"
  shows "run_effect env inputs st ex st2 \<and> exit_meaning env (bs_world st) ex (bs_world st2) \<and>
    bs_tracer st2 = bs_tracer st"
proof (cases r)
  case (Inr u)
  then have "ex = Exit 0" "st2 = st1" using assms(2) by (auto simp: finish_run_def)
  then show ?thesis using assms(1) Inr
    by (auto simp: agent_outcome_def run_effect_def exit_meaning_def same_run_def split: run_end.split_asm run_end.split)
next
  case (Inl e)
  have f: "failed_exit env st1 (ex, st2)" using handle_failure_failed [of env st1 e] assms(2) Inl
    by (simp add: finish_run_def)
  note m = failed_exit_meaning [OF f]
  have s: "same_run st1 st2" using f by (simp add: failed_exit_def)
  have tls: "bs_tls st1 = bs_tls st" "bs_tracer st1 = bs_tracer st" using assms(1) by (simp_all add: agent_outcome_def)
  have "run_effect env inputs st ex st1" using assms(1) m
    by (auto simp: agent_outcome_def run_effect_def same_run_def split: run_end.split_asm run_end.split)
  then have "run_effect env inputs st ex st2"
    by (rule run_effect_cong) (use s in \<open>auto simp: same_run_def\<close>)
  then show ?thesis using m tls s by (simp add: same_run_def)
qed

lemma shut_down_ends:
  assumes "run_effect env inputs st ex st1" "exit_meaning env w ex (bs_world st1)"
    and "shut_down env (ex, st1) = (ex', st2)"
  shows "run_effect env inputs st ex' st2 \<and> exit_meaning env w ex' (bs_world st2) \<and> bs_run st2 = bs_run st1"
proof -
  obtain tr err where sh: "shutdown_tracer (be_tracer_error env) (be_logger_error env) (bs_tracer st1) = (tr, err)"
    by fastforce
  have err: "err = None \<or> err = be_tracer_error env \<or> err = be_logger_error env"
    using sh by (auto simp: shutdown_tracer_def Let_def split: if_split_asm)
  have x: "ex' = (case err of Some e \<Rightarrow> Crashed e | None \<Rightarrow> ex)" "st2 = st1\<lparr>bs_tracer := tr\<rparr>"
    using sh assms(3) by (auto simp: shut_down_def)
  have "run_effect env inputs st ex' st2"
    by (rule run_effect_cong [OF assms(1)]) (use x in \<open>auto split: option.split_asm\<close>)
  moreover have "exit_meaning env w ex' (bs_world st2)"
    using assms(2) x err by (cases err) (auto simp: exit_meaning_def)
  ultimately show ?thesis using x by simp
qed

text \<open>\<open>main\<close> from a ready configuration.\<close>

lemma run_ready_ends:
  assumes "run_ready env inputs step se st = (ex, st')"
  shows "run_effect env inputs st ex st' \<and> exit_meaning env (bs_world st) ex (bs_world st')"
proof (cases "otel_runtime_enabled (bs_world st)")
  case False
  obtain st1 r where r: "run_and_publish env inputs step se st = (st1, r)" by fastforce
  then have "finish_run env (st1, r) = (ex, st')" using assms False by (simp add: run_ready_def Let_def)
  from finish_run_ends [OF run_and_publish_outcome [OF r] this] show ?thesis by simp
next
  case True
  let ?init = "init_tracer (bs_world st) (Some (env_strip (bs_world st) (S ''LIGHTSPEED_AGENTICRUN_UID'')))
      (Some (env_strip (bs_world st) (S ''LIGHTSPEED_AGENTICRUN_STEP''))) (bs_tracer st)"
  show ?thesis
  proof (cases ?init)
    case (Inl e)
    then have f: "failed_exit env st (ex, st')" using assms True handle_failure_failed [of env st e]
      by (simp add: run_ready_def Let_def)
    then show ?thesis using failed_exit_meaning [OF f] by (auto simp: failed_exit_def run_effect_def same_run_def)
  next
    case (Inr tr)
    obtain st1 r where r: "run_and_publish env inputs step se (st\<lparr>bs_tracer := tr\<rparr>) = (st1, r)" by fastforce
    obtain ex2 st2 where f: "finish_run env (st1, r) = (ex2, st2)" by fastforce
    have "shut_down env (ex2, st2) = (ex, st')" using assms True Inr r f by (simp add: run_ready_def Let_def)
    from shut_down_ends [OF _ _ this, of inputs "st\<lparr>bs_tracer := tr\<rparr>" "bs_world st"]
      finish_run_ends [OF run_and_publish_outcome [OF r] f]
    have "run_effect env inputs (st\<lparr>bs_tracer := tr\<rparr>) ex st'" "exit_meaning env (bs_world st) ex (bs_world st')"
      by simp_all
    then show ?thesis by (auto simp: run_effect_def published_def cong: run_end.case_cong)
  qed
qed

lemma main_try_cases:
  assumes "main_try env inputs step st = (ex, st')"
  obtains (failed) tls where "failed_exit env (st\<lparr>bs_tls := tls\<rparr>) (ex, st')"
  | (ready) tls cfg se where "configure_tls (be_tls env) (bs_tls st) TLS_MOUNT_ROOT None = (tls, Inr cfg)"
      "read_settings (tls_world tls) = Inr se" "se_ready se"
      "run_ready env inputs step se (st\<lparr>bs_tls := tls\<rparr>) = (ex, st')"
proof -
  obtain tls configured where t: "configure_tls (be_tls env) (bs_tls st) TLS_MOUNT_ROOT None = (tls, configured)"
    by fastforce
  let ?st = "st\<lparr>bs_tls := tls\<rparr>"
  show thesis
  proof (cases "bindE configured (\<lambda>_. read_settings (tls_world tls))")
    case (Inl e)
    then have "handle_failure env e ?st = (ex, st')" using assms t by (simp add: main_try_def)
    then show thesis using failed [of tls] handle_failure_failed [of env ?st e] by simp
  next
    case (Inr se)
    obtain cfg where c: "configured = Inr cfg" "read_settings (tls_world tls) = Inr se"
      using Inr by (auto simp: result_simps)
    show thesis
    proof (cases "se_ready se")
      case True
      then show thesis using ready [of tls cfg se] assms t c by (simp add: main_try_def)
    next
      case False
      obtain ex1 st1 where x: "exit_with_message env (format_readiness_failure (se_checks se)) ?st = (ex1, st1)"
        by fastforce
      then have m: "main_try env inputs step st = (case ex1 of Crashed e \<Rightarrow> handle_failure env e st1 | _ \<Rightarrow> (ex1, st1))"
        using t c False by (auto simp: main_try_def split: exit_status.split)
      show thesis
      proof (cases ex1)
        case (Exit n)
        then show thesis using failed [of tls] exit_with_message_failed [of env ?st "format_readiness_failure (se_checks se)"]
            m assms x by simp
      next
        case (Crashed e)
        then have "st1 = ?st" using exit_with_message_cases [OF x] by auto
        then show thesis using failed [of tls] handle_failure_failed [of env ?st e] m assms Crashed by simp
      qed
    qed
  qed
qed

lemma batch_main_cases:
  assumes "batch_main env st = (ex, st')"
  obtains (failed) tls where "failed_exit env (st\<lparr>bs_tls := tls\<rparr>) (ex, st')"
  | (ready) inputs step tls cfg se where "read_batch_inputs (bs_world st) INPUT_DIR = Inr inputs"
      "step_from_result_template (bi_result_template inputs) = Inr step"
      "configure_tls (be_tls env) (bs_tls st) TLS_MOUNT_ROOT None = (tls, Inr cfg)"
      "read_settings (tls_world tls) = Inr se" "se_ready se"
      "run_ready env inputs step se (st\<lparr>bs_tls := tls\<rparr>) = (ex, st')"
proof -
  have st: "st\<lparr>bs_tls := bs_tls st\<rparr> = st" by simp
  show thesis
  proof (cases "read_batch_inputs (bs_world st) INPUT_DIR")
    case (Inl e)
    then have "failed_exit env st (ex, st')"
      using assms read_batch_inputs_error [OF Inl] exit_with_message_failed [of env st "exn_msg e"]
      by (auto simp: batch_main_def failed_exit_def split: if_split_asm)
    then show thesis using failed [of "bs_tls st"] st by simp
  next
    case (Inr inputs)
    note read = this
    show thesis
    proof (cases "step_from_result_template (bi_result_template inputs)")
      case (Inl e)
      then show thesis using failed [of "bs_tls st"] st assms read exit_with_message_failed [of env st "exn_msg e"]
        by (simp add: batch_main_def)
    next
      case (Inr step)
      then have "main_try env inputs step st = (ex, st')" using assms read by (simp add: batch_main_def)
      then show thesis by (rule main_try_cases) (use failed ready read Inr in blast)+
    qed
  qed
qed

lemma readiness_flag: "run_readiness_checks w f r = Inr (ready, checks) \<Longrightarrow> ready \<longleftrightarrow> (\<forall>c \<in> set checks. snd c = S ''ok'')"
  by (cases "family_checks w f") (auto simp: run_readiness_checks_def Let_def)

lemma read_settings_ready:
  assumes "read_settings w = Inr se" "se_ready se"
  shows "usable_route w (se_route se) \<and> (\<forall>c \<in> set (se_checks se). snd c = S ''ok'') \<and>
    0 < se_timeout se \<and> 1 \<le> se_max_turns se \<and> se_max_turns se \<le> 500 \<and>
    parse_mcp_servers w = Inr (se_servers se)"
proof -
  obtain f ready where s: "resolve_model_family w = Inr f" "resolve_model_route w None (Some f) = Inr (se_route se)"
    "parse_mcp_servers w = Inr (se_servers se)"
    "parse_agent_timeout w = Inr (se_timeout se)" "parse_max_turns w = Inr (se_max_turns se)"
    "run_readiness_checks w f (Some (se_route se)) = Inr (ready, se_checks se)" "se_ready se = ready"
    using assms(1) by (auto simp: read_settings_def result_simps)
  have "usable_route w (se_route se)"
    using ready_route_usable [OF s(1,2)] s(6,7) assms(2) by simp
  moreover have "\<forall>c \<in> set (se_checks se). snd c = S ''ok''"
    using readiness_flag [OF s(6)] s(7) assms(2) by simp
  moreover have "0 < se_timeout se" "1 \<le> se_max_turns se \<and> se_max_turns se \<le> 500"
    using s(4,5) by (auto simp: parse_agent_timeout_def parse_max_turns_def Let_def split: if_split_asm option.split_asm)
  ultimately show ?thesis using s(3) by blast
qed

text \<open>The tracer after a run that started without one.\<close>

lemma run_ready_tracer:
  assumes "run_ready env inputs step se st = (ex, st')" "bs_tracer st = no_tracer"
    and "be_tracer_error env = None" "be_logger_error env = None"
  shows "bs_tracer st' = no_tracer"
proof (cases "otel_runtime_enabled (bs_world st)")
  case False
  obtain st1 r where r: "run_and_publish env inputs step se st = (st1, r)" by fastforce
  then have "finish_run env (st1, r) = (ex, st')" using assms(1) False by (simp add: run_ready_def Let_def)
  from finish_run_ends [OF run_and_publish_outcome [OF r] this] assms(2) show ?thesis by simp
next
  case True
  let ?init = "init_tracer (bs_world st) (Some (env_strip (bs_world st) (S ''LIGHTSPEED_AGENTICRUN_UID'')))
      (Some (env_strip (bs_world st) (S ''LIGHTSPEED_AGENTICRUN_STEP''))) (bs_tracer st)"
  obtain tr where tr: "?init = Inr tr" "shutdown_tracer None None tr = (no_tracer, None)"
    using tracer_lifecycle(1) [of "bs_world st"] assms(2)
    by (auto simp: init_tracer_def no_tracer_def Let_def)
  obtain st1 r where r: "run_and_publish env inputs step se (st\<lparr>bs_tracer := tr\<rparr>) = (st1, r)" by fastforce
  obtain ex2 st2 where f: "finish_run env (st1, r) = (ex2, st2)" by fastforce
  have "bs_tracer st2 = tr" using finish_run_ends [OF run_and_publish_outcome [OF r] f] by simp
  then show ?thesis using assms(1,3,4) True tr r f by (auto simp: run_ready_def shut_down_def Let_def)
qed

text \<open>A run that fails on an unsafe tool result.\<close>

definition always_unsafe :: "'s batch_env \<Rightarrow> exn \<Rightarrow> bool" where
  "always_unsafe env e \<longleftrightarrow> exn_class e = CToolResultSafetyInspectionFailed \<and>
     (\<forall>opts p. snd (be_query env opts p) = StreamRaises e \<and> filter is_result (fst (be_query env opts p)) = [])"

lemma unsafe_run:
  assumes "exn_class e = CToolResultSafetyInspectionFailed"
    and "provider p = (events, StreamRaises e)" "filter is_result events = []"
    and "query_prompt ctx prompt = Inr p"
  shows "end_of_run (run_agent_query cfg ctx prompt provider) = Raised e \<or>
    final_state (run_agent_query cfg ctx prompt provider) = None"
  using assms take_events_silent [OF assms(3), of cfg "started_run cfg p"]
  by (auto simp: run_agent_query_def started_run_def failed_run_def Let_def split: sum.split)

lemma unsafe_query:
  assumes "always_unsafe env e" "final_state (run_agent_query cfg ctx prompt (be_query env opts)) \<noteq> None"
  shows "end_of_run (run_agent_query cfg ctx prompt (be_query env opts)) = Raised e"
proof (cases "query_prompt ctx prompt")
  case (Inl x)
  then show ?thesis using assms(2) by (simp add: run_agent_query_def)
next
  case (Inr p)
  have "be_query env opts p = (fst (be_query env opts p), StreamRaises e)"
    using assms(1) by (metis always_unsafe_def prod.collapse)
  then show ?thesis using unsafe_run [OF _ _ _ Inr, of e "be_query env opts" _ cfg] assms
    by (auto simp: always_unsafe_def)
qed

lemma run_and_publish_unsafe:
  assumes "always_unsafe env e" "run_and_publish env inputs step se st = (st', r)"
    and "bs_run st = None" "bs_run st' = Some out" "final_state out \<noteq> None"
  shows "end_of_run out = Raised e \<and> r = Inl e"
  using assms unsafe_query [OF assms(1)]
  by (auto simp: run_and_publish_def publish_run_def Let_def
      split: sum.split_asm option.split_asm prod.split_asm run_end.split_asm)

lemma handle_unsafe:
  assumes "exn_class e = CToolResultSafetyInspectionFailed" "handle_failure env e st = (ex, st')"
  shows "ex = Exit 1 \<and> logged env (bs_world st) (S ''ToolResultSafetyInspectionFailed'') (bs_world st')"
proof -
  have "valid_str (S ''ToolResultSafetyInspectionFailed'')" by code_simp
  then have "exn_class x \<noteq> CUnicodeEncodeError"
    if "truncate_utf8_message (S ''ToolResultSafetyInspectionFailed'') MAX_TERMINATION_LOG_BYTES = Inl x" for x
    using that by (auto simp: truncate_utf8_message_def utf8_encode_def result_simps)
  then show ?thesis using assms
    by (auto simp: handle_failure_def exit_with_message_def write_termination_log_def logged_def set_world_def
        result_simps dest: encode_error_class split: sum.split_asm)
qed

lemma finish_run_same: "finish_run env (st1, r) = (ex, st2) \<Longrightarrow> bs_run st2 = bs_run st1"
proof (cases r)
  case (Inl e)
  assume "finish_run env (st1, r) = (ex, st2)"
  then show ?thesis using handle_failure_failed [of env st1 e] Inl
    by (simp add: finish_run_def failed_exit_def same_run_def)
qed (simp add: finish_run_def)

lemma run_ready_unsafe:
  assumes "always_unsafe env e" "run_ready env inputs step se st = (ex, st')"
    and "bs_run st = None" "bs_run st' = Some out" "final_state out \<noteq> None"
    and "be_tracer_error env = None" "be_logger_error env = None"
  shows "end_of_run out = Raised e \<and> ex = Exit 1 \<and>
    logged env (bs_world st) (S ''ToolResultSafetyInspectionFailed'') (bs_world st')"
proof -
  have cls: "exn_class e = CToolResultSafetyInspectionFailed" using assms(1) by (simp add: always_unsafe_def)
  have fin: "end_of_run out = Raised e \<and> ex2 = Exit 1 \<and>
      logged env (bs_world st) (S ''ToolResultSafetyInspectionFailed'') (bs_world st2)"
    if "run_and_publish env inputs step se (st\<lparr>bs_tracer := tr\<rparr>) = (st1, r)"
      and "finish_run env (st1, r) = (ex2, st2)" and "bs_run st2 = Some out" for tr st1 r ex2 st2
  proof -
    have "agent_outcome env inputs (st\<lparr>bs_tracer := tr\<rparr>) st1 r" by (rule run_and_publish_outcome [OF that(1)])
    then have tls: "bs_world st1 = bs_world st" by (simp add: agent_outcome_def)
    have "bs_run st1 = Some out" using that(2,3) by (simp add: finish_run_same)
    from run_and_publish_unsafe [OF assms(1) that(1) _ this assms(5)] assms(3)
    have "end_of_run out = Raised e" "r = Inl e" by simp_all
    then show ?thesis using that(2) handle_unsafe [OF cls, of env st1 ex2 st2] tls by (simp add: finish_run_def)
  qed
  show ?thesis
  proof (cases "otel_runtime_enabled (bs_world st)")
    case False
    obtain st1 r where r: "run_and_publish env inputs step se st = (st1, r)" by fastforce
    then have "finish_run env (st1, r) = (ex, st')" using assms(2) False by (simp add: run_ready_def Let_def)
    then show ?thesis using fin [of "bs_tracer st" st1 r ex st'] r assms(4) by simp
  next
    case True
    let ?init = "init_tracer (bs_world st) (Some (env_strip (bs_world st) (S ''LIGHTSPEED_AGENTICRUN_UID'')))
        (Some (env_strip (bs_world st) (S ''LIGHTSPEED_AGENTICRUN_STEP''))) (bs_tracer st)"
    show ?thesis
    proof (cases ?init)
      case (Inl x)
      then have "failed_exit env st (ex, st')" using assms(2) True handle_failure_failed [of env st x]
        by (simp add: run_ready_def Let_def)
      then show ?thesis using assms(3,4) by (simp add: failed_exit_def same_run_def)
    next
      case (Inr tr)
      obtain st1 r where r: "run_and_publish env inputs step se (st\<lparr>bs_tracer := tr\<rparr>) = (st1, r)" by fastforce
      obtain ex2 st2 where f: "finish_run env (st1, r) = (ex2, st2)" by fastforce
      have sh: "shut_down env (ex2, st2) = (ex, st')" using assms(2) True Inr r f by (simp add: run_ready_def Let_def)
      then have "ex = ex2" "bs_run st2 = bs_run st'" "bs_world st' = bs_world st2"
        using assms(6,7) by (auto simp: shut_down_def shutdown_tracer_def Let_def split: if_split_asm)
      then show ?thesis using fin [OF r f] assms(4) by simp
    qed
  qed
qed


section \<open>Properties\<close>


text \<open>
  C8. The agent runs only when everything is ready: the inputs were read and name a known kind of
  result, TLS was configured, every setting and MCP server parsed within its limits, every
  readiness check is \<open>ok\<close>, and the route has every parameter and credential that its constructor reads.
\<close>

theorem agent_runs_only_when_ready:
  "case batch_main env st of (ex, st') \<Rightarrow>
     bs_run st' = bs_run st \<or>
     (\<exists>inputs step tls cfg se. read_batch_inputs (bs_world st) INPUT_DIR = Inr inputs \<and>
        step_from_result_template (bi_result_template inputs) = Inr step \<and>
        configure_tls (be_tls env) (bs_tls st) TLS_MOUNT_ROOT None = (tls, Inr cfg) \<and>
        read_settings (tls_world tls) = Inr se \<and> usable_route (tls_world tls) (se_route se) \<and>
        list_all (\<lambda>c. snd c = S ''ok'') (se_checks se) \<and>
        0 < se_timeout se \<and> 1 \<le> se_max_turns se \<and> se_max_turns se \<le> 500 \<and>
        parse_mcp_servers (tls_world tls) = Inr (se_servers se))"
proof -
  obtain ex st' where b: "batch_main env st = (ex, st')" by fastforce
  show ?thesis unfolding b prod.case using b
    by (rule batch_main_cases)
      (simp add: failed_exit_def same_run_def, use read_settings_ready in \<open>fastforce simp: list_all_iff\<close>)
qed

text \<open>
  Telemetry is always torn down: a process that starts without providers has none left when
  \<open>main\<close> ends, whichever way it ends, if the providers' own shut-down does not raise.
\<close>

theorem telemetry_is_torn_down:
  assumes "bs_tracer st = no_tracer" "be_tracer_error env = None" "be_logger_error env = None"
  shows "bs_tracer (snd (batch_main env st)) = no_tracer"
proof -
  obtain ex st' where b: "batch_main env st = (ex, st')" by fastforce
  have "bs_tracer st' = no_tracer"
    using b
  proof (rule batch_main_cases)
    fix inputs step tls cfg se
    assume "run_ready env inputs step se (st\<lparr>bs_tls := tls\<rparr>) = (ex, st')"
    from run_ready_tracer [OF this _ assms(2,3)] assms(1) show ?thesis by simp
  qed (use assms(1) in \<open>simp add: failed_exit_def same_run_def\<close>)
  then show ?thesis by (simp add: b)
qed

text \<open>
  C7. An unsafe tool result stops the batch. When the agent's stream ends with the safety failure, the
  run raises it, nothing is sent to the cluster, and the process exits with one, the name of
  the failure (and none of its content) in the termination log.
\<close>

theorem unsafe_result_stops_the_batch:
  assumes "always_unsafe env e" "be_tracer_error env = None" "be_logger_error env = None"
    and "batch_main env st = (ex, st')" "bs_run st = None" "bs_run st' = Some out" "final_state out \<noteq> None"
  shows "end_of_run out = Raised e \<and> bs_cluster st' = bs_cluster st \<and> bs_requests st' = bs_requests st \<and> ex = Exit 1 \<and>
    (\<exists>w. logged env w (S ''ToolResultSafetyInspectionFailed'') (bs_world st'))"
  using assms(4)
proof (rule batch_main_cases)
  fix tls assume "failed_exit env (st\<lparr>bs_tls := tls\<rparr>) (ex, st')"
  then show ?thesis using assms(5,6) by (simp add: failed_exit_def same_run_def)
next
  fix inputs step tls cfg se
  assume r: "run_ready env inputs step se (st\<lparr>bs_tls := tls\<rparr>) = (ex, st')"
  from run_ready_unsafe [OF assms(1) r _ assms(6,7,2,3)] assms(5)
  have u: "end_of_run out = Raised e" "ex = Exit 1"
    "logged env (tls_world tls) (S ''ToolResultSafetyInspectionFailed'') (bs_world st')" by simp_all
  moreover have "bs_cluster st' = bs_cluster st \<and> bs_requests st' = bs_requests st"
    using run_ready_ends [OF r] u(1) assms(5,6) by (auto simp: run_effect_def)
  ultimately show ?thesis by auto
qed

definition sample_batch :: "nat batch_env" where
  "sample_batch = \<lparr>be_tls = sample_tls, be_can_write = (\<lambda>_ _. True), be_list_tools = (\<lambda>_. Inr []),
     be_provider_error = (\<lambda>_. None),
     be_query = (\<lambda>_ p. ([], StreamRaises (Exn CToolResultSafetyInspectionFailed (S ''unsafe'')))),
     be_kube = no_kube, be_started_at = epoch, be_completed_at = epoch, be_trace_token = hex_pad 32 171,
     be_span_token = hex_pad 16 205, be_elapsed = S ''1.0'', be_sampled = True,
     be_tracer_error = None, be_logger_error = None\<rparr>"

definition batch_files :: "(pystr \<times> fnode) list" where
  "batch_files =
     [(S ''/input/query'', RegularFile (S ''q'')), (S ''/input/output-schema'', RegularFile (S ''{}'')),
      (S ''/input/context'', RegularFile (S ''{}'')),
      (S ''/input/result-template'',
       RegularFile ([123, 34] @ S ''kind'' @ [34, 58, 34] @ S ''AnalysisResult'' @ [34, 125]))]"

definition batch_world :: world where
  "batch_world = empty_world\<lparr>files := map_of batch_files,
     environ := map_of [(S ''ANTHROPIC_API_KEY'', S ''k''), (S ''LIGHTSPEED_MODEL'', S ''m''),
       (S ''LIGHTSPEED_AGENT_TIMEOUT_SECONDS'', S ''60''), (S ''LIGHTSPEED_AGENT_MAX_TURNS'', S ''5'')]\<rparr>"

definition sample_batch_state :: "world \<Rightarrow> nat batch_state" where
  "sample_batch_state w = \<lparr>bs_tls = \<lparr>tls_world = w, runtime_context = None\<rparr>, bs_tracer = no_tracer,
     bs_cluster = 0, bs_requests = [], bs_run = None\<rparr>"

lemma telemetry_is_torn_down_witness:
  "bs_tracer (snd (batch_main sample_batch (sample_batch_state empty_world))) = no_tracer"
  by (rule telemetry_is_torn_down) (simp_all add: sample_batch_state_def sample_batch_def)

lemma unsafe_result_stops_the_batch_witness:
  "case batch_main sample_batch (sample_batch_state batch_world) of
     (ex, st) \<Rightarrow> bs_run st \<noteq> None \<and> bs_requests st = [] \<and> ex = Exit 1"
proof -
  have ran: "case batch_main sample_batch (sample_batch_state batch_world) of (ex, st) \<Rightarrow>
      (case bs_run st of Some out \<Rightarrow> final_state out \<noteq> None | None \<Rightarrow> False)"
    by code_simp
  obtain ex st' where b: "batch_main sample_batch (sample_batch_state batch_world) = (ex, st')" by fastforce
  obtain out where o: "bs_run st' = Some out" "final_state out \<noteq> None"
    using ran unfolding b by (auto split: option.split_asm)
  have "always_unsafe sample_batch (Exn CToolResultSafetyInspectionFailed (S ''unsafe''))"
    by (simp add: always_unsafe_def sample_batch_def)
  moreover have "be_tracer_error sample_batch = None" "be_logger_error sample_batch = None"
      "bs_run (sample_batch_state batch_world) = None" "bs_requests (sample_batch_state batch_world) = []"
    by (simp_all add: sample_batch_def sample_batch_state_def)
  ultimately show ?thesis
    unfolding b prod.case using unsafe_result_stops_the_batch [OF _ _ _ b _ o] o(1) by auto
qed

end
