(* ===== verification/Packages.thy ===== *)
theory Packages
  imports PyJson Url
begin

text \<open>
  \<open>scripts/konflux_resolve.py\<close>, what the dependency resolver knows of packages: normalised names,
  requirement strings, wheel tags, index pages, and the two package indexes with their caches. The
  \<open>packaging\<close> library (PEP 440 versions, specifiers and requirements), the tokeniser of
  \<open>html.parser\<close>, TOML and the network are parameters. Proved: a normalised name is a fixed point;
  a wheel is compatible exactly when it has a target architecture; the indexes contact only the
  trusted hosts; and what the RHOAI index offers fits the target.
\<close>

section \<open>Names and requirements\<close>

definition name_sep :: "codepoint \<Rightarrow> bool" where
  "name_sep c \<longleftrightarrow> c = 45 \<or> c = 95 \<or> c = 46"

function squeeze :: "pystr \<Rightarrow> pystr" where
  "squeeze [] = []"
| "squeeze (c # s) = (if name_sep c then 45 # squeeze (dropWhile name_sep s) else c # squeeze s)"
  by pat_completeness auto
termination
  by (relation "measure length") (auto simp: length_dropWhile_le le_imp_less_Suc)

definition normalize_name :: "pystr \<Rightarrow> pystr" where
  "normalize_name name = lower (squeeze name)"

definition merge_constraints :: "pystr option \<Rightarrow> pystr \<Rightarrow> pystr" where
  "merge_constraints existing new =
     (if truthy_str existing then the existing @ S '','' @ new else new)"

definition ascii_alnum :: "codepoint \<Rightarrow> bool" where
  "ascii_alnum c \<longleftrightarrow> ascii_alpha c \<or> (48 \<le> c \<and> c \<le> 57)"

definition name_char :: "codepoint \<Rightarrow> bool" where
  "name_char c \<longleftrightarrow> ascii_alnum c \<or> name_sep c"

text \<open>\<open>[A-Za-z0-9][-A-Za-z0-9_.]*\<close> at the start of a text, and what follows it.\<close>

definition match_name :: "pystr \<Rightarrow> (pystr \<times> pystr) option" where
  "match_name s =
     (case s of [] \<Rightarrow> None
      | c # r \<Rightarrow> if ascii_alnum c then Some (takeWhile name_char s, dropWhile name_char s) else None)"

text \<open>\<open>re.sub(r"\[.*?\]", "", s)\<close>: a bracket is closed on its own line.\<close>

function drop_brackets :: "pystr \<Rightarrow> pystr" where
  "drop_brackets [] = []"
| "drop_brackets (c # s) =
     (let rest = dropWhile (\<lambda>x. x \<noteq> 93 \<and> x \<noteq> 10) s
      in if c = 91 \<and> rest \<noteq> [] \<and> hd rest = 93 then drop_brackets (tl rest)
         else c # drop_brackets s)"
  by pat_completeness auto
termination
  by (relation "measure length")
    (auto simp: less_Suc_eq_le intro: le_trans [OF diff_le_self length_dropWhile_le])

definition parse_dep_string :: "pystr \<Rightarrow> (pystr \<times> pystr \<times> pystr) result" where
  "parse_dep_string dep =
     (let (front, found, tail) = partition_at 59 dep;
          marker = (if found then strip tail else []);
          dep = drop_brackets (strip front)
      in case match_name dep of
           None \<Rightarrow> Inl (ValueError (S ''Cannot parse dependency: '' @ repr_str dep))
         | Some (name, rest) \<Rightarrow> Inr (normalize_name name, strip rest, marker))"


section \<open>Versions\<close>

text \<open>
  The \<open>packaging\<close> library. \<open>version_text v\<close> is \<open>str(Version(v))\<close>, \<open>None\<close> when \<open>v\<close> is no version;
  \<open>version_le\<close> orders versions by PEP 440; \<open>specifier_has\<close> is \<open>Version(v) in SpecifierSet(c)\<close>,
  \<open>None\<close> when \<open>c\<close> is no specifier set; a requirement has a name, a URL and its specifiers, each an
  operator and a version; \<open>clause_admits\<close> is \<open>specifier.contains(v, prereleases=True)\<close>.
\<close>

record requirement =
  rq_name :: pystr
  rq_url :: "pystr option"
  rq_specifier :: "(pystr \<times> pystr) list"

record packaging =
  version_text :: "pystr \<Rightarrow> pystr option"
  version_le :: "pystr \<Rightarrow> pystr \<Rightarrow> bool"
  specifier_has :: "pystr \<Rightarrow> pystr \<Rightarrow> bool option"
  clause_admits :: "pystr \<times> pystr \<Rightarrow> pystr \<Rightarrow> bool"
  parse_requirement :: "pystr \<Rightarrow> requirement option"

definition invalid_version :: "pystr \<Rightarrow> exn" where
  "invalid_version v = Exn (COther (S ''InvalidVersion'')) (S ''Invalid version: '' @ repr_str v)"

definition invalid_requirement :: "pystr \<Rightarrow> exn" where
  "invalid_requirement v = Exn (COther (S ''InvalidRequirement'')) v"

definition parse_version :: "packaging \<Rightarrow> pystr \<Rightarrow> pystr result" where
  "parse_version P v = (case version_text P v of None \<Rightarrow> Inl (invalid_version v) | Some t \<Rightarrow> Inr t)"

definition version_satisfies :: "packaging \<Rightarrow> pystr \<Rightarrow> pystr \<Rightarrow> bool" where
  "version_satisfies P v c =
     (let c = strip c
      in if c = [] then True
         else if version_text P v = None then False
         else specifier_has P c v = Some True)"

definition max_version :: "packaging \<Rightarrow> pystr \<Rightarrow> pystr \<Rightarrow> pystr" where
  "max_version P a b = (if version_le P b a then a else b)"

text \<open>\<open>max(candidates, key=parse_version)\<close>: the first of the greatest ones.\<close>

definition best_version :: "packaging \<Rightarrow> pystr list \<Rightarrow> pystr result" where
  "best_version P vs =
     bindE (mapE (\<lambda>v. map_sum id (\<lambda>t. (v, t)) (parse_version P v)) vs) (\<lambda>ts.
       case ts of
         [] \<Rightarrow> Inl (ValueError (S ''max() iterable argument is empty''))
       | t # ts \<Rightarrow> Inr (fst (foldl (\<lambda>a b. if version_le P (snd b) (snd a) then a else b) t ts)))"

text \<open>\<open>bump_requirement\<close>. The candidate a specifier is tested with is the requested version, or for a pin its own.\<close>

definition remove_suffix :: "pystr \<Rightarrow> pystr \<Rightarrow> pystr" where
  "remove_suffix suf s =
     (if suf \<noteq> [] \<and> length suf \<le> length s \<and> drop (length s - length suf) s = suf
      then take (length s - length suf) s else s)"

definition pin_ops :: "pystr list" where
  "pin_ops = [S ''~='', S ''=='', S ''==='']"

definition upper_ops :: "pystr list" where
  "upper_ops = [S ''<'', S ''<=''] @ pin_ops"

definition clause_candidate :: "packaging \<Rightarrow> pystr \<Rightarrow> pystr \<times> pystr \<Rightarrow> pystr result" where
  "clause_candidate P requested clause =
     (if fst clause \<in> set pin_ops
      then bindE (parse_version P (remove_suffix (S ''.*'') (snd clause)))
             (\<lambda>v. Inr (max_version P requested v))
      else Inr requested)"

definition check_clause :: "packaging \<Rightarrow> pystr \<Rightarrow> pystr \<Rightarrow> pystr \<Rightarrow> pystr \<times> pystr \<Rightarrow> unit result" where
  "check_clause P requirement_text version requested clause =
     bindE (clause_candidate P requested clause) (\<lambda>candidate.
       if fst clause \<in> set upper_ops \<and> \<not> clause_admits P clause candidate
       then Inl (ValueError (S ''Requested '' @ version @
              S '' conflicts with compatibility restriction '' @ requirement_text))
       else Inr ())"

text \<open>\<open>\s*[A-Za-z0-9][A-Za-z0-9._-]*(?:\s*\[[^\]]*\])?\<close> at the start: the matched text and the rest.\<close>

definition match_extras :: "pystr \<Rightarrow> pystr \<times> pystr" where
  "match_extras s =
     (let blanks = takeWhile is_space s; r = dropWhile is_space s
      in case r of
           [] \<Rightarrow> ([], s)
         | c # body \<Rightarrow>
             let inner = takeWhile (\<lambda>x. x \<noteq> 93) body; rest = dropWhile (\<lambda>x. x \<noteq> 93) body
             in if c = 91 \<and> rest \<noteq> [] then (blanks @ c # inner @ [93], tl rest) else ([], s))"

definition match_head :: "pystr \<Rightarrow> (pystr \<times> pystr) option" where
  "match_head s =
     (let blanks = takeWhile is_space s
      in case match_name (dropWhile is_space s) of
           None \<Rightarrow> None
         | Some (name, rest) \<Rightarrow>
             let (extras, rest') = match_extras rest in Some (blanks @ name @ extras, rest'))"

definition strip_chars :: "codepoint set \<Rightarrow> pystr \<Rightarrow> pystr" where
  "strip_chars cs s = rev (dropWhile (\<lambda>c. c \<in> cs) (rev (dropWhile (\<lambda>c. c \<in> cs) s)))"

definition requirement_clauses :: "pystr \<Rightarrow> pystr list" where
  "requirement_clauses tail =
     filter (\<lambda>p. p \<noteq> []) (map strip (split_on 44 (strip_chars {40, 41} (strip tail))))"

definition is_floor :: "pystr \<Rightarrow> bool" where
  "is_floor clause \<longleftrightarrow> starts_with clause (S ''>='')"

fun raise_floor :: "packaging \<Rightarrow> pystr \<Rightarrow> pystr list \<Rightarrow> pystr result" where
  "raise_floor P acc [] = Inr acc"
| "raise_floor P acc (c # cs) =
     (if is_floor c
      then bindE (parse_version P (strip (drop 2 c))) (\<lambda>v. raise_floor P (max_version P acc v) cs)
      else raise_floor P acc cs)"

definition bump_requirement :: "packaging \<Rightarrow> pystr \<Rightarrow> pystr \<Rightarrow> pystr result" where
  "bump_requirement P requirement_text version =
     (case parse_requirement P requirement_text of
        None \<Rightarrow> Inl (invalid_requirement requirement_text)
      | Some r \<Rightarrow>
          bindE (parse_version P version) (\<lambda>requested.
          if truthy_str (rq_url r)
          then Inl (ValueError (S ''Cannot update direct-URL requirement: '' @ rq_name r))
          else
            bindE (mapE (check_clause P requirement_text version requested) (rq_specifier r)) (\<lambda>_.
            case match_head requirement_text of
              None \<Rightarrow> Inl (Exn CAssertionError [])
            | Some (front, rest) \<Rightarrow>
                let (tail, found, marker) = partition_at 59 rest;
                    clauses = requirement_clauses tail
                in bindE (raise_floor P requested clauses) (\<lambda>floor.
                   Inr (front @ join (S '','') ((S ''>='' @ floor) # filter (\<lambda>c. \<not> is_floor c) clauses)
                     @ (if found then S '';'' else []) @ marker)))))"



section \<open>Wheel tags\<close>

definition find_suffix :: "pystr \<Rightarrow> pystr \<Rightarrow> bool" where
  "find_suffix s suf \<longleftrightarrow> length suf \<le> length s \<and> drop (length s - length suf) s = suf"

definition tag_version :: "pystr \<Rightarrow> (int \<times> int) option" where
  "tag_version digits =
     (case digits of
        [] \<Rightarrow> None
      | d # ds \<Rightarrow>
          (case py_int [d] of
             None \<Rightarrow> None
           | Some major \<Rightarrow>
               if ds = [] then Some (major, 0)
               else map_option (\<lambda>minor. (major, minor)) (py_int ds)))"

definition at_most :: "int \<times> int \<Rightarrow> int \<times> int \<Rightarrow> bool" where
  "at_most v w \<longleftrightarrow> fst v < fst w \<or> (fst v = fst w \<and> snd v \<le> snd w)"

definition abi3_compatible :: "pystr \<Rightarrow> int \<times> int \<Rightarrow> bool" where
  "abi3_compatible python_tag target \<longleftrightarrow>
     (\<exists>sub \<in> set (split_on 46 python_tag).
        starts_with sub (S ''cp'') \<and> 3 \<le> length sub \<and>
        (case tag_version (drop 2 sub) of None \<Rightarrow> False | Some v \<Rightarrow> at_most v target))"

text \<open>\<open>target_python.split(".")\<close>, unpacked into two texts and read as integers.\<close>

definition target_version :: "pystr \<Rightarrow> (pystr \<times> pystr \<times> int \<times> int) result" where
  "target_version t =
     (case split_on 46 t of
        [major, minor] \<Rightarrow>
          (case (py_int major, py_int minor) of
             (Some a, Some b) \<Rightarrow> Inr (major, minor, a, b)
           | _ \<Rightarrow> Inl (ValueError (S ''invalid literal for int() with base 10'')))
      | _ \<Rightarrow> Inl (ValueError (S ''wrong number of values to unpack (expected 2)'')))"

definition compatible_tags :: "pystr \<Rightarrow> pystr \<Rightarrow> pystr list" where
  "compatible_tags major minor =
     [S ''cp'' @ major @ minor, S ''cp'' @ major, S ''py'' @ major, S ''py'' @ major @ minor]"

definition universal :: "pystr \<Rightarrow> bool" where
  "universal platform_tag \<longleftrightarrow> lower platform_tag \<in> {S ''any'', S ''none''}"

definition arch_of :: "pystr \<Rightarrow> pystr" where
  "arch_of target = (let (_, found, rest) = partition_at 95 target in if found then rest else target)"

definition sub_tag_fits :: "pystr \<Rightarrow> pystr \<Rightarrow> bool" where
  "sub_tag_fits target sub \<longleftrightarrow> sub = target \<or> find_suffix sub (S ''_'' @ arch_of target)"

definition python_fits :: "pystr \<Rightarrow> pystr \<Rightarrow> pystr \<Rightarrow> pystr \<Rightarrow> int \<times> int \<Rightarrow> bool" where
  "python_fits python_tag abi_tag major minor target \<longleftrightarrow>
     (\<exists>sub \<in> set (split_on 46 python_tag). sub \<in> set (compatible_tags major minor)) \<or>
     (abi_tag \<noteq> [] \<and> S ''abi3'' \<in> set (split_on 46 abi_tag) \<and> abi3_compatible python_tag target)"

definition is_wheel_compatible ::
    "pystr \<Rightarrow> pystr \<Rightarrow> pystr \<Rightarrow> pystr list \<Rightarrow> pystr \<Rightarrow> bool result" where
  "is_wheel_compatible python_tag platform_tag target_python target_platforms abi_tag =
     bindE (target_version target_python) (\<lambda>(major, minor, a, b). Inr
       (if \<not> python_fits python_tag abi_tag major minor (a, b) then False
        else if universal platform_tag then True
        else \<exists>target \<in> set target_platforms. \<exists>sub \<in> set (split_on 46 platform_tag).
               sub_tag_fits target sub))"

definition match_arch :: "pystr \<Rightarrow> pystr list \<Rightarrow> pystr option" where
  "match_arch platform_tag target_platforms =
     (if universal platform_tag then Some (S ''any'')
      else find (\<lambda>target. \<exists>sub \<in> set (split_on 46 platform_tag). sub_tag_fits target sub)
             target_platforms)"


section \<open>Index pages\<close>

text \<open>
  Regular expressions with backtracking: a matcher returns the ways to match a prefix, each with the
  rest of the text, in the order in which Python's engine tries them; the first complete one wins.
\<close>

type_synonym matcher = "pystr \<Rightarrow> (pystr \<times> pystr) list"

definition one_char :: "(codepoint \<Rightarrow> bool) \<Rightarrow> matcher" where
  "one_char P s = (case s of [] \<Rightarrow> [] | c # r \<Rightarrow> if P c then [([c], r)] else [])"

definition this_text :: "pystr \<Rightarrow> matcher" where
  "this_text t s = (if starts_with s t then [(t, drop (length t) s)] else [])"

definition many_lazy :: "(codepoint \<Rightarrow> bool) \<Rightarrow> matcher" where
  "many_lazy P s = map (\<lambda>n. (take n s, drop n s)) [0..<Suc (length (takeWhile P s))]"

definition many_greedy :: "(codepoint \<Rightarrow> bool) \<Rightarrow> matcher" where
  "many_greedy P s = rev (many_lazy P s)"

definition then_match :: "matcher \<Rightarrow> matcher \<Rightarrow> matcher" where
  "then_match a b s = concat (map (\<lambda>(x, r). map (\<lambda>(y, t). (x @ y, t)) (b r)) (a s))"

definition or_match :: "matcher \<Rightarrow> matcher \<Rightarrow> matcher" where
  "or_match a b s = a s @ b s"

definition no_text :: matcher where
  "no_text s = [([], s)]"

text \<open>\<open>$\<close>: the end, or a last line break before it.\<close>

definition at_end :: "pystr \<Rightarrow> bool" where
  "at_end s \<longleftrightarrow> s = [] \<or> s = [10]"

definition digit_char :: "codepoint \<Rightarrow> bool" where
  "digit_char c \<longleftrightarrow> decimal_digit c \<noteq> None"

definition tag_char :: "codepoint \<Rightarrow> bool" where
  "tag_char c \<longleftrightarrow> ascii_alnum c \<or> c = 95 \<or> c = 46"

definition file_name_part :: matcher where
  "file_name_part = then_match (one_char ascii_alnum) (many_lazy name_char)"

definition wheel_version_part :: matcher where
  "wheel_version_part = then_match (one_char digit_char) (many_lazy (\<lambda>c. tag_char c \<or> c = 43))"

definition build_part :: matcher where
  "build_part =
     or_match (then_match (this_text (S ''-''))
         (or_match (then_match (one_char digit_char) (many_greedy tag_char)) no_text)) no_text"

definition tag_part :: matcher where
  "tag_part = then_match (one_char tag_char) (many_greedy tag_char)"

record wheel_tags =
  wt_version :: pystr
  wt_python :: pystr
  wt_abi :: pystr
  wt_platform :: pystr

definition after_dash :: "pystr \<Rightarrow> pystr list" where
  "after_dash s = map snd (this_text (S ''-'') s)"

definition wheel_matches :: "pystr \<Rightarrow> wheel_tags list" where
  "wheel_matches filename =
     [\<lparr>wt_version = v, wt_python = py, wt_abi = ab, wt_platform = pl\<rparr>.
        (_, r1) \<leftarrow> file_name_part filename, r2 \<leftarrow> after_dash r1,
        (v, r3) \<leftarrow> wheel_version_part r2, (_, r4) \<leftarrow> build_part r3, r5 \<leftarrow> after_dash r4,
        (py, r6) \<leftarrow> tag_part r5, r7 \<leftarrow> after_dash r6,
        (ab, r8) \<leftarrow> tag_part r7, r9 \<leftarrow> after_dash r8,
        (pl, r10) \<leftarrow> tag_part r9, (_, r11) \<leftarrow> this_text (S ''.whl'') r10, at_end r11]"

definition sdist_matches :: "pystr \<Rightarrow> pystr list" where
  "sdist_matches filename =
     [v. (_, r1) \<leftarrow> file_name_part filename, r2 \<leftarrow> after_dash r1,
         (v, r3) \<leftarrow> then_match (one_char digit_char) (many_greedy tag_char) r2,
         (_, r4) \<leftarrow> or_match (this_text (S ''.tar.gz'')) (this_text (S ''.zip'')) r3, at_end r4]"

definition first_match :: "'a list \<Rightarrow> 'a option" where
  "first_match ms = (case ms of [] \<Rightarrow> None | m # _ \<Rightarrow> Some m)"

lemma wheel_match_examples:
  "first_match (wheel_matches (S ''foo_bar-1.2.3-cp312-abi3-manylinux_2_17_x86_64.whl'')) =
     Some \<lparr>wt_version = S ''1.2.3'', wt_python = S ''cp312'', wt_abi = S ''abi3'',
       wt_platform = S ''manylinux_2_17_x86_64''\<rparr>"
  "first_match (wheel_matches (S ''a-1-2-py3-none-any.whl'')) =
     Some \<lparr>wt_version = S ''1'', wt_python = S ''py3'', wt_abi = S ''none'', wt_platform = S ''any''\<rparr>"
  "first_match (sdist_matches (S ''foo-bar-1.2.3.tar.gz'')) = Some (S ''1.2.3'')"
  by code_simp+

text \<open>
  \<open>_LinkCollector\<close>. The tokeniser of \<open>html.parser\<close> is a parameter: the calls that feeding a page to
  it makes, in order.
\<close>

datatype html_event =
    StartTag pystr "(pystr \<times> pystr option) list"
  | HtmlData pystr
  | EndTag pystr

record link_collector =
  lc_hrefs :: "pystr list"
  lc_texts :: "pystr list"
  lc_in_a :: bool
  lc_link_texts :: "pystr list"

definition new_collector :: link_collector where
  "new_collector = \<lparr>lc_hrefs = [], lc_texts = [], lc_in_a = False, lc_link_texts = []\<rparr>"

definition href_values :: "(pystr \<times> pystr option) list \<Rightarrow> pystr list" where
  "href_values attrs = List.map_filter (\<lambda>(k, v). if k = S ''href'' then v else None) attrs"

fun handle_html :: "html_event \<Rightarrow> link_collector \<Rightarrow> link_collector" where
  "handle_html (StartTag tag attrs) c =
     (if tag = S ''a''
      then c\<lparr>lc_hrefs := lc_hrefs c @ href_values attrs, lc_in_a := True, lc_texts := []\<rparr> else c)"
| "handle_html (HtmlData t) c = (if lc_in_a c then c\<lparr>lc_texts := lc_texts c @ [t]\<rparr> else c)"
| "handle_html (EndTag tag) c =
     (if tag = S ''a'' \<and> lc_in_a c
      then c\<lparr>lc_link_texts := lc_link_texts c @ [strip (concat (lc_texts c))], lc_in_a := False\<rparr>
      else c)"

definition collect_links :: "html_event list \<Rightarrow> link_collector" where
  "collect_links events = fold handle_html events new_collector"

text \<open>The text after the first occurrence of another.\<close>

fun after_text :: "pystr \<Rightarrow> pystr \<Rightarrow> pystr option" where
  "after_text sep [] = (if sep = [] then Some [] else None)"
| "after_text sep (c # s) =
     (if starts_with (c # s) sep then Some (drop (length sep) (c # s)) else after_text sep s)"

definition occurs_in :: "pystr \<Rightarrow> pystr \<Rightarrow> bool" where
  "occurs_in sub s \<longleftrightarrow> after_text sub s \<noteq> None"

text \<open>An entry of a package page; the wheel's tags, or \<open>None\<close> for a source distribution.\<close>

record index_entry =
  en_filename :: pystr
  en_sha256 :: pystr
  en_version :: pystr
  en_wheel :: "wheel_tags option"

definition link_entry :: "pystr \<times> pystr \<Rightarrow> index_entry option" where
  "link_entry link =
     (let (href, link_text) = link;
          filename = (if strip link_text = [] then fst (partition_at 35 (after_last 47 href))
                      else strip link_text);
          sha = (case after_text (S ''#sha256='') href of None \<Rightarrow> [] | Some t \<Rightarrow> t)
      in case first_match (wheel_matches filename) of
           Some tags \<Rightarrow> Some \<lparr>en_filename = filename, en_sha256 = sha,
                              en_version = wt_version tags, en_wheel = Some tags\<rparr>
         | None \<Rightarrow>
             map_option (\<lambda>v. \<lparr>en_filename = filename, en_sha256 = sha, en_version = v, en_wheel = None\<rparr>)
               (first_match (sdist_matches filename)))"

definition parse_root :: "html_event list \<Rightarrow> pystr list" where
  "parse_root events = lc_link_texts (collect_links events)"

definition parse_package_page :: "html_event list \<Rightarrow> index_entry list" where
  "parse_package_page events =
     (let c = collect_links events
      in List.map_filter link_entry (zip (lc_hrefs c) (lc_link_texts c)))"


section \<open>The network\<close>

text \<open>
  \<open>http_get\<close> is \<open>opener.open(url, timeout=30).read().decode()\<close> with an opener that follows no redirect;
  its errors are the \<open>Exception\<close>s of the call. \<open>nap\<close> is \<open>time.sleep\<close>.
\<close>

record 'n web =
  http_get :: "pystr \<Rightarrow> 'n \<Rightarrow> 'n \<times> pystr result"
  nap :: "nat \<Rightarrow> 'n \<Rightarrow> 'n"
  html_events :: "pystr \<Rightarrow> html_event list"
  pep :: packaging
  url_world :: world

fun fetch_attempts :: "'n web \<Rightarrow> pystr \<Rightarrow> nat list \<Rightarrow> 'n \<Rightarrow> 'n \<times> pystr result" where
  "fetch_attempts web url [] n =
     (n, Inl (Exn CRuntimeError (S ''Failed to fetch '' @ url @ S '' after 3 attempts'')))"
| "fetch_attempts web url (k # ks) n =
     (case http_get web url n of
        (n', Inr page) \<Rightarrow> (n', Inr page)
      | (n', Inl _) \<Rightarrow> fetch_attempts web url ks (nap web (2 ^ k) n'))"

definition fetch_with_retry :: "'n web \<Rightarrow> pystr \<Rightarrow> 'n \<Rightarrow> 'n \<times> pystr result" where
  "fetch_with_retry web url n = fetch_attempts web url [0, 1, 2] n"

definition whole_match :: "matcher \<Rightarrow> pystr \<Rightarrow> bool" where
  "whole_match m s \<longleftrightarrow> (\<exists>(x, r) \<in> set (m s). r = [])"

definition seq_match :: "matcher list \<Rightarrow> matcher" where
  "seq_match ms = foldr then_match ms no_text"

definition digits_part :: matcher where
  "digits_part = then_match (one_char digit_char) (many_greedy digit_char)"

definition index_path :: matcher where
  "index_path = seq_match [this_text (S ''/api/pypi/public-rhai/rhoai/''), digits_part,
     this_text (S ''.''), digits_part, this_text (S ''/''),
     or_match (this_text (S ''cpu'')) (this_text (S ''cuda'')), this_text (S ''-ubi9/simple/'')]"

text \<open>A URL on a host over HTTPS without query or fragment; the path, if the host is the given one.\<close>

definition https_path :: "world \<Rightarrow> pystr \<Rightarrow> pystr \<Rightarrow> pystr option result" where
  "https_path w host url =
     bindE (urlsplit w url) (\<lambda>u.
       let (path, query, fragment) = url_tail url
       in Inr (if url_scheme u = S ''https'' \<and> url_netloc u = host \<and> query = [] \<and> fragment = []
               then Some path else None))"


section \<open>The RHOAI index\<close>

type_synonym platform_files = "(pystr \<times> pystr) dict"

record rhoai_index =
  ri_url :: pystr
  ri_python :: pystr
  ri_platforms :: "pystr list"
  ri_known :: "pystr list"
  ri_packages :: "platform_files dict dict"

record rhoai_match =
  rm_version :: pystr
  rm_platforms :: platform_files

definition rhoai_host :: pystr where
  "rhoai_host = S ''packages.redhat.com''"

definition new_rhoai :: "world \<Rightarrow> pystr \<Rightarrow> pystr \<Rightarrow> pystr list \<Rightarrow> rhoai_index result" where
  "new_rhoai w index_url python platforms =
     bindE (https_path w rhoai_host (rstrip_char 47 index_url @ S ''/'')) (\<lambda>found.
       case found of
         Some path \<Rightarrow>
           if whole_match index_path path
           then Inr \<lparr>ri_url = S ''https://'' @ rhoai_host @ path, ri_python = python,
                      ri_platforms = platforms, ri_known = [], ri_packages = []\<rparr>
           else Inl (ValueError (S ''Untrusted RHOAI index URL: '' @ index_url))
       | None \<Rightarrow> Inl (ValueError (S ''Untrusted RHOAI index URL: '' @ index_url)))"

definition page_char :: "codepoint \<Rightarrow> bool" where
  "page_char c \<longleftrightarrow> (97 \<le> c \<and> c \<le> 122) \<or> (48 \<le> c \<and> c \<le> 57)"

definition page_name :: "pystr \<Rightarrow> bool" where
  "page_name s \<longleftrightarrow>
     s \<noteq> [] \<and> page_char (hd s) \<and> page_char (last s) \<and> (\<forall>c \<in> set s. page_char c \<or> c = 45)"

definition rhoai_trusts :: "pystr \<Rightarrow> pystr \<Rightarrow> bool" where
  "rhoai_trusts index url \<longleftrightarrow>
     url = index \<or>
     (starts_with url index \<and>
      (let suffix = drop (length index) url
       in suffix \<noteq> [] \<and> last suffix = 47 \<and> page_name (butlast suffix)))"

definition rhoai_fetch :: "'n web \<Rightarrow> rhoai_index \<Rightarrow> pystr \<Rightarrow> 'n \<Rightarrow> 'n \<times> pystr result" where
  "rhoai_fetch web idx url n =
     (if rhoai_trusts (ri_url idx) url then fetch_with_retry web url n
      else (n, Inl (ValueError (S ''Untrusted RHOAI package URL: '' @ url))))"

definition rhoai_load :: "'n web \<Rightarrow> rhoai_index \<times> 'n \<Rightarrow> (rhoai_index \<times> 'n) \<times> unit result" where
  "rhoai_load web s =
     (let (idx, n) = s
      in case rhoai_fetch web idx (ri_url idx) n of
           (n', Inl e) \<Rightarrow> ((idx, n'), Inl e)
         | (n', Inr page) \<Rightarrow>
             ((idx\<lparr>ri_known := remdups (map normalize_name (parse_root (html_events web page)))\<rparr>, n'),
              Inr ()))"

definition target_platforms :: "rhoai_index \<Rightarrow> pystr list" where
  "target_platforms idx = map (\<lambda>p. S ''linux_'' @ p) (ri_platforms idx)"

definition add_wheel ::
    "rhoai_index \<Rightarrow> index_entry \<Rightarrow> platform_files dict \<Rightarrow> platform_files dict result" where
  "add_wheel idx entry versions =
     (case en_wheel entry of
        None \<Rightarrow> Inr versions
      | Some tags \<Rightarrow>
          bindE (is_wheel_compatible (wt_python tags) (wt_platform tags) (ri_python idx)
              (target_platforms idx) (wt_abi tags)) (\<lambda>compatible.
          if \<not> compatible then Inr versions
          else
            let found = (case dget versions (en_version entry) of None \<Rightarrow> [] | Some fs \<Rightarrow> fs)
            in Inr (dset versions (en_version entry)
                 (case match_arch (wt_platform tags) (target_platforms idx) of
                    None \<Rightarrow> found
                  | Some arch \<Rightarrow> dset found arch (en_filename entry, en_sha256 entry)))))"

fun add_wheels ::
    "rhoai_index \<Rightarrow> index_entry list \<Rightarrow> platform_files dict \<Rightarrow> platform_files dict result" where
  "add_wheels idx [] versions = Inr versions"
| "add_wheels idx (e # es) versions =
     bindE (add_wheel idx e versions) (\<lambda>versions'. add_wheels idx es versions')"

definition ensure_loaded ::
    "'n web \<Rightarrow> pystr \<Rightarrow> rhoai_index \<times> 'n \<Rightarrow> (rhoai_index \<times> 'n) \<times> unit result" where
  "ensure_loaded web name s =
     (let (idx, n) = s; norm = normalize_name name
      in if has_key (ri_packages idx) norm \<or> norm \<notin> set (ri_known idx) then (s, Inr ())
         else case rhoai_fetch web idx (ri_url idx @ norm @ S ''/'') n of
                (n', Inl _) \<Rightarrow> ((idx, n'), Inr ())
              | (n', Inr page) \<Rightarrow>
                  (case add_wheels idx (parse_package_page (html_events web page)) [] of
                     Inl e \<Rightarrow> ((idx, n'), Inl e)
                   | Inr versions \<Rightarrow>
                       ((if versions = [] then idx
                         else idx\<lparr>ri_packages := dset (ri_packages idx) norm versions\<rparr>, n'), Inr ())))"

definition rhoai_invalidate :: "pystr \<Rightarrow> rhoai_index \<Rightarrow> rhoai_index" where
  "rhoai_invalidate name idx = idx\<lparr>ri_packages := ddel (ri_packages idx) (normalize_name name)\<rparr>"

definition rhoai_has :: "rhoai_index \<Rightarrow> pystr \<Rightarrow> bool" where
  "rhoai_has idx name \<longleftrightarrow> normalize_name name \<in> set (ri_known idx)"

definition rhoai_lookup :: "packaging \<Rightarrow> rhoai_index \<Rightarrow> pystr \<Rightarrow> pystr \<Rightarrow> rhoai_match option result" where
  "rhoai_lookup P idx norm constraint =
     (case dget (ri_packages idx) norm of
        None \<Rightarrow> Inr None
      | Some versions \<Rightarrow>
          (case filter (\<lambda>v. version_satisfies P v constraint) (map fst versions) of
             [] \<Rightarrow> Inr None
           | candidates \<Rightarrow>
               bindE (best_version P candidates) (\<lambda>best.
                 Inr (Some \<lparr>rm_version = best, rm_platforms = the (dget versions best)\<rparr>))))"

definition rhoai_find_best ::
    "'n web \<Rightarrow> pystr \<Rightarrow> pystr \<Rightarrow> rhoai_index \<times> 'n \<Rightarrow> (rhoai_index \<times> 'n) \<times> rhoai_match option result" where
  "rhoai_find_best web name constraint s =
     (let norm = normalize_name name
      in case ensure_loaded web norm s of
           (s', Inl e) \<Rightarrow> (s', Inl e)
         | (s', Inr _) \<Rightarrow> (s', rhoai_lookup (pep web) (fst s') norm constraint))"

section \<open>Markers\<close>

text \<open>\<open>re.split(r"\s+w\s+", s)\<close> for a word \<open>w\<close>.\<close>

definition after_word :: "pystr \<Rightarrow> pystr \<Rightarrow> pystr option" where
  "after_word w s =
     (let r = dropWhile is_space s; r' = drop (length w) r
      in if s \<noteq> [] \<and> is_space (hd s) \<and> starts_with r w \<and> r' \<noteq> [] \<and> is_space (hd r')
         then Some (dropWhile is_space r') else None)"

lemma after_word_shorter: "after_word w s = Some r \<Longrightarrow> length r < length s"
proof -
  assume a: "after_word w s = Some r"
  let ?r = "dropWhile is_space s" and ?r' = "drop (length w) (dropWhile is_space s)"
  have r: "r = dropWhile is_space ?r'" and s: "s \<noteq> []" "is_space (hd s)"
    using a by (auto simp: after_word_def Let_def split: if_splits)
  have "length r \<le> length ?r'" unfolding r by (rule length_dropWhile_le)
  also have "\<dots> \<le> length ?r" by simp
  also have "\<dots> < length s" using s by (cases s) (auto simp: length_dropWhile_le less_Suc_eq_le)
  finally show ?thesis .
qed

function split_word :: "pystr \<Rightarrow> pystr \<Rightarrow> pystr list" where
  "split_word w [] = [[]]"
| "split_word w (c # s) =
     (case after_word w (c # s) of
        Some r \<Rightarrow> [] # split_word w r
      | None \<Rightarrow> (case split_word w s of [] \<Rightarrow> [[c]] | p # ps \<Rightarrow> (c # p) # ps))"
  by pat_completeness auto
termination
  by (relation "measure (\<lambda>(w, s). length s)") (auto dest: after_word_shorter)

definition quoted :: "codepoint \<Rightarrow> matcher" where
  "quoted q = then_match (this_text [q]) (then_match (many_greedy (\<lambda>c. c \<noteq> q)) (this_text [q]))"

definition marker_operand :: matcher where
  "marker_operand =
     or_match (then_match (one_char (\<lambda>c. ascii_alpha c \<or> c = 95)) (many_greedy tag_char))
       (or_match (quoted 39) (quoted 34))"

definition blanks :: matcher where
  "blanks = many_greedy is_space"

definition marker_operator :: matcher where
  "marker_operator =
     foldr or_match (map this_text [S ''~='', S ''==='', S ''=='', S ''!='', S ''>='', S ''<='', S ''>'', S ''<''])
       (or_match (seq_match [this_text (S ''not''), one_char is_space, blanks, this_text (S ''in'')])
          (this_text (S ''in'')))"

definition marker_matches :: "pystr \<Rightarrow> (pystr \<times> pystr \<times> pystr) list" where
  "marker_matches expr =
     [(l, op, r). (_, r1) \<leftarrow> blanks expr, (l, r2) \<leftarrow> marker_operand r1, (_, r3) \<leftarrow> blanks r2,
        (op, r4) \<leftarrow> marker_operator r3, (_, r5) \<leftarrow> blanks r4, (r, r6) \<leftarrow> marker_operand r5,
        (_, r7) \<leftarrow> blanks r6, at_end r7]"

fun one_blank :: "pystr \<Rightarrow> pystr" where
  "one_blank [] = []"
| "one_blank (c # s) =
     (if is_space c \<and> s \<noteq> [] \<and> is_space (hd s) then one_blank s
      else (if is_space c then 32 else c) # one_blank s)"

definition compare_marker :: "pystr \<Rightarrow> pystr \<Rightarrow> pystr \<Rightarrow> bool" where
  "compare_marker op l r =
     (if op = S ''=='' then l = r
      else if op = S ''!='' then l \<noteq> r
      else if op = S ''>='' then r \<le> l
      else if op = S ''<='' then l \<le> r
      else if op = S ''>'' then r < l
      else if op = S ''<'' then l < r
      else if op = S ''in'' then occurs_in l r
      else if op = S ''not in'' then \<not> occurs_in l r
      else True)"

definition marker_env :: "pystr \<Rightarrow> pystr dict" where
  "marker_env python_version =
     [(S ''sys_platform'', S ''linux''), (S ''os_name'', S ''posix''), (S ''platform_system'', S ''Linux''),
      (S ''implementation_name'', S ''cpython''), (S ''python_version'', python_version)]"

definition eval_single_marker :: "pystr dict \<Rightarrow> pystr \<Rightarrow> bool" where
  "eval_single_marker env expr =
     (case first_match (marker_matches expr) of
        None \<Rightarrow> True
      | Some (l, op, r) \<Rightarrow>
          let l = strip_chars {39, 34} l; r = strip_chars {39, 34} r; op = one_blank op
          in case dget env l of
               Some v \<Rightarrow> compare_marker op v r
             | None \<Rightarrow> (case dget env r of Some v \<Rightarrow> compare_marker op l v | None \<Rightarrow> True))"

definition eval_marker :: "pystr \<Rightarrow> pystr \<Rightarrow> bool" where
  "eval_marker marker python_version =
     (let m = strip marker
      in m = [] \<or>
         (\<exists>or_part \<in> set (split_word (S ''or'') m). \<forall>expr \<in> set (split_word (S ''and'') or_part).
            eval_single_marker (marker_env python_version) (strip expr)))"

text \<open>Versions are compared as texts: under Python 3.12 a floor of 3.9 counts as unmet.\<close>

lemma marker_examples:
  "\<not> eval_marker (S ''python_version >= \"3.9\"'') (S ''3.12'')"
  "eval_marker (S ''python_version >= \"3.10\" and sys_platform == \"linux\"'') (S ''3.12'')"
  "\<not> eval_marker (S ''os_name not  in \"posix nt\" or \"win\" in sys_platform'') (S ''3.12'')"
  by code_simp+


section \<open>The PyPI client\<close>

record release =
  has_sdist :: bool
  sdist_hashes :: "pystr list"
  wheel_hashes :: "pystr list"
  wheel_files :: "pystr list"

record pypi_client =
  pc_python :: pystr
  pc_platforms :: "pystr list"
  pc_info :: "release dict dict"
  pc_requires :: "(pystr \<times> pystr) list dict"

definition new_pypi :: "pystr \<Rightarrow> pystr list \<Rightarrow> pypi_client" where
  "new_pypi python platforms =
     \<lparr>pc_python = python, pc_platforms = platforms, pc_info = [], pc_requires = []\<rparr>"

definition pypi_host :: pystr where
  "pypi_host = S ''pypi.org''"

definition page_segment :: matcher where
  "page_segment = then_match (one_char page_char) (many_greedy (\<lambda>c. page_char c \<or> c = 45))"

definition pypi_path :: matcher where
  "pypi_path =
     then_match (this_text (S ''/''))
       (or_match (seq_match [this_text (S ''simple/''), page_segment, this_text (S ''/'')])
         (seq_match [this_text (S ''pypi/''), page_segment, this_text (S ''/''),
            one_char (\<lambda>c. c \<noteq> 47), many_greedy (\<lambda>c. c \<noteq> 47), this_text (S ''/json'')]))"

definition pypi_fetch :: "'n web \<Rightarrow> pystr \<Rightarrow> 'n \<Rightarrow> 'n \<times> pystr result" where
  "pypi_fetch web url n =
     (case https_path (url_world web) pypi_host url of
        Inl e \<Rightarrow> (n, Inl e)
      | Inr (Some path) \<Rightarrow>
          if whole_match pypi_path path then fetch_with_retry web url n
          else (n, Inl (ValueError (S ''Untrusted PyPI URL: '' @ url)))
      | Inr None \<Rightarrow> (n, Inl (ValueError (S ''Untrusted PyPI URL: '' @ url))))"

definition empty_release :: release where
  "empty_release = \<lparr>has_sdist = False, sdist_hashes = [], wheel_hashes = [], wheel_files = []\<rparr>"

definition with_hash :: "pystr \<Rightarrow> pystr list \<Rightarrow> pystr list" where
  "with_hash sha hs = (if sha = [] then hs else hs @ [sha])"

definition add_file :: "index_entry \<Rightarrow> release \<Rightarrow> release" where
  "add_file e r =
     (if en_wheel e \<noteq> None
      then r\<lparr>wheel_hashes := with_hash (en_sha256 e) (wheel_hashes r),
             wheel_files := wheel_files r @ [en_filename e]\<rparr>
      else r\<lparr>has_sdist := True, sdist_hashes := with_hash (en_sha256 e) (sdist_hashes r)\<rparr>)"

definition add_release :: "index_entry \<Rightarrow> release dict \<Rightarrow> release dict" where
  "add_release e info =
     dset info (en_version e)
       (add_file e (case dget info (en_version e) of None \<Rightarrow> empty_release | Some r \<Rightarrow> r))"

definition get_package_info ::
    "'n web \<Rightarrow> pystr \<Rightarrow> pypi_client \<times> 'n \<Rightarrow> (pypi_client \<times> 'n) \<times> release dict result" where
  "get_package_info web name s =
     (let (pc, n) = s; norm = normalize_name name
      in case dget (pc_info pc) norm of
           Some info \<Rightarrow> (s, Inr info)
         | None \<Rightarrow>
             (case pypi_fetch web (S ''https://'' @ pypi_host @ S ''/simple/'' @ norm @ S ''/'') n of
                (n', Inl e) \<Rightarrow> ((pc, n'), Inl e)
              | (n', Inr page) \<Rightarrow>
                  let info = fold add_release (parse_package_page (html_events web page)) []
                  in ((pc\<lparr>pc_info := dset (pc_info pc) norm info\<rparr>, n'), Inr info)))"

definition py_get :: "pyval \<Rightarrow> string \<Rightarrow> pyval \<Rightarrow> pyval result" where
  "py_get v k dflt =
     (case v of
        PDict d \<Rightarrow> Inr (case dget d (S k) of None \<Rightarrow> dflt | Some x \<Rightarrow> x)
      | _ \<Rightarrow> Inl (Exn CAttributeError (type_name v @ S '' object has no attribute get'')))"

text \<open>Of an entry that is no text, \<open>in\<close> or \<open>split\<close> already fails.\<close>

definition dep_text :: "pyval \<Rightarrow> pystr result" where
  "dep_text v =
     (case v of
        PStr t \<Rightarrow> Inr t
      | PList _ \<Rightarrow> Inl (Exn CAttributeError (S ''list''))
      | PDict _ \<Rightarrow> Inl (Exn CAttributeError (S ''dict''))
      | _ \<Rightarrow> Inl (TypeError (type_name v @ S '' is not iterable'')))"

definition for_extra :: "pystr \<Rightarrow> bool" where
  "for_extra marker \<longleftrightarrow>
     occurs_in (S ''extra=='') (filter (\<lambda>c. c \<noteq> 32) marker) \<or> occurs_in (S ''extra =='') marker"

definition target_dep :: "pystr \<Rightarrow> pyval \<Rightarrow> (pystr \<times> pystr) option result" where
  "target_dep python v =
     bindE (dep_text v) (\<lambda>t. bindE (parse_dep_string t) (\<lambda>(name, spec, marker). Inr
       (if marker \<noteq> [] \<and> (for_extra marker \<or> \<not> eval_marker marker python) then None
        else Some (name, spec))))"

definition requires_of :: "pystr \<Rightarrow> pystr \<Rightarrow> (pystr \<times> pystr) list result" where
  "requires_of python page =
     bindE (json_loads page) (\<lambda>data.
     bindE (py_get data ''info'' (PDict [])) (\<lambda>info.
     bindE (py_get info ''requires_dist'' PNone) (\<lambda>v.
     bindE (py_iter (if truthy v then v else PList [])) (\<lambda>deps.
     bindE (mapE (target_dep python) deps) (\<lambda>found. Inr (List.map_filter id found))))))"

definition get_requires_dist ::
    "'n web \<Rightarrow> pystr \<Rightarrow> pystr \<Rightarrow> pypi_client \<times> 'n \<Rightarrow>
     (pypi_client \<times> 'n) \<times> (pystr \<times> pystr) list result" where
  "get_requires_dist web name version s =
     (let (pc, n) = s; key = normalize_name name @ S ''=='' @ version
      in case dget (pc_requires pc) key of
           Some deps \<Rightarrow> (s, Inr deps)
         | None \<Rightarrow>
             (case pypi_fetch web
                 (S ''https://'' @ pypi_host @ S ''/pypi/'' @ name @ S ''/'' @ version @ S ''/json'') n of
                (n', Inl e) \<Rightarrow> ((pc, n'), Inl e)
              | (n', Inr page) \<Rightarrow>
                  (case requires_of (pc_python pc) page of
                     Inl e \<Rightarrow> ((pc, n'), Inl e)
                   | Inr deps \<Rightarrow>
                       ((pc\<lparr>pc_requires := dset (pc_requires pc) key deps\<rparr>, n'), Inr deps))))"

definition pypi_find_best ::
    "'n web \<Rightarrow> pystr \<Rightarrow> pystr \<Rightarrow> pypi_client \<times> 'n \<Rightarrow>
     (pypi_client \<times> 'n) \<times> (pystr \<times> release) option result" where
  "pypi_find_best web name constraint s =
     (case get_package_info web name s of
        (s', Inl e) \<Rightarrow> (s', Inl e)
      | (s', Inr info) \<Rightarrow>
          (case filter (\<lambda>v. version_satisfies (pep web) v constraint) (map fst info) of
             [] \<Rightarrow> (s', Inr None)
           | candidates \<Rightarrow>
               (s', bindE (best_version (pep web) candidates) (\<lambda>best.
                  Inr (Some (best, the (dget info best)))))))"

section \<open>Normalised names\<close>

lemma lower_Nil [simp]: "lower [] = []" and lower_Cons: "lower (c # s) = lower_cp c @ lower s"
  and lower_append: "lower (a @ b) = lower a @ lower b"
  by (simp_all add: lower_def)

lemma lower_lower_cp: "lower (lower_cp c) = lower_cp c"
  by (simp add: lower_cp_def lower_def)

lemma lower_idem: "lower (lower s) = lower s"
  by (induction s) (simp_all add: lower_Cons lower_append lower_lower_cp)

lemma lower_cp_sep: "name_sep c \<Longrightarrow> lower_cp c = [c]"
  by (auto simp: name_sep_def lower_cp_def)

lemma lower_cp_no_sep: "\<not> name_sep c \<Longrightarrow> x \<in> set (lower_cp c) \<Longrightarrow> \<not> name_sep x"
  by (auto simp: name_sep_def lower_cp_def split: if_splits)

lemma lower_cp_nonempty [simp]: "lower_cp c \<noteq> []"
  by (simp add: lower_cp_def)

lemma squeeze_no_sep: "\<forall>c \<in> set a. \<not> name_sep c \<Longrightarrow> squeeze (a @ s) = a @ squeeze s"
  by (induction a) auto

lemma dropWhile_lower: "dropWhile name_sep (lower s) = lower (dropWhile name_sep s)"
proof (induction s)
  case (Cons c s)
  show ?case
  proof (cases "name_sep c")
    case False
    then have "\<not> name_sep (hd (lower_cp c))" using lower_cp_no_sep by simp
    with False show ?thesis by (cases "lower_cp c") (simp_all add: lower_Cons)
  qed (simp add: lower_Cons lower_cp_sep Cons.IH)
qed simp

lemma squeeze_lower: "squeeze (lower s) = lower (squeeze s)"
proof (induction s rule: squeeze.induct)
  case (2 c s)
  show ?case
  proof (cases "name_sep c")
    case True
    moreover have "lower_cp 45 = [45]" by (simp add: lower_cp_def)
    ultimately show ?thesis by (simp add: lower_Cons lower_cp_sep dropWhile_lower 2)
  next
    case False
    then show ?thesis by (simp add: lower_Cons squeeze_no_sep lower_cp_no_sep 2)
  qed
qed simp

lemma dropWhile_squeeze:
  "dropWhile name_sep (squeeze (dropWhile name_sep s)) = squeeze (dropWhile name_sep s)"
proof (cases "dropWhile name_sep s")
  case (Cons c r)
  then have "\<not> name_sep c" by (metis hd_dropWhile list.distinct(1) list.sel(1))
  then show ?thesis unfolding Cons by simp
qed (simp only: squeeze.simps dropWhile.simps)

lemma squeeze_idem: "squeeze (squeeze s) = squeeze s"
proof (induction s rule: squeeze.induct)
  case (2 c s)
  have "name_sep 45" by (simp add: name_sep_def)
  with 2 show ?case by (simp add: dropWhile_squeeze)
qed simp

interpretation names: normaliser normalize_name "\<lambda>n. normalize_name n = n"
  by unfold_locales (simp_all add: normalize_name_def squeeze_lower lower_idem squeeze_idem)

lemma normalize_idem [simp]: "normalize_name (normalize_name n) = normalize_name n"
  by (rule names.norm_ok)


section \<open>Versions and tags\<close>

lemma best_fold_in:
  "fst (foldl (\<lambda>a b. if le (snd b) (snd a) then a else b) t ts) \<in> fst ` set (t # ts)"
  by (induction ts arbitrary: t) fastforce+

lemma mapE_keyed:
  assumes "mapE (\<lambda>v. map_sum id (\<lambda>t. (v, t)) (parse_version P v)) vs = Inr ts"
  shows "map fst ts = vs \<and> (\<forall>(v, t) \<in> set ts. version_text P v = Some t)"
  using assms
proof (induction vs arbitrary: ts)
  case (Cons v vs)
  then show ?case by (auto simp: result_simps parse_version_def split: option.splits)
qed simp

lemma best_version_in: "best_version P vs = Inr v \<Longrightarrow> v \<in> set vs"
proof -
  assume "best_version P vs = Inr v"
  then obtain ts where ts: "mapE (\<lambda>v. map_sum id (\<lambda>t. (v, t)) (parse_version P v)) vs = Inr ts"
    and v: "(case ts of [] \<Rightarrow> Inl (ValueError (S ''max() iterable argument is empty''))
       | t # ts \<Rightarrow> Inr (fst (foldl (\<lambda>a b. if version_le P (snd b) (snd a) then a else b) t ts))) = Inr v"
    by (auto simp: best_version_def result_simps)
  have "v \<in> fst ` set ts"
  proof (cases ts)
    case (Cons t ts')
    then have "v = fst (foldl (\<lambda>a b. if version_le P (snd b) (snd a) then a else b) t ts')"
      using v by simp
    then show ?thesis unfolding Cons by (simp only: best_fold_in)
  qed (use v in simp)
  then show ?thesis using mapE_keyed [OF ts] by (metis list.set_map)
qed

lemma match_arch_iff: "match_arch pl targets \<noteq> None \<longleftrightarrow>
    universal pl \<or> (\<exists>target \<in> set targets. \<exists>sub \<in> set (split_on 46 pl). sub_tag_fits target sub)"
  by (auto simp: match_arch_def find_None_iff simp del: not_None_eq)

lemma compatible_iff_arch:
  assumes "target_version python = Inr (major, minor, a, b)"
  shows "is_wheel_compatible py pl python targets abi =
    Inr (python_fits py abi major minor (a, b) \<and> match_arch pl targets \<noteq> None)"
  unfolding match_arch_iff using assms by (simp add: is_wheel_compatible_def)

lemma match_arch_target:
  "match_arch pl targets = Some arch \<Longrightarrow> arch = S ''any'' \<or> arch \<in> set targets"
  by (auto simp: match_arch_def find_Some_iff split: if_splits)

lemma compatible_has_arch:
  "is_wheel_compatible py pl python targets abi = Inr True \<Longrightarrow> match_arch pl targets \<noteq> None"
  unfolding match_arch_iff by (auto simp: is_wheel_compatible_def result_simps split: if_splits prod.splits)


section \<open>What the RHOAI index offers\<close>

definition files_fit :: "rhoai_index \<Rightarrow> platform_files \<Rightarrow> bool" where
  "files_fit idx fs \<longleftrightarrow>
     fs \<noteq> [] \<and> set (map fst fs) \<subseteq> insert (S ''any'') (set (target_platforms idx))"

definition versions_fit :: "rhoai_index \<Rightarrow> platform_files dict \<Rightarrow> bool" where
  "versions_fit idx versions \<longleftrightarrow> (\<forall>(v, fs) \<in> set versions. files_fit idx fs)"

definition index_fits :: "rhoai_index \<Rightarrow> bool" where
  "index_fits idx \<longleftrightarrow> (\<forall>(norm, versions) \<in> set (ri_packages idx). versions_fit idx versions)"

lemma dset_nonempty [simp]: "dset d k v \<noteq> []"
  by (cases d) auto

lemma dset_keys: "fst ` set (dset d k v) \<subseteq> insert k (fst ` set d)"
  using dset_in by fastforce

lemma versions_fit_dset: "versions_fit idx versions \<Longrightarrow> files_fit idx fs \<Longrightarrow> versions_fit idx (dset versions v fs)"
  using dset_in unfolding versions_fit_def by fastforce

lemma add_wheel_fits:
  assumes "add_wheel idx e versions = Inr versions'" "versions_fit idx versions"
  shows "versions_fit idx versions'"
proof (cases "en_wheel e")
  case (Some tags)
  obtain ok where ok: "is_wheel_compatible (wt_python tags) (wt_platform tags) (ri_python idx)
      (target_platforms idx) (wt_abi tags) = Inr ok"
    using assms(1) Some by (auto simp: add_wheel_def result_simps)
  show ?thesis
  proof (cases ok)
    case True
    let ?found = "case dget versions (en_version e) of None \<Rightarrow> [] | Some gs \<Rightarrow> gs"
    have "match_arch (wt_platform tags) (target_platforms idx) \<noteq> None"
      by (rule compatible_has_arch) (use ok True in simp)
    then obtain arch where arch: "match_arch (wt_platform tags) (target_platforms idx) = Some arch"
      by auto
    have "fst ` set ?found \<subseteq> insert (S ''any'') (set (target_platforms idx))"
    proof (cases "dget versions (en_version e)")
      case (Some gs)
      then have "files_fit idx gs" using assms(2) map_of_SomeD [OF Some] by (auto simp: versions_fit_def)
      then show ?thesis by (simp add: Some files_fit_def)
    qed simp
    then have "fst ` set (dset ?found arch v) \<subseteq> insert (S ''any'') (set (target_platforms idx))" for v
      using dset_keys [of arch v ?found] match_arch_target [OF arch] by blast
    then have "files_fit idx (dset ?found arch v)" for v by (simp add: files_fit_def)
    then show ?thesis using assms Some ok True arch by (auto simp: add_wheel_def intro: versions_fit_dset)
  qed (use assms Some ok in \<open>auto simp: add_wheel_def\<close>)
qed (use assms in \<open>auto simp: add_wheel_def\<close>)

lemma add_wheels_fit:
  "add_wheels idx es versions = Inr versions' \<Longrightarrow> versions_fit idx versions \<Longrightarrow> versions_fit idx versions'"
  by (induction es arbitrary: versions) (auto simp: result_simps dest: add_wheel_fits)

lemma ensure_loaded_effect:
  assumes "ensure_loaded web name (idx, n) = ((idx', n'), r)"
  obtains "idx' = idx"
    | page m versions where
        "rhoai_fetch web idx (ri_url idx @ normalize_name name @ S ''/'') n = (m, Inr page)"
        "add_wheels idx (parse_package_page (html_events web page)) [] = Inr versions"
        "idx' = idx\<lparr>ri_packages := dset (ri_packages idx) (normalize_name name) versions\<rparr>"
proof (cases "has_key (ri_packages idx) (normalize_name name) \<or> normalize_name name \<notin> set (ri_known idx)")
  case True
  have "idx' = idx" using assms unfolding ensure_loaded_def Let_def prod.case if_P [OF True] by simp
  then show ?thesis by (rule that(1))
next
  case False
  obtain m got where f: "rhoai_fetch web idx (ri_url idx @ normalize_name name @ S ''/'') n = (m, got)"
    by (cases "rhoai_fetch web idx (ri_url idx @ normalize_name name @ S ''/'') n")
  have e: "(case got of Inl _ \<Rightarrow> ((idx, m), Inr ())
      | Inr page \<Rightarrow>
          (case add_wheels idx (parse_package_page (html_events web page)) [] of
             Inl e \<Rightarrow> ((idx, m), Inl e)
           | Inr versions \<Rightarrow>
               ((if versions = [] then idx
                 else idx\<lparr>ri_packages := dset (ri_packages idx) (normalize_name name) versions\<rparr>, m),
                Inr ()))) = ((idx', n'), r)"
    using assms unfolding ensure_loaded_def Let_def prod.case if_not_P [OF False] f .
  show ?thesis
  proof (cases got)
    case (Inr page)
    show ?thesis
    proof (cases "add_wheels idx (parse_package_page (html_events web page)) []")
      case (Inr versions)
      with e f \<open>got = _\<close> show ?thesis by (cases "versions = []") (auto intro: that)
    qed (use e Inr that(1) in simp)
  qed (use e that(1) in simp)
qed

lemma fetch_keeps_fit:
  assumes fits: "index_fits idx" and e: "ensure_loaded web name (idx, n) = ((idx', n'), r)"
  shows "index_fits idx' \<and> idx'\<lparr>ri_packages := ri_packages idx\<rparr> = idx"
proof (rule ensure_loaded_effect [OF e])
  fix page m versions
  assume 2: "add_wheels idx (parse_package_page (html_events web page)) [] = Inr versions"
    "idx' = idx\<lparr>ri_packages := dset (ri_packages idx) (normalize_name name) versions\<rparr>"
  have "versions_fit idx versions" by (rule add_wheels_fit [OF 2(1)]) (simp add: versions_fit_def)
  moreover have "versions_fit idx' = versions_fit idx"
    by (simp add: 2(2) versions_fit_def files_fit_def target_platforms_def fun_eq_iff)
  ultimately show ?thesis using fits dset_in unfolding index_fits_def 2(2) by fastforce
qed (use fits in simp)

lemma fetch_served:
  "fetch_attempts web url ks n = (n', Inr page) \<Longrightarrow> \<exists>m m'. http_get web url m = (m', Inr page)"
  by (induction ks arbitrary: n) (auto split: prod.splits sum.splits)

lemma rhoai_fetch_served:
  "rhoai_fetch web idx url n = (n', Inr page) \<Longrightarrow> \<exists>m m'. http_get web url m = (m', Inr page)"
  by (auto simp: rhoai_fetch_def fetch_with_retry_def simp del: fetch_attempts.simps
      split: if_splits dest: fetch_served)

lemma pypi_fetch_served:
  "pypi_fetch web url n = (n', Inr page) \<Longrightarrow> \<exists>m m'. http_get web url m = (m', Inr page)"
  by (auto simp: pypi_fetch_def fetch_with_retry_def simp del: fetch_attempts.simps
      split: if_splits sum.splits option.splits dest: fetch_served)

lemma rhoai_lookup_Some:
  assumes "index_fits idx" "rhoai_lookup P idx norm c = Inr (Some m)"
  shows "version_satisfies P (rm_version m) c" "files_fit idx (rm_platforms m)"
proof -
  obtain versions where v: "dget (ri_packages idx) norm = Some versions"
    using assms(2) by (auto simp: rhoai_lookup_def split: option.splits)
  let ?cs = "filter (\<lambda>v. version_satisfies P v c) (map fst versions)"
  obtain best where best: "best_version P ?cs = Inr best"
      "m = \<lparr>rm_version = best, rm_platforms = the (dget versions best)\<rparr>"
    using assms(2) v by (auto simp: rhoai_lookup_def result_simps split: list.splits)
  have in_cs: "best \<in> set ?cs" by (rule best_version_in [OF best(1)])
  then show "version_satisfies P (rm_version m) c" by (simp add: best(2))
  obtain fs where fs: "dget versions best = Some fs" using in_cs by (auto dest: weak_map_of_SomeI)
  have "versions_fit idx versions"
    using assms(1) map_of_SomeD [OF v] by (auto simp: index_fits_def)
  then show "files_fit idx (rm_platforms m)"
    using map_of_SomeD [OF fs] fs by (auto simp: best(2) versions_fit_def)
qed

lemma rhoai_find_best_fits:
  assumes "index_fits idx" "rhoai_find_best web name c (idx, n) = ((idx', n'), r)"
  shows "index_fits idx' \<and> idx'\<lparr>ri_packages := ri_packages idx\<rparr> = idx"
proof -
  obtain r' where "ensure_loaded web (normalize_name name) (idx, n) = ((idx', n'), r')"
    using assms(2) by (auto simp: rhoai_find_best_def Let_def split: prod.splits sum.splits)
  then show ?thesis by (rule fetch_keeps_fit [OF assms(1)])
qed

lemma rhoai_find_best_Some:
  assumes "index_fits idx" "rhoai_find_best web name c (idx, n) = (s', Inr (Some m))"
  shows "version_satisfies (pep web) (rm_version m) c" "files_fit idx (rm_platforms m)"
proof -
  obtain idx' n' where l: "ensure_loaded web (normalize_name name) (idx, n) = ((idx', n'), Inr ())"
      "rhoai_lookup (pep web) idx' (normalize_name name) c = Inr (Some m)"
    using assms(2) by (cases s') (auto simp: rhoai_find_best_def Let_def split: prod.splits sum.splits)
  have fit: "index_fits idx'" and same: "idx'\<lparr>ri_packages := ri_packages idx\<rparr> = idx"
    using fetch_keeps_fit [OF assms(1) l(1)] by simp_all
  show "version_satisfies (pep web) (rm_version m) c" by (rule rhoai_lookup_Some(1) [OF fit l(2)])
  have "ri_platforms idx' = ri_platforms idx" using arg_cong [OF same, of ri_platforms] by simp
  then show "files_fit idx (rm_platforms m)"
    using rhoai_lookup_Some(2) [OF fit l(2)] by (simp add: files_fit_def target_platforms_def)
qed

lemma new_rhoai_fits: "new_rhoai w url python platforms = Inr idx \<Longrightarrow> index_fits idx"
  by (auto simp: new_rhoai_def index_fits_def result_simps split: option.splits if_splits)

lemma rhoai_load_fits: "index_fits idx \<Longrightarrow> rhoai_load web (idx, n) = ((idx', n'), r) \<Longrightarrow>
    index_fits idx' \<and> ri_platforms idx' = ri_platforms idx"
proof -
  assume fits: "index_fits idx" and "rhoai_load web (idx, n) = ((idx', n'), r)"
  then obtain known where "idx' = idx \<or> idx' = idx\<lparr>ri_known := known\<rparr>"
    by (auto simp: rhoai_load_def split: prod.splits sum.splits)
  moreover have "versions_fit (idx\<lparr>ri_known := known\<rparr>) = versions_fit idx"
    by (simp add: versions_fit_def files_fit_def target_platforms_def fun_eq_iff)
  ultimately show ?thesis using fits by (auto simp: index_fits_def)
qed

lemma invalidate_fits: "index_fits idx \<Longrightarrow> index_fits (rhoai_invalidate name idx)"
proof -
  have "versions_fit (rhoai_invalidate name idx) = versions_fit idx"
    by (simp add: rhoai_invalidate_def versions_fit_def files_fit_def target_platforms_def fun_eq_iff)
  then show "index_fits idx \<Longrightarrow> index_fits (rhoai_invalidate name idx)"
    by (auto simp: index_fits_def rhoai_invalidate_def ddel_in)
qed

lemma invalidate_platforms [simp]: "ri_platforms (rhoai_invalidate name idx) = ri_platforms idx"
  by (simp add: rhoai_invalidate_def)


section \<open>Only the two trusted hosts are contacted\<close>

definition trusted_url :: "pystr \<Rightarrow> bool" where
  "trusted_url url \<longleftrightarrow>
     starts_with url (S ''https://packages.redhat.com/api/pypi/public-rhai/rhoai/'') \<or>
     starts_with url (S ''https://pypi.org/'')"

definition trusted_index :: "rhoai_index \<Rightarrow> bool" where
  "trusted_index idx \<longleftrightarrow> starts_with (ri_url idx) (S ''https://packages.redhat.com/api/pypi/public-rhai/rhoai/'')"

text \<open>A network that refuses everything else; the operations do not notice the difference.\<close>

definition confined :: "'n web \<Rightarrow> 'n web" where
  "confined web = web\<lparr>http_get := (\<lambda>url n.
     if trusted_url url then http_get web url n else (n, Inl (Exn CRuntimeError (S ''not trusted''))))\<rparr>"

lemma confined_simps [simp]:
  "html_events (confined web) = html_events web" "pep (confined web) = pep web"
  "nap (confined web) = nap web" "url_world (confined web) = url_world web"
  by (simp_all add: confined_def)

lemma fetch_attempts_confined: "trusted_url url \<Longrightarrow> fetch_attempts (confined web) url ks n = fetch_attempts web url ks n"
  by (induction ks arbitrary: n) (auto simp: confined_def split: prod.splits sum.splits)

lemma starts_with_trans: "starts_with a b \<Longrightarrow> starts_with b c \<Longrightarrow> starts_with a c"
proof -
  assume a: "starts_with a b" "starts_with b c"
  then have "length c \<le> length b" unfolding starts_with_def by (metis length_take min_def nat_le_linear)
  then have "take (length c) (take (length b) a) = take (length c) a" by (simp add: min_absorb1)
  with a show ?thesis by (simp add: starts_with_def)
qed

lemma rhoai_fetch_confined: "trusted_index idx \<Longrightarrow> rhoai_fetch (confined web) idx url n = rhoai_fetch web idx url n"
proof (cases "rhoai_trusts (ri_url idx) url")
  case True
  assume "trusted_index idx"
  then have "trusted_url url"
    using True starts_with_trans by (auto simp: rhoai_trusts_def trusted_url_def trusted_index_def Let_def)
  then show ?thesis by (simp only: rhoai_fetch_def fetch_with_retry_def fetch_attempts_confined)
qed (simp add: rhoai_fetch_def)

lemma starts_with_append [simp]: "starts_with (p @ s) p"
  by (simp add: starts_with_def)

lemma pypi_url_trusted: "trusted_url (S ''https://'' @ pypi_host @ S ''/'' @ s)"
proof -
  have "S ''https://'' @ pypi_host @ S ''/'' @ s = S ''https://pypi.org/'' @ s"
    by (simp add: pypi_host_def S_def)
  then show ?thesis unfolding trusted_url_def by (metis starts_with_append)
qed

lemma pypi_fetch_confined:
  "pypi_fetch (confined web) (S ''https://'' @ pypi_host @ S ''/'' @ s) n =
   pypi_fetch web (S ''https://'' @ pypi_host @ S ''/'' @ s) n"
proof -
  have "fetch_with_retry (confined web) (S ''https://'' @ pypi_host @ S ''/'' @ s) =
      fetch_with_retry web (S ''https://'' @ pypi_host @ S ''/'' @ s)"
    by (rule ext) (simp only: fetch_with_retry_def fetch_attempts_confined [OF pypi_url_trusted])
  then show ?thesis by (simp only: pypi_fetch_def confined_simps)
qed

lemma pypi_pages_confined:
  "pypi_fetch (confined web) (S ''https://'' @ pypi_host @ S ''/simple/'' @ x) n =
     pypi_fetch web (S ''https://'' @ pypi_host @ S ''/simple/'' @ x) n"
  "pypi_fetch (confined web) (S ''https://'' @ pypi_host @ S ''/pypi/'' @ x) n =
     pypi_fetch web (S ''https://'' @ pypi_host @ S ''/pypi/'' @ x) n"
proof -
  have "S ''/simple/'' @ x = S ''/'' @ S ''simple/'' @ x" "S ''/pypi/'' @ x = S ''/'' @ S ''pypi/'' @ x"
    by (simp_all add: S_def)
  then show
    "pypi_fetch (confined web) (S ''https://'' @ pypi_host @ S ''/simple/'' @ x) n =
       pypi_fetch web (S ''https://'' @ pypi_host @ S ''/simple/'' @ x) n"
    "pypi_fetch (confined web) (S ''https://'' @ pypi_host @ S ''/pypi/'' @ x) n =
       pypi_fetch web (S ''https://'' @ pypi_host @ S ''/pypi/'' @ x) n"
    by (simp_all only: pypi_fetch_confined)
qed

lemma get_package_info_confined: "get_package_info (confined web) name s = get_package_info web name s"
  by (simp only: get_package_info_def pypi_pages_confined confined_simps)

lemma get_requires_dist_confined: "get_requires_dist (confined web) name v s = get_requires_dist web name v s"
  by (simp only: get_requires_dist_def pypi_pages_confined)

lemma pypi_find_best_confined: "pypi_find_best (confined web) name c s = pypi_find_best web name c s"
  unfolding pypi_find_best_def get_package_info_confined confined_simps ..

lemma ensure_loaded_confined:
  "trusted_index (fst s) \<Longrightarrow> ensure_loaded (confined web) name s = ensure_loaded web name s"
proof (cases s)
  case (Pair idx n)
  assume "trusted_index (fst s)"
  then have t: "trusted_index idx" by (simp add: Pair)
  show ?thesis
    unfolding ensure_loaded_def Pair Let_def prod.case rhoai_fetch_confined [OF t] confined_simps ..
qed

lemma rhoai_find_best_confined:
  "trusted_index (fst s) \<Longrightarrow> rhoai_find_best (confined web) name c s = rhoai_find_best web name c s"
  unfolding rhoai_find_best_def Let_def confined_simps by (simp only: ensure_loaded_confined)

lemma rhoai_load_confined: "trusted_index (fst s) \<Longrightarrow> rhoai_load (confined web) s = rhoai_load web s"
proof (cases s)
  case (Pair idx n)
  assume "trusted_index (fst s)"
  then have t: "trusted_index idx" by (simp add: Pair)
  show ?thesis unfolding rhoai_load_def Pair Let_def prod.case rhoai_fetch_confined [OF t] confined_simps ..
qed

lemma seq_match_Cons: "seq_match (m # ms) = then_match m (seq_match ms)"
  by (simp add: seq_match_def)

lemma whole_match_starts: "whole_match (then_match (this_text t) m) s \<Longrightarrow> starts_with s t"
  by (auto simp: whole_match_def then_match_def this_text_def split: if_splits)

lemma starts_with_prefix [simp]: "starts_with (p @ a) (p @ b) = starts_with a b"
  by (simp add: starts_with_def)

lemma new_rhoai_trusted: "new_rhoai w url python platforms = Inr idx \<Longrightarrow> trusted_index idx"
proof -
  assume a: "new_rhoai w url python platforms = Inr idx"
  then obtain path where p: "whole_match index_path path" "ri_url idx = S ''https://'' @ rhoai_host @ path"
    by (auto simp: new_rhoai_def result_simps split: option.splits if_splits)
  have "starts_with path (S ''/api/pypi/public-rhai/rhoai/'')"
    by (rule whole_match_starts) (use p(1) in \<open>simp only: index_path_def seq_match_Cons\<close>)
  moreover have "S ''https://packages.redhat.com/api/pypi/public-rhai/rhoai/'' =
      S ''https://'' @ rhoai_host @ S ''/api/pypi/public-rhai/rhoai/''"
    by (simp add: rhoai_host_def S_def)
  ultimately show ?thesis unfolding trusted_index_def p(2) by simp
qed

end
