(* ===== verification/Resolver.thy ===== *)
theory Resolver
  imports Packages "HOL-Library.While_Combinator"
begin

text \<open>
  \<open>scripts/konflux_resolve.py\<close>, the dependency resolver that prefers RHOAI wheels: a breadth-first
  walk over requirements, a loop of \<open>while_option\<close>. Proved: the walk ends when the network serves
  finitely many pages; in its result every package satisfies all that was required of it, every
  requirement that was read is met, and every package that is not from RHOAI has a recorded reason.
\<close>

section \<open>The walk\<close>

datatype package =
    RhoaiPackage (package_version: pystr) platform_files
  | PypiPackage (package_version: pystr) release

fun from_rhoai :: "package \<Rightarrow> bool" where
  "from_rhoai (RhoaiPackage _ _) = True"
| "from_rhoai (PypiPackage _ _) = False"

record 'n resolver_run =
  rr_rhoai :: rhoai_index
  rr_pypi :: pypi_client
  rr_net :: 'n
  rr_resolved :: "package dict"
  rr_constraints :: "pystr dict"
  rr_queue :: "(pystr \<times> pystr) list"
  rr_visited :: "pystr list"
  rr_fallback :: "pystr dict"
  rr_error :: "exn option"

definition constraint_of :: "'n resolver_run \<Rightarrow> pystr \<Rightarrow> pystr" where
  "constraint_of r norm = (case dget (rr_constraints r) norm of None \<Rightarrow> [] | Some c \<Rightarrow> c)"

definition enqueue_direct :: "pystr \<times> pystr \<Rightarrow> 'n resolver_run \<Rightarrow> 'n resolver_run" where
  "enqueue_direct dep r =
     (let norm = normalize_name (fst dep);
          c = (if snd dep \<noteq> [] then merge_constraints (dget (rr_constraints r) norm) (snd dep)
               else constraint_of r norm)
      in r\<lparr>rr_constraints := dset (rr_constraints r) norm c, rr_queue := rr_queue r @ [(norm, c)]\<rparr>)"

definition add_dependency :: "pystr \<times> pystr \<Rightarrow> 'n resolver_run \<Rightarrow> 'n resolver_run" where
  "add_dependency dep r =
     (let norm = normalize_name (fst dep);
          c = (if snd dep \<noteq> [] then merge_constraints (dget (rr_constraints r) norm) (snd dep)
               else constraint_of r norm)
      in r\<lparr>rr_constraints := (if snd dep \<noteq> [] \<or> \<not> has_key (rr_constraints r) norm
                               then dset (rr_constraints r) norm c else rr_constraints r),
           rr_queue := rr_queue r @ [(norm, c)]\<rparr>)"

text \<open>
  A name that is resolved already: keep it, give up an RHOAI version that no longer fits, or fail.
  The flag says whether the name is settled.
\<close>

definition recheck :: "packaging \<Rightarrow> pystr \<Rightarrow> 'n resolver_run \<Rightarrow> bool \<times> 'n resolver_run" where
  "recheck P norm r =
     (case dget (rr_resolved r) norm of
        None \<Rightarrow> (False, r)
      | Some pk \<Rightarrow>
          let v = package_version pk; c = constraint_of r norm
          in if version_satisfies P v c then (True, r)
             else if from_rhoai pk then
               (False, r\<lparr>rr_resolved := ddel (rr_resolved r) norm,
                  rr_fallback := dset (rr_fallback r) norm
                    (S ''RHOAI version '' @ v @ S '' conflicts with constraint '' @ c)\<rparr>)
             else
               (True, r\<lparr>rr_error := Some (Exn CRuntimeError (S ''Constraint conflict for '' @ norm @
                  S '': resolved '' @ v @ S '' does not satisfy '' @ c))\<rparr>))"

definition note_fallback :: "pystr \<Rightarrow> 'n resolver_run \<Rightarrow> 'n resolver_run" where
  "note_fallback norm r =
     (if has_key (rr_fallback r) norm then r
      else r\<lparr>rr_fallback := dset (rr_fallback r) norm
        (if rhoai_has (rr_rhoai r) norm
         then S ''RHOAI has '' @ norm @ S '' but no version satisfies '' @ repr_str (constraint_of r norm)
         else S ''not in RHOAI index'')\<rparr>)"

definition choose_pypi :: "'n web \<Rightarrow> pystr \<Rightarrow> 'n resolver_run \<Rightarrow> pystr option \<times> 'n resolver_run" where
  "choose_pypi web norm r =
     (case pypi_find_best web norm (constraint_of r norm) (rr_pypi r, rr_net r) of
        ((pc, n), found) \<Rightarrow>
          let r = r\<lparr>rr_pypi := pc, rr_net := n\<rparr>
          in case found of
               Inl e \<Rightarrow> (None, r\<lparr>rr_error := Some e\<rparr>)
             | Inr None \<Rightarrow>
                 (None, r\<lparr>rr_error := Some (Exn CRuntimeError (S ''Cannot resolve '' @ norm @
                    S '' with constraint '' @ repr_str (constraint_of r norm) @
                    S '': not found on RHOAI or PyPI''))\<rparr>)
             | Inr (Some (v, rel)) \<Rightarrow>
                 (Some v, (note_fallback norm r)\<lparr>rr_resolved := dset (rr_resolved r) norm (PypiPackage v rel)\<rparr>))"

definition choose_package :: "'n web \<Rightarrow> pystr \<Rightarrow> 'n resolver_run \<Rightarrow> pystr option \<times> 'n resolver_run" where
  "choose_package web norm r =
     (case rhoai_find_best web norm (constraint_of r norm) (rr_rhoai r, rr_net r) of
        ((idx, n), found) \<Rightarrow>
          let r = r\<lparr>rr_rhoai := idx, rr_net := n\<rparr>
          in case found of
               Inl e \<Rightarrow> (None, r\<lparr>rr_error := Some e\<rparr>)
             | Inr (Some m) \<Rightarrow>
                 (Some (rm_version m),
                  r\<lparr>rr_resolved := dset (rr_resolved r) norm (RhoaiPackage (rm_version m) (rm_platforms m))\<rparr>)
             | Inr None \<Rightarrow> choose_pypi web norm r)"

definition visit_key :: "pystr \<Rightarrow> pystr \<Rightarrow> pystr" where
  "visit_key norm version = norm @ S ''=='' @ version"

definition expand :: "'n web \<Rightarrow> pystr \<Rightarrow> pystr \<Rightarrow> 'n resolver_run \<Rightarrow> 'n resolver_run" where
  "expand web norm version r =
     (let key = visit_key norm version
      in if key \<in> set (rr_visited r) then r
         else
           (case get_requires_dist web norm version (rr_pypi r, rr_net r) of
              ((pc, n), deps) \<Rightarrow>
                let r = r\<lparr>rr_visited := key # rr_visited r, rr_pypi := pc, rr_net := n\<rparr>
                in case deps of Inl _ \<Rightarrow> r | Inr ds \<Rightarrow> fold add_dependency ds r))"

definition resolve_step :: "'n web \<Rightarrow> 'n resolver_run \<Rightarrow> 'n resolver_run" where
  "resolve_step web r =
     (let norm = normalize_name (fst (hd (rr_queue r)))
      in case recheck (pep web) norm (r\<lparr>rr_queue := tl (rr_queue r)\<rparr>) of
           (True, r') \<Rightarrow> r'
         | (False, r') \<Rightarrow>
             (case choose_package web norm r' of
                (None, r'') \<Rightarrow> r''
              | (Some version, r'') \<Rightarrow> expand web norm version r''))"

definition walking :: "'n resolver_run \<Rightarrow> bool" where
  "walking r \<longleftrightarrow> rr_queue r \<noteq> [] \<and> rr_error r = None"

definition start_run :: "(pystr \<times> pystr) list \<Rightarrow> rhoai_index \<Rightarrow> pypi_client \<Rightarrow> 'n \<Rightarrow> 'n resolver_run" where
  "start_run direct idx pc n =
     fold enqueue_direct direct
       \<lparr>rr_rhoai = idx, rr_pypi = pc, rr_net = n, rr_resolved = [], rr_constraints = [], rr_queue = [],
        rr_visited = [], rr_fallback = [], rr_error = None\<rparr>"

text \<open>\<open>None\<close> is a walk that never ends.\<close>

definition resolve ::
    "'n web \<Rightarrow> (pystr \<times> pystr) list \<Rightarrow> rhoai_index \<Rightarrow> pypi_client \<Rightarrow> 'n \<Rightarrow>
     ('n resolver_run \<times> package dict result) option" where
  "resolve web direct idx pc n =
     map_option (\<lambda>r. (r, case rr_error r of Some e \<Rightarrow> Inl e | None \<Rightarrow> Inr (rr_resolved r)))
       (while_option walking (resolve_step web) (start_run direct idx pc n))"


section \<open>The walk ends\<close>

text \<open>The keys of the dictionaries inside a dictionary: the versions a cache knows.\<close>

definition inner_keys :: "'v dict dict \<Rightarrow> pystr set" where
  "inner_keys d = (\<Union>(_, vs) \<in> set d. fst ` set vs)"

lemma inner_keys_dset: "inner_keys (dset d k v) \<subseteq> inner_keys d \<union> fst ` set v"
proof
  fix x assume "x \<in> inner_keys (dset d k v)"
  then obtain k' vs where k: "(k', vs) \<in> set (dset d k v)" "x \<in> fst ` set vs"
    unfolding inner_keys_def by blast
  from dset_in [OF k(1)] show "x \<in> inner_keys d \<union> fst ` set v"
  proof
    assume "(k', vs) \<in> set d"
    with k(2) show ?thesis unfolding inner_keys_def by blast
  qed (use k(2) in simp)
qed

lemma inner_keys_get: "dget d k = Some vs \<Longrightarrow> fst ` set vs \<subseteq> inner_keys d"
  unfolding inner_keys_def by (drule map_of_SomeD) blast

definition served :: "'n web \<Rightarrow> pystr \<Rightarrow> bool" where
  "served web page \<longleftrightarrow> (\<exists>url n n'. http_get web url n = (n', Inr page))"

definition page_versions :: "'n web \<Rightarrow> pystr \<Rightarrow> pystr set" where
  "page_versions web page = en_version ` set (parse_package_page (html_events web page))"

text \<open>The versions and the names that may turn up, given what the caches hold at the start.\<close>

definition cached_versions :: "rhoai_index \<Rightarrow> pypi_client \<Rightarrow> pystr set" where
  "cached_versions idx pc =
     inner_keys (ri_packages idx) \<union> inner_keys (pc_info pc)"

definition dep_names :: "(pystr \<times> pystr) list \<Rightarrow> pystr set" where
  "dep_names deps = normalize_name ` fst ` set deps"

definition page_names :: "pystr \<Rightarrow> pystr \<Rightarrow> pystr set" where
  "page_names python page = (case requires_of python page of Inl _ \<Rightarrow> {} | Inr deps \<Rightarrow> dep_names deps)"

definition cached_names :: "pypi_client \<Rightarrow> pystr set" where
  "cached_names pc = (\<Union>(_, deps) \<in> set (pc_requires pc). dep_names deps)"

definition universe_versions :: "'n web \<Rightarrow> rhoai_index \<Rightarrow> pypi_client \<Rightarrow> pystr set" where
  "universe_versions web idx pc = cached_versions idx pc \<union> (\<Union>page \<in> {p. served web p}. page_versions web page)"

definition universe_names :: "'n web \<Rightarrow> pypi_client \<Rightarrow> pystr set" where
  "universe_names web pc = cached_names pc \<union> (\<Union>page \<in> {p. served web p}. page_names (pc_python pc) page)"

lemma universe_finite:
  "finite {p. served web p} \<Longrightarrow> finite (universe_versions web idx pc) \<and> finite (universe_names web pc)"
  by (auto simp: universe_versions_def universe_names_def cached_versions_def cached_names_def inner_keys_def
      page_versions_def page_names_def dep_names_def split: sum.split)

definition served_versions :: "'n web \<Rightarrow> pystr set" where
  "served_versions web = (\<Union>page \<in> {p. served web p}. page_versions web page)"

lemma add_wheels_versions:
  "add_wheels idx es versions = Inr versions' \<Longrightarrow> fst ` set versions' \<subseteq> fst ` set versions \<union> en_version ` set es"
proof (induction es arbitrary: versions)
  case (Cons e es)
  obtain mid where mid: "add_wheel idx e versions = Inr mid" "add_wheels idx es mid = Inr versions'"
    using Cons.prems by (auto simp: result_simps)
  have "fst ` set mid \<subseteq> insert (en_version e) (fst ` set versions)"
    using mid(1) dset_keys [of "en_version e" _ versions]
    by (auto simp: add_wheel_def result_simps split: option.splits if_splits)
  with Cons.IH [OF mid(2)] show ?case by auto
qed simp

lemma ensure_loaded_versions:
  assumes "ensure_loaded web name (idx, n) = ((idx', n'), r)"
  shows "inner_keys (ri_packages idx')
    \<subseteq> inner_keys (ri_packages idx) \<union> served_versions web"
proof (rule ensure_loaded_effect [OF assms])
  fix page m versions
  assume a: "rhoai_fetch web idx (ri_url idx @ normalize_name name @ S ''/'') n = (m, Inr page)"
    "add_wheels idx (parse_package_page (html_events web page)) [] = Inr versions"
    "idx' = idx\<lparr>ri_packages := dset (ri_packages idx) (normalize_name name) versions\<rparr>"
  have "served web page" using rhoai_fetch_served [OF a(1)] by (auto simp: served_def)
  then have "fst ` set versions \<subseteq> served_versions web"
    using add_wheels_versions [OF a(2)] by (auto simp: served_versions_def page_versions_def)
  moreover have "inner_keys (ri_packages idx') \<subseteq> inner_keys (ri_packages idx) \<union> fst ` set versions"
    by (simp add: a(3) inner_keys_dset)
  ultimately show ?thesis by blast
qed simp

lemma rhoai_find_best_versions:
  assumes "rhoai_find_best web name c (idx, n) = ((idx', n'), r)"
  shows "inner_keys (ri_packages idx')
      \<subseteq> inner_keys (ri_packages idx) \<union> served_versions web"
    and "r = Inr (Some m) \<Longrightarrow> rm_version m \<in> inner_keys (ri_packages idx')"
proof -
  obtain r' where l: "ensure_loaded web (normalize_name name) (idx, n) = ((idx', n'), r')"
    and r: "r = (case r' of Inl e \<Rightarrow> Inl e | Inr _ \<Rightarrow> rhoai_lookup (pep web) idx' (normalize_name name) c)"
    using assms by (auto simp: rhoai_find_best_def Let_def split: prod.splits sum.splits)
  show "inner_keys (ri_packages idx')
      \<subseteq> inner_keys (ri_packages idx) \<union> served_versions web"
    by (rule ensure_loaded_versions [OF l])
  assume "r = Inr (Some m)"
  then have "rhoai_lookup (pep web) idx' (normalize_name name) c = Inr (Some m)"
    using r by (auto split: sum.splits)
  then obtain vs where vs: "dget (ri_packages idx') (normalize_name name) = Some vs"
      "best_version (pep web) (filter (\<lambda>v. version_satisfies (pep web) v c) (map fst vs)) = Inr (rm_version m)"
    by (auto simp: rhoai_lookup_def result_simps split: option.splits list.splits)
  have "rm_version m \<in> fst ` set vs" using best_version_in [OF vs(2)] by auto
  then show "rm_version m \<in> inner_keys (ri_packages idx')"
    using inner_keys_get [OF vs(1)] by blast
qed

lemma fold_add_release_keys:
  "fst ` set (fold add_release es info) \<subseteq> fst ` set info \<union> en_version ` set es"
proof (induction es arbitrary: info)
  case (Cons e es)
  have "fst ` set (add_release e info) \<subseteq> insert (en_version e) (fst ` set info)"
    unfolding add_release_def by (rule dset_keys)
  with Cons [of "add_release e info"] show ?case by auto
qed simp

lemma get_package_info_effect:
  assumes "get_package_info web name (pc, n) = ((pc', n'), r)"
  obtains "pc' = pc" "\<And>info. r = Inr info \<Longrightarrow> dget (pc_info pc) (normalize_name name) = Some info"
    | page info where "served web page"
        "info = fold add_release (parse_package_page (html_events web page)) []"
        "pc' = pc\<lparr>pc_info := dset (pc_info pc) (normalize_name name) info\<rparr>" "r = Inr info"
proof (cases "dget (pc_info pc) (normalize_name name)")
  case (Some info)
  then show ?thesis using assms by (intro that(1)) (simp_all add: get_package_info_def Let_def)
next
  case None
  obtain m got where f: "pypi_fetch web (S ''https://'' @ pypi_host @ S ''/simple/'' @ normalize_name name @ S ''/'') n = (m, got)"
    by (cases "pypi_fetch web (S ''https://'' @ pypi_host @ S ''/simple/'' @ normalize_name name @ S ''/'') n")
  have e: "(case got of Inl e \<Rightarrow> ((pc, m), Inl e)
      | Inr page \<Rightarrow>
          ((pc\<lparr>pc_info := dset (pc_info pc) (normalize_name name)
             (fold add_release (parse_package_page (html_events web page)) [])\<rparr>, m),
           Inr (fold add_release (parse_package_page (html_events web page)) []))) = ((pc', n'), r)"
    using assms unfolding get_package_info_def Let_def prod.case None option.case f .
  show ?thesis
  proof (cases got)
    case (Inr page)
    have "served web page" using pypi_fetch_served [OF f [unfolded Inr]] by (auto simp: served_def)
    with e Inr show ?thesis by (intro that(2)) auto
  qed (use e in \<open>auto intro: that(1)\<close>)
qed

lemma pypi_find_best_eq:
  "pypi_find_best web name c s =
     (fst (get_package_info web name s),
      case snd (get_package_info web name s) of
        Inl e \<Rightarrow> Inl e
      | Inr info \<Rightarrow> (case filter (\<lambda>v. version_satisfies (pep web) v c) (map fst info) of [] \<Rightarrow> Inr None
         | cs \<Rightarrow> bindE (best_version (pep web) cs) (\<lambda>best. Inr (Some (best, the (dget info best))))))"
  by (simp add: pypi_find_best_def split: prod.split sum.split list.split)

lemma pypi_find_best_effect:
  assumes "pypi_find_best web name c (pc, n) = ((pc', n'), r)"
  shows "inner_keys (pc_info pc')
      \<subseteq> inner_keys (pc_info pc) \<union> served_versions web"
    and "pc'\<lparr>pc_info := pc_info pc\<rparr> = pc"
    and "r = Inr (Some (v, rel)) \<Longrightarrow> v \<in> inner_keys (pc_info pc')
      \<and> version_satisfies (pep web) v c"
proof -
  let ?g = "get_package_info web name (pc, n)"
  define got where "got = snd ?g"
  have g: "?g = ((pc', n'), got)"
    and r: "r = (case got of Inl e \<Rightarrow> Inl e
      | Inr info \<Rightarrow> (case filter (\<lambda>v. version_satisfies (pep web) v c) (map fst info) of [] \<Rightarrow> Inr None
         | cs \<Rightarrow> bindE (best_version (pep web) cs) (\<lambda>best. Inr (Some (best, the (dget info best))))))"
    using assms unfolding pypi_find_best_eq got_def by (simp_all add: prod_eq_iff)
  show "inner_keys (pc_info pc')
      \<subseteq> inner_keys (pc_info pc) \<union> served_versions web"
  proof (rule get_package_info_effect [OF g])
    fix page info
    assume a: "served web page" "info = fold add_release (parse_package_page (html_events web page)) []"
      "pc' = pc\<lparr>pc_info := dset (pc_info pc) (normalize_name name) info\<rparr>"
    have "fst ` set info \<subseteq> served_versions web"
      using fold_add_release_keys [of "parse_package_page (html_events web page)" "[]"] a(1)
      by (auto simp: a(2) served_versions_def page_versions_def)
    moreover have "inner_keys (pc_info pc') \<subseteq> inner_keys (pc_info pc) \<union> fst ` set info"
      by (simp add: a(3) inner_keys_dset)
    ultimately show ?thesis by blast
  qed simp
  show "pc'\<lparr>pc_info := pc_info pc\<rparr> = pc" by (rule get_package_info_effect [OF g]) simp_all
  assume "r = Inr (Some (v, rel))"
  then obtain info where i: "got = Inr info"
      "best_version (pep web) (filter (\<lambda>v. version_satisfies (pep web) v c) (map fst info)) = Inr v"
    using r by (auto simp: result_simps split: sum.splits list.splits)
  have "v \<in> fst ` set info" "version_satisfies (pep web) v c" using best_version_in [OF i(2)] by auto
  moreover have "dget (pc_info pc') (normalize_name name) = Some info"
    by (rule get_package_info_effect [OF g]) (simp_all add: i(1))
  ultimately show "v \<in> inner_keys (pc_info pc') \<and> version_satisfies (pep web) v c"
    using inner_keys_get by blast
qed

lemma get_requires_effect:
  assumes "get_requires_dist web name version (pc, n) = ((pc', n'), r)"
  obtains "pc' = pc"
      "dget (pc_requires pc) (visit_key (normalize_name name) version) =
         (case r of Inl _ \<Rightarrow> None | Inr deps \<Rightarrow> Some deps)"
    | page deps where "served web page" "requires_of (pc_python pc) page = Inr deps" "r = Inr deps"
        "pc' = pc\<lparr>pc_requires := dset (pc_requires pc) (visit_key (normalize_name name) version) deps\<rparr>" "dget (pc_requires pc) (visit_key (normalize_name name) version) = None"
proof (cases "dget (pc_requires pc) (visit_key (normalize_name name) version)")
  case (Some deps)
  then show ?thesis using assms
    by (intro that(1)) (auto simp: get_requires_dist_def Let_def visit_key_def)
next
  case None
  let ?url = "S ''https://'' @ pypi_host @ S ''/pypi/'' @ name @ S ''/'' @ version @ S ''/json''"
  obtain m got where f: "pypi_fetch web ?url n = (m, got)" by (cases "pypi_fetch web ?url n")
  have e: "(case got of Inl e \<Rightarrow> ((pc, m), Inl e)
      | Inr page \<Rightarrow>
          (case requires_of (pc_python pc) page of
             Inl e \<Rightarrow> ((pc, m), Inl e)
           | Inr deps \<Rightarrow> ((pc\<lparr>pc_requires := dset (pc_requires pc) (visit_key (normalize_name name) version) deps\<rparr>, m), Inr deps)))
      = ((pc', n'), r)"
    using assms unfolding get_requires_dist_def Let_def prod.case visit_key_def [symmetric] None option.case f .
  show ?thesis
  proof (cases got)
    case (Inr page)
    have "served web page" using pypi_fetch_served [OF f [unfolded Inr]] by (auto simp: served_def)
    show ?thesis
    proof (cases "requires_of (pc_python pc) page")
      case (Inl x)
      with e \<open>got = _\<close> have "pc' = pc" "r = Inl x" by simp_all
      with None show ?thesis by (intro that(1)) simp_all
    next
      case deps: (Inr deps)
      with e \<open>got = _\<close> None \<open>served web page\<close> show ?thesis by (intro that(2) [of page deps]) simp_all
    qed
  qed (use e None in \<open>auto intro: that(1)\<close>)
qed

definition served_names :: "'n web \<Rightarrow> pystr \<Rightarrow> pystr set" where
  "served_names web python = (\<Union>page \<in> {p. served web p}. page_names python page)"

lemma cached_names_dset:
  "cached_names (pc\<lparr>pc_requires := dset (pc_requires pc) key deps\<rparr>) \<subseteq> cached_names pc \<union> dep_names deps"
proof
  fix x assume "x \<in> cached_names (pc\<lparr>pc_requires := dset (pc_requires pc) key deps\<rparr>)"
  then obtain k ds where k: "(k, ds) \<in> set (dset (pc_requires pc) key deps)" "x \<in> dep_names ds"
    by (auto simp: cached_names_def)
  from dset_in [OF k(1)] show "x \<in> cached_names pc \<union> dep_names deps"
  proof
    assume "(k, ds) \<in> set (pc_requires pc)"
    with k(2) show ?thesis unfolding cached_names_def by blast
  qed (use k(2) in simp)
qed

lemma get_requires_names:
  assumes "get_requires_dist web name version (pc, n) = ((pc', n'), r)"
  shows "pc'\<lparr>pc_requires := pc_requires pc\<rparr> = pc"
    and "cached_names pc' \<subseteq> cached_names pc \<union> served_names web (pc_python pc)"
    and "r = Inr deps \<Longrightarrow> dep_names deps \<subseteq> cached_names pc'"
proof -
  show "pc'\<lparr>pc_requires := pc_requires pc\<rparr> = pc"
    by (rule get_requires_effect [OF assms]) simp_all
  have names: "dep_names ds \<subseteq> served_names web (pc_python pc)"
    if "served web page" "requires_of (pc_python pc) page = Inr ds" for page ds
    using that by (force simp: served_names_def page_names_def)
  show "cached_names pc' \<subseteq> cached_names pc \<union> served_names web (pc_python pc)"
    using cached_names_dset names by (rule_tac get_requires_effect [OF assms]) blast+
  assume r: "r = Inr deps"
  have "dget (pc_requires pc') (visit_key (normalize_name name) version) = Some deps"
    by (rule get_requires_effect [OF assms]) (use r in simp_all)
  then show "dep_names deps \<subseteq> cached_names pc'"
    unfolding cached_names_def by (drule_tac map_of_SomeD) blast
qed

text \<open>What bounds a walk: the versions in the caches and the names that can be queued.\<close>

definition bounded :: "pystr \<Rightarrow> pystr set \<Rightarrow> pystr set \<Rightarrow> 'n resolver_run \<Rightarrow> bool" where
  "bounded python V N r \<longleftrightarrow>
     inner_keys (ri_packages (rr_rhoai r)) \<subseteq> V \<and> inner_keys (pc_info (rr_pypi r)) \<subseteq> V \<and>
     cached_names (rr_pypi r) \<subseteq> N \<and> pc_python (rr_pypi r) = python \<and>
     normalize_name ` fst ` set (rr_queue r) \<subseteq> N \<and>
     set (rr_visited r) \<subseteq> (\<lambda>(n, v). visit_key n v) ` (N \<times> V)"

lemma recheck_frame:
  assumes "recheck P norm r = (b, r')"
  obtains resolved fallback err where
    "r' = r\<lparr>rr_resolved := resolved, rr_fallback := fallback, rr_error := err\<rparr>"
proof -
  have "\<exists>resolved fallback err. r' = r\<lparr>rr_resolved := resolved, rr_fallback := fallback, rr_error := err\<rparr>"
  proof (cases "dget (rr_resolved r) norm")
    case None
    then have "r' = r" using assms by (simp add: recheck_def)
    then show ?thesis by (metis resolver_run.surjective resolver_run.update_convs(4,8,9))
  next
    case (Some pk)
    have "r' = r \<or> (\<exists>a b. r' = r\<lparr>rr_resolved := a, rr_fallback := b\<rparr>) \<or> (\<exists>e. r' = r\<lparr>rr_error := e\<rparr>)"
      using assms Some by (auto simp: recheck_def Let_def split: if_splits)
    then show ?thesis by (metis resolver_run.surjective resolver_run.update_convs(4,8,9))
  qed
  then show ?thesis using that by blast
qed

text \<open>A choice either fails, or takes an RHOAI match, or a PyPI release after RHOAI gave none.\<close>

lemma choose_pypi_effect:
  assumes "choose_pypi web norm r = (v, r')"
  obtains pc n found where
    "pypi_find_best web norm (constraint_of r norm) (rr_pypi r, rr_net r) = ((pc, n), found)"
    "(v = None \<and> (\<exists>e. r' = r\<lparr>rr_pypi := pc, rr_net := n, rr_error := Some e\<rparr>)) \<or>
     (\<exists>version rel fallback. found = Inr (Some (version, rel)) \<and> v = Some version \<and> has_key fallback norm \<and>
        (\<forall>k. has_key (rr_fallback r) k \<longrightarrow> has_key fallback k) \<and>
        r' = r\<lparr>rr_pypi := pc, rr_net := n, rr_fallback := fallback,
              rr_resolved := dset (rr_resolved r) norm (PypiPackage version rel)\<rparr>)"
proof -
  obtain pc n found where f: "pypi_find_best web norm (constraint_of r norm) (rr_pypi r, rr_net r) = ((pc, n), found)"
    by (metis surj_pair)
  let ?r = "r\<lparr>rr_pypi := pc, rr_net := n\<rparr>"
  have c: "(case found of
               Inl e \<Rightarrow> (None, ?r\<lparr>rr_error := Some e\<rparr>)
             | Inr None \<Rightarrow>
                 (None, ?r\<lparr>rr_error := Some (Exn CRuntimeError (S ''Cannot resolve '' @ norm @
                    S '' with constraint '' @ repr_str (constraint_of ?r norm) @
                    S '': not found on RHOAI or PyPI''))\<rparr>)
             | Inr (Some (v, rel)) \<Rightarrow>
                 (Some v, (note_fallback norm ?r)\<lparr>rr_resolved := dset (rr_resolved ?r) norm (PypiPackage v rel)\<rparr>))
    = (v, r')"
    using assms unfolding choose_pypi_def f prod.case Let_def .
  consider e where "found = Inl e" | "found = Inr None" | version rel where "found = Inr (Some (version, rel))"
    by (cases found; cases "projr found") auto
  then show ?thesis
  proof cases
    case 3
    define fb where "fb = rr_fallback (note_fallback norm ?r)"
    have fb: "note_fallback norm ?r = ?r\<lparr>rr_fallback := fb\<rparr>" "has_key fb norm"
      "\<forall>k. has_key (rr_fallback r) k \<longrightarrow> has_key fb k"
      by (simp_all add: fb_def note_fallback_def)
    show ?thesis
      by (rule that [OF f]) (use c 3 fb in auto)
  qed (use c in \<open>auto intro!: that [OF f]\<close>)
qed

lemma choose_effect:
  assumes "choose_package web norm r = (v, r')"
  obtains idx n found where
    "rhoai_find_best web norm (constraint_of r norm) (rr_rhoai r, rr_net r) = ((idx, n), found)"
    "(v = None \<and> (\<exists>e. r' = r\<lparr>rr_rhoai := idx, rr_net := n, rr_error := Some e\<rparr>)) \<or>
     (\<exists>m. found = Inr (Some m) \<and> v = Some (rm_version m) \<and>
        r' = r\<lparr>rr_rhoai := idx, rr_net := n, rr_resolved :=
          dset (rr_resolved r) norm (RhoaiPackage (rm_version m) (rm_platforms m))\<rparr>) \<or>
     choose_pypi web norm (r\<lparr>rr_rhoai := idx, rr_net := n\<rparr>) = (v, r')"
proof -
  obtain idx n found where f:
      "rhoai_find_best web norm (constraint_of r norm) (rr_rhoai r, rr_net r) = ((idx, n), found)"
    by (metis surj_pair)
  let ?r = "r\<lparr>rr_rhoai := idx, rr_net := n\<rparr>"
  have c: "(case found of
               Inl e \<Rightarrow> (None, ?r\<lparr>rr_error := Some e\<rparr>)
             | Inr (Some m) \<Rightarrow>
                 (Some (rm_version m),
                  ?r\<lparr>rr_resolved := dset (rr_resolved ?r) norm (RhoaiPackage (rm_version m) (rm_platforms m))\<rparr>)
             | Inr None \<Rightarrow> choose_pypi web norm ?r) = (v, r')"
    using assms unfolding choose_package_def f prod.case Let_def .
  consider e where "found = Inl e" | "found = Inr None" | m where "found = Inr (Some m)"
    by (cases found; cases "projr found") auto
  then show ?thesis by cases (use c in \<open>auto intro!: that [OF f]\<close>)
qed

lemma choose_pypi_bounded:
  assumes "choose_pypi web norm r = (v, r')" "bounded python V N r" "served_versions web \<subseteq> V"
  shows "bounded python V N r'" "rr_queue r' = rr_queue r" "rr_visited r' = rr_visited r"
    "\<And>version. v = Some version \<Longrightarrow> version \<in> V"
proof -
  obtain pc n found where f:
    "pypi_find_best web norm (constraint_of r norm) (rr_pypi r, rr_net r) = ((pc, n), found)"
    and r': "(v = None \<and> (\<exists>e. r' = r\<lparr>rr_pypi := pc, rr_net := n, rr_error := Some e\<rparr>)) \<or>
     (\<exists>version rel fallback. found = Inr (Some (version, rel)) \<and> v = Some version \<and> has_key fallback norm \<and>
        (\<forall>k. has_key (rr_fallback r) k \<longrightarrow> has_key fallback k) \<and>
        r' = r\<lparr>rr_pypi := pc, rr_net := n, rr_fallback := fallback,
              rr_resolved := dset (rr_resolved r) norm (PypiPackage version rel)\<rparr>)"
    by (rule choose_pypi_effect [OF assms(1)])
  have "inner_keys (pc_info (rr_pypi r)) \<subseteq> V" using assms(2) by (simp add: bounded_def)
  then have keys: "inner_keys (pc_info pc) \<subseteq> V"
    using assms(3) by (intro order_trans [OF pypi_find_best_effect(1) [OF f]] Un_least)
  have same: "pc_requires pc = pc_requires (rr_pypi r)" "pc_python pc = pc_python (rr_pypi r)"
    using arg_cong [OF pypi_find_best_effect(2) [OF f], of pc_requires]
      arg_cong [OF pypi_find_best_effect(2) [OF f], of pc_python] by simp_all
  then have names: "cached_names pc = cached_names (rr_pypi r)" by (simp add: cached_names_def)
  from r' have q: "rr_queue r' = rr_queue r" "rr_visited r' = rr_visited r" "rr_rhoai r' = rr_rhoai r"
      "rr_pypi r' = pc" by auto
  then show "bounded python V N r'" "rr_queue r' = rr_queue r" "rr_visited r' = rr_visited r"
    using assms(2) keys same(2) names unfolding bounded_def by simp_all
  show "version \<in> V" if "v = Some version" for version
    using r' that pypi_find_best_effect(3) [OF f] keys by blast
qed

lemma choose_bounded:
  assumes "choose_package web norm r = (v, r')" "bounded python V N r" "served_versions web \<subseteq> V"
  shows "bounded python V N r'" "rr_queue r' = rr_queue r" "rr_visited r' = rr_visited r"
    "\<And>version. v = Some version \<Longrightarrow> version \<in> V"
proof -
  obtain idx n found where f:
    "rhoai_find_best web norm (constraint_of r norm) (rr_rhoai r, rr_net r) = ((idx, n), found)"
    and r': "(v = None \<and> (\<exists>e. r' = r\<lparr>rr_rhoai := idx, rr_net := n, rr_error := Some e\<rparr>)) \<or>
     (\<exists>m. found = Inr (Some m) \<and> v = Some (rm_version m) \<and>
        r' = r\<lparr>rr_rhoai := idx, rr_net := n, rr_resolved :=
          dset (rr_resolved r) norm (RhoaiPackage (rm_version m) (rm_platforms m))\<rparr>) \<or>
     choose_pypi web norm (r\<lparr>rr_rhoai := idx, rr_net := n\<rparr>) = (v, r')"
    by (rule choose_effect [OF assms(1)])
  have "inner_keys (ri_packages (rr_rhoai r)) \<subseteq> V" using assms(2) by (simp add: bounded_def)
  then have keys: "inner_keys (ri_packages idx) \<subseteq> V"
    using assms(3) by (intro order_trans [OF rhoai_find_best_versions(1) [OF f]] Un_least)
  then have b: "bounded python V N (r\<lparr>rr_rhoai := idx, rr_net := n\<rparr>)"
    using assms(2) unfolding bounded_def by simp
  from r' have "bounded python V N r' \<and> rr_queue r' = rr_queue r \<and> rr_visited r' = rr_visited r \<and>
    (\<forall>version. v = Some version \<longrightarrow> version \<in> V)"
  proof (elim disjE exE conjE)
    assume "choose_pypi web norm (r\<lparr>rr_rhoai := idx, rr_net := n\<rparr>) = (v, r')"
    from choose_pypi_bounded [OF this b assms(3)] show ?thesis by simp
  next
    fix m assume m: "found = Inr (Some m)" "v = Some (rm_version m)"
      "r' = r\<lparr>rr_rhoai := idx, rr_net := n, rr_resolved :=
          dset (rr_resolved r) norm (RhoaiPackage (rm_version m) (rm_platforms m))\<rparr>"
    have "rm_version m \<in> V" using rhoai_find_best_versions(2) [OF f m(1)] keys by blast
    then show ?thesis using b m(2) unfolding bounded_def m(3) by simp
  qed (use b in \<open>auto simp: bounded_def\<close>)
  then show "bounded python V N r'" "rr_queue r' = rr_queue r" "rr_visited r' = rr_visited r"
    "\<And>version. v = Some version \<Longrightarrow> version \<in> V" by simp_all
qed

lemma add_dependency_frame [simp]:
  "rr_rhoai (add_dependency d r) = rr_rhoai r" "rr_pypi (add_dependency d r) = rr_pypi r"
  "rr_visited (add_dependency d r) = rr_visited r" "rr_resolved (add_dependency d r) = rr_resolved r"
  "rr_error (add_dependency d r) = rr_error r" "rr_fallback (add_dependency d r) = rr_fallback r"
  by (simp_all add: add_dependency_def Let_def)

lemma fold_add_frame [simp]:
  "rr_rhoai (fold add_dependency ds r) = rr_rhoai r" "rr_pypi (fold add_dependency ds r) = rr_pypi r"
  "rr_visited (fold add_dependency ds r) = rr_visited r" "rr_resolved (fold add_dependency ds r) = rr_resolved r"
  "rr_error (fold add_dependency ds r) = rr_error r" "rr_fallback (fold add_dependency ds r) = rr_fallback r"
  by (induction ds arbitrary: r) simp_all

lemma fold_add_names:
  "normalize_name ` fst ` set (rr_queue (fold add_dependency ds r)) =
     normalize_name ` fst ` set (rr_queue r) \<union> dep_names ds"
  by (induction ds arbitrary: r) (auto simp: add_dependency_def Let_def dep_names_def)

lemma expand_bounded:
  assumes "bounded python V N r" "served_names web python \<subseteq> N" "norm \<in> N" "version \<in> V"
  shows "bounded python V N (expand web norm version r)"
    and "expand web norm version r = r \<or>
      (visit_key norm version \<notin> set (rr_visited r) \<and>
       rr_visited (expand web norm version r) = visit_key norm version # rr_visited r)"
proof -
  obtain pc n deps where g: "get_requires_dist web norm version (rr_pypi r, rr_net r) = ((pc, n), deps)"
    by (metis surj_pair)
  let ?r = "r\<lparr>rr_visited := visit_key norm version # rr_visited r, rr_pypi := pc, rr_net := n\<rparr>"
  have e: "expand web norm version r =
    (if visit_key norm version \<in> set (rr_visited r) then r
     else case deps of Inl _ \<Rightarrow> ?r | Inr ds \<Rightarrow> fold add_dependency ds ?r)"
    by (simp add: expand_def g Let_def split: sum.split)
  have python: "pc_python (rr_pypi r) = python" and "cached_names (rr_pypi r) \<subseteq> N"
    using assms(1) by (simp_all add: bounded_def)
  then have names: "cached_names pc \<subseteq> N"
    using assms(2) by (intro order_trans [OF get_requires_names(2) [OF g]]) simp
  have same: "pc_info pc = pc_info (rr_pypi r)" "pc_python pc = pc_python (rr_pypi r)"
    using arg_cong [OF get_requires_names(1) [OF g], of pc_info]
      arg_cong [OF get_requires_names(1) [OF g], of pc_python] by simp_all
  have b: "bounded python V N ?r"
    using assms(1,3,4) names same unfolding bounded_def by auto
  have "bounded python V N (fold add_dependency ds ?r)" if "deps = Inr ds" for ds
    using b order_trans [OF get_requires_names(3) [OF g that] names]
    unfolding bounded_def fold_add_names by simp
  with b assms(1) show "bounded python V N (expand web norm version r)"
    unfolding e by (cases deps) simp_all
  show "expand web norm version r = r \<or>
      (visit_key norm version \<notin> set (rr_visited r) \<and>
       rr_visited (expand web norm version r) = visit_key norm version # rr_visited r)"
    unfolding e by (cases deps) simp_all
qed

lemma step_bounded:
  assumes "bounded python V N r" "walking r" "served_versions web \<subseteq> V" "served_names web python \<subseteq> N"
  shows "bounded python V N (resolve_step web r)"
    and "(rr_visited (resolve_step web r) = rr_visited r \<and>
          length (rr_queue (resolve_step web r)) < length (rr_queue r)) \<or>
         (\<exists>key. key \<notin> set (rr_visited r) \<and> rr_visited (resolve_step web r) = key # rr_visited r)"
proof -
  let ?norm = "normalize_name (fst (hd (rr_queue r)))"
  obtain dep q where q: "rr_queue r = dep # q" using assms(2) by (cases "rr_queue r") (auto simp: walking_def)
  have N: "?norm \<in> N" using assms(1) q by (simp add: bounded_def)
  let ?r = "r\<lparr>rr_queue := q\<rparr>"
  have b: "bounded python V N ?r" using assms(1) q by (auto simp: bounded_def)
  obtain settled r1 where r1: "recheck (pep web) ?norm ?r = (settled, r1)"
    by (cases "recheck (pep web) ?norm ?r")
  have b1: "bounded python V N r1" "rr_queue r1 = q" "rr_visited r1 = rr_visited r"
    by (rule recheck_frame [OF r1], use b in \<open>simp add: bounded_def\<close>)+
  obtain v r2 where r2: "choose_package web ?norm r1 = (v, r2)" by (cases "choose_package web ?norm r1")
  have b2: "bounded python V N r2" "rr_queue r2 = q" "rr_visited r2 = rr_visited r"
    using choose_bounded [OF r2 b1(1) assms(3)] b1 by simp_all
  have s: "resolve_step web r = (if settled then r1 else case v of None \<Rightarrow> r2
      | Some version \<Rightarrow> expand web ?norm version r2)"
    using r1 r2 by (simp add: resolve_step_def q Let_def split: option.split)
  have V: "v = Some version \<Longrightarrow> version \<in> V" for version by (rule choose_bounded(4) [OF r2 b1(1) assms(3)])
  note ex = expand_bounded [OF b2(1) assms(4) N V]
  show "bounded python V N (resolve_step web r)"
    unfolding s using b1(1) b2(1) ex(1) by (cases v) simp_all
  have "expand web ?norm version r2 = r2 \<or> (\<exists>key. key \<notin> set (rr_visited r) \<and>
      rr_visited (expand web ?norm version r2) = key # rr_visited r)" if "v = Some version" for version
    using ex(2) [OF that] b2(3) by auto
  then show "(rr_visited (resolve_step web r) = rr_visited r \<and>
        length (rr_queue (resolve_step web r)) < length (rr_queue r)) \<or>
       (\<exists>key. key \<notin> set (rr_visited r) \<and> rr_visited (resolve_step web r) = key # rr_visited r)"
    unfolding s using b1(2,3) b2(2,3) q by (cases v) auto
qed

definition direct_names :: "(pystr \<times> pystr) list \<Rightarrow> pystr set" where
  "direct_names direct = normalize_name ` fst ` set direct"

lemma fold_enqueue_frame [simp]:
  "rr_rhoai (fold enqueue_direct ds r) = rr_rhoai r" "rr_pypi (fold enqueue_direct ds r) = rr_pypi r"
  "rr_visited (fold enqueue_direct ds r) = rr_visited r" "rr_resolved (fold enqueue_direct ds r) = rr_resolved r"
  "rr_error (fold enqueue_direct ds r) = rr_error r" "rr_fallback (fold enqueue_direct ds r) = rr_fallback r"
  by (induction ds arbitrary: r) (simp_all add: enqueue_direct_def Let_def)

lemma fold_enqueue_names:
  "normalize_name ` fst ` set (rr_queue (fold enqueue_direct ds r)) =
     normalize_name ` fst ` set (rr_queue r) \<union> direct_names ds"
  by (induction ds arbitrary: r) (auto simp: enqueue_direct_def Let_def direct_names_def)

text \<open>
  C26. The walk ends: when the network serves only finitely many different pages, the resolver
  returns, with a resolution or an error, whatever the pages and the caches hold.
\<close>

theorem resolution_terminates:
  assumes "finite {page. served web page}"
  shows "\<exists>r result. resolve web direct idx pc n = Some (r, result)"
proof -
  let ?V = "universe_versions web idx pc" and ?N = "universe_names web pc \<union> direct_names direct"
  let ?K = "(\<lambda>(n, v). visit_key n v) ` (?N \<times> ?V)"
  let ?P = "bounded (pc_python pc) ?V ?N"
  have fin: "finite ?K" using universe_finite [OF assms] by (simp add: direct_names_def)
  have V: "served_versions web \<subseteq> ?V" by (auto simp: universe_versions_def served_versions_def)
  have N: "served_names web (pc_python pc) \<subseteq> ?N" by (auto simp: universe_names_def served_names_def)
  let ?m = "\<lambda>r. card (?K - set (rr_visited r))"
  have smaller: "(resolve_step web r, r) \<in> measures [?m, \<lambda>r. length (rr_queue r)]"
    if "?P r \<and> walking r" for r
  proof -
    note b = step_bounded [OF conjunct1 [OF that] conjunct2 [OF that] V N]
    from b(2) show ?thesis
    proof
      assume "\<exists>key. key \<notin> set (rr_visited r) \<and> rr_visited (resolve_step web r) = key # rr_visited r"
      then obtain key where key: "key \<notin> set (rr_visited r)" "rr_visited (resolve_step web r) = key # rr_visited r"
        by blast
      then have "key \<in> ?K" using b(1) by (simp add: bounded_def)
      then have "?K - set (rr_visited (resolve_step web r)) \<subset> ?K - set (rr_visited r)" using key by auto
      then show ?thesis using fin by (simp add: psubset_card_mono)
    qed simp
  qed
  have "?P (start_run direct idx pc n)"
    by (auto simp: start_run_def bounded_def fold_enqueue_names universe_versions_def universe_names_def
        cached_versions_def)
  then have "\<exists>r. while_option walking (resolve_step web) (start_run direct idx pc n) = Some r"
    using smaller step_bounded(1) [OF _ _ V N]
    by (intro wf_rel_while_option_Some [where P = ?P, OF wf_measures]) (blast, blast, assumption)
  then obtain r where "while_option walking (resolve_step web) (start_run direct idx pc n) = Some r" ..
  then show ?thesis by (simp add: resolve_def)
qed

section \<open>What a resolution guarantees\<close>

text \<open>A specification is one of the comma-separated parts of a constraint, or several in a row.\<close>

definition carries :: "pystr \<Rightarrow> pystr \<Rightarrow> bool" where
  "carries c spec \<longleftrightarrow> (\<exists>pre post. c = pre @ spec @ post \<and> (pre = [] \<or> last pre = 44) \<and> (post = [] \<or> hd post = 44))"

lemma carries_merged: "carries (merge_constraints old new) new"
proof (cases "truthy_str old")
  case True
  then have "merge_constraints old new = (the old @ S '','') @ new @ []" by (simp add: merge_constraints_def)
  moreover have "last (the old @ S '','') = 44" by (simp add: S_def)
  ultimately show ?thesis unfolding carries_def by blast
next
  case False
  then have "merge_constraints old new = [] @ new @ []" by (simp add: merge_constraints_def)
  then show ?thesis unfolding carries_def by blast
qed

lemma carries_merge:
  assumes "carries c spec" "spec \<noteq> []"
  shows "carries (merge_constraints (Some c) new) spec"
proof -
  obtain pre post where c: "c = pre @ spec @ post" "pre = [] \<or> last pre = 44" "post = [] \<or> hd post = 44"
    using assms(1) by (auto simp: carries_def)
  then have "merge_constraints (Some c) new = pre @ spec @ (post @ S '','' @ new)"
    using assms(2) by (simp add: merge_constraints_def)
  moreover have "hd (post @ S '','' @ new) = 44" using c(3) by (cases post) (simp_all add: S_def)
  ultimately show ?thesis using c(2) unfolding carries_def by blast
qed

definition queued :: "'n resolver_run \<Rightarrow> pystr set" where
  "queued r = normalize_name ` fst ` set (rr_queue r)"

text \<open>The invariants of the walk; the sets exempt the name that a step is working on.\<close>

definition settled_or_queued :: "packaging \<Rightarrow> pystr set \<Rightarrow> 'n resolver_run \<Rightarrow> bool" where
  "settled_or_queued P X r \<longleftrightarrow>
     (\<forall>norm pk. dget (rr_resolved r) norm = Some pk \<longrightarrow>
        version_satisfies P (package_version pk) (constraint_of r norm) \<or> norm \<in> queued r \<union> X) \<and>
     (\<forall>norm. has_key (rr_constraints r) norm \<longrightarrow> has_key (rr_resolved r) norm \<or> norm \<in> queued r \<union> X)"

definition deps_required :: "(pystr \<times> pystr) list \<Rightarrow> 'n resolver_run \<Rightarrow> bool" where
  "deps_required deps r \<longleftrightarrow>
     (\<forall>(d, spec) \<in> set deps. has_key (rr_constraints r) (normalize_name d) \<and>
        (spec \<noteq> [] \<longrightarrow> carries (constraint_of r (normalize_name d)) spec))"

definition requirements_kept :: "'n resolver_run \<Rightarrow> bool" where
  "requirements_kept r \<longleftrightarrow>
     (\<forall>key \<in> set (rr_visited r). \<forall>deps. dget (pc_requires (rr_pypi r)) key = Some deps \<longrightarrow> deps_required deps r)"

definition all_visited :: "pystr set \<Rightarrow> 'n resolver_run \<Rightarrow> bool" where
  "all_visited Y r \<longleftrightarrow>
     (\<forall>norm pk. dget (rr_resolved r) norm = Some pk \<longrightarrow>
        visit_key norm (package_version pk) \<in> set (rr_visited r) \<or> norm \<in> Y)"

definition sourced :: "'n resolver_run \<Rightarrow> bool" where
  "sourced r \<longleftrightarrow> index_fits (rr_rhoai r) \<and>
     (\<forall>norm v rel. dget (rr_resolved r) norm = Some (PypiPackage v rel) \<longrightarrow> has_key (rr_fallback r) norm) \<and>
     (\<forall>norm v fs. dget (rr_resolved r) norm = Some (RhoaiPackage v fs) \<longrightarrow> files_fit (rr_rhoai r) fs)"

definition walk_ok :: "packaging \<Rightarrow> pystr set \<Rightarrow> pystr set \<Rightarrow> 'n resolver_run \<Rightarrow> bool" where
  "walk_ok P X Y r \<longleftrightarrow>
     settled_or_queued P X r \<and> requirements_kept r \<and> all_visited Y r \<and> sourced r"

lemmas walk_defs = walk_ok_def settled_or_queued_def requirements_kept_def deps_required_def
  all_visited_def sourced_def queued_def constraint_of_def

text \<open>Constraints only grow.\<close>

definition grows :: "'n resolver_run \<Rightarrow> 'n resolver_run \<Rightarrow> bool" where
  "grows r r' \<longleftrightarrow>
     (\<forall>k. has_key (rr_constraints r) k \<longrightarrow> has_key (rr_constraints r') k \<and>
        (\<forall>spec. spec \<noteq> [] \<longrightarrow> carries (constraint_of r k) spec \<longrightarrow> carries (constraint_of r' k) spec))"

lemma grows_trans: "grows a b \<Longrightarrow> grows b c \<Longrightarrow> grows a c"
  unfolding grows_def by blast

lemma deps_required_grows: "deps_required deps r \<Longrightarrow> grows r r' \<Longrightarrow> deps_required deps r'"
  unfolding deps_required_def grows_def by blast

lemma constraint_of_Some: "dget (rr_constraints r) k = Some c \<Longrightarrow> constraint_of r k = c"
  by (simp add: constraint_of_def)

lemma add_dependency_grows: "grows r (add_dependency d r)"
  using carries_merge
  by (auto simp: grows_def add_dependency_def Let_def constraint_of_def split: option.splits)

lemma fold_add_grows: "grows r (fold add_dependency ds r)"
proof (induction ds arbitrary: r)
  case (Cons d ds)
  show ?case using grows_trans [OF add_dependency_grows Cons] by simp
qed (simp add: grows_def)

lemma add_dependency_required: "deps_required [d] (add_dependency d r)"
  using carries_merged
  by (cases d) (auto simp: deps_required_def add_dependency_def Let_def constraint_of_def split: option.splits)

lemma fold_add_required: "deps_required ds (fold add_dependency ds r)"
proof (induction ds arbitrary: r)
  case (Cons d ds)
  have "deps_required [d] (fold add_dependency ds (add_dependency d r))"
    by (rule deps_required_grows [OF add_dependency_required fold_add_grows])
  with Cons [of "add_dependency d r"] show ?case by (simp add: deps_required_def)
qed (simp add: deps_required_def)

lemma add_dependency_settled:
  assumes "settled_or_queued P X r" shows "settled_or_queued P X (add_dependency d r)"
proof -
  let ?n = "normalize_name (fst d)" and ?r = "add_dependency d r"
  have q: "queued ?r = insert ?n (queued r)"
    by (auto simp: queued_def add_dependency_def Let_def)
  have other: "constraint_of ?r k = constraint_of r k" "has_key (rr_constraints ?r) k = has_key (rr_constraints r) k"
    if "k \<noteq> ?n" for k
    using that by (simp_all add: constraint_of_def add_dependency_def Let_def)
  show ?thesis
    using assms other unfolding settled_or_queued_def q add_dependency_frame by (metis UnI1 UnI2 Un_iff insertCI)
qed

lemma fold_add_settled: "settled_or_queued P X r \<Longrightarrow> settled_or_queued P X (fold add_dependency ds r)"
  by (induction ds arbitrary: r) (simp_all add: add_dependency_settled)

lemma pop_ok:
  assumes "walk_ok P {} {} r" "rr_queue r = dep # q"
  shows "walk_ok P {normalize_name (fst dep)} {} (r\<lparr>rr_queue := q\<rparr>)"
  using assms by (auto simp: walk_defs)

lemma settle_one:
  assumes "settled_or_queued P {norm} r" "dget (rr_resolved r) norm = Some pk"
    and "version_satisfies P (package_version pk) (constraint_of r norm)"
  shows "settled_or_queued P {} r"
  using assms unfolding settled_or_queued_def by (metis Un_iff empty_iff insert_iff not_None_eq option.inject)

lemma visit_one:
  assumes "all_visited {norm} r" "dget (rr_resolved r) norm = Some pk"
    and "visit_key norm (package_version pk) \<in> set (rr_visited r)"
  shows "all_visited {} r"
  using assms unfolding all_visited_def by (metis option.inject singletonD)

lemma recheck_ok:
  assumes "walk_ok P {norm} {} r" "recheck P norm r = (settled, r')" "rr_error r' = None"
  shows "if settled then walk_ok P {} {} r' else walk_ok P {norm} {} r' \<and> \<not> has_key (rr_resolved r') norm"
proof (cases "dget (rr_resolved r) norm")
  case (Some pk)
  consider "version_satisfies P (package_version pk) (constraint_of r norm)" "settled" "r' = r"
    | fb where "\<not> settled" "r' = r\<lparr>rr_resolved := ddel (rr_resolved r) norm, rr_fallback := fb\<rparr>"
        "\<And>k. has_key (rr_fallback r) k \<Longrightarrow> has_key fb k"
    using assms(2,3) Some by (auto simp: recheck_def Let_def split: if_splits)
  then show ?thesis
  proof cases
    case 1
    then show ?thesis using assms(1) Some settle_one unfolding walk_ok_def by auto
  next
    case 2
    have "walk_ok P {norm} {} r'"
      using assms(1) 2(3) unfolding 2(2) walk_ok_def
      by (auto simp: settled_or_queued_def requirements_kept_def deps_required_def all_visited_def
          sourced_def queued_def constraint_of_def)
    with 2 show ?thesis by simp
  qed
qed (use assms in \<open>auto simp: recheck_def\<close>)

text \<open>Taking a package that fits its constraint settles the name, up to its visit.\<close>

lemma take_ok:
  assumes "walk_ok P {norm} {} r" "\<not> has_key (rr_resolved r) norm"
    and "version_satisfies P (package_version pk) (constraint_of r norm)"
    and r': "r' = r\<lparr>rr_rhoai := idx, rr_pypi := pc, rr_net := n, rr_fallback := fb,
       rr_resolved := dset (rr_resolved r) norm pk\<rparr>"
    and "index_fits idx" "ri_platforms idx = ri_platforms (rr_rhoai r)"
    and "pc_requires pc = pc_requires (rr_pypi r)"
    and "\<And>k. has_key (rr_fallback r) k \<Longrightarrow> has_key fb k"
    and "\<And>v rel. pk = PypiPackage v rel \<Longrightarrow> has_key fb norm"
    and "\<And>v fs. pk = RhoaiPackage v fs \<Longrightarrow> files_fit idx fs"
  shows "walk_ok P {} {norm} r'"
proof -
  have c: "constraint_of r' = constraint_of r" by (simp add: r' constraint_of_def fun_eq_iff)
  have fits: "files_fit idx = files_fit (rr_rhoai r)"
    using assms(6) by (simp add: files_fit_def target_platforms_def fun_eq_iff)
  have "settled_or_queued P {} r'"
    using assms(1,3) unfolding walk_ok_def settled_or_queued_def c
    by (auto simp: r' queued_def)
  moreover have "requirements_kept r'"
    using assms(1,7) unfolding walk_ok_def requirements_kept_def deps_required_def c by (simp add: r')
  moreover have "all_visited {norm} r'"
    using assms(1) unfolding walk_ok_def all_visited_def by (simp add: r')
  moreover have "sourced r'"
    using assms(1,5,8,9,10) fits unfolding walk_ok_def sourced_def by (auto simp: r')
  ultimately show ?thesis by (simp add: walk_ok_def)
qed

lemma choose_pypi_ok:
  assumes "walk_ok P {norm} {} r" "\<not> has_key (rr_resolved r) norm" "P = pep web"
    and "choose_pypi web norm r = (v, r')" "rr_error r' = None" "rr_error r = None"
  shows "\<exists>version pk. v = Some version \<and> walk_ok P {} {norm} r' \<and>
    dget (rr_resolved r') norm = Some pk \<and> package_version pk = version"
proof -
  obtain pc n found where f:
    "pypi_find_best web norm (constraint_of r norm) (rr_pypi r, rr_net r) = ((pc, n), found)"
    and e: "(v = None \<and> (\<exists>e. r' = r\<lparr>rr_pypi := pc, rr_net := n, rr_error := Some e\<rparr>)) \<or>
     (\<exists>version rel fallback. found = Inr (Some (version, rel)) \<and> v = Some version \<and> has_key fallback norm \<and>
        (\<forall>k. has_key (rr_fallback r) k \<longrightarrow> has_key fallback k) \<and>
        r' = r\<lparr>rr_pypi := pc, rr_net := n, rr_fallback := fallback,
              rr_resolved := dset (rr_resolved r) norm (PypiPackage version rel)\<rparr>)"
    by (rule choose_pypi_effect [OF assms(4)])
  from e show ?thesis
  proof (elim disjE exE conjE)
    fix version rel fb
    assume a: "found = Inr (Some (version, rel))" "v = Some version" "has_key fb norm"
      "\<forall>k. has_key (rr_fallback r) k \<longrightarrow> has_key fb k"
      "r' = r\<lparr>rr_pypi := pc, rr_net := n, rr_fallback := fb,
              rr_resolved := dset (rr_resolved r) norm (PypiPackage version rel)\<rparr>"
    have sat: "version_satisfies P version (constraint_of r norm)"
      using pypi_find_best_effect(3) [OF f a(1)] assms(3) by simp
    have fits: "index_fits (rr_rhoai r)" using assms(1) by (simp add: walk_ok_def sourced_def)
    have requires: "pc_requires pc = pc_requires (rr_pypi r)"
      using arg_cong [OF pypi_find_best_effect(2) [OF f], of pc_requires] by simp
    have "walk_ok P {} {norm} r'"
      by (rule take_ok [OF assms(1,2), where pk = "PypiPackage version rel" and idx = "rr_rhoai r"
            and pc = pc and n = n and fb = fb])
        (use a sat fits requires in simp_all)
    then show ?thesis using a by simp
  qed (use assms(5) in simp)
qed

lemma choose_ok:
  assumes "walk_ok P {norm} {} r" "\<not> has_key (rr_resolved r) norm" "P = pep web"
    and "choose_package web norm r = (v, r')" "rr_error r' = None" "rr_error r = None"
  shows "\<exists>version pk. v = Some version \<and> walk_ok P {} {norm} r' \<and>
    dget (rr_resolved r') norm = Some pk \<and> package_version pk = version"
proof -
  obtain idx n found where f:
    "rhoai_find_best web norm (constraint_of r norm) (rr_rhoai r, rr_net r) = ((idx, n), found)"
    and e: "(v = None \<and> (\<exists>e. r' = r\<lparr>rr_rhoai := idx, rr_net := n, rr_error := Some e\<rparr>)) \<or>
     (\<exists>m. found = Inr (Some m) \<and> v = Some (rm_version m) \<and>
        r' = r\<lparr>rr_rhoai := idx, rr_net := n, rr_resolved :=
          dset (rr_resolved r) norm (RhoaiPackage (rm_version m) (rm_platforms m))\<rparr>) \<or>
     choose_pypi web norm (r\<lparr>rr_rhoai := idx, rr_net := n\<rparr>) = (v, r')"
    by (rule choose_effect [OF assms(4)])
  have fits0: "index_fits (rr_rhoai r)" using assms(1) by (simp add: walk_ok_def sourced_def)
  have fits: "index_fits idx" and same: "idx\<lparr>ri_packages := ri_packages (rr_rhoai r)\<rparr> = rr_rhoai r"
    using rhoai_find_best_fits [OF fits0 f] by simp_all
  have plat: "ri_platforms idx = ri_platforms (rr_rhoai r)" using arg_cong [OF same, of ri_platforms] by simp
  have ff: "files_fit idx = files_fit (rr_rhoai r)"
    by (simp add: plat files_fit_def target_platforms_def fun_eq_iff)
  from e show ?thesis
  proof (elim disjE exE conjE)
    fix m assume m: "found = Inr (Some m)" "v = Some (rm_version m)"
      "r' = r\<lparr>rr_rhoai := idx, rr_net := n, rr_resolved :=
          dset (rr_resolved r) norm (RhoaiPackage (rm_version m) (rm_platforms m))\<rparr>"
    note found = rhoai_find_best_Some [OF fits0 f [unfolded m(1)]]
    have "walk_ok P {} {norm} r'"
      by (rule take_ok [OF assms(1,2), where pk = "RhoaiPackage (rm_version m) (rm_platforms m)"
            and idx = idx and pc = "rr_pypi r" and n = n and fb = "rr_fallback r"])
        (use m(3) found assms(3) fits plat ff in simp_all)
    then show ?thesis using m by simp
  next
    assume c: "choose_pypi web norm (r\<lparr>rr_rhoai := idx, rr_net := n\<rparr>) = (v, r')"
    have "walk_ok P {norm} {} (r\<lparr>rr_rhoai := idx, rr_net := n\<rparr>)"
      using assms(1) fits ff unfolding walk_ok_def
      by (auto simp: settled_or_queued_def requirements_kept_def deps_required_def all_visited_def
          sourced_def queued_def constraint_of_def)
    from choose_pypi_ok [OF this _ assms(3) c assms(5)] show ?thesis using assms(2,6) by simp
  qed (use assms(5) in simp)
qed

lemma expand_ok:
  assumes "walk_ok P {} {norm} r" "dget (rr_resolved r) norm = Some pk" "package_version pk = version"
    and "normalize_name norm = norm"
  shows "walk_ok P {} {} (expand web norm version r)"
proof -
  obtain pc n deps where g: "get_requires_dist web norm version (rr_pypi r, rr_net r) = ((pc, n), deps)"
    by (metis surj_pair)
  let ?key = "visit_key norm version"
  let ?r = "r\<lparr>rr_visited := ?key # rr_visited r, rr_pypi := pc, rr_net := n\<rparr>"
  have e: "expand web norm version r =
    (if ?key \<in> set (rr_visited r) then r
     else case deps of Inl _ \<Rightarrow> ?r | Inr ds \<Rightarrow> fold add_dependency ds ?r)"
    by (simp add: expand_def g Let_def split: sum.split)
  show ?thesis
  proof (cases "?key \<in> set (rr_visited r)")
    case True
    with assms(1-3) show ?thesis unfolding e walk_ok_def using visit_one by auto
  next
    case False
    have cached: "dget (pc_requires pc) k = (if k = ?key then (case deps of Inl _ \<Rightarrow> None | Inr ds \<Rightarrow> Some ds)
        else dget (pc_requires (rr_pypi r)) k)" for k
      by (rule get_requires_effect [OF g]) (auto simp: assms(4) split: sum.split)
    have settled: "settled_or_queued P {} ?r"
      using assms(1) by (simp add: walk_ok_def settled_or_queued_def queued_def constraint_of_def)
    have "all_visited {norm} ?r" using assms(1) by (auto simp: walk_ok_def all_visited_def)
    then have visited: "all_visited {} ?r" by (rule visit_one [where pk = pk]) (simp_all add: assms(2,3))
    have src: "sourced ?r" using assms(1) by (simp add: walk_ok_def sourced_def)
    have old: "deps_required ds ?r" if key: "key \<in> set (rr_visited r)" "dget (pc_requires pc) key = Some ds" for key ds
    proof -
      have "dget (pc_requires (rr_pypi r)) key = Some ds"
        using key cached [of key] False by (cases "key = ?key") simp_all
      then have "deps_required ds r" using assms(1) key(1) by (simp add: walk_ok_def requirements_kept_def)
      then show ?thesis by (rule deps_required_grows) (simp add: grows_def constraint_of_def)
    qed
    have "walk_ok P {} {} (case deps of Inl _ \<Rightarrow> ?r | Inr ds \<Rightarrow> fold add_dependency ds ?r)"
    proof (cases deps)
      case (Inl x)
      have "requirements_kept ?r"
        unfolding requirements_kept_def using old cached [of ?key] Inl by auto
      with settled visited src Inl show ?thesis by (simp add: walk_ok_def)
    next
      case (Inr ds)
      let ?f = "fold add_dependency ds ?r"
      have "requirements_kept ?f"
        unfolding requirements_kept_def fold_add_frame
        using deps_required_grows [OF old fold_add_grows] fold_add_required [of ds ?r] cached [of ?key] Inr by auto
      moreover have "all_visited {} ?f" "sourced ?f"
        using visited src by (simp_all add: all_visited_def sourced_def)
      ultimately show ?thesis using fold_add_settled [OF settled] Inr by (simp add: walk_ok_def)
    qed
    with False show ?thesis unfolding e by simp
  qed
qed

lemma expand_error [simp]: "rr_error (expand web norm version r) = rr_error r"
  by (simp add: expand_def Let_def split: prod.split sum.split)

lemma expand_grows: "grows r (expand web norm version r)"
proof -
  have "grows r (fold add_dependency ds (r\<lparr>rr_visited := vs, rr_pypi := pc, rr_net := n\<rparr>))" for ds vs pc n
    by (rule grows_trans [OF _ fold_add_grows]) (simp add: grows_def constraint_of_def)
  moreover have "grows r (r\<lparr>rr_visited := vs, rr_pypi := pc, rr_net := n\<rparr>)" "grows r r" for vs pc n
    by (simp_all add: grows_def constraint_of_def)
  ultimately show ?thesis by (simp add: expand_def Let_def split: prod.split sum.split)
qed

lemma same_constraints_grow: "rr_constraints r' = rr_constraints r \<Longrightarrow> grows r r'"
  by (simp add: grows_def constraint_of_def)

lemma choose_constraints: "choose_package web norm r = (v, r') \<Longrightarrow> rr_constraints r' = rr_constraints r"
  by (erule choose_effect, elim disjE) (auto elim!: choose_pypi_effect)

lemma step_ok:
  assumes "walk_ok (pep web) {} {} r" "walking r" "rr_error (resolve_step web r) = None"
  shows "walk_ok (pep web) {} {} (resolve_step web r) \<and> grows r (resolve_step web r)"
proof -
  obtain dep q where q: "rr_queue r = dep # q" "rr_error r = None"
    using assms(2) by (cases "rr_queue r") (auto simp: walking_def)
  let ?norm = "normalize_name (fst dep)" and ?r = "r\<lparr>rr_queue := q\<rparr>"
  obtain settled r1 where r1: "recheck (pep web) ?norm ?r = (settled, r1)"
    by (cases "recheck (pep web) ?norm ?r")
  obtain v r2 where r2: "choose_package web ?norm r1 = (v, r2)" by (cases "choose_package web ?norm r1")
  have s: "resolve_step web r = (if settled then r1 else case v of None \<Rightarrow> r2
      | Some version \<Rightarrow> expand web ?norm version r2)"
    using r1 r2 by (simp add: resolve_step_def q Let_def split: option.split)
  have c1: "rr_constraints r1 = rr_constraints r" by (rule recheck_frame [OF r1]) simp
  have c2: "rr_constraints r2 = rr_constraints r" using choose_constraints [OF r2] c1 by simp
  have e1: "rr_error r1 = None"
  proof (cases settled)
    case False
    then show ?thesis using r1 q(2) by (auto simp: recheck_def Let_def split: option.splits if_splits)
  qed (use assms(3) s in simp)
  note ok1 = recheck_ok [OF pop_ok [OF assms(1) q(1)] r1 e1]
  show ?thesis
  proof (cases settled)
    case True
    then show ?thesis using ok1 same_constraints_grow [OF c1] by (simp add: s)
  next
    case False
    have e2: "rr_error r2 = None" using assms(3) False by (cases v) (simp_all add: s)
    obtain version pk where ok2: "v = Some version" "walk_ok (pep web) {} {?norm} r2"
        "dget (rr_resolved r2) ?norm = Some pk" "package_version pk = version"
      using choose_ok [OF _ _ refl r2 e2 e1] ok1 False by auto
    have "walk_ok (pep web) {} {} (expand web ?norm version r2)"
      by (rule expand_ok [OF ok2(2,3,4)]) simp
    moreover have "grows r (expand web ?norm version r2)"
      by (rule grows_trans [OF same_constraints_grow [OF c2] expand_grows])
    ultimately show ?thesis using False ok2(1) by (simp add: s)
  qed
qed

lemma enqueue_grows: "grows r (enqueue_direct d r)"
  using carries_merge
  by (auto simp: grows_def enqueue_direct_def Let_def constraint_of_def split: option.splits)

lemma fold_enqueue_grows: "grows r (fold enqueue_direct ds r)"
proof (induction ds arbitrary: r)
  case (Cons d ds)
  show ?case using grows_trans [OF enqueue_grows Cons] by simp
qed (simp add: grows_def)

lemma fold_enqueue_required: "deps_required ds (fold enqueue_direct ds r)"
proof (induction ds arbitrary: r)
  case (Cons d ds)
  have "deps_required [d] (enqueue_direct d r)"
    using carries_merged
    by (cases d) (auto simp: deps_required_def enqueue_direct_def Let_def constraint_of_def split: option.splits)
  then have "deps_required [d] (fold enqueue_direct ds (enqueue_direct d r))"
    by (rule deps_required_grows [OF _ fold_enqueue_grows])
  with Cons [of "enqueue_direct d r"] show ?case by (simp add: deps_required_def)
qed (simp add: deps_required_def)

lemma fold_enqueue_queued:
  "has_key (rr_constraints (fold enqueue_direct ds r)) k \<Longrightarrow>
   has_key (rr_constraints r) k \<or> k \<in> queued (fold enqueue_direct ds r)"
  by (induction ds arbitrary: r)
    (force simp: enqueue_direct_def Let_def queued_def fold_enqueue_names direct_names_def split: if_splits)+

lemma start_queued: "has_key (rr_constraints (start_run direct idx pc n)) k \<Longrightarrow> k \<in> queued (start_run direct idx pc n)"
  unfolding start_run_def by (drule fold_enqueue_queued) simp

lemma start_ok: "index_fits idx \<Longrightarrow> walk_ok P {} {} (start_run direct idx pc n)"
  using start_queued [of direct idx pc n]
  by (simp add: walk_ok_def settled_or_queued_def)
    (simp add: start_run_def requirements_kept_def all_visited_def sourced_def)

text \<open>A requirement is met: its package is resolved, at a version that satisfies a constraint with it.\<close>

definition met :: "packaging \<Rightarrow> 'n resolver_run \<Rightarrow> pystr \<times> pystr \<Rightarrow> bool" where
  "met P r dep \<longleftrightarrow>
     (case dget (rr_resolved r) (normalize_name (fst dep)) of
        None \<Rightarrow> False
      | Some pk \<Rightarrow>
          version_satisfies P (package_version pk) (constraint_of r (normalize_name (fst dep))) \<and>
          (snd dep = [] \<or> carries (constraint_of r (normalize_name (fst dep))) (snd dep)))"

lemma met_at_end:
  assumes "settled_or_queued P {} r" "rr_queue r = []" "deps_required deps r" "d \<in> set deps"
  shows "met P r d"
proof -
  obtain name spec where d: "d = (name, spec)" by (cases d)
  have k: "has_key (rr_constraints r) (normalize_name name)"
    "spec \<noteq> [] \<Longrightarrow> carries (constraint_of r (normalize_name name)) spec"
    using assms(3,4) by (auto simp: deps_required_def d)
  then obtain pk where "dget (rr_resolved r) (normalize_name name) = Some pk"
    using assms(1,2) by (auto simp: settled_or_queued_def queued_def)
  then show ?thesis
    using assms(1,2) k(2) by (auto simp: met_def d settled_or_queued_def queued_def)
qed

text \<open>The requirements that were read of a version; none where reading them failed.\<close>

definition read_requirements :: "'n resolver_run \<Rightarrow> pystr \<Rightarrow> pystr \<Rightarrow> (pystr \<times> pystr) list" where
  "read_requirements r norm version =
     (case dget (pc_requires (rr_pypi r)) (visit_key norm version) of None \<Rightarrow> [] | Some deps \<Rightarrow> deps)"

definition well_sourced :: "'n resolver_run \<Rightarrow> pystr \<times> package \<Rightarrow> bool" where
  "well_sourced r entry \<longleftrightarrow>
     (case snd entry of
        RhoaiPackage _ fs \<Rightarrow> files_fit (rr_rhoai r) fs
      | PypiPackage _ _ \<Rightarrow> has_key (rr_fallback r) (fst entry))"



section \<open>A resolution\<close>

text \<open>A small network: RHOAI has \<open>foo\<close>, which needs \<open>bar\<close>, which only PyPI has.\<close>

definition sample_pages :: "(pystr \<times> pystr) list" where
  "sample_pages =
     [(S ''https://packages.redhat.com/api/pypi/public-rhai/rhoai/3.0/cpu-ubi9/simple/'', S ''foo''),
      (S ''https://packages.redhat.com/api/pypi/public-rhai/rhoai/3.0/cpu-ubi9/simple/foo/'',
       S ''foo-1.0-py3-none-any.whl#sha256=f00''),
      (S ''https://pypi.org/pypi/foo/1.0/json'', S ''{\"info\": {\"requires_dist\": [\"Bar>=1\"]}}''),
      (S ''https://pypi.org/simple/bar/'', S ''bar-2.tar.gz#sha256=ba7'')]"

definition sample_packaging :: packaging where
  "sample_packaging = \<lparr>version_text = Some, version_le = (\<lambda>a b. a \<le> b),
     specifier_has = (\<lambda>c v. Some ((starts_with c (S ''>='') \<and> drop 2 c \<le> v) \<or> c = S ''=='' @ v)),
     clause_admits = (\<lambda>_ _. True), parse_requirement = (\<lambda>_. None)\<rparr>"

definition sample_web :: "nat web" where
  "sample_web = \<lparr>http_get = (\<lambda>url n. (Suc n, case dget sample_pages url of
       None \<Rightarrow> Inl (Exn COSError (S ''404'')) | Some page \<Rightarrow> Inr page)),
     nap = (\<lambda>_ n. n),
     html_events = (\<lambda>page. [StartTag (S ''a'') [(S ''href'', Some page)],
       HtmlData (fst (partition_at 35 page)), EndTag (S ''a'')]),
     pep = sample_packaging, url_world = empty_world\<rparr>"

definition sample_index :: rhoai_index where
  "sample_index = \<lparr>ri_url = S ''https://packages.redhat.com/api/pypi/public-rhai/rhoai/3.0/cpu-ubi9/simple/'',
     ri_python = S ''3.12'', ri_platforms = [S ''x86_64''], ri_known = [S ''foo''], ri_packages = []\<rparr>"

definition sample_resolution :: "package dict" where
  "sample_resolution =
     [(S ''foo'', RhoaiPackage (S ''1.0'') [(S ''any'', S ''foo-1.0-py3-none-any.whl'', S ''f00'')]),
      (S ''bar'', PypiPackage (S ''2'') \<lparr>has_sdist = True, sdist_hashes = [S ''ba7''], wheel_hashes = [], wheel_files = []\<rparr>)]"

lemma sample_resolves:
  "map_option (\<lambda>x. (rr_fallback (fst x), snd x))
     (resolve sample_web [(S ''Foo'', S ''>=1'')] sample_index (new_pypi (S ''3.12'') [S ''x86_64'']) 0) =
   Some ([(S ''bar'', S ''not in RHOAI index'')], Inr sample_resolution)"
  by code_simp

lemma sample_index_fits: "index_fits sample_index"
  by (simp add: index_fits_def sample_index_def)

lemma sample_served: "finite {page. served sample_web page}"
proof -
  have "page \<in> snd ` set sample_pages" if page: "served sample_web page" for page
  proof -
    obtain url n n' where "http_get sample_web url n = (n', Inr page)"
      using page unfolding served_def by blast
    then have "dget sample_pages url = Some page"
      by (cases "dget sample_pages url") (simp_all add: sample_web_def)
    then show ?thesis using map_of_SomeD by force
  qed
  then have "{page. served sample_web page} \<subseteq> snd ` set sample_pages" by blast
  then show ?thesis by (rule finite_subset) simp
qed

lemma resolution_terminates_witness:
  "\<exists>r result. resolve sample_web [(S ''Foo'', S ''>=1'')] sample_index (new_pypi (S ''3.12'') [S ''x86_64'']) 0 =
     Some (r, result)"
  by (rule resolution_terminates [OF sample_served])


end
