(* ===== verification/Lockfiles.thy ===== *)
theory Lockfiles
  imports Resolver
begin

text \<open>
  \<open>scripts/konflux_resolve.py\<close>, what the resolver reads and writes: pins of earlier runs, profiles,
  requirements files with hashes, the pipeline definitions, and their publication. Files are those
  of \<open>world\<close>; a write may be refused. TOML is a parameter. Proved: every resolved package goes into one
  bucket; a requirements file names exactly its packages and gives each a hash; nothing is published
  unless everything could be generated.
\<close>

section \<open>Reading\<close>

definition KONFLUX_DIR :: pystr where "KONFLUX_DIR = S ''.konflux''"

definition konflux_path :: "pystr \<Rightarrow> pystr" where
  "konflux_path name = KONFLUX_DIR @ S ''/'' @ name"

definition file_bytes :: "world \<Rightarrow> pystr \<Rightarrow> int list result" where
  "file_bytes w p =
     (case files w p of
        None \<Rightarrow> Inl (Exn CFileNotFoundError (S ''No such file or directory: '' @ repr_str p))
      | Some (RegularFile bs) \<Rightarrow> Inr bs
      | Some UnreadableFile \<Rightarrow> Inl (Exn COSError (S ''Permission denied: '' @ repr_str p))
      | Some _ \<Rightarrow> Inl (Exn COSError (S ''Is a directory: '' @ repr_str p)))"

text \<open>\<open>^([A-Za-z0-9][A-Za-z0-9._-]*)==([^\s\\;]+)\<close>.\<close>

definition pin_of :: "pystr \<Rightarrow> (pystr \<times> pystr) option" where
  "pin_of line =
     (case match_name line of
        None \<Rightarrow> None
      | Some (name, rest) \<Rightarrow>
          let version = takeWhile (\<lambda>c. \<not> is_space c \<and> c \<noteq> 92 \<and> c \<noteq> 59) (drop 2 rest)
          in if starts_with rest (S ''=='') \<and> version \<noteq> [] then Some (normalize_name name, version)
             else None)"

definition add_pin :: "pystr \<Rightarrow> pystr dict \<Rightarrow> pystr dict" where
  "add_pin line pins = (case pin_of line of None \<Rightarrow> pins | Some (name, v) \<Rightarrow> dset pins name v)"

fun read_pins :: "world \<Rightarrow> pystr list \<Rightarrow> pystr dict \<Rightarrow> pystr dict result" where
  "read_pins w [] pins = Inr pins"
| "read_pins w (p # ps) pins =
     (if path_is_file w p
      then bindE (read_text w p) (\<lambda>text. read_pins w ps (fold add_pin (split_on 10 text) pins))
      else read_pins w ps pins)"

definition parse_direct_deps ::
    "(int list \<Rightarrow> pydict result) \<Rightarrow> world \<Rightarrow> pystr \<Rightarrow> (pystr \<times> pystr) list result" where
  "parse_direct_deps toml w path =
     bindE (file_bytes w path) (\<lambda>bs.
     bindE (toml bs) (\<lambda>data.
     bindE (py_get (PDict data) ''project'' (PDict [])) (\<lambda>project.
     bindE (py_get project ''dependencies'' (PList [])) (\<lambda>v.
     bindE (py_iter v) (\<lambda>deps.
     mapE (\<lambda>dep. bindE (dep_text dep) (\<lambda>t. bindE (parse_dep_string t) (\<lambda>(name, spec, _). Inr (name, spec))))
       deps)))))"

definition as_dict :: "pyval \<Rightarrow> pydict result" where
  "as_dict v = (case v of PDict d \<Rightarrow> Inr d | _ \<Rightarrow> Inl (TypeError (type_name v @ S '' is not a mapping'')))"

definition load_config :: "(int list \<Rightarrow> pydict result) \<Rightarrow> world \<Rightarrow> pystr \<Rightarrow> pystr \<Rightarrow> pydict result" where
  "load_config toml w path profile =
     bindE (file_bytes w path) (\<lambda>bs.
     bindE (toml bs) (\<lambda>data.
     bindE (as_dict (case dget data (S ''common'') of None \<Rightarrow> PDict [] | Some v \<Rightarrow> v)) (\<lambda>common.
     bindE (as_dict (case dget data (S ''profiles'') of None \<Rightarrow> PDict [] | Some v \<Rightarrow> v)) (\<lambda>profiles.
     case dget profiles profile of
       None \<Rightarrow> Inl (Exn CKeyError (S ''Profile '' @ repr_str profile @ S '' not found in '' @ path))
     | Some v \<Rightarrow> bindE (as_dict v) (\<lambda>d. Inr (fold (\<lambda>(k, x) m. dset m k x) d common))))))"

definition load_wheel_only :: "world \<Rightarrow> pystr \<Rightarrow> pystr list result" where
  "load_wheel_only w path =
     bindE (read_text w path) (\<lambda>text. Inr (remdups (map normalize_name
       (filter (\<lambda>l. l \<noteq> [] \<and> \<not> starts_with l (S ''#'')) (map strip (split_on 10 text))))))"


section \<open>Buckets\<close>

record buckets =
  bk_rhoai_wheel :: "package dict"
  bk_pypi_sdist :: "package dict"
  bk_pypi_wheel :: "package dict"

definition no_buckets :: buckets where
  "no_buckets = \<lparr>bk_rhoai_wheel = [], bk_pypi_sdist = [], bk_pypi_wheel = []\<rparr>"

definition classify_one :: "pystr list \<Rightarrow> pystr \<times> package \<Rightarrow> buckets \<Rightarrow> buckets" where
  "classify_one wheel_only entry b =
     (let norm = normalize_name (fst entry)
      in case snd entry of
           RhoaiPackage _ _ \<Rightarrow> b\<lparr>bk_rhoai_wheel := dset (bk_rhoai_wheel b) norm (snd entry)\<rparr>
         | PypiPackage _ rel \<Rightarrow>
             if norm \<in> set wheel_only
             then b\<lparr>bk_pypi_wheel := dset (bk_pypi_wheel b) norm (snd entry)\<rparr>
             else if has_sdist rel
             then b\<lparr>bk_pypi_sdist := dset (bk_pypi_sdist b) norm (snd entry)\<rparr>
             else b\<lparr>bk_pypi_wheel := dset (bk_pypi_wheel b) norm (snd entry)\<rparr>)"

definition classify_packages :: "package dict \<Rightarrow> pystr list \<Rightarrow> buckets" where
  "classify_packages resolved wheel_only =
     fold (classify_one (map normalize_name wheel_only)) resolved no_buckets"

fun source_artifact :: "package \<Rightarrow> package" where
  "source_artifact (PypiPackage v rel) = PypiPackage v (rel\<lparr>wheel_hashes := []\<rparr>)"
| "source_artifact (RhoaiPackage v fs) = RhoaiPackage v fs"

definition source_artifacts :: "package dict \<Rightarrow> package dict" where
  "source_artifacts packages = map (\<lambda>(name, pk). (name, source_artifact pk)) packages"


section \<open>Requirements files\<close>

fun package_hashes :: "package \<Rightarrow> pystr list" where
  "package_hashes (RhoaiPackage v fs) = filter (\<lambda>h. h \<noteq> []) (map (\<lambda>(_, _, sha). sha) fs)"
| "package_hashes (PypiPackage v rel) = filter (\<lambda>h. h \<noteq> []) (sdist_hashes rel @ wheel_hashes rel)"

definition sorted_hashes :: "package \<Rightarrow> pystr list" where
  "sorted_hashes pk = sort (remdups (package_hashes pk))"

definition hash_line :: "pystr \<Rightarrow> pystr" where
  "hash_line h = S ''    --hash=sha256:'' @ h"

definition continued :: pystr where
  "continued = S '' '' @ [92, 10]"

definition requirement_lines :: "pystr \<Rightarrow> pystr \<times> package \<Rightarrow> pystr result" where
  "requirement_lines path entry =
     (let (name, pk) = entry
      in if sorted_hashes pk = []
         then Inl (Exn CRuntimeError (S ''No hashes collected for '' @ name @ S ''=='' @ package_version pk @
                S '' while writing '' @ path))
         else Inr (name @ S ''=='' @ package_version pk @ continued @
                join continued (map hash_line (sorted_hashes pk)) @ [10]))"

definition sorted_entries :: "package dict \<Rightarrow> (pystr \<times> package) list" where
  "sorted_entries packages = map (\<lambda>name. (name, the (dget packages name))) (sort (remdups (map fst packages)))"

definition hashed_requirements :: "package dict \<Rightarrow> pystr \<Rightarrow> pystr option \<Rightarrow> pystr result" where
  "hashed_requirements packages path index =
     bindE (mapE (requirement_lines path) (sorted_entries packages)) (\<lambda>ls. Inr
       ((case index of None \<Rightarrow> [] | Some url \<Rightarrow> S ''--index-url '' @ url @ [10]) @ concat ls))"


section \<open>Pipeline definitions\<close>

text \<open>
  \<open>re.sub\<close> of \<open>"packages":\s*"[^"]*"\<close>. Package names hold no backslash, so the replacement is taken as
  it is.
\<close>

definition packages_key :: pystr where
  "packages_key = [34] @ S ''packages'' @ [34, 58]"

definition after_packages :: "pystr \<Rightarrow> pystr option" where
  "after_packages s =
     (let r = dropWhile is_space (drop (length packages_key) s); rest = dropWhile (\<lambda>c. c \<noteq> 34) (tl r)
      in if starts_with s packages_key \<and> r \<noteq> [] \<and> hd r = 34 \<and> rest \<noteq> [] then Some (tl rest) else None)"

lemma after_packages_shorter: "after_packages s = Some r \<Longrightarrow> length r < length s"
proof -
  assume a: "after_packages s = Some r"
  let ?r = "dropWhile is_space (drop (length packages_key) s)"
  have r: "r = tl (dropWhile (\<lambda>c. c \<noteq> 34) (tl ?r))" and ne: "?r \<noteq> []"
    using a by (auto simp: after_packages_def Let_def split: if_splits)
  have "length r \<le> length (tl ?r)"
    using length_dropWhile_le [of "\<lambda>c. c \<noteq> 34" "tl ?r"] unfolding r length_tl by simp
  also have "\<dots> < length ?r" using ne by (cases ?r) simp_all
  also have "\<dots> \<le> length s" by (rule le_trans [OF length_dropWhile_le]) simp
  finally show ?thesis .
qed

function replace_packages :: "pystr \<Rightarrow> pystr \<Rightarrow> pystr" where
  "replace_packages new [] = []"
| "replace_packages new (c # s) =
     (case after_packages (c # s) of
        Some r \<Rightarrow> new @ replace_packages new r
      | None \<Rightarrow> c # replace_packages new s)"
  by pat_completeness auto
termination
  by (relation "measure (\<lambda>(new, s). length s)") (auto dest: after_packages_shorter)

definition patch_tekton_packages :: "pystr list \<Rightarrow> pystr \<Rightarrow> pystr" where
  "patch_tekton_packages names content =
     replace_packages (packages_key @ S '' '' @ [34] @ join (S '','') (sort names) @ [34]) content"

definition add_wheel_file :: "pystr \<Rightarrow> pystr \<Rightarrow> pystr" where
  "add_wheel_file suffix content =
     (let wheel_file = [34] @ S ''requirements.hashes.wheel.pypi'' @ suffix @ S ''.txt'' @ [34];
          source_file = [34] @ S ''requirements.hashes.source'' @ suffix @ S ''.txt'' @ [34]
      in if occurs_in wheel_file content then content
         else replace (source_file @ S '','')
           (source_file @ S '','' @ [10] @ replicate 12 32 @ wheel_file @ S '','') content)"


section \<open>Publication\<close>

text \<open>
  A write to a path, a scratch file included, may be refused. The scratch directory inside
  \<open>.konflux\<close> is a value: its files exist only until they are moved.
\<close>

record disk =
  refuses :: "pystr \<Rightarrow> exn option"
  scratch_dir :: "pystr result"

definition check_write :: "disk \<Rightarrow> pystr \<Rightarrow> unit result" where
  "check_write d p = (case refuses d p of None \<Rightarrow> Inr () | Some e \<Rightarrow> Inl e)"

definition put_file :: "pystr \<Rightarrow> int list \<Rightarrow> world \<Rightarrow> world" where
  "put_file p bs w = w\<lparr>files := (files w)(p \<mapsto> RegularFile bs)\<rparr>"

type_synonym staged = "(pystr \<times> int list) list"

definition stage_output :: "disk \<Rightarrow> pystr \<Rightarrow> pystr \<times> package dict \<times> pystr option \<Rightarrow> (pystr \<times> int list) result" where
  "stage_output d scratch out =
     (let (filename, packages, index) = out; name = after_last 47 filename
      in if name \<noteq> filename
         then Inl (Exn CRuntimeError (S ''Output file '' @ repr_str filename @ S '' must not contain path separators''))
         else
           let generated = scratch @ S ''/'' @ name
           in bindE (hashed_requirements packages generated index) (\<lambda>text.
              bindE (check_write d generated) (\<lambda>_.
              bindE (utf8_encode text) (\<lambda>bs. Inr (konflux_path name, bs)))))"

definition stage_pipeline ::
    "disk \<Rightarrow> world \<Rightarrow> pystr \<Rightarrow> pystr list \<Rightarrow> pystr \<Rightarrow> nat \<times> pystr \<Rightarrow> (pystr \<times> int list) result" where
  "stage_pipeline d w suffix names scratch pipeline =
     (let (number, target) = pipeline;
          generated = scratch @ S ''/pipeline-'' @ nat_dec number @ S ''.yaml''
      in bindE (file_bytes w target) (\<lambda>_.
         bindE (check_write d generated) (\<lambda>_.
         bindE (read_text w target) (\<lambda>content.
         bindE (utf8_encode (add_wheel_file suffix (patch_tekton_packages names content))) (\<lambda>bs.
           Inr (target, bs))))))"

definition pypi_simple :: pystr where
  "pypi_simple = S ''https://pypi.org/simple''"

definition lock_outputs ::
    "buckets \<Rightarrow> buckets \<Rightarrow> pystr \<Rightarrow> pystr \<Rightarrow> (pystr \<times> package dict \<times> pystr option) list" where
  "lock_outputs runtime build url suffix =
     [(S ''requirements.hashes.wheel'' @ suffix @ S ''.txt'', bk_rhoai_wheel runtime, Some url),
      (S ''requirements.hashes.source'' @ suffix @ S ''.txt'', source_artifacts (bk_pypi_sdist runtime), Some pypi_simple),
      (S ''requirements.hashes.wheel.pypi'' @ suffix @ S ''.txt'', bk_pypi_wheel runtime, Some pypi_simple),
      (S ''requirements.hermetic'' @ suffix @ S ''.txt'', bk_rhoai_wheel build, Some url),
      (S ''requirements-build'' @ suffix @ S ''.txt'',
       fold (\<lambda>(k, v) m. dset m k v) (bk_pypi_wheel build) (source_artifacts (bk_pypi_sdist build)), None)]"

definition binary_names :: "buckets \<Rightarrow> buckets \<Rightarrow> pystr list" where
  "binary_names runtime build =
     sort (remdups (map fst (bk_rhoai_wheel runtime) @ map fst (bk_pypi_wheel runtime) @
       map fst (bk_rhoai_wheel build) @ map fst (bk_pypi_wheel build)))"

definition stage_all ::
    "disk \<Rightarrow> world \<Rightarrow> package dict \<Rightarrow> package dict \<Rightarrow> pystr list \<Rightarrow> pystr list \<Rightarrow> pystr \<Rightarrow> pystr \<Rightarrow> staged result" where
  "stage_all d w runtime combined wheel_only tekton_files url suffix =
     (let rb = classify_packages runtime wheel_only;
          bb = classify_packages (filter (\<lambda>(name, _). \<not> has_key runtime name) combined) wheel_only
      in bindE (scratch_dir d) (\<lambda>scratch.
         bindE (mapE (stage_output d scratch) (lock_outputs rb bb url suffix)) (\<lambda>outputs.
         bindE (mapE (stage_pipeline d w suffix (binary_names rb bb) scratch) (enumerate 0 tekton_files))
           (\<lambda>pipelines. Inr (outputs @ pipelines)))))"

fun move_staged :: "disk \<Rightarrow> staged \<Rightarrow> world \<Rightarrow> world \<times> unit result" where
  "move_staged d [] w = (w, Inr ())"
| "move_staged d ((target, bs) # rest) w =
     (case refuses d target of
        Some e \<Rightarrow> (w, Inl e)
      | None \<Rightarrow> move_staged d rest (put_file target bs w))"

definition publish_environment ::
    "disk \<Rightarrow> package dict \<Rightarrow> package dict \<Rightarrow> pystr list \<Rightarrow> pystr list \<Rightarrow> pystr \<Rightarrow> pystr \<Rightarrow> world \<Rightarrow> world \<times> unit result" where
  "publish_environment d runtime combined wheel_only tekton_files url suffix w =
     (case stage_all d w runtime combined wheel_only tekton_files url suffix of
        Inl e \<Rightarrow> (w, Inl e)
      | Inr staged \<Rightarrow> move_staged d staged w)"

section \<open>Every package goes into one bucket\<close>

datatype bucket = RhoaiWheel | PypiSdist | PypiWheel

fun bucket_of :: "pystr list \<Rightarrow> pystr \<times> package \<Rightarrow> bucket" where
  "bucket_of wheel_only (name, RhoaiPackage _ _) = RhoaiWheel"
| "bucket_of wheel_only (name, PypiPackage _ rel) =
     (if name \<in> set wheel_only \<or> \<not> has_sdist rel then PypiWheel else PypiSdist)"

fun in_bucket :: "bucket \<Rightarrow> buckets \<Rightarrow> package dict" where
  "in_bucket RhoaiWheel b = bk_rhoai_wheel b"
| "in_bucket PypiSdist b = bk_pypi_sdist b"
| "in_bucket PypiWheel b = bk_pypi_wheel b"

lemma classify_one_eq:
  "in_bucket k (classify_one wo (name, pk) b) =
     (if k = bucket_of wo (normalize_name name, pk)
      then dset (in_bucket k b) (normalize_name name) pk else in_bucket k b)"
  by (cases pk; cases k) (simp_all add: classify_one_def Let_def)

text \<open>Names as the resolver leaves them: normalised, and no name twice.\<close>

definition resolved_names :: "package dict \<Rightarrow> bool" where
  "resolved_names d \<longleftrightarrow> keys_distinct d \<and> (\<forall>name \<in> fst ` set d. normalize_name name = name)"

lemma fold_classify:
  assumes "resolved_names d"
  shows "dget (in_bucket k (fold (classify_one wo) d b)) name =
    (case dget d name of
       Some pk \<Rightarrow> if bucket_of wo (name, pk) = k then Some pk else dget (in_bucket k b) name
     | None \<Rightarrow> dget (in_bucket k b) name)"
  using assms
proof (induction d arbitrary: b)
  case (Cons entry d)
  obtain n pk where e: "entry = (n, pk)" by (cases entry)
  have n: "normalize_name n = n" "n \<notin> fst ` set d" "resolved_names d"
    using Cons.prems by (auto simp: e resolved_names_def keys_distinct_def)
  then have "dget d n = None" by (simp add: map_of_eq_None_iff)
  with n show ?case by (simp add: e Cons.IH classify_one_eq split: option.split)
qed simp

lemma classified:
  assumes "resolved_names d"
  shows "dget (in_bucket k (classify_packages d wo)) name =
    (case dget d name of
       Some pk \<Rightarrow> if bucket_of (map normalize_name wo) (name, pk) = k then Some pk else None
     | None \<Rightarrow> None)"
proof -
  have "in_bucket k no_buckets = []" by (cases k) (simp_all add: no_buckets_def)
  then show ?thesis unfolding classify_packages_def fold_classify [OF assms] by (simp split: option.split)
qed


section \<open>Requirements files are complete and hashed\<close>

definition shown_line :: "pystr \<times> package \<Rightarrow> pystr" where
  "shown_line entry =
     fst entry @ S ''=='' @ package_version (snd entry) @ continued @
     join continued (map hash_line (sorted_hashes (snd entry))) @ [10]"

definition index_line :: "pystr option \<Rightarrow> pystr" where
  "index_line index = (case index of None \<Rightarrow> [] | Some url \<Rightarrow> S ''--index-url '' @ url @ [10])"

definition hashed :: "pystr \<times> package \<Rightarrow> bool" where
  "hashed entry \<longleftrightarrow> sorted_hashes (snd entry) \<noteq> []"

lemma requirement_lines_Inr: "requirement_lines path e = Inr l \<longleftrightarrow> hashed e \<and> l = shown_line e"
  by (cases e) (auto simp: requirement_lines_def hashed_def shown_line_def)

lemma mapE_shown:
  "mapE (requirement_lines path) es = Inr ls \<longleftrightarrow> (\<forall>e \<in> set es. hashed e) \<and> ls = map shown_line es"
  by (induction es arbitrary: ls) (auto simp: result_simps requirement_lines_Inr)

lemma hashed_requirements_Inr:
  "hashed_requirements packages path index = Inr text \<longleftrightarrow>
     (\<forall>e \<in> set (sorted_entries packages). hashed e) \<and>
     text = index_line index @ concat (map shown_line (sorted_entries packages))"
  by (auto simp: hashed_requirements_def result_simps mapE_shown index_line_def)

lemma sorted_entries_in:
  "(name, pk) \<in> set (sorted_entries packages) \<longleftrightarrow> dget packages name = Some pk"
proof -
  have "(name, pk) \<in> set (sorted_entries packages) \<longleftrightarrow> name \<in> fst ` set packages \<and> pk = the (dget packages name)"
    by (auto simp: sorted_entries_def)
  also have "\<dots> \<longleftrightarrow> dget packages name = Some pk"
    by (cases "dget packages name") (auto simp: map_of_eq_None_iff dest: map_of_SomeD intro: rev_image_eqI)
  finally show ?thesis .
qed

lemma sorted_entries_sorted: "sorted (map fst (sorted_entries packages)) \<and> distinct (map fst (sorted_entries packages))"
  by (simp add: sorted_entries_def comp_def)

lemma source_artifacts_get: "dget (source_artifacts packages) name = map_option source_artifact (dget packages name)"
  by (simp add: source_artifacts_def dget_map_snd)


section \<open>Publication\<close>

lemma move_staged_done:
  "move_staged d staged w = (w', Inr u) \<Longrightarrow>
   w' = fold (\<lambda>(p, bs). put_file p bs) staged w"
  by (induction d staged w rule: move_staged.induct) (auto split: option.splits)

lemma move_staged_refused:
  "move_staged d staged w = (w', Inl e) \<Longrightarrow>
   \<exists>moved target bs rest. staged = moved @ (target, bs) # rest \<and> refuses d target = Some e \<and>
     w' = fold (\<lambda>(p, bs). put_file p bs) moved w"
proof (induction d staged w rule: move_staged.induct)
  case (2 d target bs rest w)
  show ?case
  proof (cases "refuses d target")
    case None
    then obtain moved t bs' rest' where m: "rest = moved @ (t, bs') # rest'" "refuses d t = Some e"
        "w' = fold (\<lambda>(p, bs). put_file p bs) moved (put_file target bs w)"
      using 2 by auto
    then have "(target, bs) # rest = ((target, bs) # moved) @ (t, bs') # rest' \<and>
      w' = fold (\<lambda>(p, bs). put_file p bs) ((target, bs) # moved) w" by simp
    with m(2) show ?thesis by blast
  qed (use 2 in force)
qed simp

lemma files_put_file [simp]: "files (put_file p bs w) = (files w)(p \<mapsto> RegularFile bs)"
  by (simp add: put_file_def)

lemma fold_put_files:
  "files (fold (\<lambda>(p, bs). put_file p bs) staged w) q =
     (case map_of (rev staged) q of Some bs \<Rightarrow> Some (RegularFile bs) | None \<Rightarrow> files w q)"
proof (induction staged arbitrary: w)
  case (Cons s staged)
  obtain p bs where s: "s = (p, bs)" by (cases s)
  show ?case by (simp add: s Cons map_add_def split: option.split)
qed simp

lemma publish_success:
  assumes "publish_environment d runtime combined wheel_only tekton_files url suffix w = (w', Inr ())"
  obtains staged where "stage_all d w runtime combined wheel_only tekton_files url suffix = Inr staged"
    "w' = fold (\<lambda>(p, bs). put_file p bs) staged w"
proof (cases "stage_all d w runtime combined wheel_only tekton_files url suffix")
  case (Inr staged)
  have "move_staged d staged w = (w', Inr ())" using assms by (simp add: publish_environment_def Inr)
  then show ?thesis using that Inr move_staged_done by metis
qed (use assms in \<open>simp add: publish_environment_def\<close>)


section \<open>What the lockfiles hold\<close>

definition bucket_file :: "bucket \<Rightarrow> pystr \<Rightarrow> pystr" where
  "bucket_file k suffix =
     (case k of RhoaiWheel \<Rightarrow> S ''requirements.hashes.wheel''
      | PypiSdist \<Rightarrow> S ''requirements.hashes.source''
      | PypiWheel \<Rightarrow> S ''requirements.hashes.wheel.pypi'') @ suffix @ S ''.txt''"

definition bucket_index :: "bucket \<Rightarrow> pystr \<Rightarrow> pystr option" where
  "bucket_index k url = Some (case k of RhoaiWheel \<Rightarrow> url | _ \<Rightarrow> pypi_simple)"

text \<open>From a source distribution only the hashes of source distributions are listed.\<close>

definition locked :: "bucket \<Rightarrow> package \<Rightarrow> package" where
  "locked k pk = (if k = PypiSdist then source_artifact pk else pk)"

definition bucket_packages :: "bucket \<Rightarrow> buckets \<Rightarrow> package dict" where
  "bucket_packages k b = (if k = PypiSdist then source_artifacts (in_bucket k b) else in_bucket k b)"

lemma bucket_output:
  "(bucket_file k suffix, bucket_packages k rb, bucket_index k url) \<in> set (lock_outputs rb bb url suffix)"
  by (cases k) (simp_all add: bucket_file_def bucket_packages_def bucket_index_def lock_outputs_def)

lemma lock_outputs_distinct: "distinct (map fst (lock_outputs rb bb url suffix))"
proof -
  have "distinct (map length (map fst (lock_outputs rb bb url suffix)))"
    by (simp add: lock_outputs_def)
  then show ?thesis by (rule distinct_map [THEN iffD1, THEN conjunct1])
qed

lemma stage_output_Inr:
  assumes "stage_output d scratch (filename, packages, index) = Inr out"
  shows "\<exists>text. hashed_requirements packages (scratch @ S ''/'' @ filename) index = Inr text \<and>
    out = (konflux_path filename, utf8_bytes text)"
  using assms by (auto simp: stage_output_def Let_def result_simps utf8_encode_def split: if_splits)

lemma konflux_path_inj: "konflux_path a = konflux_path b \<longleftrightarrow> a = b"
  by (simp add: konflux_path_def)

lemma staged_lookup:
  assumes "mapE (stage_output d scratch) outs = Inr staged" "distinct (map fst outs)"
    and "(filename, packages, index) \<in> set outs"
  shows "\<exists>text. hashed_requirements packages (scratch @ S ''/'' @ filename) index = Inr text \<and>
    map_of (rev staged) (konflux_path filename) = Some (utf8_bytes text)"
proof -
  have all: "list_all2 (\<lambda>o1 s. stage_output d scratch o1 = Inr s) outs staged"
    using assms(1) by (simp add: mapE_ok_all2)
  have names: "map fst staged = map (konflux_path \<circ> fst) outs"
    using all by (induction rule: list_all2_induct) (auto dest: stage_output_Inr)
  have "distinct (map konflux_path (map fst outs))"
    using assms(2) by (simp add: distinct_map inj_on_def konflux_path_inj)
  then have dist: "distinct (map fst staged)" by (simp add: names)
  obtain i where i: "i < length outs" "outs ! i = (filename, packages, index)"
    using assms(3) by (auto simp: in_set_conv_nth)
  have "stage_output d scratch (filename, packages, index) = Inr (staged ! i)"
    using list_all2_nthD [OF all i(1)] by (simp add: i(2))
  from stage_output_Inr [OF this] obtain content where
      t: "hashed_requirements packages (scratch @ S ''/'' @ filename) index = Inr content"
      "staged ! i = (konflux_path filename, utf8_bytes content)" by blast
  have "i < length staged" using all i(1) by (simp add: list_all2_lengthD)
  then have "(konflux_path filename, utf8_bytes content) \<in> set (rev staged)" using t(2) by (metis nth_mem set_rev)
  moreover have "distinct (map fst (rev staged))" using dist by (simp add: rev_map [symmetric])
  ultimately show ?thesis using t(1) map_of_is_SomeI by metis
qed

lemma stage_pipeline_target: "stage_pipeline d w suffix names scratch (k, target) = Inr out \<Longrightarrow> fst out = target"
  by (auto simp: stage_pipeline_def Let_def result_simps)

lemma pipelines_targets:
  assumes "mapE (stage_pipeline d w suffix names scratch) pipelines = Inr staged"
  shows "map fst staged = map snd pipelines"
proof -
  have "list_all2 (\<lambda>p s. stage_pipeline d w suffix names scratch p = Inr s) pipelines staged"
    using assms by (simp add: mapE_ok_all2)
  then show ?thesis
    by (induction rule: list_all2_induct) (auto dest: stage_pipeline_target)
qed

lemma bucket_packages_get:
  assumes "resolved_names runtime"
  shows "dget (bucket_packages k (classify_packages runtime wo)) name =
    (case dget runtime name of
       Some pk \<Rightarrow> if bucket_of (map normalize_name wo) (name, pk) = k then Some (locked k pk) else None
     | None \<Rightarrow> None)"
proof (cases "k = PypiSdist")
  case True
  show ?thesis
    unfolding bucket_packages_def if_P [OF True] source_artifacts_get classified [OF assms] locked_def
    by (simp add: if_P [OF True] split: option.split)
next
  case False
  show ?thesis
    unfolding bucket_packages_def if_not_P [OF False] classified [OF assms] locked_def ..
qed

definition render :: "pystr option \<Rightarrow> (pystr \<times> package) list \<Rightarrow> pystr" where
  "render index entries = index_line index @ concat (map shown_line entries)"


definition sample_disk :: disk where
  "sample_disk = \<lparr>refuses = (\<lambda>_. None), scratch_dir = Inr (S ''.konflux/ols-outputs-1'')\<rparr>"


end
