(* ===== verification/Locking.thy ===== *)
theory Locking
  imports Lockfiles "HOL-Library.Product_Lexorder"
begin

text \<open>
  \<open>scripts/konflux_resolve.py\<close>, the update of the lockfiles: the compiler run in a container, the
  requirements of source builds, the search for an environment in which they fit, the artifacts, and
  the run that puts \<open>pyproject.toml\<close> back when it fails. The container, the discovery of build
  requirements and the file system's refusals are parameters. Proved: the search tries at most 64
  different sets of exclusions, fewest first; a project file is restored whatever goes wrong; only
  hydrated artifacts of the chosen versions are published, and only after all checks.
\<close>

section \<open>The compiler\<close>

datatype resolve_error =
    Raised exn
  | ResolutionConflict pystr
  | BuildConflict pystr "(pystr \<times> pystr) list"

fun error_text :: "resolve_error \<Rightarrow> pystr" where
  "error_text (Raised e) = exn_msg e"
| "error_text (ResolutionConflict m) = m"
| "error_text (BuildConflict m _) = m"

text \<open>What a run of the container gives: a failure with its stderr, the compiled file, or an exception.\<close>

datatype uv_run = UvFailed pystr | UvCompiled pystr | UvRaised exn

record 'n tools =
  web :: "'n web"
  which :: "pystr \<Rightarrow> bool"
  cwd :: pystr
  scratch_path :: "pystr result"
  run_container :: "pystr list \<Rightarrow> (pystr \<times> pystr) list \<Rightarrow> 'n \<Rightarrow> 'n \<times> uv_run"
  find_build_dependencies :: "pystr \<Rightarrow> pystr \<Rightarrow> 'n \<Rightarrow> 'n \<times> pystr list result"
  disk_of :: disk
  toml_loads :: "int list \<Rightarrow> pydict result"
  interpreter_version :: pystr

record 'n update_state =
  us_pypi :: pypi_client
  us_net :: 'n
  us_built :: "((pystr \<times> pystr) \<times> pystr list) list"
  us_world :: world

definition container_runtime :: "'n tools \<Rightarrow> pystr result" where
  "container_runtime t =
     (if which t (S ''podman'') then Inr (S ''podman'')
      else if which t (S ''docker'') then Inr (S ''docker'')
      else Inl (Exn CRuntimeError (S ''Neither podman nor docker is installed'')))"

record uv_job =
  uj_python :: pystr
  uj_url :: pystr
  uj_suffix :: pystr
  uj_extras :: "pystr list"
  uj_upgrade :: pystr
  uj_requirements :: "pystr list"
  uj_preferences :: "pystr dict option"
  uj_constraints :: "pystr dict"
  uj_minimums :: "pystr list"

definition pin_files :: "pystr \<Rightarrow> pystr list" where
  "pin_files suffix =
     map (\<lambda>kind. konflux_path (S ''requirements.hashes.'' @ kind @ suffix @ S ''.txt''))
       [S ''wheel'', S ''source'', S ''wheel.pypi'']"

definition pin_lines :: "pystr dict \<Rightarrow> pystr" where
  "pin_lines pins = concat (map (\<lambda>(name, v). name @ S ''=='' @ v @ [10]) (sort_key fst pins))"

definition uv_image :: pystr where
  "uv_image = S ''quay.io/syedriko/uv:prefer-index''"

definition fixed_arguments :: "uv_job \<Rightarrow> pystr list" where
  "fixed_arguments job =
     [uv_image, S ''pip'', S ''compile'', S ''pyproject.toml'', S ''--python-platform'', S ''x86_64-manylinux_2_28'',
      S ''--python-version'', uj_python job, S ''--refresh'', S ''--index'', uj_url job, S ''--default-index'',
      S ''https://pypi.org/simple/'', S ''--index-strategy'', S ''prefer-index'', S ''--emit-index-annotation'',
      S ''--no-sources'']"

definition overrides_file :: "pystr \<Rightarrow> pystr" where
  "overrides_file suffix = konflux_path (S ''requirements.overrides'' @ suffix @ S ''.txt'')"

definition uv_command :: "'n tools \<Rightarrow> world \<Rightarrow> pystr \<Rightarrow> pystr \<Rightarrow> uv_job \<Rightarrow> pystr list" where
  "uv_command t w runtime scratch job =
     [runtime, S ''run'', S ''--rm'', S ''--volume'', cwd t @ S '':/io:ro,Z'',
      S ''--volume'', scratch @ S '':/resolution:Z'', S ''--workdir'', S ''/io''] @ fixed_arguments job @
     (if files w (overrides_file (uj_suffix job)) \<noteq> None
      then [S ''--override'', overrides_file (uj_suffix job)] else []) @
     concat (map (\<lambda>e. [S ''--extra'', e]) (uj_extras job)) @
     (if uj_upgrade job \<noteq> [] then [S ''--upgrade-package'', uj_upgrade job] else []) @
     (if uj_requirements job \<noteq> [] then [S ''/resolution/requirements.in''] else []) @
     (if uj_minimums job \<noteq> [] then [S ''--constraints'', S ''/resolution/minimums.txt''] else []) @
     (if uj_constraints job \<noteq> [] then [S ''--constraints'', S ''/resolution/constraints.txt''] else []) @
     [S ''--output-file'', S ''/resolution/resolved.txt'']"

text \<open>The files that the container sees in its scratch directory.\<close>

definition uv_inputs :: "uv_job \<Rightarrow> pystr dict \<Rightarrow> (pystr \<times> pystr) list" where
  "uv_inputs job pins =
     (if uj_upgrade job \<noteq> [] \<or> uj_preferences job \<noteq> None then [(S ''resolved.txt'', pin_lines pins)] else []) @
     (if uj_requirements job \<noteq> []
      then [(S ''requirements.in'', join [10] (uj_requirements job) @ [10])] else []) @
     (if uj_minimums job \<noteq> [] then [(S ''minimums.txt'', join [10] (uj_minimums job) @ [10])] else []) @
     (if uj_constraints job \<noteq> [] then [(S ''constraints.txt'', pin_lines (uj_constraints job))] else [])"

definition job_pins :: "world \<Rightarrow> uv_job \<Rightarrow> pystr dict result" where
  "job_pins w job =
     (case uj_preferences job of
        Some pins \<Rightarrow> Inr pins
      | None \<Rightarrow> if uj_upgrade job \<noteq> [] then read_pins w (pin_files (uj_suffix job)) [] else Inr [])"

text \<open>\<open>str.splitlines()\<close>.\<close>

definition line_break :: "codepoint \<Rightarrow> bool" where
  "line_break c \<longleftrightarrow> (10 \<le> c \<and> c \<le> 13) \<or> (28 \<le> c \<and> c \<le> 30) \<or> c = 133 \<or> c = 8232 \<or> c = 8233"

fun split_lines :: "pystr \<Rightarrow> pystr \<Rightarrow> pystr list" where
  "split_lines line [] = (if line = [] then [] else [line])"
| "split_lines line (c # s) =
     (if c = 13 \<and> s \<noteq> [] \<and> hd s = 10 then split_lines line s
      else if line_break c then line # split_lines [] s
      else split_lines (line @ [c]) s)"

record pin =
  pin_version :: pystr
  pin_index :: pystr
  pin_parents :: "pystr list"

text \<open>\<open>^([a-zA-Z0-9][a-zA-Z0-9._-]*)([=<>!~].*)?$\<close>: the name and the version text.\<close>

definition compiled_line :: "pystr \<Rightarrow> (pystr \<times> pystr) option" where
  "compiled_line line =
     (case match_name line of
        None \<Rightarrow> None
      | Some (name, rest) \<Rightarrow>
          if rest = [] then Some (name, [])
          else if hd rest \<in> set (S ''=<>!~'') then Some (name, rest) else None)"

text \<open>\<open>[A-Za-z0-9][A-Za-z0-9._-]*(?:\[.*\])?\<close> over the whole text.\<close>

definition parent_name :: "pystr \<Rightarrow> pystr option" where
  "parent_name s =
     (case match_name s of
        None \<Rightarrow> None
      | Some (name, rest) \<Rightarrow>
          if rest = [] \<or> (2 \<le> length rest \<and> hd rest = 91 \<and> last rest = 93 \<and> 10 \<notin> set rest)
          then Some (normalize_name (fst (partition_at 91 s))) else None)"

definition add_parent :: "pystr \<Rightarrow> pystr \<Rightarrow> pin dict \<Rightarrow> pin dict" where
  "add_parent current s resolved =
     (case (parent_name s, dget resolved current) of
        (Some p, Some pk) \<Rightarrow> dset resolved current (pk\<lparr>pin_parents := pin_parents pk @ [p]\<rparr>)
      | _ \<Rightarrow> resolved)"

definition from_mark :: pystr where "from_mark = S ''# from ''"

definition read_uv_line :: "pystr \<Rightarrow> pin dict \<times> pystr \<times> bool \<Rightarrow> pin dict \<times> pystr \<times> bool" where
  "read_uv_line raw s =
     (let line = strip raw; (resolved, current, in_via) = s
      in if line = [] \<or> starts_with line (S ''-'') then s
         else case compiled_line line of
           Some (name, version_part) \<Rightarrow>
             let version = dropWhile (\<lambda>c. c = 61) (strip version_part); name = normalize_name name
             in if version = [] then s
                else (dset resolved name \<lparr>pin_version = version, pin_index = [], pin_parents = []\<rparr>, name, False)
         | None \<Rightarrow>
             if occurs_in from_mark line \<and> current \<noteq> [] then
               (case (after_text from_mark line, dget resolved current) of
                  (Some rest, Some pk) \<Rightarrow> (dset resolved current (pk\<lparr>pin_index := strip rest\<rparr>), current, False)
                | _ \<Rightarrow> s)
             else if current \<noteq> [] \<and> starts_with line (S ''# via'') then
               (add_parent current (strip (drop 5 line)) resolved, current, True)
             else if current \<noteq> [] \<and> in_via \<and> starts_with line (S ''#   '') then
               (add_parent current (strip (drop 1 line)) resolved, current, in_via)
             else s)"

definition parse_uv_output :: "pystr \<Rightarrow> pin dict" where
  "parse_uv_output compiled = fst (fold read_uv_line (split_lines [] compiled) ([], [], False))"

lemma parse_uv_example:
  "parse_uv_output (S ''foo==1.0'' @ [10] @ S ''    # via'' @ [10] @ S ''    #   My_App'' @ [10] @
      S ''    #   bar[x]'' @ [10] @ S ''    # from https://pypi.org/simple/'' @ [10]) =
   [(S ''foo'', \<lparr>pin_version = S ''1.0'', pin_index = S ''https://pypi.org/simple/'',
      pin_parents = [S ''my-app'', S ''bar'']\<rparr>)]"
  by code_simp

definition no_solution :: pystr where "no_solution = S ''No solution found''"

definition uv_resolve :: "'n tools \<Rightarrow> uv_job \<Rightarrow> 'n update_state \<Rightarrow> 'n update_state \<times> (resolve_error + pin dict)" where
  "uv_resolve t job s =
     (case bindE (container_runtime t) (\<lambda>runtime. bindE (scratch_path t) (\<lambda>scratch.
             bindE (job_pins (us_world s) job) (\<lambda>pins. Inr (runtime, scratch, pins)))) of
        Inl e \<Rightarrow> (s, Inl (Raised e))
      | Inr (runtime, scratch, pins) \<Rightarrow>
          (case run_container t (uv_command t (us_world s) runtime scratch job) (uv_inputs job pins) (us_net s) of
             (n, UvFailed stderr) \<Rightarrow>
               (s\<lparr>us_net := n\<rparr>,
                Inl (if occurs_in no_solution stderr
                     then ResolutionConflict (S ''Dependency resolution failed:'' @ [10] @ stderr)
                     else Raised (Exn CRuntimeError (S ''Dependency resolution failed:'' @ [10] @ stderr))))
           | (n, UvRaised e) \<Rightarrow> (s\<lparr>us_net := n\<rparr>, Inl (Raised e))
           | (n, UvCompiled compiled) \<Rightarrow> (s\<lparr>us_net := n\<rparr>, Inr (parse_uv_output compiled))))"

section \<open>Requirements of source builds\<close>

definition version_eq :: "packaging \<Rightarrow> pystr \<Rightarrow> pystr \<Rightarrow> bool" where
  "version_eq P a b \<longleftrightarrow> version_le P a b \<and> version_le P b a"

definition same_version :: "packaging \<Rightarrow> pystr \<Rightarrow> pystr \<times> release \<Rightarrow> bool" where
  "same_version P target entry \<longleftrightarrow>
     (case version_text P (fst entry) of None \<Rightarrow> False | Some v \<Rightarrow> version_eq P v target)"

definition pypi_metadata ::
    "'n web \<Rightarrow> pystr \<Rightarrow> pystr \<Rightarrow> pypi_client \<times> 'n \<Rightarrow> (pypi_client \<times> 'n) \<times> release option result" where
  "pypi_metadata wb name version s =
     (case parse_version (pep wb) version of
        Inl e \<Rightarrow> (s, Inl e)
      | Inr target \<Rightarrow>
          (case get_package_info wb name s of
             (s', Inl e) \<Rightarrow> (s', Inl e)
           | (s', Inr info) \<Rightarrow> (s', Inr (map_option snd (find (same_version (pep wb) target) info)))))"

definition metadata_step ::
    "'n tools \<Rightarrow> pystr \<Rightarrow> pystr \<Rightarrow> 'n update_state \<Rightarrow> 'n update_state \<times> release option result" where
  "metadata_step t name version s =
     (let ((pc, n), r) = pypi_metadata (web t) name version (us_pypi s, us_net s)
      in (s\<lparr>us_pypi := pc, us_net := n\<rparr>, r))"

text \<open>\<open>discover_build_requirements\<close> with its \<open>functools.cache\<close>.\<close>

definition discover_build_requirements ::
    "'n tools \<Rightarrow> pystr \<Rightarrow> pystr \<Rightarrow> 'n update_state \<Rightarrow> 'n update_state \<times> pystr list result" where
  "discover_build_requirements t name version s =
     (case map_of (us_built s) (name, version) of
        Some found \<Rightarrow> (s, Inr found)
      | None \<Rightarrow>
          (case find_build_dependencies t name version (us_net s) of
             (n, Inl e) \<Rightarrow> (s\<lparr>us_net := n\<rparr>, Inl e)
           | (n, Inr found) \<Rightarrow> (s\<lparr>us_net := n, us_built := ((name, version), found) # us_built s\<rparr>, Inr found)))"

text \<open>What the source build of one package requires: nothing unless it is built from a PyPI sdist.\<close>

record build_query =
  bq_combined :: "pin dict"
  bq_url :: pystr
  bq_wheel_only :: "pystr list"

definition from_index :: "pystr \<Rightarrow> pin \<Rightarrow> bool" where
  "from_index url pk \<longleftrightarrow> rstrip_char 47 (pin_index pk) = rstrip_char 47 url"

definition source_requirements ::
    "'n tools \<Rightarrow> build_query \<Rightarrow> pystr \<Rightarrow> pin \<Rightarrow> 'n update_state \<Rightarrow> 'n update_state \<times> pystr list result" where
  "source_requirements t q name pk s =
     (if from_index (bq_url q) pk \<or> name \<in> set (bq_wheel_only q) then (s, Inr [])
      else case metadata_step t name (pin_version pk) s of
             (s', Inl e) \<Rightarrow> (s', Inl e)
           | (s', Inr None) \<Rightarrow> (s', Inr [])
           | (s', Inr (Some rel)) \<Rightarrow>
               if has_sdist rel then discover_build_requirements t name (pin_version pk) s' else (s', Inr []))"

definition children_of :: "pin dict \<Rightarrow> pystr \<Rightarrow> pystr list" where
  "children_of combined parent = map fst (filter (\<lambda>(name, pk). parent \<in> set (pin_parents pk)) combined)"

definition requirement_name :: "packaging \<Rightarrow> pystr \<Rightarrow> pystr result" where
  "requirement_name P r =
     (case parse_requirement P r of
        None \<Rightarrow> Inl (invalid_requirement r) | Some rq \<Rightarrow> Inr (normalize_name (rq_name rq)))"

text \<open>What the walk over runtime and bootstrap packages gathers: requirements and their origins.\<close>

type_synonym gathered = "pystr list \<times> (pystr \<times> pystr) list"

function collect_loop ::
    "'n tools \<Rightarrow> build_query \<Rightarrow> pystr list \<Rightarrow> pystr list \<Rightarrow> gathered \<Rightarrow> 'n update_state \<Rightarrow>
     'n update_state \<times> gathered result" where
  "collect_loop t q seen [] g s = (s, Inr g)"
| "collect_loop t q seen (name # queue) g s =
     (case dget (bq_combined q) name of
        None \<Rightarrow> collect_loop t q seen queue g s
      | Some pk \<Rightarrow>
          if name \<in> set seen then collect_loop t q seen queue g s
          else
            (case source_requirements t q name pk s of
               (s', Inl e) \<Rightarrow> (s', Inl e)
             | (s', Inr found) \<Rightarrow>
                 (case mapE (requirement_name (pep (web t))) found of
                    Inl e \<Rightarrow> (s', Inl e)
                  | Inr names \<Rightarrow>
                      collect_loop t q (name # seen) (queue @ children_of (bq_combined q) name @ names)
                        (fst g @ found, if found = [] then snd g else snd g @ [(name, pin_version pk)]) s')))"
  by pat_completeness auto
termination
proof (relation "measures [\<lambda>(t, q, seen, queue, g, s). card (fst ` set (bq_combined q) - set seen),
    \<lambda>(t, q, seen, queue, g, s). length queue]", goal_cases)
  case (4 t q seen name queue g s pk)
  then have "name \<in> fst ` set (bq_combined q)" "name \<notin> set seen" by (auto dest: map_of_SomeD intro: rev_image_eqI)
  then have "card (fst ` set (bq_combined q) - set (name # seen)) < card (fst ` set (bq_combined q) - set seen)"
    by (intro psubset_card_mono) auto
  then show ?case by simp
qed simp_all

definition collect_build_requirements ::
    "'n tools \<Rightarrow> build_query \<Rightarrow> pin dict \<Rightarrow> pystr list \<Rightarrow> 'n update_state \<Rightarrow> 'n update_state \<times> gathered result" where
  "collect_build_requirements t q runtime bootstrap s =
     (case collect_loop t q [] (map fst runtime @ map normalize_name bootstrap) (bootstrap, []) s of
        (s', Inl e) \<Rightarrow> (s', Inl e)
      | (s', Inr (requirements, origins)) \<Rightarrow> (s', Inr (sort (remdups requirements), origins)))"


section \<open>One candidate environment\<close>

record env_job =
  ej_uv :: uv_job
  ej_bootstrap :: "pystr list"
  ej_wheel_only :: "pystr list"

type_synonym environment = "pin dict \<times> pin dict"
type_synonym round_state = "pystr list \<times> (pystr \<times> pystr) list \<times> pystr list"

definition pins_of :: "pin dict \<Rightarrow> pystr dict" where
  "pins_of combined = map (\<lambda>(name, pk). (name, pin_version pk)) combined"

definition build_conflict :: "pystr \<Rightarrow> (pystr \<times> pystr) list \<Rightarrow> resolve_error" where
  "build_conflict m origins =
     BuildConflict (m @ [10] @ S ''Source-build requirement providers: '' @
       join (S '', '') (map (\<lambda>(name, v). name @ S ''=='' @ v) (sort (remdups origins)))) origins"

text \<open>A round: the build requirements, the joint solution with them, its projection on the runtime.\<close>

definition candidate_round ::
    "'n tools \<Rightarrow> env_job \<Rightarrow> environment \<Rightarrow> 'n update_state \<Rightarrow>
     'n update_state \<times> (resolve_error + environment \<times> round_state)" where
  "candidate_round t job env s =
     (let job_uv = ej_uv job;
          q = \<lparr>bq_combined = snd env, bq_url = uj_url job_uv, bq_wheel_only = ej_wheel_only job\<rparr>
      in case collect_build_requirements t q (fst env) (ej_bootstrap job) s of
           (s1, Inl e) \<Rightarrow> (s1, Inl (Raised e))
         | (s1, Inr (requirements, origins)) \<Rightarrow>
             (case uv_resolve t (job_uv\<lparr>uj_requirements := requirements, uj_constraints := []\<rparr>) s1 of
                (s2, Inl (Raised e)) \<Rightarrow> (s2, Inl (Raised e))
              | (s2, Inl conflict) \<Rightarrow> (s2, Inl (build_conflict (error_text conflict) origins))
              | (s2, Inr combined) \<Rightarrow>
                  let pins = pins_of combined
                  in case uv_resolve t (job_uv\<lparr>uj_upgrade := [], uj_requirements := [],
                            uj_preferences := Some pins, uj_constraints := pins\<rparr>) s2 of
                       (s3, Inl e) \<Rightarrow> (s3, Inl e)
                     | (s3, Inr runtime) \<Rightarrow>
                         (s3, Inr ((runtime, combined),
                            (requirements, sort_key fst pins, sort (map fst runtime))))))"

fun candidate_rounds ::
    "'n tools \<Rightarrow> env_job \<Rightarrow> nat \<Rightarrow> environment \<Rightarrow> round_state option \<Rightarrow> round_state list \<Rightarrow> 'n update_state \<Rightarrow>
     'n update_state \<times> (resolve_error + environment)" where
  "candidate_rounds t job 0 env previous seen s =
     (s, Inl (Raised (Exn CRuntimeError (S ''Build dependency discovery exceeded 12 resolution rounds''))))"
| "candidate_rounds t job (Suc k) env previous seen s =
     (case candidate_round t job env s of
        (s', Inl e) \<Rightarrow> (s', Inl e)
      | (s', Inr (env', state)) \<Rightarrow>
          if previous = Some state then (s', Inr env')
          else if state \<in> set seen
          then (s', Inl (Raised (Exn CRuntimeError (S ''Build dependency discovery did not converge''))))
          else candidate_rounds t job k env' (Some state) (state # seen) s')"

definition resolve_candidate ::
    "'n tools \<Rightarrow> env_job \<Rightarrow> 'n update_state \<Rightarrow> 'n update_state \<times> (resolve_error + environment)" where
  "resolve_candidate t job s =
     (case uv_resolve t ((ej_uv job)\<lparr>uj_requirements := [], uj_constraints := []\<rparr>) s of
        (s', Inl e) \<Rightarrow> (s', Inl e)
      | (s', Inr runtime) \<Rightarrow> candidate_rounds t job 12 (runtime, runtime) None [] s')"


section \<open>The search\<close>

type_synonym exclusions = "(pystr \<times> pystr) list"

text \<open>A \<open>frozenset\<close> of exclusions is its sorted list.\<close>

definition exclude :: "exclusions \<Rightarrow> pystr \<times> pystr \<Rightarrow> exclusions" where
  "exclude excluded origin = (if origin \<in> set excluded then excluded else insort origin excluded)"

fun add_alternatives ::
    "exclusions \<Rightarrow> (pystr \<times> pystr) list \<Rightarrow> exclusions list \<Rightarrow> exclusions list \<Rightarrow> exclusions list \<times> exclusions list" where
  "add_alternatives excluded [] visited pending = (visited, pending)"
| "add_alternatives excluded (origin # os) visited pending =
     (if exclude excluded origin \<in> set visited then add_alternatives excluded os visited pending
      else add_alternatives excluded os (exclude excluded origin # visited) (pending @ [exclude excluded origin]))"

definition search_exceeded :: "resolve_error option \<Rightarrow> resolve_error" where
  "search_exceeded original = Raised (Exn CRuntimeError
     (S ''Build dependency search exceeded 64 alternatives; '' @
      (case original of None \<Rightarrow> S ''None'' | Some e \<Rightarrow> error_text e)))"

text \<open>
  The loop with the attempts that are left. It also returns the exclusions it tried, in order, which
  the program does not keep.
\<close>

fun search_loop ::
    "(exclusions \<Rightarrow> 's \<Rightarrow> 's \<times> (resolve_error + 'r)) \<Rightarrow> nat \<Rightarrow> exclusions list \<Rightarrow> exclusions list \<Rightarrow>
     resolve_error option \<Rightarrow> 's \<Rightarrow> 's \<times> exclusions list \<times> (resolve_error + 'r)" where
  "search_loop candidate left [] visited original s =
     (s, [], Inl (case original of None \<Rightarrow> Raised (Exn CAssertionError []) | Some e \<Rightarrow> e))"
| "search_loop candidate 0 (excluded # pending) visited original s = (s, [], Inl (search_exceeded original))"
| "search_loop candidate (Suc left) (excluded # pending) visited original s =
     (case candidate excluded s of
        (s', Inr r) \<Rightarrow> (s', [excluded], Inr r)
      | (s', Inl (Raised e)) \<Rightarrow> (s', [excluded], Inl (Raised e))
      | (s', Inl (BuildConflict m origins)) \<Rightarrow>
          let (visited', pending') = add_alternatives excluded (sort (remdups origins)) visited pending;
              original' = (if original = None then Some (BuildConflict m origins) else original);
              (s'', tried, r) = search_loop candidate left pending' visited' original' s'
          in (s'', excluded # tried, r)
      | (s', Inl (ResolutionConflict m)) \<Rightarrow>
          if excluded = [] then (s', [excluded], Inl (ResolutionConflict m))
          else
            let (s'', tried, r) = search_loop candidate left pending visited original s'
            in (s'', excluded # tried, r))"

definition search_environment ::
    "(exclusions \<Rightarrow> 's \<Rightarrow> 's \<times> (resolve_error + 'r)) \<Rightarrow> 's \<Rightarrow> 's \<times> exclusions list \<times> (resolve_error + 'r)" where
  "search_environment candidate s = search_loop candidate 64 [[]] [[]] None s"

definition exclusion_text :: "pystr \<times> pystr \<Rightarrow> pystr" where
  "exclusion_text origin = fst origin @ S ''!='' @ snd origin"

definition excluding :: "env_job \<Rightarrow> exclusions \<Rightarrow> env_job" where
  "excluding job excluded =
     job\<lparr>ej_uv := (ej_uv job)\<lparr>uj_minimums := uj_minimums (ej_uv job) @ map exclusion_text excluded\<rparr>\<rparr>"

definition environment_pin_files :: "pystr \<Rightarrow> pystr list" where
  "environment_pin_files suffix =
     pin_files suffix @ [konflux_path (S ''requirements-build'' @ suffix @ S ''.txt''),
       konflux_path (S ''requirements.hermetic'' @ suffix @ S ''.txt'')]"

definition resolve_environment ::
    "'n tools \<Rightarrow> env_job \<Rightarrow> 'n update_state \<Rightarrow> 'n update_state \<times> (resolve_error + environment)" where
  "resolve_environment t job s =
     (case (if uj_upgrade (ej_uv job) \<noteq> []
            then map_sum id Some (read_pins (us_world s) (environment_pin_files (uj_suffix (ej_uv job))) [])
            else Inr None) of
        Inl e \<Rightarrow> (s, Inl (Raised e))
      | Inr preferences \<Rightarrow>
          let job = job\<lparr>ej_uv := (ej_uv job)\<lparr>uj_preferences := preferences\<rparr>\<rparr>;
              (s', _, r) = search_environment (\<lambda>excluded. resolve_candidate t (excluding job excluded)) s
          in (s', r))"

section \<open>Artifacts\<close>

text \<open>The RHOAI match of an exact version; a stale page is dropped and fetched again, three times in all.\<close>

fun rhoai_attempts ::
    "'n web \<Rightarrow> pystr \<Rightarrow> pystr \<Rightarrow> nat list \<Rightarrow> rhoai_index \<times> 'n \<Rightarrow> (rhoai_index \<times> 'n) \<times> rhoai_match option result" where
  "rhoai_attempts wb name constraint [] s = (s, Inr None)"
| "rhoai_attempts wb name constraint (k # ks) s =
     (case rhoai_find_best wb name constraint s of
        (s', Inl e) \<Rightarrow> (s', Inl e)
      | (s', Inr (Some m)) \<Rightarrow> (s', Inr (Some m))
      | ((idx, n), Inr None) \<Rightarrow>
          rhoai_attempts wb name constraint ks (rhoai_invalidate name idx, nap wb (2 ^ k) n))"

definition covers :: "pystr list \<Rightarrow> platform_files \<Rightarrow> bool" where
  "covers platforms fs \<longleftrightarrow> (\<forall>p \<in> set platforms. has_key fs (S ''any'') \<or> has_key fs (S ''linux_'' @ p))"

definition missing_artifact :: "string \<Rightarrow> pystr \<Rightarrow> pystr \<Rightarrow> exn" where
  "missing_artifact what name version = Exn CRuntimeError (S what @ S '' for '' @ name @ S ''=='' @ version)"

definition hydrate_one ::
    "'n tools \<Rightarrow> pystr \<Rightarrow> pystr list \<Rightarrow> pystr \<times> pin \<Rightarrow> rhoai_index \<times> 'n update_state \<Rightarrow>
     (rhoai_index \<times> 'n update_state) \<times> package result" where
  "hydrate_one t url platforms entry s =
     (let (name, pk) = entry; (idx, us) = s; version = pin_version pk
      in if from_index url pk then
           (case rhoai_attempts (web t) name (S ''=='' @ version) [0, 1, 2] (idx, us_net us) of
              ((idx', n), r) \<Rightarrow>
                ((idx', us\<lparr>us_net := n\<rparr>),
                 bindE r (\<lambda>found. case found of
                   None \<Rightarrow> Inl (missing_artifact ''No compatible RHOAI artifact'' name version)
                 | Some m \<Rightarrow>
                     if covers platforms (rm_platforms m)
                     then Inr (RhoaiPackage (rm_version m) (rm_platforms m))
                     else Inl (missing_artifact ''Missing target-platform RHOAI artifact'' name version))))
         else
           (case metadata_step t name version us of
              (us', r) \<Rightarrow>
                ((idx, us'),
                 bindE r (\<lambda>found. case found of
                   None \<Rightarrow> Inl (missing_artifact ''No PyPI artifacts'' name version)
                 | Some rel \<Rightarrow> Inr (PypiPackage version rel)))))"

fun hydrate_packages ::
    "'n tools \<Rightarrow> pystr \<Rightarrow> pystr list \<Rightarrow> pin dict \<Rightarrow> package dict \<Rightarrow> rhoai_index \<times> 'n update_state \<Rightarrow>
     (rhoai_index \<times> 'n update_state) \<times> package dict result" where
  "hydrate_packages t url platforms [] packages s = (s, Inr packages)"
| "hydrate_packages t url platforms (entry # rest) packages s =
     (case hydrate_one t url platforms entry s of
        (s', Inl e) \<Rightarrow> (s', Inl e)
      | (s', Inr pk) \<Rightarrow> hydrate_packages t url platforms rest (dset packages (fst entry) pk) s')"

text \<open>
  An older route to the artifacts, from plain pins: \<open>reclassify_with_rhoai\<close> asks RHOAI first, and
  \<open>_fetch_hashes_for_pypi_packages\<close> fills in the hashes of the rest.
\<close>

definition assumed_release :: release where
  "assumed_release = empty_release\<lparr>has_sdist := True\<rparr>"

fun reclassify_loop ::
    "'n web \<Rightarrow> (pystr \<times> pystr) list \<Rightarrow> package dict \<Rightarrow> rhoai_index \<times> 'n \<Rightarrow>
     (rhoai_index \<times> 'n) \<times> package dict result" where
  "reclassify_loop wb [] packages s = (s, Inr packages)"
| "reclassify_loop wb ((name, version) # rest) packages s =
     (case rhoai_find_best wb name (S ''=='' @ version) s of
        (s', Inl e) \<Rightarrow> (s', Inl e)
      | (s', Inr found) \<Rightarrow>
          let pk = (case found of
                None \<Rightarrow> PypiPackage version assumed_release
              | Some m \<Rightarrow> if rm_version m = version then RhoaiPackage version (rm_platforms m)
                  else PypiPackage version assumed_release)
          in reclassify_loop wb rest (dset packages name pk) s')"

definition reclassify_with_rhoai ::
    "'n web \<Rightarrow> pystr dict \<Rightarrow> rhoai_index \<times> 'n \<Rightarrow> (rhoai_index \<times> 'n) \<times> package dict result" where
  "reclassify_with_rhoai wb pins s = reclassify_loop wb (sort pins) [] s"

fun fetch_hashes :: "'n web \<Rightarrow> package dict \<Rightarrow> pypi_client \<times> 'n \<Rightarrow> (pypi_client \<times> 'n) \<times> package dict" where
  "fetch_hashes wb [] s = (s, [])"
| "fetch_hashes wb ((name, RhoaiPackage v fs) # rest) s =
     (let (s', packages) = fetch_hashes wb rest s in (s', (name, RhoaiPackage v fs) # packages))"
| "fetch_hashes wb ((name, PypiPackage v rel) # rest) s =
     (let (s1, r) = get_package_info wb name s;
          rel' = (case r of Inl _ \<Rightarrow> rel | Inr info \<Rightarrow>
                    (case dget info v of None \<Rightarrow> empty_release | Some found \<Rightarrow> found));
          (s2, packages) = fetch_hashes wb rest s1
      in (s2, (name, PypiPackage v rel') # packages))"

text \<open>Neither step changes a version, and only an RHOAI match of the very version counts.\<close>

lemma fetch_hashes_versions:
  "map (\<lambda>(name, pk). (name, package_version pk, from_rhoai pk)) (snd (fetch_hashes wb packages s)) =
   map (\<lambda>(name, pk). (name, package_version pk, from_rhoai pk)) packages"
  by (induction wb packages s rule: fetch_hashes.induct) (auto split: prod.splits)

lemma reclassify_loop_versions:
  assumes "reclassify_loop wb pins packages s = (s', Inr packages')"
    and "\<forall>name pk. dget packages name = Some pk \<longrightarrow> (name, package_version pk) \<in> set prior"
  shows "\<forall>name pk. dget packages' name = Some pk \<longrightarrow> (name, package_version pk) \<in> set (prior @ pins)"
  using assms
proof (induction wb pins packages s arbitrary: prior rule: reclassify_loop.induct)
  case (2 wb name version rest packages s)
  obtain s1 r where f: "rhoai_find_best wb name (S ''=='' @ version) s = (s1, r)" by (metis surj_pair)
  then obtain found where r: "r = Inr found" using 2(2) by (cases r) simp_all
  let ?pk = "case found of None \<Rightarrow> PypiPackage version assumed_release
      | Some m \<Rightarrow> if rm_version m = version then RhoaiPackage version (rm_platforms m)
          else PypiPackage version assumed_release"
  have v: "package_version ?pk = version" by (simp split: option.split)
  have "reclassify_loop wb rest (dset packages name ?pk) s1 = (s', Inr packages')"
    using 2(2) f r by (simp add: Let_def)
  moreover have "\<forall>n pk. dget (dset packages name ?pk) n = Some pk \<longrightarrow>
      (n, package_version pk) \<in> set (prior @ [(name, version)])"
    using 2(3) v by (simp split: if_splits)
  ultimately have "\<forall>n pk. dget packages' n = Some pk \<longrightarrow>
      (n, package_version pk) \<in> set ((prior @ [(name, version)]) @ rest)"
    by (rule 2(1) [OF f [symmetric] r refl])
  then show ?case by simp
qed simp


section \<open>The run\<close>

text \<open>
  tomlkit is a parameter: \<open>project_groups\<close> are the dependency lists of a document, \<open>dump_project\<close> its
  text with other lists in their place.
\<close>

record 'n update_tools = "'n tools" +
  project_groups :: "pystr \<Rightarrow> pystr list list result"
  dump_project :: "pystr \<Rightarrow> pystr list list \<Rightarrow> pystr"

definition package_arg :: "pystr \<Rightarrow> bool" where
  "package_arg p \<longleftrightarrow>
     p \<noteq> [] \<and> ascii_alnum (hd p) \<and> ascii_alnum (last p) \<and> (\<forall>c \<in> set p. name_char c)"

definition bump_entry :: "packaging \<Rightarrow> pystr \<Rightarrow> pystr \<Rightarrow> pystr \<Rightarrow> pystr result" where
  "bump_entry P target version entry =
     bindE (requirement_name P entry) (\<lambda>name.
       if name = target then bump_requirement P entry version else Inr entry)"

definition updated_project :: "('n, 'm) update_tools_scheme \<Rightarrow> world \<Rightarrow> pystr \<Rightarrow> pystr \<Rightarrow> pystr \<Rightarrow> (pystr \<times> pystr) result" where
  "updated_project t w path package version =
     (if \<not> package_arg package then Inl (ValueError (S ''Invalid package name: '' @ package))
      else bindE (parse_version (pep (web t)) version) (\<lambda>_.
           bindE (read_text w path) (\<lambda>content.
           bindE (project_groups t content) (\<lambda>groups.
           bindE (mapE (mapE (bump_entry (pep (web t)) (normalize_name package) version)) groups) (\<lambda>groups'.
             Inr (content, dump_project t content groups'))))))"

definition write_text :: "disk \<Rightarrow> pystr \<Rightarrow> pystr \<Rightarrow> world \<Rightarrow> world \<times> unit result" where
  "write_text d path content w =
     (case refuses d path of
        Some e \<Rightarrow> (w, Inl e)
      | None \<Rightarrow> (case utf8_encode content of
                   Inl e \<Rightarrow> (put_file path [] w, Inl e)
                 | Inr bs \<Rightarrow> (put_file path bs w, Inr ())))"

definition update_dependency ::
    "('n, 'm) update_tools_scheme \<Rightarrow> pystr \<Rightarrow> pystr \<Rightarrow> pystr \<Rightarrow> world \<Rightarrow> world \<times> unit result" where
  "update_dependency t path package version w =
     (case updated_project t w path package version of
        Inl e \<Rightarrow> (w, Inl e)
      | Inr (content, updated) \<Rightarrow>
          if updated = content then (w, Inr ()) else write_text (disk_of t) path updated w)"

record update_args =
  ua_profile :: pystr
  ua_package :: pystr
  ua_version :: pystr

text \<open>The values of a profile; a missing or ill-typed one is an error.\<close>

definition required_value :: "pydict \<Rightarrow> string \<Rightarrow> pyval result" where
  "required_value d k = (case dget d (S k) of None \<Rightarrow> Inl (Exn CKeyError (S k)) | Some v \<Rightarrow> Inr v)"

definition as_text :: "pyval \<Rightarrow> pystr result" where
  "as_text v = (case v of PStr s \<Rightarrow> Inr s | _ \<Rightarrow> Inl (TypeError (S ''expected str'')))"

definition as_texts :: "pyval \<Rightarrow> pystr list result" where
  "as_texts v = bindE (py_iter v) (mapE as_text)"

definition optional_value :: "pydict \<Rightarrow> string \<Rightarrow> pyval \<Rightarrow> pyval" where
  "optional_value d k dflt = (case dget d (S k) of None \<Rightarrow> dflt | Some v \<Rightarrow> v)"

record profile =
  pf_url :: pystr
  pf_platforms :: "pystr list"
  pf_extras :: "pystr list"
  pf_bootstrap :: "pystr list"
  pf_tekton :: "pystr list"

definition read_profile :: "world \<Rightarrow> pydict \<Rightarrow> (profile \<times> pystr list) result" where
  "read_profile w config =
     bindE (bindE (required_value config ''rhoai_index_url'') as_text) (\<lambda>url.
     bindE (load_wheel_only w (konflux_path (S ''pypi_wheel_only.txt''))) (\<lambda>wheel_only.
     bindE (bindE (required_value config ''platforms'') as_texts) (\<lambda>platforms.
     bindE (as_texts (optional_value config ''extras'' (PList []))) (\<lambda>extras.
     bindE (as_texts (optional_value config ''bootstrap_packages'' (PList []))) (\<lambda>bootstrap.
     bindE (as_texts (optional_value config ''tekton_files'' (PList []))) (\<lambda>tekton.
       Inr (\<lparr>pf_url = url, pf_platforms = platforms, pf_extras = extras, pf_bootstrap = bootstrap,
              pf_tekton = tekton\<rparr>, wheel_only)))))))"

definition first_job :: "profile \<Rightarrow> pystr list \<Rightarrow> update_args \<Rightarrow> pystr \<Rightarrow> pystr \<Rightarrow> env_job" where
  "first_job pf wheel_only args python suffix =
     \<lparr>ej_uv = \<lparr>uj_python = python, uj_url = pf_url pf, uj_suffix = suffix, uj_extras = pf_extras pf,
        uj_upgrade = ua_package args, uj_requirements = [], uj_preferences = None, uj_constraints = [],
        uj_minimums = (if ua_package args = [] then []
          else [normalize_name (ua_package args) @ S ''>='' @ ua_version args])\<rparr>,
      ej_bootstrap = pf_bootstrap pf, ej_wheel_only = wheel_only\<rparr>"

definition check_requested :: "packaging \<Rightarrow> update_args \<Rightarrow> pin dict \<Rightarrow> unit result" where
  "check_requested P args combined =
     (if ua_package args = [] then Inr ()
      else
        let missing = Inl (Exn CRuntimeError (S ''Requested '' @ ua_package args @ S ''>='' @ ua_version args @
              S '' is not in the resolved image environment''))
        in case dget combined (normalize_name (ua_package args)) of
             None \<Rightarrow> missing
           | Some pk \<Rightarrow>
               bindE (parse_version P (pin_version pk)) (\<lambda>v.
               bindE (parse_version P (ua_version args)) (\<lambda>wanted.
                 if version_le P wanted v then Inr () else missing)))"

definition check_bootstrap :: "package dict \<Rightarrow> pystr \<Rightarrow> unit result" where
  "check_bootstrap packages name =
     (case dget packages (normalize_name name) of
        None \<Rightarrow> Inl (Exn CKeyError (normalize_name name))
      | Some pk \<Rightarrow>
          if from_rhoai pk then Inr ()
          else Inl (Exn CRuntimeError (S ''Bootstrap package '' @ name @ S '' must be available from RHOAI'')))"

definition select_package :: "package dict \<Rightarrow> pystr \<Rightarrow> (pystr \<times> package) result" where
  "select_package packages name =
     (case dget packages name of None \<Rightarrow> Inl (Exn CKeyError name) | Some pk \<Rightarrow> Inr (name, pk))"

fun error_exn :: "resolve_error \<Rightarrow> exn" where
  "error_exn (Raised e) = e"
| "error_exn (ResolutionConflict m) = Exn (COther (S ''ResolutionConflictError'')) m"
| "error_exn (BuildConflict m _) = Exn (COther (S ''BuildConflictError'')) m"

text \<open>The artifacts of a solved environment, with all checks before anything is published.\<close>

definition checked_packages ::
    "('n, 'm) update_tools_scheme \<Rightarrow> profile \<Rightarrow> update_args \<Rightarrow> pystr \<Rightarrow> environment \<Rightarrow> 'n update_state \<Rightarrow>
     'n update_state \<times> (package dict \<times> package dict) result" where
  "checked_packages t pf args python env s =
     (case bindE (check_requested (pep (web t)) args (snd env))
             (\<lambda>_. new_rhoai (url_world (web t)) (pf_url pf) python (pf_platforms pf)) of
        Inl e \<Rightarrow> (s, Inl e)
      | Inr idx \<Rightarrow>
          (case rhoai_load (web t) (idx, us_net s) of
             ((idx', n), Inl e) \<Rightarrow> (s\<lparr>us_net := n\<rparr>, Inl e)
           | ((idx', n), Inr _) \<Rightarrow>
               (case hydrate_packages (tools.truncate t) (pf_url pf) (pf_platforms pf) (snd env) [] (idx', s\<lparr>us_net := n\<rparr>) of
                  ((_, s'), r) \<Rightarrow>
                    (s', bindE r (\<lambda>packages.
                       bindE (mapE (check_bootstrap packages) (pf_bootstrap pf)) (\<lambda>_.
                       bindE (mapE (select_package packages) (map fst (fst env))) (\<lambda>runtime.
                         Inr (runtime, packages))))))))"

definition resolve_and_publish ::
    "('n, 'm) update_tools_scheme \<Rightarrow> update_args \<Rightarrow> pydict \<Rightarrow> pystr \<Rightarrow> pystr \<Rightarrow> 'n update_state \<Rightarrow> 'n update_state \<times> unit result" where
  "resolve_and_publish t args config python suffix s =
     (case read_profile (us_world s) config of
        Inl e \<Rightarrow> (s, Inl e)
      | Inr (pf, wheel_only) \<Rightarrow>
          let s = s\<lparr>us_pypi := new_pypi python (pf_platforms pf)\<rparr>
          in case resolve_environment (tools.truncate t) (first_job pf wheel_only args python suffix) s of
               (s1, Inl e) \<Rightarrow> (s1, Inl (error_exn e))
             | (s1, Inr env) \<Rightarrow>
                 (case checked_packages t pf args python env s1 of
                    (s2, Inl e) \<Rightarrow> (s2, Inl e)
                  | (s2, Inr (runtime, packages)) \<Rightarrow>
                      (case publish_environment (disk_of t) runtime packages wheel_only (pf_tekton pf)
                              (pf_url pf) suffix (us_world s2) of
                         (w, r) \<Rightarrow> (s2\<lparr>us_world := w\<rparr>, r))))"

definition project_file :: pystr where "project_file = S ''pyproject.toml''"

definition write_bytes :: "disk \<Rightarrow> pystr \<Rightarrow> int list \<Rightarrow> world \<Rightarrow> world \<times> unit result" where
  "write_bytes d path bs w =
     (case refuses d path of Some e \<Rightarrow> (w, Inl e) | None \<Rightarrow> (put_file path bs w, Inr ()))"

text \<open>\<open>try: ... except BaseException: restore; raise\<close>.\<close>

definition restore_on_failure ::
    "disk \<Rightarrow> int list option \<Rightarrow> 'n update_state \<times> unit result \<Rightarrow> 'n update_state \<times> unit result" where
  "restore_on_failure d original out =
     (case (snd out, original) of
        (Inl e, Some bs) \<Rightarrow>
          (case write_bytes d project_file bs (us_world (fst out)) of
             (w, Inl e') \<Rightarrow> ((fst out)\<lparr>us_world := w\<rparr>, Inl e')
           | (w, Inr _) \<Rightarrow> ((fst out)\<lparr>us_world := w\<rparr>, Inl e))
      | _ \<Rightarrow> out)"

definition update_settings :: "('n, 'm) update_tools_scheme \<Rightarrow> world \<Rightarrow> update_args \<Rightarrow> (pydict \<times> pystr \<times> pystr) result" where
  "update_settings t w args =
     bindE (load_config (toml_loads t) w (konflux_path (S ''profiles.toml'')) (ua_profile args)) (\<lambda>config.
     bindE (bindE (required_value config ''python_version'') as_text) (\<lambda>python.
     if interpreter_version t \<noteq> python
     then Inl (Exn CRuntimeError (S ''Run dependency discovery under Python '' @ python @ S ''; use make bump''))
     else bindE (as_text (optional_value config ''output_suffix'' (PStr []))) (\<lambda>suffix.
       Inr (config, python, suffix))))"

definition run_update :: "('n, 'm) update_tools_scheme \<Rightarrow> update_args \<Rightarrow> 'n update_state \<Rightarrow> 'n update_state \<times> unit result" where
  "run_update t args s =
     (case update_settings t (us_world s) args of
        Inl e \<Rightarrow> (s, Inl e)
      | Inr (config, python, suffix) \<Rightarrow>
          if ua_package args = [] then resolve_and_publish t args config python suffix s
          else
            (case file_bytes (us_world s) project_file of
               Inl e \<Rightarrow> (s, Inl e)
             | Inr original \<Rightarrow>
                 (case update_dependency t project_file (ua_package args) (ua_version args) (us_world s) of
                    (w, Inl e) \<Rightarrow> (s\<lparr>us_world := w\<rparr>, Inl e)
                  | (w, Inr _) \<Rightarrow>
                      restore_on_failure (disk_of t) (Some original)
                        (resolve_and_publish t args config python suffix (s\<lparr>us_world := w\<rparr>)))))"

definition ignored_variables :: "pystr list" where
  "ignored_variables = [S ''UV_CONFIG_FILE'', S ''UV_INDEX_URL'', S ''UV_DEFAULT_INDEX'', S ''UV_INDEX'',
     S ''UV_EXTRA_INDEX_URL'', S ''PIP_INDEX_URL'', S ''PIP_EXTRA_INDEX_URL'', S ''PIP_CONSTRAINT'',
     S ''PIP_BUILD_CONSTRAINT'', S ''UV_CONSTRAINT'', S ''UV_OVERRIDE'']"

definition prepare_environment :: "world \<Rightarrow> world" where
  "prepare_environment w =
     w\<lparr>environ := (\<lambda>k. if k = S ''PIP_CONFIG_FILE'' then Some (S ''/dev/null'')
        else if k = S ''UV_NO_CONFIG'' then Some (S ''1'')
        else if k \<in> set ignored_variables then None else environ w k)\<rparr>"

datatype update_exit = UpdateDone | UsageError | UpdateFailed pystr | UpdateUncaught exn

text \<open>\<open>OSError\<close>, \<open>ValueError\<close>, \<open>RuntimeError\<close> and their subclasses in the libraries and the script.\<close>

definition reported :: "exn \<Rightarrow> bool" where
  "reported e \<longleftrightarrow>
     is_os_error (exn_class e) \<or> is_value_error (exn_class e) \<or> exn_class e = CRuntimeError \<or>
     exn_class e \<in> {COther (S ''InvalidVersion''), COther (S ''InvalidRequirement''),
       COther (S ''TOMLDecodeError''), COther (S ''ResolutionConflictError''), COther (S ''BuildConflictError'')}"

definition update_main :: "('n, 'm) update_tools_scheme \<Rightarrow> update_args \<Rightarrow> 'n update_state \<Rightarrow> 'n update_state \<times> update_exit" where
  "update_main t args s =
     (if (ua_package args = []) \<noteq> (ua_version args = []) then (s, UsageError)
      else
        (case run_update t args (s\<lparr>us_world := prepare_environment (us_world s)\<rparr>) of
           (s', Inr _) \<Rightarrow> (s', UpdateDone)
         | (s', Inl e) \<Rightarrow>
             (s', if reported e then UpdateFailed (S ''Error: '' @ exn_msg e @ [10]) else UpdateUncaught e)))"

section \<open>The search is bounded\<close>

lemma add_alternatives_new:
  assumes "add_alternatives ex os visited pending = (visited', pending')"
    and "ex \<in> set visited" "sorted ex" "distinct ex"
  shows "\<exists>new. pending' = pending @ new \<and> set visited' = set visited \<union> set new \<and> distinct new \<and>
    set new \<inter> set visited = {} \<and> (\<forall>x \<in> set new. length x = Suc (length ex) \<and> sorted x \<and> distinct x)"
  using assms(1,2)
proof (induction os arbitrary: visited pending)
  case Nil
  then show ?case by (intro exI [of _ "[]"]) simp
next
  case (Cons o1 os)
  show ?case
  proof (cases "exclude ex o1 \<in> set visited")
    case True
    then show ?thesis using Cons by simp
  next
    case False
    then have o: "o1 \<notin> set ex" using Cons.prems(2) by (auto simp: exclude_def)
    let ?x = "exclude ex o1"
    obtain new where new: "pending' = (pending @ [?x]) @ new" "set visited' = set (?x # visited) \<union> set new"
        "distinct new" "set new \<inter> set (?x # visited) = {}"
        "\<forall>x \<in> set new. length x = Suc (length ex) \<and> sorted x \<and> distinct x"
      using Cons.IH [of "?x # visited" "pending @ [?x]"] Cons.prems False by auto
    have "length ?x = Suc (length ex) \<and> sorted ?x \<and> distinct ?x"
      using o assms(3,4) by (simp add: exclude_def sorted_insort distinct_insort)
    then show ?thesis using new False by (intro exI [of _ "?x # new"]) auto
  qed
qed

text \<open>The queue: distinct sets that were seen, of at most two neighbouring sizes, the smaller ones first.\<close>

definition search_queue :: "exclusions list \<Rightarrow> exclusions list \<Rightarrow> resolve_error option \<Rightarrow> bool" where
  "search_queue pending visited original \<longleftrightarrow>
     distinct pending \<and> set pending \<subseteq> set visited \<and> (\<forall>x \<in> set pending. sorted x \<and> distinct x) \<and>
     sorted (map length pending) \<and> (\<forall>x \<in> set pending. length x \<le> Suc (length (hd pending))) \<and>
     (original = None \<longrightarrow> pending = [[]])"

lemma search_queue_tl:
  assumes "search_queue (ex # pending) visited original" "original' \<noteq> None"
  shows "search_queue pending visited original'"
proof -
  have q: "sorted (map length (ex # pending))" "\<forall>x \<in> set (ex # pending). length x \<le> Suc (length ex)"
    using assms(1) by (simp_all add: search_queue_def)
  have "length x \<le> Suc (length (hd pending))" if "x \<in> set pending" for x
  proof -
    have "hd pending \<in> set pending" using that by (cases pending) auto
    then have "length ex \<le> length (hd pending)" using q(1) by simp
    then show ?thesis using q(2) that by (metis Suc_le_mono le_trans list.set_intros(2))
  qed
  then show ?thesis using assms unfolding search_queue_def by auto
qed

lemma search_queue_add:
  assumes "search_queue (ex # pending) visited original" "original' \<noteq> None"
    and "distinct new" "set new \<inter> set visited = {}" "set visited' = set visited \<union> set new"
    and "\<forall>x \<in> set new. length x = Suc (length ex) \<and> sorted x \<and> distinct x"
  shows "search_queue (pending @ new) visited' original'"
proof -
  have q: "sorted (map length (ex # pending))" "\<forall>x \<in> set (ex # pending). length x \<le> Suc (length ex)"
    using assms(1) by (simp_all add: search_queue_def)
  have ge: "\<forall>x \<in> set (pending @ new). length ex \<le> length x" using q(1) assms(6) by auto
  have "length x \<le> Suc (length (hd (pending @ new)))" if "x \<in> set (pending @ new)" for x
  proof -
    have "hd (pending @ new) \<in> set (pending @ new)" using that by (intro hd_in_set) auto
    then have "length ex \<le> length (hd (pending @ new))" using ge by blast
    moreover have "length x \<le> Suc (length ex)" using that q(2) assms(6) by auto
    ultimately show ?thesis by linarith
  qed
  moreover have "sorted (map length (pending @ new))"
  proof -
    have "map length new = replicate (length new) (Suc (length ex))"
      using assms(6) by (simp add: map_replicate_const [symmetric])
    moreover have "sorted (map length pending)" using q(1) by simp
    ultimately show ?thesis using q(2) by (auto simp: sorted_append)
  qed
  moreover have "distinct (pending @ new)" using assms(1,3,4) by (auto simp: search_queue_def)
  ultimately show ?thesis using assms unfolding search_queue_def by auto
qed

text \<open>What a run of the loop tried, and where its outcome comes from.\<close>

definition came_from :: "(exclusions \<Rightarrow> 's \<Rightarrow> 's \<times> (resolve_error + 'r)) \<Rightarrow> exclusions list \<Rightarrow> resolve_error + 'r \<Rightarrow> bool" where
  "came_from candidate tried r \<longleftrightarrow> (\<exists>ex \<in> set tried. \<exists>a b. candidate ex a = (b, r))"

definition search_outcome ::
    "(exclusions \<Rightarrow> 's \<Rightarrow> 's \<times> (resolve_error + 'r)) \<Rightarrow> nat \<Rightarrow> exclusions list \<Rightarrow> resolve_error option \<Rightarrow> resolve_error + 'r \<Rightarrow> bool" where
  "search_outcome candidate left tried original r \<longleftrightarrow>
     (case r of
        Inr x \<Rightarrow> tried \<noteq> [] \<and> (\<exists>a b. candidate (last tried) a = (b, Inr x))
      | Inl e \<Rightarrow> came_from candidate tried r \<or> original = Some e \<or>
          (length tried = left \<and> (\<exists>o1. e = search_exceeded o1)))"

definition tried_ok :: "nat \<Rightarrow> exclusions list \<Rightarrow> exclusions list \<Rightarrow> exclusions list \<Rightarrow> bool" where
  "tried_ok left pending visited tried \<longleftrightarrow>
     length tried \<le> left \<and> distinct tried \<and> set tried \<inter> (set visited - set pending) = {} \<and>
     (\<forall>x \<in> set tried. sorted x \<and> distinct x) \<and> sorted (map length tried) \<and>
     (pending = [] \<longrightarrow> tried = []) \<and> (tried \<noteq> [] \<longrightarrow> hd tried = hd pending)"

lemma tried_ok_Cons:
  assumes "search_queue (ex # pending) visited original"
    and "set new \<inter> set visited = {}" "set visited' = set visited \<union> set new"
    and "\<forall>x \<in> set new. length x = Suc (length ex)"
    and "tried_ok left (pending @ new) visited' tried"
  shows "tried_ok (Suc left) (ex # pending) visited (ex # tried)"
proof -
  have ex: "ex \<in> set visited" "ex \<notin> set (pending @ new)" "sorted ex" "distinct ex"
    using assms(1,2) by (auto simp: search_queue_def)
  have "ex \<notin> set tried" using assms(3,5) ex by (auto simp: tried_ok_def)
  moreover have "set (ex # tried) \<inter> (set visited - set (ex # pending)) = {}"
    using assms(2,3,5) by (auto simp: tried_ok_def)
  moreover have "\<forall>x \<in> set tried. length ex \<le> length x"
  proof (cases tried)
    case (Cons y ys)
    then have "pending @ new \<noteq> []" "y = hd (pending @ new)" using assms(5) by (auto simp: tried_ok_def)
    then have "y \<in> set (pending @ new)" by (metis hd_in_set)
    then have "length ex \<le> length y"
      using assms(1,4) by (auto simp: search_queue_def)
    moreover have "sorted (map length (y # ys))" using assms(5) unfolding tried_ok_def Cons by blast
    then have "\<forall>x \<in> set tried. length y \<le> length x" unfolding Cons by simp
    ultimately show ?thesis using le_trans by blast
  qed simp
  ultimately show ?thesis using assms(5) ex by (auto simp: tried_ok_def)
qed

lemma search_outcome_Cons:
  assumes "search_outcome candidate left tried original' r"
    and "original' \<noteq> original \<Longrightarrow> \<exists>e. original' = Some e \<and> came_from candidate [ex] (Inl e :: resolve_error + 'r)"
  shows "search_outcome candidate (Suc left) (ex # tried) original (r :: resolve_error + 'r)"
proof (cases r)
  case (Inl e)
  then consider "came_from candidate tried r" | "original' = Some e" | "length tried = left" "\<exists>o1. e = search_exceeded o1"
    using assms(1) by (auto simp: search_outcome_def)
  then show ?thesis
  proof cases
    case 1
    then have "came_from candidate (ex # tried) r" by (auto simp: came_from_def)
    then show ?thesis by (simp add: search_outcome_def Inl)
  next
    case 2
    have "original = Some e \<or> came_from candidate (ex # tried) r"
    proof (cases "original' = original")
      case False
      with assms(2) 2 show ?thesis by (auto simp: came_from_def Inl)
    qed (use 2 in simp)
    then show ?thesis by (auto simp: search_outcome_def Inl)
  qed (simp add: search_outcome_def Inl)
qed (use assms(1) in \<open>auto simp: search_outcome_def\<close>)

lemma search_last:
  assumes "search_queue (ex # pending) visited original" "candidate ex s = (s', r)"
  shows "tried_ok (Suc left) (ex # pending) visited [ex] \<and> search_outcome candidate (Suc left) [ex] original r"
  using assms by (cases r) (auto simp: tried_ok_def search_queue_def search_outcome_def came_from_def)

lemma search_loop_ok:
  assumes "search_loop candidate left pending visited original s = (s', tried, r)"
    and "search_queue pending visited original"
  shows "tried_ok left pending visited tried \<and> search_outcome candidate left tried original r"
  using assms
proof (induction left arbitrary: pending visited original s tried)
  case 0
  then show ?case
    by (cases pending) (auto simp: tried_ok_def search_outcome_def search_queue_def split: option.splits)
next
  case (Suc left)
  show ?case
  proof (cases pending)
    case Nil
    with Suc.prems show ?thesis
      by (auto simp: tried_ok_def search_outcome_def search_queue_def split: option.splits)
  next
    case (Cons ex rest)
    note queue = Suc.prems(2) [unfolded Cons]
    obtain s1 got where c: "candidate ex s = (s1, got)" by (cases "candidate ex s")
    have last: ?thesis if "tried = [ex]" "r = got"
      using search_last [where candidate = candidate and s = s, OF queue c] that by (simp add: Cons)
    consider x where "got = Inr x" | e where "got = Inl (Raised e)"
      | m origins where "got = Inl (BuildConflict m origins)"
      | m where "got = Inl (ResolutionConflict m)" "ex = []"
      | m where "got = Inl (ResolutionConflict m)" "ex \<noteq> []"
      by (cases got; cases "projl got") auto
    then show ?thesis
    proof cases
      case (3 m origins)
      let ?original = "if original = None then Some (BuildConflict m origins) else original"
      obtain visited' pending' where a: "add_alternatives ex (sort (remdups origins)) visited rest = (visited', pending')"
        by (cases "add_alternatives ex (sort (remdups origins)) visited rest")
      obtain tried' where l: "search_loop candidate left pending' visited' ?original s1 = (s', tried', r)"
          "tried = ex # tried'"
        using Suc.prems(1) c 3 a by (auto simp: Cons split: prod.splits)
      obtain new where new: "pending' = rest @ new" "set visited' = set visited \<union> set new" "distinct new"
          "set new \<inter> set visited = {}" "\<forall>x \<in> set new. length x = Suc (length ex) \<and> sorted x \<and> distinct x"
        using add_alternatives_new [OF a] queue by (auto simp: search_queue_def)
      have "search_queue pending' visited' ?original"
        unfolding new(1) by (rule search_queue_add [OF queue _ new(3,4,2,5)]) simp
      note IH = Suc.IH [OF l(1) this, unfolded new(1)]
      have "tried_ok (Suc left) (ex # rest) visited (ex # tried')"
        by (rule tried_ok_Cons [OF queue new(4,2) _ conjunct1 [OF IH]]) (use new(5) in simp)
      moreover have "search_outcome candidate (Suc left) (ex # tried') original r"
        by (rule search_outcome_Cons [OF conjunct2 [OF IH]])
          (use c 3 in \<open>auto simp: came_from_def split: if_splits\<close>)
      ultimately show ?thesis by (simp add: Cons l(2))
    next
      case (5 m)
      obtain tried' where l: "search_loop candidate left rest visited original s1 = (s', tried', r)"
          "tried = ex # tried'"
        using Suc.prems(1) c 5 by (auto simp: Cons split: prod.splits)
      have "original \<noteq> None" using queue 5(2) by (auto simp: search_queue_def)
      note IH = Suc.IH [OF l(1) search_queue_tl [OF queue this]]
      have "tried_ok (Suc left) (ex # rest) visited (ex # tried')"
        by (rule tried_ok_Cons [OF queue, of "[]" visited]) (use IH in simp_all)
      moreover have "search_outcome candidate (Suc left) (ex # tried') original r"
        by (rule search_outcome_Cons [OF conjunct2 [OF IH]]) simp
      ultimately show ?thesis by (simp add: Cons l(2))
    qed (use Suc.prems(1) c last in \<open>auto simp: Cons\<close>)
  qed
qed

lemma search_tries: "fst (snd (search_loop candidate (Suc left) (ex # pending) visited original s)) \<noteq> []"
  by (simp add: Let_def split: prod.split sum.split resolve_error.split)

text \<open>
  The search for an environment is bounded and fair. Whatever the compiler answers, it tries at
  most 64 sets of excluded source versions, the empty one first, never the same set twice and smaller
  sets before larger ones. An environment it returns is that of the last set it tried; an error is one
  that a tried set gave, or says that the limit was reached after 64 attempts. So it never stops on
  the assertion that an original error is known.
\<close>

theorem environment_search_is_bounded:
  "case search_environment candidate s of (s', tried, r) \<Rightarrow>
     length tried \<le> 64 \<and> distinct (map set tried) \<and> sorted (map length tried) \<and>
     tried \<noteq> [] \<and> hd tried = [] \<and>
     (case r of
        Inr x \<Rightarrow> \<exists>a b. candidate (last tried) a = (b, Inr x)
      | Inl e \<Rightarrow> (\<exists>ex \<in> set tried. \<exists>a b. candidate ex a = (b, Inl e)) \<or>
          (length tried = 64 \<and> (\<exists>original. e = search_exceeded original)))"
proof -
  obtain s' tried r where run: "search_loop candidate 64 [[]] [[]] None s = (s', tried, r)"
    by (metis prod_cases3)
  have q: "search_queue [[]] [[]] None" by (simp add: search_queue_def)
  have ok: "tried_ok 64 [[]] [[]] tried" and out: "search_outcome candidate 64 tried None r"
    using search_loop_ok [OF run q] by simp_all
  have "inj_on set (set tried)"
  proof (rule inj_onI)
    fix x y assume "x \<in> set tried" "y \<in> set tried" "set x = set y"
    then show "x = y" using ok by (intro sorted_distinct_set_unique) (auto simp: tried_ok_def)
  qed
  then have "distinct (map set tried)" using ok by (simp add: tried_ok_def distinct_map)
  moreover have ne: "tried \<noteq> []"
    using search_tries [of candidate 63 "[]" "[]" "[[]]" None s] run by simp
  moreover have "hd tried = []" using ok ne by (simp add: tried_ok_def)
  ultimately show ?thesis
    using ok out run by (auto simp: search_environment_def tried_ok_def search_outcome_def came_from_def split: sum.splits)
qed

section \<open>An update that fails changes no file\<close>

named_theorems keeps_world \<open>steps that leave the files alone\<close>

lemma uv_resolve_world [keeps_world]: "us_world (fst (uv_resolve t job s)) = us_world s"
  by (simp add: uv_resolve_def split: sum.split prod.split uv_run.split)

lemma metadata_step_world [keeps_world]: "us_world (fst (metadata_step t name version s)) = us_world s"
  by (simp add: metadata_step_def Let_def split: prod.split)

lemma discover_world [keeps_world]: "us_world (fst (discover_build_requirements t name version s)) = us_world s"
  by (simp add: discover_build_requirements_def split: option.split prod.split sum.split)

lemma source_requirements_world [keeps_world]: "us_world (fst (source_requirements t q name pk s)) = us_world s"
  using metadata_step_world [of t name "pin_version pk" s]
    discover_world [of t name "pin_version pk" "fst (metadata_step t name (pin_version pk) s)"]
  by (auto simp: source_requirements_def split: prod.splits sum.splits option.splits)

lemma collect_loop_world [keeps_world]: "us_world (fst (collect_loop t q seen queue g s)) = us_world s"
proof (induction t q seen queue g s rule: collect_loop.induct)
  case (2 t q seen name queue g s)
  show ?case
  proof (cases "dget (bq_combined q) name")
    case (Some pk)
    obtain s' r where r: "source_requirements t q name pk s = (s', r)"
      by (cases "source_requirements t q name pk s")
    have w: "us_world s' = us_world s" using source_requirements_world [of t q name pk s] r by simp
    show ?thesis
    proof (cases "name \<in> set seen")
      case True
      with 2(2) [OF Some] show ?thesis by (simp add: Some)
    next
      case False
      show ?thesis
      proof (cases r)
        case (Inr found)
        show ?thesis
        proof (cases "mapE (requirement_name (pep (web t))) found")
          case names: (Inr names)
          from 2(3) [OF Some False] r Inr names w show ?thesis by (simp add: Some False)
        qed (use r Inr Some False w in simp)
      qed (use r Some False w in simp)
    qed
  qed (use 2(1) in simp)
qed simp

lemma collect_world [keeps_world]: "us_world (fst (collect_build_requirements t q runtime bootstrap s)) = us_world s"
  using collect_loop_world [of t q "[]" "map fst runtime @ map normalize_name bootstrap" "(bootstrap, [])" s]
  by (auto simp: collect_build_requirements_def split: prod.splits sum.splits)

lemma candidate_round_world [keeps_world]: "us_world (fst (candidate_round t job env s)) = us_world s"
proof -
  let ?q = "\<lparr>bq_combined = snd env, bq_url = uj_url (ej_uv job), bq_wheel_only = ej_wheel_only job\<rparr>"
  obtain s1 r1 where c: "collect_build_requirements t ?q (fst env) (ej_bootstrap job) s = (s1, r1)"
    by (metis surj_pair)
  have w1: "us_world s1 = us_world s"
    using collect_world [of t ?q "fst env" "ej_bootstrap job" s] c by simp
  show ?thesis
  proof (cases r1)
    case (Inr g)
    obtain requirements origins where g: "g = (requirements, origins)" by (cases g)
    let ?job = "(ej_uv job)\<lparr>uj_requirements := requirements, uj_constraints := []\<rparr>"
    obtain s2 r2 where u: "uv_resolve t ?job s1 = (s2, r2)" by (metis surj_pair)
    have w2: "us_world s2 = us_world s1" using uv_resolve_world [of t ?job s1] u by simp
    show ?thesis
    proof (cases r2)
      case (Inl e)
      then show ?thesis using c u w1 w2 \<open>r1 = _\<close> g
        by (cases e) (simp_all add: candidate_round_def Let_def)
    next
      case (Inr combined)
      let ?job' = "(ej_uv job)\<lparr>uj_upgrade := [], uj_requirements := [],
        uj_preferences := Some (pins_of combined), uj_constraints := pins_of combined\<rparr>"
      obtain s3 r3 where u3: "uv_resolve t ?job' s2 = (s3, r3)" by (metis surj_pair)
      have "us_world s3 = us_world s2" using uv_resolve_world [of t ?job' s2] u3 by simp
      then show ?thesis using c u u3 w1 w2 \<open>r1 = _\<close> g Inr
        by (cases r3) (simp_all add: candidate_round_def Let_def)
    qed
  qed (use c w1 in \<open>simp add: candidate_round_def Let_def\<close>)
qed

lemma candidate_rounds_world [keeps_world]:
  "us_world (fst (candidate_rounds t job k env previous seen s)) = us_world s"
proof (induction k arbitrary: env previous seen s)
  case (Suc k)
  obtain s' r where r: "candidate_round t job env s = (s', r)" by (metis surj_pair)
  have "us_world s' = us_world s" using candidate_round_world [of t job env s] r by simp
  then show ?case using r Suc by (cases r) (auto split: prod.splits)
qed simp

lemma resolve_candidate_world [keeps_world]: "us_world (fst (resolve_candidate t job s)) = us_world s"
proof -
  let ?job = "(ej_uv job)\<lparr>uj_requirements := [], uj_constraints := []\<rparr>"
  obtain s' r where r: "uv_resolve t ?job s = (s', r)" by (metis surj_pair)
  have "us_world s' = us_world s" using uv_resolve_world [of t ?job s] r by simp
  then show ?thesis using r by (cases r) (simp_all add: resolve_candidate_def candidate_rounds_world)
qed

lemma search_loop_keeps:
  assumes "\<And>ex s. f (fst (candidate ex s)) = f s"
  shows "f (fst (search_loop candidate left pending visited original s)) = f s"
proof (induction left arbitrary: pending visited original s)
  case 0
  show ?case by (cases pending) simp_all
next
  case (Suc left)
  show ?case
  proof (cases pending)
    case (Cons ex rest)
    obtain s1 got where c: "candidate ex s = (s1, got)" by (cases "candidate ex s")
    have w: "f s1 = f s" using assms [of ex s] c by simp
    have IH: "f x = f s1" if "search_loop candidate left p v o1 s1 = (x, y)" for p v o1 x y
      using Suc [of p v o1 s1] that by simp
    show ?thesis
    proof (cases got)
      case (Inl e)
      show ?thesis using c w Inl Cons
        by (cases e) (auto simp: Let_def split: prod.split dest!: IH)
    qed (use c w Cons in simp)
  qed simp
qed

lemma resolve_environment_world [keeps_world]: "us_world (fst (resolve_environment t job s)) = us_world s"
proof -
  let ?c = "\<lambda>p excluded. resolve_candidate t (excluding (job\<lparr>ej_uv := (ej_uv job)\<lparr>uj_preferences := p\<rparr>\<rparr>) excluded)"
  have "us_world (fst (search_environment (?c p) s)) = us_world s" for p
    unfolding search_environment_def by (rule search_loop_keeps) (rule resolve_candidate_world)
  then show ?thesis by (auto simp: resolve_environment_def Let_def split: sum.split prod.split) (metis fst_conv)+
qed

lemma hydrate_one_world [keeps_world]: "us_world (snd (fst (hydrate_one t url platforms entry s))) = us_world (snd s)"
proof -
  obtain name pk idx us where e: "entry = (name, pk)" "s = (idx, us)" by (metis surj_pair)
  show ?thesis
  proof (cases "from_index url pk")
    case False
    obtain us' r where m: "metadata_step t name (pin_version pk) us = (us', r)" by (metis surj_pair)
    then have "us_world us' = us_world us" using metadata_step_world [of t name "pin_version pk" us] by simp
    with m False show ?thesis by (simp add: hydrate_one_def e Let_def)
  qed (simp add: hydrate_one_def e Let_def split: prod.split)
qed

lemma hydrate_packages_world [keeps_world]:
  "us_world (snd (fst (hydrate_packages t url platforms selected packages s))) = us_world (snd s)"
proof (induction selected arbitrary: packages s)
  case (Cons entry rest)
  obtain s' r where h: "hydrate_one t url platforms entry s = (s', r)" by (metis surj_pair)
  then have "us_world (snd s') = us_world (snd s)" using hydrate_one_world [of t url platforms entry s] by simp
  with h Cons show ?case by (cases r) auto
qed simp

lemma checked_packages_world [keeps_world]: "us_world (fst (checked_packages t pf args python env s)) = us_world s"
proof -
  have "us_world (snd (fst (hydrate_packages (tools.truncate t) (pf_url pf) (pf_platforms pf) (snd env) [] (idx, s\<lparr>us_net := n\<rparr>))))
      = us_world s" for idx n
    using hydrate_packages_world [of "tools.truncate t" "pf_url pf" "pf_platforms pf" "snd env" "[]" "(idx, s\<lparr>us_net := n\<rparr>)"]
    by simp
  then show ?thesis
    by (auto simp: checked_packages_def split: sum.split prod.split) (metis fst_conv snd_conv)
qed

lemma publish_failure:
  assumes "publish_environment d runtime combined wheel_only tekton_files url suffix w = (w', Inl e)"
    and "refuses d = (\<lambda>_. None)"
  shows "w' = w"
proof (cases "stage_all d w runtime combined wheel_only tekton_files url suffix")
  case (Inr staged)
  then have "move_staged d staged w = (w', Inl e)" using assms(1) by (simp add: publish_environment_def)
  then show ?thesis using move_staged_refused assms(2) by fastforce
qed (use assms in \<open>simp add: publish_environment_def\<close>)

lemma resolve_and_publish_failure:
  assumes "resolve_and_publish t args config python suffix s = (s', Inl e)" "refuses (disk_of t) = (\<lambda>_. None)"
  shows "us_world s' = us_world s"
proof (cases "read_profile (us_world s) config")
  case (Inr profile)
  obtain pf wheel_only where p: "profile = (pf, wheel_only)" by (cases profile)
  let ?job = "first_job pf wheel_only args python suffix"
  let ?s = "s\<lparr>us_pypi := new_pypi python (pf_platforms pf)\<rparr>"
  obtain s1 r1 where r1: "resolve_environment (tools.truncate t) ?job ?s = (s1, r1)" by (metis surj_pair)
  have w1: "us_world s1 = us_world s" using resolve_environment_world [of "tools.truncate t" ?job ?s] r1 by simp
  show ?thesis
  proof (cases r1)
    case env: (Inr env)
    obtain s2 r2 where r2: "checked_packages t pf args python env s1 = (s2, r2)" by (metis surj_pair)
    have w2: "us_world s2 = us_world s1" using checked_packages_world [of t pf args python env s1] r2 by simp
    show ?thesis
    proof (cases r2)
      case found: (Inr found)
      obtain runtime packages where f: "found = (runtime, packages)" by (cases found)
      obtain w r where pub: "publish_environment (disk_of t) runtime packages wheel_only (pf_tekton pf)
          (pf_url pf) suffix (us_world s2) = (w, r)" by (metis surj_pair)
      have "s' = s2\<lparr>us_world := w\<rparr>" "r = Inl e"
        using assms(1) Inr p r1 env r2 found f pub by (simp_all add: resolve_and_publish_def Let_def)
      with publish_failure [OF _ assms(2)] pub w1 w2 show ?thesis by simp
    qed (use assms(1) Inr p r1 env r2 w1 w2 in \<open>simp add: resolve_and_publish_def Let_def\<close>)
  qed (use assms(1) Inr p r1 w1 in \<open>simp add: resolve_and_publish_def Let_def\<close>)
qed (use assms in \<open>simp add: resolve_and_publish_def\<close>)

lemma prepare_files [simp]: "files (prepare_environment w) = files w"
  by (simp add: prepare_environment_def)

lemma read_text_files: "files w = files w' \<Longrightarrow> read_text w p = read_text w' p"
  by (simp add: read_text_def)

definition encodable_update :: "('n, 'm) update_tools_scheme \<Rightarrow> world \<Rightarrow> update_args \<Rightarrow> bool" where
  "encodable_update t w args \<longleftrightarrow>
     (case updated_project t w project_file (ua_package args) (ua_version args) of
        Inl _ \<Rightarrow> True | Inr (_, updated) \<Rightarrow> valid_str updated)"

lemma encodable_prepared: "encodable_update t (prepare_environment w) args = encodable_update t w args"
  by (simp add: encodable_update_def updated_project_def read_text_files [OF prepare_files])

lemma update_dependency_effect:
  assumes "update_dependency t project_file (ua_package args) (ua_version args) w = (w', r)"
    and "refuses (disk_of t) = (\<lambda>_. None)" "encodable_update t w args"
  shows "(r = Inr () \<and> (w' = w \<or> (\<exists>bs. w' = put_file project_file bs w))) \<or> (w' = w \<and> r \<noteq> Inr ())"
  using assms
  by (auto simp: update_dependency_def write_text_def utf8_encode_def encodable_update_def
      split: sum.splits prod.splits if_splits)

lemma file_bytes_Inr: "file_bytes w p = Inr bs \<longleftrightarrow> files w p = Some (RegularFile bs)"
  by (auto simp: file_bytes_def split: option.splits fnode.splits)

lemma run_update_failure:
  assumes "run_update t args s = (s', Inl e)" "refuses (disk_of t) = (\<lambda>_. None)"
    and "encodable_update t (us_world s) args"
  shows "files (us_world s') = files (us_world s)"
proof (cases "update_settings t (us_world s) args")
  case (Inr settings)
  obtain config python suffix where c: "settings = (config, python, suffix)" by (metis prod_cases3)
  show ?thesis
  proof (cases "ua_package args = []")
    case True
    then have "resolve_and_publish t args config python suffix s = (s', Inl e)"
      using assms(1) Inr c by (simp add: run_update_def)
    then show ?thesis using resolve_and_publish_failure assms(2) by metis
  next
    case False
    show ?thesis
    proof (cases "file_bytes (us_world s) project_file")
      case bytes: (Inr original)
      then have orig: "files (us_world s) project_file = Some (RegularFile original)" by (simp add: file_bytes_Inr)
      obtain w r where u: "update_dependency t project_file (ua_package args) (ua_version args) (us_world s) = (w, r)"
        by (metis surj_pair)
      note eff = update_dependency_effect [OF u assms(2,3)]
      show ?thesis
      proof (cases r)
        case (Inl e')
        then show ?thesis using assms(1) \<open>update_settings _ _ _ = _\<close> c False bytes u eff by (simp add: run_update_def)
      next
        case r: (Inr unit)
        obtain s2 r2 where rp: "resolve_and_publish t args config python suffix (s\<lparr>us_world := w\<rparr>) = (s2, r2)"
          by (metis surj_pair)
        have out: "restore_on_failure (disk_of t) (Some original) (s2, r2) = (s', Inl e)"
          using assms(1) \<open>update_settings _ _ _ = _\<close> c False bytes u r rp by (simp add: run_update_def)
        then obtain e2 where r2: "r2 = Inl e2" by (cases r2) (simp_all add: restore_on_failure_def)
        have w2: "us_world s2 = w" using resolve_and_publish_failure [OF rp [unfolded r2] assms(2)] by simp
        have "s' = s2\<lparr>us_world := put_file project_file original w\<rparr>"
          using out r2 w2 assms(2) by (simp add: restore_on_failure_def write_bytes_def)
        moreover have "(files w)(project_file \<mapsto> RegularFile original) = files (us_world s)"
          using eff r orig by (auto simp: fun_eq_iff)
        ultimately show ?thesis by simp
      qed
    qed (use assms(1) Inr c False in \<open>simp add: run_update_def\<close>)
  qed
qed (use assms in \<open>simp add: run_update_def\<close>)


section \<open>What is published was checked\<close>

lemma rhoai_attempts_ok:
  assumes "rhoai_attempts wb name c ks (idx, n) = ((idx', n'), r)" "index_fits idx"
  shows "index_fits idx' \<and> (\<forall>m. r = Inr (Some m) \<longrightarrow> version_satisfies (pep wb) (rm_version m) c)"
  using assms
proof (induction ks arbitrary: idx n)
  case (Cons k ks)
  obtain idx1 n1 found where f: "rhoai_find_best wb name c (idx, n) = ((idx1, n1), found)" by (metis surj_pair)
  have fits: "index_fits idx1" using rhoai_find_best_fits [OF Cons.prems(2) f] by simp
  consider e where "found = Inl e" | "found = Inr None" | m where "found = Inr (Some m)"
    by (cases found; cases "projr found") auto
  then show ?case
  proof cases
    case 2
    then have "rhoai_attempts wb name c ks (rhoai_invalidate name idx1, nap wb (2 ^ k) n1) = ((idx', n'), r)"
      using Cons.prems(1) f by simp
    then show ?thesis by (rule Cons.IH) (rule invalidate_fits [OF fits])
  next
    case (3 m)
    then show ?thesis using Cons.prems f fits rhoai_find_best_Some(1) [OF Cons.prems(2)] by auto
  qed (use Cons.prems f fits in auto)
qed auto

text \<open>An artifact is that of the pinned version, from the index that the compiler chose.\<close>

definition artifact_of :: "packaging \<Rightarrow> pystr \<Rightarrow> pystr list \<Rightarrow> pin \<Rightarrow> package \<Rightarrow> bool" where
  "artifact_of P url platforms pn pk \<longleftrightarrow>
     (case pk of
        RhoaiPackage v fs \<Rightarrow>
          from_index url pn \<and> version_satisfies P v (S ''=='' @ pin_version pn) \<and> covers platforms fs
      | PypiPackage v _ \<Rightarrow> \<not> from_index url pn \<and> v = pin_version pn)"

lemma hydrate_one_ok:
  assumes "hydrate_one t url platforms (name, pn) (idx, us) = ((idx', us'), r)" "index_fits idx"
  shows "index_fits idx' \<and> (\<forall>pk. r = Inr pk \<longrightarrow> artifact_of (pep (web t)) url platforms pn pk)"
proof (cases "from_index url pn")
  case True
  obtain idx1 n1 found where f: "rhoai_attempts (web t) name (S ''=='' @ pin_version pn) [0, 1, 2] (idx, us_net us)
      = ((idx1, n1), found)" by (metis surj_pair)
  have idx: "idx' = idx1" and r: "r = bindE found (\<lambda>found. case found of
         None \<Rightarrow> Inl (missing_artifact ''No compatible RHOAI artifact'' name (pin_version pn))
       | Some m \<Rightarrow> if covers platforms (rm_platforms m) then Inr (RhoaiPackage (rm_version m) (rm_platforms m))
           else Inl (missing_artifact ''Missing target-platform RHOAI artifact'' name (pin_version pn)))"
    using assms(1) True f unfolding hydrate_one_def Let_def prod.case by simp_all
  show ?thesis
    using rhoai_attempts_ok [OF f assms(2)] True unfolding r idx
    by (auto simp: result_simps artifact_of_def split: option.splits if_splits)
next
  case False
  then show ?thesis
    using assms by (auto simp: hydrate_one_def Let_def result_simps artifact_of_def
        split: prod.splits option.splits)
qed

lemma hydrate_packages_ok:
  assumes "hydrate_packages t url platforms selected packages (idx, us) = (s', Inr packages')" "index_fits idx"
    and "\<forall>name pk. dget packages name = Some pk \<longrightarrow> (\<exists>pn. (name, pn) \<in> set prior \<and> artifact_of (pep (web t)) url platforms pn pk)"
    and "fst ` set prior \<subseteq> fst ` set packages"
  shows "(\<forall>name pk. dget packages' name = Some pk \<longrightarrow>
      (\<exists>pn. (name, pn) \<in> set (prior @ selected) \<and> artifact_of (pep (web t)) url platforms pn pk)) \<and>
    fst ` set (prior @ selected) \<subseteq> fst ` set packages'"
  using assms
proof (induction selected arbitrary: packages idx us prior)
  case (Cons entry rest)
  obtain name pn where e: "entry = (name, pn)" by (cases entry)
  obtain idx1 us1 r where h: "hydrate_one t url platforms (name, pn) (idx, us) = ((idx1, us1), r)"
    by (metis surj_pair)
  note ok = hydrate_one_ok [OF h Cons.prems(2)]
  obtain pk where r: "r = Inr pk" using Cons.prems(1) h by (cases r) (simp_all add: e)
  have run: "hydrate_packages t url platforms rest (dset packages name pk) (idx1, us1) = (s', Inr packages')"
    using Cons.prems(1) h by (simp add: e r)
  have arts: "\<forall>n q. dget (dset packages name pk) n = Some q \<longrightarrow>
      (\<exists>pn'. (n, pn') \<in> set (prior @ [(name, pn)]) \<and> artifact_of (pep (web t)) url platforms pn' q)"
  proof (intro allI impI)
    fix n q assume q: "dget (dset packages name pk) n = Some q"
    show "\<exists>pn'. (n, pn') \<in> set (prior @ [(name, pn)]) \<and> artifact_of (pep (web t)) url platforms pn' q"
    proof (cases "n = name")
      case True
      then show ?thesis using q ok r by (intro exI [of _ pn]) simp
    next
      case False
      then have "dget packages n = Some q" using q by simp
      then show ?thesis using Cons.prems(3) by (metis Un_iff set_append)
    qed
  qed
  have "fst ` set (dset packages name pk) = insert name (fst ` set packages)"
    unfolding dom_map_of_conv_image_fst [symmetric] update_conv' by simp
  then have keys: "fst ` set (prior @ [(name, pn)]) \<subseteq> fst ` set (dset packages name pk)"
    using Cons.prems(4) by auto
  from Cons.IH [OF run conjunct1 [OF ok] arts keys] show ?case by (simp add: e)
qed simp

definition checked_environment ::
    "packaging \<Rightarrow> profile \<Rightarrow> update_args \<Rightarrow> environment \<Rightarrow> package dict \<Rightarrow> package dict \<Rightarrow> bool" where
  "checked_environment P pf args env runtime packages \<longleftrightarrow>
     (ua_package args = [] \<or>
      (\<exists>pn v wanted. dget (snd env) (normalize_name (ua_package args)) = Some pn \<and>
         parse_version P (pin_version pn) = Inr v \<and> parse_version P (ua_version args) = Inr wanted \<and>
         version_le P wanted v)) \<and>
     map fst runtime = map fst (fst env) \<and> (\<forall>(name, pk) \<in> set runtime. dget packages name = Some pk) \<and>
     (\<forall>name \<in> set (pf_bootstrap pf). \<exists>v fs. dget packages (normalize_name name) = Some (RhoaiPackage v fs)) \<and>
     fst ` set packages = fst ` set (snd env) \<and>
     (\<forall>name pk. dget packages name = Some pk \<longrightarrow>
        (\<exists>pn. (name, pn) \<in> set (snd env) \<and> artifact_of P (pf_url pf) (pf_platforms pf) pn pk))"

lemma check_requested_Inr:
  "check_requested P args combined = Inr u \<Longrightarrow> ua_package args = [] \<or>
     (\<exists>pn v wanted. dget combined (normalize_name (ua_package args)) = Some pn \<and>
        parse_version P (pin_version pn) = Inr v \<and> parse_version P (ua_version args) = Inr wanted \<and>
        version_le P wanted v)"
  by (auto simp: check_requested_def Let_def result_simps split: option.splits if_splits)

lemma check_bootstrap_Inr:
  "check_bootstrap packages name = Inr u \<Longrightarrow> \<exists>v fs. dget packages (normalize_name name) = Some (RhoaiPackage v fs)"
proof -
  assume a: "check_bootstrap packages name = Inr u"
  then obtain pk where pk: "dget packages (normalize_name name) = Some pk" "from_rhoai pk"
    by (auto simp: check_bootstrap_def split: option.splits if_splits)
  then show ?thesis by (cases pk) auto
qed

lemma mapE_all: "mapE f xs = Inr ys \<Longrightarrow> x \<in> set xs \<Longrightarrow> \<exists>y. f x = Inr y"
  by (induction xs arbitrary: ys) (auto simp: result_simps)

lemma select_all:
  "mapE (select_package packages) names = Inr runtime \<Longrightarrow>
   map fst runtime = names \<and> (\<forall>(name, pk) \<in> set runtime. dget packages name = Some pk)"
  by (induction names arbitrary: runtime)
    (auto simp: result_simps select_package_def split: option.splits)

lemma checked_packages_ok:
  assumes "checked_packages t pf args python env s = (s', Inr (runtime, packages))"
  shows "checked_environment (pep (web t)) pf args env runtime packages"
proof -
  have req: "check_requested (pep (web t)) args (snd env) = Inr ()"
    using assms by (cases "check_requested (pep (web t)) args (snd env)") (simp_all add: checked_packages_def)
  obtain idx where idx: "new_rhoai (url_world (web t)) (pf_url pf) python (pf_platforms pf) = Inr idx"
    using assms req
    by (cases "new_rhoai (url_world (web t)) (pf_url pf) python (pf_platforms pf)") (simp_all add: checked_packages_def)
  obtain idx' n r1 where load: "rhoai_load (web t) (idx, us_net s) = ((idx', n), r1)" by (metis surj_pair)
  have fits: "index_fits idx'" using rhoai_load_fits [OF new_rhoai_fits [OF idx] load] by simp
  have r1: "r1 = Inr ()" using assms req idx load by (cases r1) (simp_all add: checked_packages_def)
  obtain s2 r2 where hyd: "hydrate_packages (tools.truncate t) (pf_url pf) (pf_platforms pf) (snd env) []
      (idx', s\<lparr>us_net := n\<rparr>) = (s2, r2)" by (metis surj_pair)
  have r2: "bindE r2 (\<lambda>packages.
      bindE (mapE (check_bootstrap packages) (pf_bootstrap pf)) (\<lambda>_.
      bindE (mapE (select_package packages) (map fst (fst env))) (\<lambda>runtime. Inr (runtime, packages)))) = Inr (runtime, packages)"
    using assms req idx load r1 hyd by (simp add: checked_packages_def split: prod.splits)
  then have p: "r2 = Inr packages" and boot: "\<exists>us. mapE (check_bootstrap packages) (pf_bootstrap pf) = Inr us"
    and run: "mapE (select_package packages) (map fst (fst env)) = Inr runtime"
    by (auto simp: result_simps)
  have web: "web (tools.truncate t) = web t" by (simp add: tools.truncate_def)
  note h = hydrate_packages_ok [OF hyd [unfolded p] fits, of "[]", unfolded web]
  have arts: "\<forall>name pk. dget packages name = Some pk \<longrightarrow>
      (\<exists>pn. (name, pn) \<in> set (snd env) \<and> artifact_of (pep (web t)) (pf_url pf) (pf_platforms pf) pn pk)"
    using h by simp
  have "fst ` set packages \<subseteq> fst ` set (snd env)"
  proof
    fix name assume "name \<in> fst ` set packages"
    then obtain pk where "dget packages name = Some pk" by (metis domD dom_map_of_conv_image_fst)
    then show "name \<in> fst ` set (snd env)" using arts by force
  qed
  moreover have "fst ` set (snd env) \<subseteq> fst ` set packages" using h by simp
  moreover have "\<exists>v fs. dget packages (normalize_name name) = Some (RhoaiPackage v fs)"
    if "name \<in> set (pf_bootstrap pf)" for name
    using boot mapE_all that check_bootstrap_Inr by meson
  ultimately show ?thesis
    unfolding checked_environment_def using check_requested_Inr [OF req] select_all [OF run] arts by blast
qed


section \<open>Two updates\<close>

definition sample_pin :: pystr where
  "sample_pin = S ''foo==1.0'' @ [10] @ S ''    # from '' @ ri_url sample_index @ [10]"

definition sample_toml :: pydict where
  "sample_toml = [(S ''profiles'', PDict [(S ''cpu'', PDict
     [(S ''python_version'', PStr (S ''3.12'')), (S ''rhoai_index_url'', PStr (ri_url sample_index)),
      (S ''platforms'', PList [PStr (S ''x86_64'')])])])]"

definition sample_requirement :: "pystr \<Rightarrow> requirement option" where
  "sample_requirement text =
     (if text = S ''foo>=0.5''
      then Some \<lparr>rq_name = S ''foo'', rq_url = None, rq_specifier = [(S ''>='', S ''0.5'')]\<rparr> else None)"

definition sample_tools :: "uv_run \<Rightarrow> nat update_tools" where
  "sample_tools run =
     \<lparr>web = sample_web\<lparr>pep := sample_packaging\<lparr>parse_requirement := sample_requirement\<rparr>\<rparr>, which = (\<lambda>_. True),
      cwd = S ''/repo'', scratch_path = Inr (S ''/tmp/ols''), run_container = (\<lambda>_ _ n. (n, run)),
      find_build_dependencies = (\<lambda>_ _ n. (n, Inr [])), disk_of = sample_disk,
      toml_loads = (\<lambda>_. Inr sample_toml), interpreter_version = S ''3.12'',
      project_groups = (\<lambda>_. Inr [[S ''foo>=0.5'']]), dump_project = (\<lambda>_ groups. concat (concat groups))\<rparr>"

definition sample_update_state :: "nat update_state" where
  "sample_update_state = \<lparr>us_pypi = new_pypi [] [], us_net = 0, us_built = [],
     us_world = empty_world\<lparr>files := map_of
       [(konflux_path (S ''profiles.toml''), RegularFile []), (konflux_path (S ''pypi_wheel_only.txt''), RegularFile []),
        (project_file, RegularFile (utf8_bytes (S ''foo>=0.5'')))]\<rparr>\<rparr>"

definition sample_args :: update_args where
  "sample_args = \<lparr>ua_profile = S ''cpu'', ua_package = S ''foo'', ua_version = S ''1.0''\<rparr>"

definition sample_profile :: pydict where
  "sample_profile = [(S ''rhoai_index_url'', PStr (ri_url sample_index)), (S ''platforms'', PList [PStr (S ''x86_64'')])]"



end
