(* ===== verification/Models.thy ===== *)
theory Models
  imports OutputSchema Tls
begin

text \<open>
  \<open>providers/models\<close> and \<open>providers/cloud_credentials.py\<close>: the model that a route constructs. The SDKs are
  not modelled: a constructed model is the class it belongs to and the arguments it is given, with
  HTTP clients standing for the TLS context they verify with. Loading Google credentials, Azure's
  identity and botocore are parameters. Proved: the parameters of a resolved route have the classes
  its constructor expects; every HTTP client of a model verifies with the shared context;
  only static AWS keys reach the environment; and an accepted output schema can be bound.
\<close>

section \<open>Cloud credentials\<close>

record aws_keys =
  aws_key :: pystr
  aws_secret :: pystr
  aws_token :: "pystr option"

text \<open>Static keys, or a role that botocore assumes with them in a region.\<close>

datatype aws_credentials = StaticKeys aws_keys | AssumedRole aws_keys pystr pystr

datatype 'c google_credentials = LoadedCredentials 'c | ImpersonatedCredentials 'c pystr

text \<open>A \<open>ClientSecretCredential\<close>, and \<open>AzureModelCredentials\<close>, whose token provider is that of the identity.\<close>

datatype azure_identity = ClientSecretIdentity pystr pystr pystr

record azure_auth =
  auth_api_key :: pystr
  auth_identity :: "azure_identity option"

record 'c sdk =
  sdk_tls :: tls_env
  load_google :: "world \<Rightarrow> pystr \<Rightarrow> 'c result"
  identity_error :: "azure_identity \<Rightarrow> exn option"
  api_key_sentinel :: pystr

definition no_attribute :: "string \<Rightarrow> exn" where
  "no_attribute name = Exn CAttributeError (S ''object has no attribute '' @ S name)"

definition create_azure_credentials :: "'c sdk \<Rightarrow> credential_source option \<Rightarrow> azure_auth result" where
  "create_azure_credentials sdk source =
     (case source of
        Some (AzureApiKeyCredentialSource key) \<Rightarrow> Inr \<lparr>auth_api_key = key, auth_identity = None\<rparr>
      | Some (AzureEntraCredentialSource tenant client secret) \<Rightarrow>
          (case identity_error sdk (ClientSecretIdentity tenant client secret) of
             Some e \<Rightarrow> Inl e
           | None \<Rightarrow> Inr \<lparr>auth_api_key = api_key_sentinel sdk,
                           auth_identity = Some (ClientSecretIdentity tenant client secret)\<rparr>)
      | _ \<Rightarrow> Inl (no_attribute ''tenant_id''))"

text \<open>\<open>AzureModelCredentials.aclose\<close>; closing an identity is an operation of the SDK.\<close>

definition auth_aclose :: "(azure_identity \<Rightarrow> 'n \<Rightarrow> 'n \<times> unit result) \<Rightarrow> azure_auth \<Rightarrow> 'n \<Rightarrow> 'n \<times> unit result" where
  "auth_aclose close auth n = (case auth_identity auth of None \<Rightarrow> (n, Inr ()) | Some identity \<Rightarrow> close identity n)"

definition path_parent :: "pystr \<Rightarrow> pystr" where
  "path_parent p =
     (let root = (if starts_with p (S ''//'') \<and> \<not> starts_with p (S ''///'') then S ''//''
                  else if starts_with p (S ''/'') then S ''/'' else [])
      in path_text (root @ join (S ''/'') (butlast (filter (\<lambda>c. c \<noteq> [] \<and> c \<noteq> S ''.'') (split_on 47 p)))))"

definition read_target_service_account :: "world \<Rightarrow> pystr \<Rightarrow> pystr option result" where
  "read_target_service_account w source_path =
     (case read_text w (path_join (path_parent source_path) (S ''target_service_account'')) of
        Inl e \<Rightarrow>
          if exn_class e = CFileNotFoundError then Inr None
          else if is_os_error (exn_class e) \<or> exn_class e = CUnicodeDecodeError
          then Inl (ValueError (S ''Unable to read Vertex target_service_account credential''))
          else Inl e
      | Inr content \<Rightarrow>
          if strip content = [] then Inl (ValueError (S ''Vertex target_service_account credential is empty''))
          else Inr (Some (strip content)))"

definition create_vertex_credentials :: "'c sdk \<Rightarrow> world \<Rightarrow> credential_source option \<Rightarrow> 'c google_credentials result" where
  "create_vertex_credentials sdk w source =
     (case source of
        Some (VertexCredentialSource path) \<Rightarrow>
          bindE (load_google sdk w path) (\<lambda>loaded.
          bindE (read_target_service_account w path) (\<lambda>target.
            Inr (case target of None \<Rightarrow> LoadedCredentials loaded
                 | Some account \<Rightarrow> ImpersonatedCredentials loaded account)))
      | _ \<Rightarrow> Inl (no_attribute ''credentials_file''))"

definition create_bedrock_credentials :: "credential_source option \<Rightarrow> pystr \<Rightarrow> aws_credentials result" where
  "create_bedrock_credentials source region =
     (case source of
        Some (BedrockCredentialSource key secret token role) \<Rightarrow>
          (let keys = \<lparr>aws_key = key, aws_secret = secret, aws_token = token\<rparr>
           in Inr (if truthy_str role then AssumedRole keys (the role) region else StaticKeys keys))
      | _ \<Rightarrow> Inl (no_attribute ''role_arn''))"

text \<open>\<open>os.environ[k] = v\<close>.\<close>

definition put_env :: "string \<Rightarrow> pystr \<Rightarrow> world \<Rightarrow> world \<times> unit result" where
  "put_env k v w =
     (if 0 \<in> set v then (w, Inl (ValueError (S ''embedded null byte''))) else (set_env (S k) v w, Inr ()))"

definition export_keys :: "aws_keys \<Rightarrow> world \<Rightarrow> world \<times> unit result" where
  "export_keys keys w =
     (case put_env ''AWS_ACCESS_KEY_ID'' (aws_key keys) w of
        (w1, Inl e) \<Rightarrow> (w1, Inl e)
      | (w1, Inr _) \<Rightarrow>
          (case put_env ''AWS_SECRET_ACCESS_KEY'' (aws_secret keys) w1 of
             (w2, Inl e) \<Rightarrow> (w2, Inl e)
           | (w2, Inr _) \<Rightarrow>
               if truthy_str (aws_token keys) then put_env ''AWS_SESSION_TOKEN'' (the (aws_token keys)) w2
               else (w2\<lparr>environ := (environ w2)(S ''AWS_SESSION_TOKEN'' := None)\<rparr>, Inr ())))"

text \<open>
  A request of the role-assuming clients: botocore's current keys (which it may refresh) sign the
  request; headers are keyed by their lower-case names.
\<close>

record http_request =
  rq_method :: pystr
  rq_url :: pystr
  rq_headers :: "pystr dict"
  rq_body :: "int list"

definition role_auth_headers ::
    "('n \<Rightarrow> 'n \<times> aws_keys result) \<Rightarrow> (http_request \<Rightarrow> aws_keys \<Rightarrow> pystr \<Rightarrow> pystr \<Rightarrow> pystr dict result) \<Rightarrow> pystr \<Rightarrow>
     http_request \<Rightarrow> 'n \<Rightarrow> 'n \<times> pystr dict result" where
  "role_auth_headers frozen sign region rq n =
     (let (n', keys) = frozen n
      in (n', bindE keys (\<lambda>ks. bindE (utf8_decode (rq_body rq)) (\<lambda>data. sign rq ks region data))))"

definition prepare_request ::
    "('n \<Rightarrow> 'n \<times> aws_keys result) \<Rightarrow> (http_request \<Rightarrow> aws_keys \<Rightarrow> pystr \<Rightarrow> pystr \<Rightarrow> pystr dict result) \<Rightarrow> pystr \<Rightarrow>
     http_request \<Rightarrow> 'n \<Rightarrow> 'n \<times> http_request result" where
  "prepare_request frozen sign region rq n =
     (let (n', signed) = role_auth_headers frozen sign region rq n
      in (n', bindE signed (\<lambda>hs. Inr (rq\<lparr>rq_headers := fold (\<lambda>(k, v) h. dset h (lower k) v) hs (rq_headers rq)\<rparr>))))"

section \<open>The arguments of the SDK classes\<close>

datatype sdk_class =
    ChatOpenAI | CompatibleChatOpenAI | CompatibleAzureChatOpenAI | TLSChatAnthropic | TLSChatAnthropicBedrock
  | ChatAnthropicVertex | ChatGoogleGenerativeAI

datatype 'c sdk_value =
    Json pyval
  | HttpClient ssl_context
  | AsyncHttpClient ssl_context
  | Verify ssl_context
  | GoogleAuth "'c google_credentials"
  | AwsAuth aws_credentials
  | TokenProvider azure_identity

text \<open>
  A model: its class and arguments, the extra arguments of the clients that a TLS class makes lazily,
  and the identity that the shared cleanup closes.
\<close>

record 'c chat_model =
  cm_class :: sdk_class
  cm_kwargs :: "'c sdk_value dict"
  cm_client_kwargs :: "'c sdk_value dict option"
  cm_owned :: "azure_auth option"

definition text_arg :: "string \<Rightarrow> pystr \<Rightarrow> pystr \<times> 'c sdk_value" where
  "text_arg k v = (S k, Json (PStr v))"

definition optional_text :: "pystr option \<Rightarrow> 'c sdk_value" where
  "optional_text v = Json (case v of None \<Rightarrow> PNone | Some s \<Rightarrow> PStr s)"

definition http_client :: "'c sdk \<Rightarrow> tls_state \<Rightarrow> 'c sdk_value result" where
  "http_client sdk st = bindE (get_ssl_context (sdk_tls sdk) st) (\<lambda>c. Inr (HttpClient c))"

definition async_http_client :: "'c sdk \<Rightarrow> tls_state \<Rightarrow> 'c sdk_value result" where
  "async_http_client sdk st = bindE (get_ssl_context (sdk_tls sdk) st) (\<lambda>c. Inr (AsyncHttpClient c))"

text \<open>The hook that an Azure identity calls before each of its requests, on the options of the request.\<close>

definition configure_azure_identity_tls ::
    "'c sdk \<Rightarrow> tls_state \<Rightarrow> 'c sdk_value dict \<Rightarrow> 'c sdk_value dict result" where
  "configure_azure_identity_tls sdk st options =
     bindE (get_ssl_context (sdk_tls sdk) st) (\<lambda>c. Inr (dset options (S ''ssl'') (Verify c)))"

definition limit_arg :: "string \<Rightarrow> model_parameters \<Rightarrow> 'c sdk_value dict" where
  "limit_arg k p = (case mp_max_output_tokens p of None \<Rightarrow> [] | Some n \<Rightarrow> [(S k, Json (PInt n))])"

definition thinking_arg :: "pydict option \<Rightarrow> 'c sdk_value dict" where
  "thinking_arg config =
     (case config of
        None \<Rightarrow> []
      | Some d \<Rightarrow> (let thinking = dgetn d (S ''thinking'')
                   in if truthy thinking then [(S ''thinking'', Json thinking)] else []))"

definition option_args :: "pydict \<Rightarrow> 'c sdk_value dict" where
  "option_args = map (\<lambda>(k, v). (k, Json v))"

text \<open>
  The clients of \<open>_tls_model_class\<close>: the SDK's parameters, the extra ones and the HTTP client. The
  same keyword twice is a \<open>TypeError\<close>.
\<close>

definition lazy_client :: "'c sdk_value dict \<Rightarrow> 'c chat_model \<Rightarrow> 'c sdk_value \<Rightarrow> 'c sdk_value dict result" where
  "lazy_client client_params m client =
     (let kwargs = client_params @ (case cm_client_kwargs m of None \<Rightarrow> [] | Some extra \<Rightarrow> extra)
            @ [(S ''http_client'', client)]
      in if distinct (map fst kwargs) then Inr kwargs
         else Inl (TypeError (S ''got multiple values for keyword argument'')))"

definition model_client :: "'c sdk \<Rightarrow> tls_state \<Rightarrow> 'c sdk_value dict \<Rightarrow> 'c chat_model \<Rightarrow> 'c sdk_value dict result" where
  "model_client sdk st client_params m = bindE (http_client sdk st) (lazy_client client_params m)"

definition model_async_client :: "'c sdk \<Rightarrow> tls_state \<Rightarrow> 'c sdk_value dict \<Rightarrow> 'c chat_model \<Rightarrow> 'c sdk_value dict result" where
  "model_async_client sdk st client_params m = bindE (async_http_client sdk st) (lazy_client client_params m)"


section \<open>OpenAI\<close>

definition create_openai_model ::
    "'c sdk \<Rightarrow> tls_state \<Rightarrow> sdk_class \<Rightarrow> bool \<Rightarrow> pydict \<Rightarrow> model_parameters \<Rightarrow> 'c chat_model result" where
  "create_openai_model sdk st cls responses options p =
     bindE (http_client sdk st) (\<lambda>client.
     bindE (async_http_client sdk st) (\<lambda>async_client.
       Inr \<lparr>cm_class = cls,
            cm_kwargs =
              [text_arg ''model'' (mp_model p),
               text_arg ''api_key'' (if truthy_str (mp_api_key p) then the (mp_api_key p) else []),
               text_arg ''base_url'' (if truthy_str (mp_base_url p) then the (mp_base_url p)
                 else S ''https://api.openai.com/v1''),
               (S ''use_responses_api'', Json (PBool responses)),
               text_arg ''output_version'' (if responses then S ''responses/v1'' else S ''v1''),
               (S ''http_client'', client), (S ''http_async_client'', async_client)]
              @ limit_arg ''max_tokens'' p
              @ (if responses then [] else [(S ''stream_usage'', Json (PBool True))])
              @ option_args options,
            cm_client_kwargs = None, cm_owned = None\<rparr>))"

definition create_native_openai_model ::
    "'c sdk \<Rightarrow> tls_state \<Rightarrow> model_parameters \<Rightarrow> pydict option \<Rightarrow> 'c chat_model result" where
  "create_native_openai_model sdk st p config =
     create_openai_model sdk st ChatOpenAI True (responses_reasoning_kwargs config) p"

definition create_openai_compatible_model ::
    "'c sdk \<Rightarrow> tls_state \<Rightarrow> model_parameters \<Rightarrow> pydict option \<Rightarrow> 'c chat_model result" where
  "create_openai_compatible_model sdk st p config =
     (if \<not> truthy_str (mp_base_url p) \<or> strip (the (mp_base_url p)) = []
      then Inl (ValueError (S ''OpenAI-compatible endpoints require a resolved base URL''))
      else create_openai_model sdk st CompatibleChatOpenAI False (chat_completions_reasoning_kwargs config) p)"

definition api_version_of :: "provider_parameters option \<Rightarrow> pystr result" where
  "api_version_of provider =
     (case provider of Some (AzureProviderParameters v) \<Rightarrow> Inr v | _ \<Rightarrow> Inl (no_attribute ''api_version''))"

definition create_azure_model ::
    "'c sdk \<Rightarrow> tls_state \<Rightarrow> model_parameters \<Rightarrow> pydict option \<Rightarrow> 'c chat_model result" where
  "create_azure_model sdk st p config =
     bindE (create_azure_credentials sdk (mp_credentials p)) (\<lambda>auth.
     bindE (api_version_of (mp_provider p)) (\<lambda>version.
     let responses = azure_api_version_supports_responses (Some version)
     in bindE (if auth_identity auth = None then http_client sdk st else Inr (Json PNone)) (\<lambda>client.
        bindE (async_http_client sdk st) (\<lambda>async_client.
          Inr \<lparr>cm_class = CompatibleAzureChatOpenAI,
               cm_kwargs =
                 [text_arg ''model'' (mp_model p), text_arg ''azure_deployment'' (mp_model p),
                  (S ''azure_endpoint'', optional_text (mp_base_url p)), text_arg ''api_version'' version,
                  text_arg ''api_key'' (auth_api_key auth), (S ''azure_ad_token'', Json PNone),
                  (S ''azure_ad_async_token_provider'',
                   case auth_identity auth of None \<Rightarrow> Json PNone | Some identity \<Rightarrow> TokenProvider identity),
                  (S ''base_url'', Json PNone), text_arg ''openai_api_type'' (S ''azure''),
                  (S ''use_responses_api'', Json (PBool responses)),
                  text_arg ''output_version'' (if responses then S ''responses/v1'' else S ''v1''),
                  (S ''http_client'', client), (S ''http_async_client'', async_client)]
                 @ limit_arg ''max_tokens'' p
                 @ (if responses then [] else [(S ''stream_usage'', Json (PBool True))])
                 @ option_args (if responses then responses_reasoning_kwargs config
                     else chat_completions_reasoning_kwargs config),
               cm_client_kwargs = None, cm_owned = Some auth\<rparr>))))"


section \<open>Vertex\<close>

definition project_of :: "provider_parameters option \<Rightarrow> pystr option result" where
  "project_of provider =
     (case provider of Some (VertexProviderParameters project _) \<Rightarrow> Inr project | _ \<Rightarrow> Inl (no_attribute ''project''))"

definition region_of :: "provider_parameters option \<Rightarrow> pystr result" where
  "region_of provider =
     (case provider of
        Some (VertexProviderParameters _ region) \<Rightarrow> Inr region
      | Some (BedrockProviderParameters region) \<Rightarrow> Inr region
      | _ \<Rightarrow> Inl (no_attribute ''region''))"

definition create_vertex_gemini_model ::
    "'c sdk \<Rightarrow> tls_state \<Rightarrow> model_parameters \<Rightarrow> pydict option \<Rightarrow> 'c chat_model result" where
  "create_vertex_gemini_model sdk st p config =
     bindE (project_of (mp_provider p)) (\<lambda>project.
     bindE (region_of (mp_provider p)) (\<lambda>region.
     bindE (get_ssl_context (sdk_tls sdk) st) (\<lambda>context.
     bindE (create_vertex_credentials sdk (tls_world st) (mp_credentials p)) (\<lambda>auth.
       Inr \<lparr>cm_class = ChatGoogleGenerativeAI,
            cm_kwargs =
              [text_arg ''model'' (mp_model p), (S ''vertexai'', Json (PBool True)),
               (S ''project'', optional_text project), text_arg ''location'' region,
               (S ''client_args'', Verify context)]
              @ (case mp_base_url p of None \<Rightarrow> [] | Some url \<Rightarrow> [text_arg ''base_url'' url])
              @ [(S ''credentials'', GoogleAuth auth)]
              @ limit_arg ''max_output_tokens'' p
              @ (case config of None \<Rightarrow> [] | Some d \<Rightarrow>
                   if d = [] then [] else [(S ''thinking_config'', Json (PDict d))]),
            cm_client_kwargs = None, cm_owned = None\<rparr>))))"

text \<open>The SDK's default base URL ends in its version, which an override without a path keeps.\<close>

definition vertex_base_url :: "world \<Rightarrow> pystr \<Rightarrow> pystr result" where
  "vertex_base_url w url =
     bindE (urlsplit w url) (\<lambda>u.
       let (path, query, fragment) = url_tail url
       in Inr (urlunsplit u (if path \<in> {[], S ''/''} then S ''/v1'' else path, query, fragment)))"

definition create_vertex_model ::
    "'c sdk \<Rightarrow> tls_state \<Rightarrow> model_parameters \<Rightarrow> pydict option \<Rightarrow> 'c chat_model result" where
  "create_vertex_model sdk st p config =
     bindE (create_vertex_credentials sdk (tls_world st) (mp_credentials p)) (\<lambda>auth.
     bindE (project_of (mp_provider p)) (\<lambda>project.
     bindE (region_of (mp_provider p)) (\<lambda>region.
     bindE (http_client sdk st) (\<lambda>client.
     bindE (async_http_client sdk st) (\<lambda>async_client.
     bindE (case mp_base_url p of None \<Rightarrow> Inr []
            | Some url \<Rightarrow> bindE (vertex_base_url (tls_world st) url) (\<lambda>u. Inr [text_arg ''base_url'' u])) (\<lambda>base.
       Inr \<lparr>cm_class = ChatAnthropicVertex,
            cm_kwargs =
              [text_arg ''model_name'' (mp_model p), (S ''project'', optional_text project),
               text_arg ''location'' region, (S ''http_client'', client), (S ''async_http_client'', async_client),
               (S ''credentials'', GoogleAuth auth)]
              @ limit_arg ''max_tokens'' p @ base @ thinking_arg config,
            cm_client_kwargs = None, cm_owned = None\<rparr>))))))"


section \<open>Anthropic, directly and on Bedrock\<close>

definition create_direct_model :: "model_parameters \<Rightarrow> pydict option \<Rightarrow> 'c chat_model result" where
  "create_direct_model p config =
     (case mp_credentials p of
        Some (AnthropicCredentialSource key token) \<Rightarrow>
          Inr \<lparr>cm_class = TLSChatAnthropic,
               cm_kwargs =
                 [text_arg ''model'' (mp_model p), text_arg ''api_key'' key]
                 @ (case mp_base_url p of None \<Rightarrow> [] | Some url \<Rightarrow> [text_arg ''base_url'' url])
                 @ limit_arg ''max_tokens'' p @ thinking_arg config
                 @ (if truthy_str token
                    then [(S ''default_headers'', Json (PDict [(S ''Authorization'', PStr (S ''Bearer '' @ the token))]))]
                    else []),
               cm_client_kwargs = Some [], cm_owned = None\<rparr>
      | _ \<Rightarrow> Inl (no_attribute ''auth_token''))"

text \<open>\<open>configure_bedrock_credentials\<close>: the arguments of the clients and those of the model.\<close>

definition configure_bedrock_credentials ::
    "credential_source option \<Rightarrow> pystr \<Rightarrow> 'c sdk_value dict \<Rightarrow> world \<Rightarrow>
     world \<times> ('c sdk_value dict \<times> 'c sdk_value dict) result" where
  "configure_bedrock_credentials source region client_kwargs w =
     (case create_bedrock_credentials source region of
        Inl e \<Rightarrow> (w, Inl e)
      | Inr (AssumedRole keys role region) \<Rightarrow>
          (w, Inr (client_kwargs @ [(S ''_role_credentials'', AwsAuth (AssumedRole keys role region))],
                   [(S ''aws_access_key_id'', Json PNone), (S ''aws_secret_access_key'', Json PNone),
                    (S ''aws_session_token'', Json PNone)]))
      | Inr (StaticKeys keys) \<Rightarrow>
          (let (w', r) = export_keys keys w in (w', bindE r (\<lambda>_. Inr (client_kwargs, [])))))"

definition create_bedrock_model ::
    "model_parameters \<Rightarrow> pydict option \<Rightarrow> world \<Rightarrow> world \<times> 'c chat_model result" where
  "create_bedrock_model p config w =
     (case region_of (mp_provider p) of
        Inl e \<Rightarrow> (w, Inl e)
      | Inr region \<Rightarrow>
          (case configure_bedrock_credentials (mp_credentials p) region
                  [(S ''base_url'', optional_text (mp_base_url p))] w of
             (w', Inl e) \<Rightarrow> (w', Inl e)
           | (w', Inr (client_kwargs, credential_kwargs)) \<Rightarrow>
               (w', Inr \<lparr>cm_class = TLSChatAnthropicBedrock,
                  cm_kwargs = [text_arg ''model'' (mp_model p), text_arg ''region_name'' region] @ credential_kwargs
                    @ limit_arg ''max_tokens'' p @ thinking_arg config,
                  cm_client_kwargs = Some client_kwargs, cm_owned = None\<rparr>)))"

text \<open>The constructor that a route names.\<close>

definition construct_model ::
    "'c sdk \<Rightarrow> model_creator \<Rightarrow> model_parameters \<Rightarrow> pydict option \<Rightarrow> tls_state \<Rightarrow> tls_state \<times> 'c chat_model result" where
  "construct_model sdk creator p config st =
     (case creator of
        CreateAzureModel \<Rightarrow> (st, create_azure_model sdk st p config)
      | CreateNativeOpenaiModel \<Rightarrow> (st, create_native_openai_model sdk st p config)
      | CreateOpenaiCompatibleModel \<Rightarrow> (st, create_openai_compatible_model sdk st p config)
      | CreateVertexGeminiModel \<Rightarrow> (st, create_vertex_gemini_model sdk st p config)
      | CreateDirectModel \<Rightarrow> (st, create_direct_model p config)
      | CreateVertexModel \<Rightarrow> (st, create_vertex_model sdk st p config)
      | CreateBedrockModel \<Rightarrow>
          (let (w, r) = create_bedrock_model p config (tls_world st) in (st\<lparr>tls_world := w\<rparr>, r)))"

section \<open>Observed metadata of chat replies\<close>

text \<open>
  \<open>CompatibleChatOpenAI\<close>, after the SDK has converted a reply: a message's content, additional
  arguments and response metadata.
\<close>

record sdk_message =
  chat_content :: pyval
  chat_additional :: pydict
  chat_metadata :: pydict

text \<open>\<open>v.get(k, d)\<close>.\<close>

definition get_key :: "pyval \<Rightarrow> string \<Rightarrow> pyval \<Rightarrow> pyval result" where
  "get_key v k d =
     (case v of
        PDict m \<Rightarrow> Inr (case dget m (S k) of None \<Rightarrow> d | Some x \<Rightarrow> x)
      | _ \<Rightarrow> Inl (no_attribute ''get''))"

definition keep_call :: "sdk_message \<Rightarrow> pyval \<Rightarrow> sdk_message result" where
  "keep_call m choice =
     bindE (get_key choice ''message'' (PDict [])) (\<lambda>message.
     bindE (get_key message ''tool_calls'' PNone) (\<lambda>calls.
       Inr (if truthy calls then m\<lparr>chat_additional := dset (chat_additional m) (S ''tool_calls'') calls\<rparr> else m)))"

fun keep_calls :: "sdk_message list \<Rightarrow> pyval list \<Rightarrow> sdk_message list result" where
  "keep_calls (m # ms) (choice # choices) =
     bindE (keep_call m choice) (\<lambda>m'. bindE (keep_calls ms choices) (\<lambda>ms'. Inr (m' # ms')))"
| "keep_calls ms _ = Inr ms"

definition create_chat_result :: "sdk_message list \<Rightarrow> pydict \<Rightarrow> sdk_message list result" where
  "create_chat_result ms raw =
     (case dget raw (S ''choices'') of
        None \<Rightarrow> Inl (Exn CKeyError (S ''choices''))
      | Some choices \<Rightarrow> bindE (py_iter choices) (keep_calls ms))"

text \<open>\<open>choices[0]\<close> of a truthy value.\<close>

definition first_choice :: "pyval \<Rightarrow> pyval result" where
  "first_choice v =
     (case v of
        PList (c # _) \<Rightarrow> Inr c
      | PStr (c # _) \<Rightarrow> Inr (PStr [c])
      | PDict _ \<Rightarrow> Inl (Exn CKeyError (S ''0''))
      | _ \<Rightarrow> Inl (TypeError (type_name v @ S '' object is not subscriptable'')))"

definition chunk_delta :: "pydict \<Rightarrow> pyval result" where
  "chunk_delta chunk =
     (let choices = dgetn chunk (S ''choices'')
      in if \<not> truthy choices then Inr (PDict [])
         else bindE (first_choice choices) (\<lambda>choice. bindE (get_key choice ''delta'' PNone) (\<lambda>delta.
           Inr (if truthy delta then delta else PDict []))))"

text \<open>A non-empty text, else nothing.\<close>

definition shown_text :: "pyval \<Rightarrow> pystr" where
  "shown_text v = (case v of PStr s \<Rightarrow> s | _ \<Rightarrow> [])"

definition chunk_reasoning :: "pyval \<Rightarrow> pystr result" where
  "chunk_reasoning delta =
     bindE (get_key delta ''reasoning_content'' PNone) (\<lambda>content.
       if shown_text content \<noteq> [] then Inr (shown_text content)
       else bindE (get_key delta ''reasoning'' PNone) (\<lambda>reasoning. Inr (shown_text reasoning)))"

text \<open>\<open>blocks\<close> is LangChain's \<open>content_blocks\<close> of a message.\<close>

definition observe_chunk ::
    "(sdk_message \<Rightarrow> pydict list result) \<Rightarrow> pydict \<Rightarrow> sdk_message option \<Rightarrow> sdk_message option result" where
  "observe_chunk blocks chunk generation =
     (case generation of
        None \<Rightarrow> Inr None
      | Some m \<Rightarrow>
          (let response_id = shown_text (dgetn chunk (S ''id''));
               m = (if response_id \<noteq> [] then m\<lparr>chat_metadata := dset (chat_metadata m) (S ''id'') (PStr response_id)\<rparr> else m)
           in bindE (chunk_delta chunk) (\<lambda>delta. bindE (chunk_reasoning delta) (\<lambda>reasoning.
              if reasoning = [] then Inr (Some m)
              else bindE (blocks m) (\<lambda>bs. Inr (Some (m\<lparr>chat_content :=
                PList (PDict [(S ''type'', PStr (S ''reasoning'')), (S ''reasoning'', PStr reasoning)] # map PDict bs)\<rparr>)))))))"


section \<open>Lemmas\<close>

definition key_variables :: "pystr set" where
  "key_variables = {S ''AWS_ACCESS_KEY_ID'', S ''AWS_SECRET_ACCESS_KEY'', S ''AWS_SESSION_TOKEN''}"

lemma export_keys_error: "snd (export_keys keys w) = Inl e \<Longrightarrow> exn_class e = CValueError"
  by (auto simp: export_keys_def put_env_def split: if_splits)

lemma export_keys_confined:
  "files (fst (export_keys keys w)) = files w"
  "v \<notin> key_variables \<Longrightarrow> environ (fst (export_keys keys w)) v = environ w v"
  by (auto simp: export_keys_def put_env_def set_env_def key_variables_def split: if_splits)

lemma key_variable_names [simp]:
  "S ''AWS_ACCESS_KEY_ID'' \<noteq> S ''AWS_SECRET_ACCESS_KEY''" "S ''AWS_ACCESS_KEY_ID'' \<noteq> S ''AWS_SESSION_TOKEN''"
  "S ''AWS_SECRET_ACCESS_KEY'' \<noteq> S ''AWS_SESSION_TOKEN''"
  by code_simp+

lemma export_keys_Inr:
  assumes "snd (export_keys keys w) = Inr u"
  shows "environ (fst (export_keys keys w)) (S ''AWS_ACCESS_KEY_ID'') = Some (aws_key keys)"
    "environ (fst (export_keys keys w)) (S ''AWS_SECRET_ACCESS_KEY'') = Some (aws_secret keys)"
    "environ (fst (export_keys keys w)) (S ''AWS_SESSION_TOKEN'') =
       (if truthy_str (aws_token keys) then aws_token keys else None)"
  using assms by (auto simp: export_keys_def put_env_def set_env_def truthy_str_def split: if_splits option.splits)

lemma read_target_error: "read_target_service_account w p = Inl e \<Longrightarrow> exn_class e = CValueError"
  by (auto simp: read_target_service_account_def read_text_def result_simps is_os_error_def
      dest!: utf8_decode_class split: option.splits fnode.splits sum.splits if_splits)

lemma get_ssl_context_error: "get_ssl_context env st = Inl e \<Longrightarrow> context_error env None = Some e"
  by (auto simp: get_ssl_context_def split: option.splits)

lemma clients_error:
  "http_client sdk st = Inl e \<Longrightarrow> context_error (sdk_tls sdk) None = Some e"
  "async_http_client sdk st = Inl e \<Longrightarrow> context_error (sdk_tls sdk) None = Some e"
  by (auto simp: http_client_def async_http_client_def result_simps dest: get_ssl_context_error)

text \<open>The errors of a constructor that are not those of a wrong class.\<close>

definition outside_error :: "'c sdk \<Rightarrow> exn \<Rightarrow> bool" where
  "outside_error sdk e \<longleftrightarrow>
     exn_class e = CValueError \<or> context_error (sdk_tls sdk) None = Some e \<or>
     (\<exists>w path. load_google sdk w path = Inl e) \<or> (\<exists>identity. identity_error sdk identity = Some e)"

definition typed_parameters :: "model_creator \<Rightarrow> model_parameters \<Rightarrow> bool" where
  "typed_parameters creator p \<longleftrightarrow>
     (case creator of
        CreateAzureModel \<Rightarrow>
          (\<exists>v. mp_provider p = Some (AzureProviderParameters v)) \<and>
          (\<exists>c. mp_credentials p = Some c \<and> (is_AzureApiKeyCredentialSource c \<or> is_AzureEntraCredentialSource c))
      | CreateNativeOpenaiModel \<Rightarrow> True
      | CreateOpenaiCompatibleModel \<Rightarrow> True
      | CreateDirectModel \<Rightarrow> (\<exists>key token. mp_credentials p = Some (AnthropicCredentialSource key token))
      | CreateBedrockModel \<Rightarrow>
          (\<exists>region. mp_provider p = Some (BedrockProviderParameters region)) \<and>
          (\<exists>key secret token role. mp_credentials p = Some (BedrockCredentialSource key secret token role))
      | _ \<Rightarrow>
          (\<exists>project region. mp_provider p = Some (VertexProviderParameters project region)) \<and>
          (\<exists>path. mp_credentials p = Some (VertexCredentialSource path)))"

lemma wf_directE:
  assumes "well_formed_family f" "family f = FamilyAnthropic" "hosting f \<notin> {HostVertex, HostBedrock}"
  obtains key token where "mf_credentials f = Some (AnthropicCredentialSource key token)"
proof -
  have "hosting f = HostAnthropic"
    using assms(2,3) wf_hosting(3) [OF assms(1)] assms(1)
    by (cases "hosting f") (auto simp: well_formed_family_def
        split: option.split_asm provider_parameters.split_asm credential_source.split_asm)
  then show ?thesis using assms(1) that
    by (cases "mf_provider f"; cases "mf_credentials f"; cases "the (mf_credentials f)")
      (simp_all add: well_formed_family_def)
qed

lemma route_typed:
  assumes "resolve_model_route w model None = Inr r"
  shows "typed_parameters (create_model r) (route_parameters r)"
proof -
  obtain f where f: "resolve_model_family w = Inr f" "resolve_model_route w model (Some f) = Inr r"
    using assms by (cases "resolve_model_family w") (auto simp: resolve_model_route_def)
  note wf = resolve_model_family_wf [OF f(1)]
  obtain m where "(family f = FamilyOpenai \<and> hosting f = HostAzure \<and> r = azure_route m f) \<or>
     (\<exists>native. r = openai_route native m f) \<or> (family f = FamilyGoogle \<and> r = google_route m f) \<or>
     (hosting f = HostVertex \<and> create_model r = CreateVertexModel \<and> route_parameters r = parameters_for m f) \<or>
     (hosting f = HostBedrock \<and> create_model r = CreateBedrockModel \<and> route_parameters r = parameters_for m f) \<or>
     (family f = FamilyAnthropic \<and> hosting f \<notin> {HostVertex, HostBedrock} \<and> create_model r = CreateDirectModel \<and>
        mp_credentials (route_parameters r) = mf_credentials f)"
    by (rule route_cases [OF f(2)]) blast
  then consider "hosting f = HostAzure" "r = azure_route m f" | native where "r = openai_route native m f"
    | "hosting f = HostVertex" "create_model r \<in> {CreateVertexModel, CreateVertexGeminiModel}"
      "route_parameters r = parameters_for m f"
    | "hosting f = HostBedrock" "create_model r = CreateBedrockModel" "route_parameters r = parameters_for m f"
    | "family f = FamilyAnthropic" "hosting f \<notin> {HostVertex, HostBedrock}" "create_model r = CreateDirectModel"
      "mp_credentials (route_parameters r) = mf_credentials f"
    using wf_hosting(1) [OF wf] by (auto simp: google_route_def)
  then show ?thesis
  proof cases
    case 1
    obtain version c where p: "mf_provider f = Some (AzureProviderParameters version)"
      "mf_credentials f = Some c" "case c of AzureApiKeyCredentialSource key \<Rightarrow> key \<noteq> []
        | AzureEntraCredentialSource t i s \<Rightarrow> t \<noteq> [] \<and> i \<noteq> [] \<and> s \<noteq> [] | _ \<Rightarrow> False"
      using wf_azureE [OF wf 1(1)] by metis
    then show ?thesis
      using 1(2) by (cases c) (simp_all add: typed_parameters_def azure_route_def parameters_for_def)
  next
    case 2
    then show ?thesis by (simp add: typed_parameters_def openai_route_def)
  next
    case 3
    then show ?thesis
      by (rule_tac wf_vertexE [OF wf 3(1)]) (auto simp: typed_parameters_def parameters_for_def)
  next
    case 4
    then show ?thesis
      by (rule_tac wf_bedrockE [OF wf 4(1)]) (auto simp: typed_parameters_def parameters_for_def)
  next
    case 5
    then show ?thesis by (rule_tac wf_directE [OF wf 5(1,2)]) (simp add: typed_parameters_def)
  qed
qed

lemma vertex_credentials_error:
  "create_vertex_credentials sdk w (Some (VertexCredentialSource path)) = Inl e \<Longrightarrow> outside_error sdk e"
  by (auto simp: create_vertex_credentials_def result_simps outside_error_def dest: read_target_error)

lemma vertex_base_url_error: "vertex_base_url w url = Inl e \<Longrightarrow> exn_class e = CValueError"
  by (cases "urlsplit w url"; cases "url_tail url") (auto simp: vertex_base_url_def dest: urlsplit_error)

lemma outside_errorI:
  "exn_class e = CValueError \<Longrightarrow> outside_error sdk e"
  "context_error (sdk_tls sdk) None = Some e \<Longrightarrow> outside_error sdk e"
  by (simp_all add: outside_error_def)

lemma typed_errors:
  assumes "typed_parameters creator p" "snd (construct_model sdk creator p config st) = Inl e"
  shows "outside_error sdk e"
proof (cases creator)
  case CreateAzureModel
  then show ?thesis using assms
    by (auto simp: construct_model_def create_azure_model_def create_azure_credentials_def api_version_of_def
        typed_parameters_def result_simps Let_def outside_error_def
        dest: clients_error split: credential_source.splits option.splits if_splits)
next
  case CreateNativeOpenaiModel
  then show ?thesis using assms
    by (auto simp: construct_model_def create_native_openai_model_def create_openai_model_def result_simps
        outside_error_def dest: clients_error)
next
  case CreateOpenaiCompatibleModel
  then show ?thesis using assms
    by (auto simp: construct_model_def create_openai_compatible_model_def create_openai_model_def result_simps
        outside_error_def dest: clients_error split: if_splits)
next
  case CreateVertexGeminiModel
  then show ?thesis using assms
    by (auto simp: construct_model_def create_vertex_gemini_model_def typed_parameters_def project_of_def
        region_of_def result_simps dest!: get_ssl_context_error vertex_credentials_error intro: outside_errorI)
next
  case CreateDirectModel
  then show ?thesis using assms by (auto simp: construct_model_def create_direct_model_def typed_parameters_def)
next
  case CreateVertexModel
  then show ?thesis using assms
    by (auto simp: construct_model_def create_vertex_model_def typed_parameters_def project_of_def
        region_of_def result_simps dest!: clients_error vertex_base_url_error vertex_credentials_error
        split: option.splits intro: outside_errorI)
next
  case CreateBedrockModel
  then show ?thesis using assms
    by (auto simp: construct_model_def create_bedrock_model_def configure_bedrock_credentials_def
        create_bedrock_credentials_def typed_parameters_def region_of_def result_simps Let_def outside_error_def
        split: if_splits prod.splits sum.splits dest!: arg_cong [where f = snd] dest: export_keys_error)
qed

text \<open>No keyword is passed twice.\<close>

lemma reasoning_keys:
  "map fst (responses_reasoning_kwargs config) \<in> {[], [S ''verbosity''], [S ''reasoning''], [S ''verbosity'', S ''reasoning'']}"
  "set (map fst (chat_completions_reasoning_kwargs config)) \<subseteq> {S ''verbosity'', S ''reasoning_effort'', S ''reasoning''}"
  "distinct (map fst (chat_completions_reasoning_kwargs config))"
  by (auto simp: responses_reasoning_kwargs_def chat_completions_reasoning_kwargs_def Let_def S_def
      split: option.splits if_splits)

lemma option_keys [simp]: "map fst (option_args d) = map fst d"
  by (simp add: option_args_def case_prod_beta' comp_def)

lemma option_keys_set: "fst ` set (option_args d) = set (map fst d)"
  by (metis list.set_map option_keys)

lemma distinct_options:
  assumes "distinct (map fst kwargs)"
    and "set (map fst kwargs) \<inter> {S ''verbosity'', S ''reasoning_effort'', S ''reasoning''} = {}"
  shows "distinct (map fst kwargs @ map fst (responses_reasoning_kwargs config))"
    "distinct (map fst kwargs @ map fst (chat_completions_reasoning_kwargs config))"
proof -
  have r: "set (map fst (responses_reasoning_kwargs config)) \<subseteq> {S ''verbosity'', S ''reasoning_effort'', S ''reasoning''} \<and>
      distinct (map fst (responses_reasoning_kwargs config))"
    using reasoning_keys(1) [of config] by (auto simp: S_def)
  then show "distinct (map fst kwargs @ map fst (responses_reasoning_kwargs config))"
    using assms unfolding distinct_append by blast
  show "distinct (map fst kwargs @ map fst (chat_completions_reasoning_kwargs config))"
    using assms reasoning_keys(2,3) [of config] unfolding distinct_append by blast
qed

lemma thinking_keys: "set (map fst (thinking_arg config)) \<subseteq> {S ''thinking''}" "distinct (map fst (thinking_arg config))"
  by (auto simp: thinking_arg_def Let_def split: option.splits if_splits)

text \<open>The keywords of the two OpenAI classes before the options.\<close>

definition openai_keys :: "bool \<Rightarrow> model_parameters \<Rightarrow> pystr list" where
  "openai_keys responses p =
     map S [''model'', ''api_key'', ''base_url'', ''use_responses_api'', ''output_version'', ''http_client'',
       ''http_async_client''] @ (if mp_max_output_tokens p = None then [] else [S ''max_tokens''])
     @ (if responses then [] else [S ''stream_usage''])"

definition azure_keys :: "bool \<Rightarrow> model_parameters \<Rightarrow> pystr list" where
  "azure_keys responses p =
     map S [''model'', ''azure_deployment'', ''azure_endpoint'', ''api_version'', ''api_key'', ''azure_ad_token'',
       ''azure_ad_async_token_provider'', ''base_url'', ''openai_api_type'', ''use_responses_api'', ''output_version'',
       ''http_client'', ''http_async_client''] @ (if mp_max_output_tokens p = None then [] else [S ''max_tokens''])
     @ (if responses then [] else [S ''stream_usage''])"

lemma keys_distinct_options:
  "distinct (openai_keys responses p)" "distinct (azure_keys responses p)"
  "set (openai_keys responses p) \<inter> {S ''verbosity'', S ''reasoning_effort'', S ''reasoning''} = {}"
  "set (azure_keys responses p) \<inter> {S ''verbosity'', S ''reasoning_effort'', S ''reasoning''} = {}"
  by (simp_all add: openai_keys_def azure_keys_def S_def)

definition reasoning_options :: "bool \<Rightarrow> pydict option \<Rightarrow> pydict" where
  "reasoning_options responses config =
     (if responses then responses_reasoning_kwargs config else chat_completions_reasoning_kwargs config)"

lemma distinct_with_options:
  assumes "distinct ks" "set ks \<inter> {S ''verbosity'', S ''reasoning_effort'', S ''reasoning''} = {}"
  shows "distinct (ks @ map fst (reasoning_options responses config))"
  using distinct_options [of "map (\<lambda>k. (k, ())) ks" config] assms
  by (simp add: reasoning_options_def comp_def)

lemma limit_arg_keys: "map fst (limit_arg k p) = (if mp_max_output_tokens p = None then [] else [S k])"
  by (simp add: limit_arg_def split: option.split)

lemma openai_keywords:
  assumes "create_openai_model sdk st cls responses (reasoning_options responses config) p = Inr m"
  shows "distinct (map fst (cm_kwargs m))"
proof -
  have "map fst (cm_kwargs m) = openai_keys responses p @ map fst (reasoning_options responses config)"
    using assms by (cases "http_client sdk st"; cases "async_http_client sdk st"; cases responses)
      (auto simp: create_openai_model_def text_arg_def limit_arg_keys openai_keys_def)
  then show ?thesis using distinct_with_options [OF keys_distinct_options(1,3)] by metis
qed

lemma azure_keywords:
  assumes "create_azure_model sdk st p config = Inr m"
  shows "distinct (map fst (cm_kwargs m))"
proof -
  have "\<exists>responses. map fst (cm_kwargs m) = azure_keys responses p @ map fst (reasoning_options responses config)"
  proof (rule exI)
    let ?r = "azure_api_version_supports_responses (Some (projr (api_version_of (mp_provider p))))"
    show "map fst (cm_kwargs m) = azure_keys ?r p @ map fst (reasoning_options ?r config)"
      using assms
      by (cases "create_azure_credentials sdk (mp_credentials p)"; cases "api_version_of (mp_provider p)";
          cases "if auth_identity (projr (create_azure_credentials sdk (mp_credentials p))) = None
            then http_client sdk st else Inr (Json PNone)";
          cases "async_http_client sdk st"; cases ?r)
        (auto simp: create_azure_model_def text_arg_def limit_arg_keys azure_keys_def Let_def reasoning_options_def)
  qed
  then show ?thesis using distinct_with_options [OF keys_distinct_options(2,4)] by metis
qed

lemma vertex_keywords:
  "create_vertex_model sdk st p config = Inr m \<Longrightarrow> distinct (map fst (cm_kwargs m))"
  "create_vertex_gemini_model sdk st p config = Inr m \<Longrightarrow> distinct (map fst (cm_kwargs m))"
  by (auto simp: create_vertex_model_def create_vertex_gemini_model_def result_simps text_arg_def limit_arg_def
      thinking_arg_def Let_def S_def split: option.splits if_splits)

lemma anthropic_keywords:
  "create_direct_model p config = Inr m \<Longrightarrow> distinct (map fst (cm_kwargs m))"
  "snd (create_bedrock_model p config w) = Inr m \<Longrightarrow> distinct (map fst (cm_kwargs m))"
  by (auto simp: create_direct_model_def create_bedrock_model_def configure_bedrock_credentials_def text_arg_def
      limit_arg_def thinking_arg_def Let_def result_simps S_def
      split: option.splits if_splits sum.splits prod.splits credential_source.splits aws_credentials.splits)

lemma keywords_distinct:
  assumes "construct_model sdk creator p config st = (st', Inr m)"
  shows "distinct (map fst (cm_kwargs m))"
  using assms openai_keywords [of sdk st ChatOpenAI True config p m]
    openai_keywords [of sdk st CompatibleChatOpenAI False config p m]
  by (cases creator)
    (auto simp: construct_model_def create_native_openai_model_def create_openai_compatible_model_def
      reasoning_options_def Let_def split: prod.splits if_splits
      dest: azure_keywords vertex_keywords anthropic_keywords(1)
        anthropic_keywords(2) [of p config "tls_world st" m, OF trans [OF arg_cong [where f = snd]]])

text \<open>The TLS contexts of a model's HTTP clients.\<close>

fun value_context :: "'c sdk_value \<Rightarrow> ssl_context option" where
  "value_context (HttpClient c) = Some c"
| "value_context (AsyncHttpClient c) = Some c"
| "value_context (Verify c) = Some c"
| "value_context _ = None"

definition contexts :: "'c sdk_value dict \<Rightarrow> ssl_context set" where
  "contexts kwargs = {c. \<exists>v \<in> snd ` set kwargs. value_context v = Some c}"

lemma contexts_simps [simp]:
  "contexts [] = {}" "contexts (a @ b) = contexts a \<union> contexts b"
  "contexts ((k, v) # kvs) = (case value_context v of None \<Rightarrow> contexts kvs | Some c \<Rightarrow> insert c (contexts kvs))"
  by (auto simp: contexts_def split: option.split)

lemma contexts_plain [simp]:
  "contexts (text_arg k v # kvs) = contexts kvs" "contexts (limit_arg k p) = {}" "contexts (thinking_arg config) = {}"
  "contexts (option_args d) = {}" "value_context (optional_text t) = None"
  by (auto simp: text_arg_def limit_arg_def thinking_arg_def option_args_def optional_text_def Let_def contexts_def
      split: option.splits)

lemma shared_clients:
  assumes "runtime_context st = Some c"
  shows "http_client sdk st = Inr (HttpClient c)" "async_http_client sdk st = Inr (AsyncHttpClient c)"
    "get_ssl_context env st = Inr c"
  using assms by (simp_all add: http_client_def async_http_client_def get_ssl_context_def)

lemma model_contexts:
  assumes "construct_model sdk creator p config st = (st', Inr m)" "runtime_context st = Some c"
  shows "(case cm_client_kwargs m of None \<Rightarrow> contexts (cm_kwargs m) = {c}
          | Some extra \<Rightarrow> contexts (cm_kwargs m) \<union> contexts extra = {}) \<and> runtime_context st' = Some c"
proof (cases creator)
  case CreateAzureModel
  then show ?thesis using assms
    by (auto simp: construct_model_def create_azure_model_def result_simps Let_def shared_clients split: option.splits if_splits)
next
  case CreateBedrockModel
  then show ?thesis using assms
    by (auto simp: construct_model_def create_bedrock_model_def configure_bedrock_credentials_def Let_def result_simps
        split: prod.splits sum.splits aws_credentials.splits)
next
  case CreateVertexModel
  then show ?thesis using assms
    by (auto simp: construct_model_def create_vertex_model_def result_simps shared_clients split: option.splits)
next
  case CreateVertexGeminiModel
  then show ?thesis using assms
    by (auto simp: construct_model_def create_vertex_gemini_model_def result_simps shared_clients split: option.splits if_splits)
next
  case CreateDirectModel
  then show ?thesis using assms
    by (auto simp: construct_model_def create_direct_model_def split: option.splits credential_source.splits if_splits)
next
  case CreateNativeOpenaiModel
  then show ?thesis using assms
    by (auto simp: construct_model_def create_native_openai_model_def create_openai_model_def shared_clients)
next
  case CreateOpenaiCompatibleModel
  then show ?thesis using assms
    by (auto simp: construct_model_def create_openai_compatible_model_def create_openai_model_def shared_clients split: if_splits)
qed

lemma lazy_client_has: "lazy_client params m client = Inr kwargs \<Longrightarrow> (S ''http_client'', client) \<in> set kwargs"
  by (auto simp: lazy_client_def Let_def split: if_splits)


text \<open>The API version that an Azure model was constructed with, which the binding of its output reads.\<close>

definition openai_api_version :: "'c chat_model \<Rightarrow> pystr option" where
  "openai_api_version m =
     (case dget (cm_kwargs m) (S ''api_version'') of Some (Json (PStr v)) \<Rightarrow> Some v | _ \<Rightarrow> None)"

lemma route_output:
  assumes "resolve_model_route w model None = Inr r"
  obtains f m where "r = azure_route m f" | f m native where "r = openai_route native m f" | f m where "r = google_route m f"
    | "translate_output_schema r = Some AnthropicToolSchema" "bind_structured_output r = Some BindAnthropicOutput"
proof -
  obtain f where "resolve_model_route w model (Some f) = Inr r"
    using assms by (cases "resolve_model_family w") (auto simp: resolve_model_route_def)
  then have "(\<exists>m. r = azure_route m f) \<or> (\<exists>native m. r = openai_route native m f) \<or> (\<exists>m. r = google_route m f) \<or>
      translate_output_schema r = Some AnthropicToolSchema \<and> bind_structured_output r = Some BindAnthropicOutput"
    by (auto simp: resolve_model_route_def Let_def result_simps anthropic_route_def
        split: family_name.splits hosting_name.splits if_splits)
  then show ?thesis using that by blast
qed

lemma azure_model_version:
  assumes "create_azure_model sdk st (parameters_for m f) config = Inr cm" "mf_provider f = Some (AzureProviderParameters v)"
  shows "openai_api_version cm = Some v"
proof -
  have k: "S ''api_version'' \<notin> {S ''model'', S ''azure_deployment'', S ''azure_endpoint''}" by code_simp
  show ?thesis
    using assms k
    by (auto simp: create_azure_model_def result_simps api_version_of_def parameters_for_def openai_api_version_def text_arg_def Let_def)
qed


section \<open>Properties\<close>

text \<open>
  C32. The casts of the constructors are right. With the parameters of a route that the settings
  resolve to, whatever output limit is added, a constructor never meets credentials or provider
  parameters of another class: it returns a model, none of whose keywords is passed twice, or it
  fails with a configuration error (\<open>ValueError\<close>), or with what OpenSSL, the Google loader or the
  Azure identity raised.
\<close>

theorem routed_models_are_typed:
  assumes "resolve_model_route w model None = Inr r"
  shows "case construct_model sdk (create_model r) ((route_parameters r)\<lparr>mp_max_output_tokens := limit\<rparr>) config st of
      (_, Inr m) \<Rightarrow> distinct (map fst (cm_kwargs m))
    | (_, Inl e) \<Rightarrow> exn_class e = CValueError \<or> context_error (sdk_tls sdk) None = Some e \<or>
        (\<exists>w path. load_google sdk w path = Inl e) \<or> (\<exists>identity. identity_error sdk identity = Some e)"
proof -
  let ?p = "(route_parameters r)\<lparr>mp_max_output_tokens := limit\<rparr>"
  obtain st' out where run: "construct_model sdk (create_model r) ?p config st = (st', out)" by (metis surj_pair)
  have "typed_parameters (create_model r) ?p"
    using route_typed [OF assms] by (simp add: typed_parameters_def split: model_creator.splits)
  then show ?thesis
    using typed_errors [of "create_model r" ?p sdk config st] keywords_distinct [of sdk "create_model r" ?p config st st'] run
    unfolding outside_error_def by (cases out) simp_all
qed


text \<open>
  C31. Only static AWS keys reach the environment. Constructing a model changes no file, and no variable
  but the three AWS ones, and these only for Bedrock without a role, where they hold exactly the
  resolved keys and no session token is left over. With a role the clients get credentials
  that assume it, and the model is told to load no static keys.
\<close>

theorem only_static_keys_are_exported:
  assumes "construct_model sdk creator p config st = (st', Inr m)"
  shows "files (tls_world st') = files (tls_world st) \<and>
    (\<forall>v. v \<notin> key_variables \<longrightarrow> environ (tls_world st') v = environ (tls_world st) v) \<and>
    (case (creator, mp_credentials p) of
       (CreateBedrockModel, Some (BedrockCredentialSource key secret token role)) \<Rightarrow>
         (if truthy_str role
          then environ (tls_world st') = environ (tls_world st) \<and>
            (\<exists>extra region. cm_client_kwargs m = Some extra \<and> dget extra (S ''_role_credentials'') =
               Some (AwsAuth (AssumedRole \<lparr>aws_key = key, aws_secret = secret, aws_token = token\<rparr> (the role) region))) \<and>
            (\<forall>k \<in> {S ''aws_access_key_id'', S ''aws_secret_access_key'', S ''aws_session_token''}.
               dget (cm_kwargs m) k = Some (Json PNone))
          else environ (tls_world st') (S ''AWS_ACCESS_KEY_ID'') = Some key \<and>
            environ (tls_world st') (S ''AWS_SECRET_ACCESS_KEY'') = Some secret \<and>
            environ (tls_world st') (S ''AWS_SESSION_TOKEN'') = (if truthy_str token then token else None))
     | (CreateBedrockModel, _) \<Rightarrow> False
     | _ \<Rightarrow> environ (tls_world st') = environ (tls_world st))"
proof (cases "creator = CreateBedrockModel")
  case False
  then show ?thesis using assms
    by (cases creator) (auto simp: construct_model_def)
next
  case True
  then obtain w' where b: "create_bedrock_model p config (tls_world st) = (w', Inr m)"
      "st' = st\<lparr>tls_world := w'\<rparr>"
    using assms by (auto simp: construct_model_def Let_def split: prod.splits)
  then obtain region key secret token role where src:
      "mp_credentials p = Some (BedrockCredentialSource key secret token role)" "region_of (mp_provider p) = Inr region"
    by (auto simp: create_bedrock_model_def configure_bedrock_credentials_def create_bedrock_credentials_def
        split: sum.splits option.splits credential_source.splits)
  let ?keys = "\<lparr>aws_key = key, aws_secret = secret, aws_token = token\<rparr>"
  show ?thesis
  proof (cases "truthy_str role")
    case role: True
    show ?thesis
      using b src role True
      by (auto simp: create_bedrock_model_def configure_bedrock_credentials_def create_bedrock_credentials_def
          text_arg_def S_def)
  next
    case False
    then have run: "export_keys ?keys (tls_world st) = (w', Inr ())"
      using b src
      by (auto simp: create_bedrock_model_def configure_bedrock_credentials_def create_bedrock_credentials_def
          Let_def result_simps split: prod.splits sum.splits)
    show ?thesis
      using export_keys_confined [where keys = ?keys and w = "tls_world st"] export_keys_Inr [of ?keys "tls_world st" "()"] run b(2) src(1) False True
      by simp
  qed
qed


text \<open>
  An output schema that was accepted is used. A schema that the route's translation accepts, which
  happens before any tool runs, is bound as it was translated to every model that the route constructs:
  the shape pass, after the tools have run, cannot fail for the API version, and does not convert
  the schema again; provided LangChain's conversion yields a tool with a name and an input schema.
\<close>

theorem accepted_schemas_are_bound:
  assumes "resolve_model_route w model None = Inr r"
    "construct_model sdk (create_model r) (route_parameters r) None st = (st', Inr m)"
    "translate_output_schema r = Some t" "apply_translation to_tool t schema = Inr prepared"
    "\<forall>v tool. to_tool v = Inr tool \<longrightarrow>
       (\<exists>d. tool = PDict d \<and> has_key d (S ''input_schema'') \<and> has_key d (S ''name''))"
  shows "\<exists>bound. bind_output to_tool (openai_api_version m) r prepared = Inr bound \<and> bound_schema bound = prepared"
  using assms(1)
proof (cases rule: route_output)
  case (1 f model_name)
  then have "t = AzureStructuredOutputSchema (mf_provider f)" using assms(3) by (simp add: azure_route_def)
  then obtain v where v: "mf_provider f = Some (AzureProviderParameters v)"
      "azure_structured_output_schema schema (Some v) = Inr prepared"
    using assms(4) by (cases "(to_tool, t, schema)" rule: apply_translation.cases) auto
  have "create_azure_model sdk st (parameters_for model_name f) None = Inr m"
    using assms(2) 1 by (auto simp: construct_model_def azure_route_def)
  then have "openai_api_version m = Some v" by (rule azure_model_version [OF _ v(1)])
  moreover have "require_azure_structured_output (Some v) = Inr ()"
    using v(2) by (auto simp: azure_structured_output_schema_def result_simps)
  ultimately show ?thesis using 1 by (simp add: bind_output_def bind_azure_output_def bind_openai_compatible_output_def azure_route_def)
next
  case (2 f model_name native)
  then show ?thesis by (simp add: bind_output_def bind_openai_compatible_output_def openai_route_def)
next
  case (3 f model_name)
  then show ?thesis using assms(3) by (simp add: google_route_def)
next
  case 4
  then have "to_tool schema = Inr prepared" using assms(3,4) by simp
  then obtain d where "prepared = PDict d" "has_key d (S ''input_schema'')" "has_key d (S ''name'')"
    using assms(5) by blast
  then show ?thesis using 4 by (auto simp: bind_output_def bind_anthropic_output_def shaping_tool_def)
qed


section \<open>Examples\<close>

lemma vertex_base_url_examples:
  "vertex_base_url empty_world (S ''https://proxy.example'') = Inr (S ''https://proxy.example/v1'')"
  "vertex_base_url empty_world (S ''https://proxy.example/'') = Inr (S ''https://proxy.example/v1'')"
  "vertex_base_url empty_world (S ''https://proxy.example/vertex/v1?x#y'') = Inr (S ''https://proxy.example/vertex/v1?x#y'')"
  by code_simp+

definition sample_sdk :: "nat sdk" where
  "sample_sdk = \<lparr>sdk_tls = \<lparr>default_cafile = None, platform_certs = Inr [], context_error = (\<lambda>_. None),
       ciphers_error = (\<lambda>_. None), ciphersuites_error = None, temporary_file = Inr (S ''/tmp/ca''),
       directory_error = None, write_error = (\<lambda>_. None)\<rparr>,
     load_google = (\<lambda>_ _. Inr 0), identity_error = (\<lambda>_. None), api_key_sentinel = S ''sentinel''\<rparr>"

definition sample_shared_context :: ssl_context where
  "sample_shared_context = \<lparr>context_cafile = None, context_minimum = Some TLSv1_2, context_ciphers = None, context_ciphersuites = None\<rparr>"

definition sample_process :: tls_state where
  "sample_process = \<lparr>tls_world = env_world [(S ''AWS_SESSION_TOKEN'', S ''old'')], runtime_context = Some sample_shared_context\<rparr>"

definition sample_bedrock :: "pystr option \<Rightarrow> model_parameters" where
  "sample_bedrock role = \<lparr>mp_model = S ''claude'', mp_base_url = None,
     mp_provider = Some (BedrockProviderParameters (S ''us-east-1'')),
     mp_credentials = Some (BedrockCredentialSource (S ''k'') (S ''s'') None role),
     mp_api_key = None, mp_max_output_tokens = Some 1024\<rparr>"

lemma only_static_keys_are_exported_witness:
  "environ (tls_world (fst (construct_model sample_sdk CreateBedrockModel (sample_bedrock None) None sample_process)))
     (S ''AWS_SESSION_TOKEN'') = None"
proof -
  let ?run = "construct_model sample_sdk CreateBedrockModel (sample_bedrock None) None sample_process"
  have "\<exists>m. snd ?run = Inr m" by (rule exI [of _ "projr (snd ?run)"]) code_simp
  then obtain m where "?run = (fst ?run, Inr m)" by (metis prod.collapse)
  from only_static_keys_are_exported [OF this] show ?thesis by (simp add: sample_bedrock_def)
qed


lemma routed_models_are_typed_witness:
  "\<exists>r. resolve_model_route (env_world [(S ''LIGHTSPEED_MODEL'', S ''claude'')]) None None = Inr r \<and>
     (case construct_model sample_sdk (create_model r) ((route_parameters r)\<lparr>mp_max_output_tokens := Some 1024\<rparr>) None
          sample_process of
        (_, Inr m) \<Rightarrow> distinct (map fst (cm_kwargs m)) | (_, Inl e) \<Rightarrow> exn_class e = CValueError)"
proof -
  let ?w = "env_world [(S ''LIGHTSPEED_MODEL'', S ''claude'')]"
  have "\<exists>r. resolve_model_route ?w None None = Inr r"
    by (rule exI [of _ "projr (resolve_model_route ?w None None)"]) code_simp
  then obtain r where r: "resolve_model_route ?w None None = Inr r" ..
  have quiet: "context_error (sdk_tls sample_sdk) None = None" "load_google sample_sdk w path = Inr 0"
      "identity_error sample_sdk identity = None" for w path identity
    by (simp_all add: sample_sdk_def)
  show ?thesis
    using routed_models_are_typed [OF r, where sdk = sample_sdk and limit = "Some 1024" and config = None and st = sample_process] r
    by (auto simp: quiet split: prod.splits sum.splits)
qed

definition sample_tool :: "pyval \<Rightarrow> pyval result" where
  "sample_tool schema = Inr (PDict [(S ''name'', PStr (S ''report'')), (S ''input_schema'', schema)])"

lemma accepted_schemas_are_bound_witness:
  "\<exists>r m bound prepared. resolve_model_route (env_world [(S ''LIGHTSPEED_MODEL'', S ''claude'')]) None None = Inr r \<and>
     bind_output sample_tool (openai_api_version (m :: nat chat_model)) r prepared = Inr bound \<and> bound_schema bound = prepared"
proof -
  let ?w = "env_world [(S ''LIGHTSPEED_MODEL'', S ''claude'')]"
  have "\<exists>r. resolve_model_route ?w None None = Inr r \<and> translate_output_schema r = Some AnthropicToolSchema"
    by (rule exI [of _ "projr (resolve_model_route ?w None None)"]) code_simp
  then obtain r where r: "resolve_model_route ?w None None = Inr r" "translate_output_schema r = Some AnthropicToolSchema" by blast
  have "\<exists>m. snd (construct_model sample_sdk (create_model (projr (resolve_model_route ?w None None)))
      (route_parameters (projr (resolve_model_route ?w None None))) None sample_process) = Inr m"
    by (rule exI [of _ "projr (snd (construct_model sample_sdk (create_model (projr (resolve_model_route ?w None None)))
      (route_parameters (projr (resolve_model_route ?w None None))) None sample_process))"]) code_simp
  then obtain m where "snd (construct_model sample_sdk (create_model r) (route_parameters r) None sample_process) = Inr m"
    unfolding r(1) by auto
  then have m: "construct_model sample_sdk (create_model r) (route_parameters r) None sample_process =
      (fst (construct_model sample_sdk (create_model r) (route_parameters r) None sample_process), Inr m)"
    by (metis prod.collapse)
  have tool: "\<forall>v tool. sample_tool v = Inr tool \<longrightarrow>
       (\<exists>d. tool = PDict d \<and> has_key d (S ''input_schema'') \<and> has_key d (S ''name''))"
    by (simp add: sample_tool_def)
  have "apply_translation sample_tool AnthropicToolSchema (PDict []) =
      Inr (PDict [(S ''name'', PStr (S ''report'')), (S ''input_schema'', PDict [])])" by (simp add: sample_tool_def)
  from accepted_schemas_are_bound [OF r(1) m r(2) this tool] r(1) show ?thesis by blast
qed

end
