(* ===== verification/BuildDeps.thy ===== *)
theory BuildDeps
  imports Locking
begin

text \<open>
  \<open>scripts/gen-build-deps.py\<close>: the build dependencies of the packages that are fetched as source
  distributions. The index's JSON, downloads, archives, TOML, \<open>uv pip compile\<close> and the Unicode table behind
  \<open>\w\<close> are parameters. Proved: the written file pins every package at its exact pin where a build asked
  for one, and as compiled otherwise; conflicting exact pins are an error; every compilation asks for
  all earlier requirements, and there are at most eleven.
\<close>

section \<open>Requirements files\<close>

definition word_char :: "(codepoint \<Rightarrow> bool) \<Rightarrow> codepoint \<Rightarrow> bool" where
  "word_char uni c \<longleftrightarrow> ascii_alnum c \<or> c = 95 \<or> (128 \<le> c \<and> uni c)"

definition package_char :: "(codepoint \<Rightarrow> bool) \<Rightarrow> codepoint \<Rightarrow> bool" where
  "package_char uni c \<longleftrightarrow> word_char uni c \<or> c = 46 \<or> c = 45"

text \<open>\<open>([A-Za-z0-9][\w.-]*)\<close> at the start of a text, and the rest.\<close>

definition package_prefix :: "(codepoint \<Rightarrow> bool) \<Rightarrow> pystr \<Rightarrow> (pystr \<times> pystr) option" where
  "package_prefix uni s =
     (if s \<noteq> [] \<and> ascii_alnum (hd s)
      then Some (takeWhile (package_char uni) s, dropWhile (package_char uni) s) else None)"

text \<open>The same with \<open>==\<close> and a version whose characters are not among the stops.\<close>

definition pinned :: "(codepoint \<Rightarrow> bool) \<Rightarrow> codepoint set \<Rightarrow> pystr \<Rightarrow> (pystr \<times> pystr \<times> pystr) option" where
  "pinned uni stops s =
     (case package_prefix uni s of
        None \<Rightarrow> None
      | Some (name, rest) \<Rightarrow>
          let version = takeWhile (\<lambda>c. \<not> is_space c \<and> c \<notin> stops) (drop 2 rest);
              after = dropWhile (\<lambda>c. \<not> is_space c \<and> c \<notin> stops) (drop 2 rest)
          in if starts_with rest (S ''=='') \<and> version \<noteq> [] then Some (name, version, after) else None)"

definition spec_name :: "(codepoint \<Rightarrow> bool) \<Rightarrow> pystr \<Rightarrow> pystr option" where
  "spec_name uni spec = map_option (\<lambda>(name, _). normalize_name name) (package_prefix uni spec)"

definition exact_pin :: "(codepoint \<Rightarrow> bool) \<Rightarrow> pystr \<Rightarrow> (pystr \<times> pystr) option" where
  "exact_pin uni req =
     (case pinned uni {44, 59} (strip req) of
        Some (name, version, []) \<Rightarrow> Some (normalize_name name, version) | _ \<Rightarrow> None)"

definition note_package :: "(codepoint \<Rightarrow> bool) \<Rightarrow> pystr \<Rightarrow> (pystr \<times> pystr) dict \<Rightarrow> (pystr \<times> pystr) dict" where
  "note_package uni line pkgs =
     (case pinned uni {92, 59} (strip line) of
        None \<Rightarrow> pkgs
      | Some (name, version, _) \<Rightarrow>
          if has_key pkgs (normalize_name name) then pkgs else dset pkgs (normalize_name name) (name, version))"

fun parse_packages :: "(codepoint \<Rightarrow> bool) \<Rightarrow> world \<Rightarrow> pystr list \<Rightarrow> (pystr \<times> pystr) dict \<Rightarrow> (pystr \<times> pystr) dict result" where
  "parse_packages uni w [] pkgs = Inr pkgs"
| "parse_packages uni w (p # ps) pkgs =
     bindE (read_text w p) (\<lambda>content. parse_packages uni w ps (fold (note_package uni) (split_on 10 content) pkgs))"

definition digest_char :: "codepoint \<Rightarrow> bool" where
  "digest_char c \<longleftrightarrow> (48 \<le> c \<and> c \<le> 57) \<or> (97 \<le> c \<and> c \<le> 102)"

definition hash_mark :: pystr where "hash_mark = S ''--hash=sha256:''"

text \<open>\<open>re.findall\<close>; a mark without digits is passed over.\<close>

function find_hashes :: "pystr \<Rightarrow> pystr list" where
  "find_hashes [] = []"
| "find_hashes (c # s) =
     (let digits = takeWhile digest_char (drop (length hash_mark) (c # s))
      in if starts_with (c # s) hash_mark \<and> digits \<noteq> []
         then digits # find_hashes (drop (length hash_mark + length digits) (c # s))
         else find_hashes s)"
  by pat_completeness auto
termination
  by (relation "measure length") (auto simp: hash_mark_def)

definition note_hashes :: "(codepoint \<Rightarrow> bool) \<Rightarrow> pystr \<Rightarrow> pystr list dict \<times> pystr option \<Rightarrow> pystr list dict \<times> pystr option" where
  "note_hashes uni line s =
     (let (hashes, current) = s;
          (hashes, current) =
            (case pinned uni {92, 59} (strip line) of
               None \<Rightarrow> (hashes, current)
             | Some (name, _, _) \<Rightarrow>
                 (if has_key hashes (normalize_name name) then hashes else dset hashes (normalize_name name) [],
                  Some (normalize_name name)))
      in case current of
           None \<Rightarrow> (hashes, current)
         | Some name \<Rightarrow>
             if name = [] then (hashes, current)
             else (dset hashes name ((case dget hashes name of None \<Rightarrow> [] | Some hs \<Rightarrow> hs) @ find_hashes line), current))"

fun parse_hashes ::
    "(codepoint \<Rightarrow> bool) \<Rightarrow> world \<Rightarrow> pystr list \<Rightarrow> pystr list dict \<times> pystr option \<Rightarrow> pystr list dict result" where
  "parse_hashes uni w [] s = Inr (fst s)"
| "parse_hashes uni w (p # ps) s =
     bindE (read_text w p) (\<lambda>content. parse_hashes uni w ps (fold (note_hashes uni) (split_on 10 content) s))"


section \<open>Source distributions\<close>

datatype compile_run = Compiled pystr | CompileRefused | CompileRaised exn

record 'n builder =
  unicode_word :: "codepoint \<Rightarrow> bool"
  index_json :: "pystr \<Rightarrow> 'n \<Rightarrow> 'n \<times> pystr result"
  download :: "pystr \<Rightarrow> 'n \<Rightarrow> 'n \<times> int list result"
  tar_members :: "int list \<Rightarrow> (pystr \<times> int list option) list result"
  zip_members :: "int list \<Rightarrow> (pystr \<times> int list) list result"
  parse_toml :: "pystr \<Rightarrow> pydict result"
  uv_compile :: "pystr \<Rightarrow> 'n \<Rightarrow> 'n \<times> compile_run"
  builder_disk :: disk

text \<open>\<open>v[k]\<close> and \<open>v.get(k, d)\<close> of a JSON value.\<close>

definition item_of :: "pyval \<Rightarrow> string \<Rightarrow> pyval result" where
  "item_of v k =
     (case v of
        PDict d \<Rightarrow> (case dget d (S k) of None \<Rightarrow> Inl (Exn CKeyError (S k)) | Some x \<Rightarrow> Inr x)
      | _ \<Rightarrow> Inl (TypeError (type_name v)))"

definition text_of :: "pyval \<Rightarrow> pystr result" where
  "text_of v = (case v of PStr s \<Rightarrow> Inr s | _ \<Rightarrow> Inl (Exn CAttributeError (type_name v)))"

definition pypi_urls :: "'n builder \<Rightarrow> pystr \<Rightarrow> pystr \<Rightarrow> 'n \<Rightarrow> 'n \<times> pyval result" where
  "pypi_urls b name version n =
     (let (n', body) = index_json b (S ''https://pypi.org/pypi/'' @ name @ S ''/'' @ version @ S ''/json'') n
      in (n', bindE body (\<lambda>t. bindE (json_loads t) (\<lambda>v. py_get v ''urls'' (PList [])))))"

definition ends_with :: "pystr \<Rightarrow> pystr \<Rightarrow> bool" where
  "ends_with s suffix \<longleftrightarrow> length suffix \<le> length s \<and> drop (length s - length suffix) s = suffix"

definition archive_name :: "pystr \<Rightarrow> bool" where
  "archive_name fn \<longleftrightarrow> ends_with fn (S ''.tar.gz'') \<or> ends_with fn (S ''.zip'')"

definition is_archive :: "pyval \<Rightarrow> bool result" where
  "is_archive u = bindE (item_of u ''filename'') (\<lambda>v. bindE (text_of v) (\<lambda>fn. Inr (archive_name fn)))"

fun archives :: "pyval list \<Rightarrow> pyval list result" where
  "archives [] = Inr []"
| "archives (u # us) =
     bindE (is_archive u) (\<lambda>yes. bindE (archives us) (\<lambda>rest. Inr (if yes then u # rest else rest)))"

fun has_sdist_hash :: "pyval list \<Rightarrow> pystr list \<Rightarrow> bool result" where
  "has_sdist_hash [] ours = Inr False"
| "has_sdist_hash (u # us) ours =
     bindE (is_archive u) (\<lambda>yes.
       if \<not> yes then has_sdist_hash us ours
       else bindE (py_get u ''digests'' (PDict [])) (\<lambda>digests.
            bindE (py_get digests ''sha256'' (PStr [])) (\<lambda>digest.
              case digest of
                PStr d \<Rightarrow> if d \<in> set ours then Inr True else has_sdist_hash us ours
              | PList _ \<Rightarrow> Inl (TypeError (S ''unhashable type''))
              | PDict _ \<Rightarrow> Inl (TypeError (S ''unhashable type''))
              | _ \<Rightarrow> has_sdist_hash us ours)))"

text \<open>\<open>^[^/]+/pyproject\.toml$\<close>.\<close>

definition project_member :: "pystr \<Rightarrow> bool" where
  "project_member name \<longleftrightarrow>
     (let (top, found, rest) = partition_at 47 name
      in top \<noteq> [] \<and> found \<and> rest \<in> {S ''pyproject.toml'', S ''pyproject.toml'' @ [10]})"

definition setuptools_only :: pyval where "setuptools_only = PList [PStr (S ''setuptools'')]"

definition build_requires :: "'n builder \<Rightarrow> int list \<Rightarrow> pyval result" where
  "build_requires b bs =
     bindE (utf8_decode bs) (\<lambda>t. bindE (parse_toml b t) (\<lambda>data.
     bindE (py_get (PDict data) ''build-system'' (PDict [])) (\<lambda>v. py_get v ''requires'' setuptools_only)))"

text \<open>The first regular member that is a project file.\<close>

definition tar_requires :: "'n builder \<Rightarrow> int list \<Rightarrow> pyval result" where
  "tar_requires b raw =
     bindE (tar_members b raw) (\<lambda>ms.
       case find (\<lambda>(name, content). project_member name \<and> content \<noteq> None) ms of
         Some (_, Some bs) \<Rightarrow> build_requires b bs | _ \<Rightarrow> Inr setuptools_only)"

definition zip_requires :: "'n builder \<Rightarrow> int list \<Rightarrow> pyval result" where
  "zip_requires b raw =
     bindE (zip_members b raw) (\<lambda>ms.
       case find (\<lambda>(name, _). project_member name) ms of
         Some (_, bs) \<Rightarrow> build_requires b bs | None \<Rightarrow> Inr setuptools_only)"

text \<open>The first archive that can be read; what fails on the way is a warning.\<close>

fun read_build_requires :: "'n builder \<Rightarrow> pyval list \<Rightarrow> 'n \<Rightarrow> 'n \<times> pyval result" where
  "read_build_requires b [] n = (n, Inr (PList []))"
| "read_build_requires b (u # us) n =
     (case bindE (item_of u ''filename'') (\<lambda>f. bindE (item_of u ''url'') (\<lambda>l.
             bindE (text_of l) (\<lambda>url. Inr (f, url)))) of
        Inl e \<Rightarrow> (n, Inl e)
      | Inr (f, url) \<Rightarrow>
          if \<not> starts_with url (S ''https://'') then read_build_requires b us n
          else
            (case download b url n of
               (n', Inl _) \<Rightarrow> read_build_requires b us n'
             | (n', Inr raw) \<Rightarrow>
                 (case bindE (text_of f) (\<lambda>fn.
                         if ends_with fn (S ''.tar.gz'') then map_sum id Some (tar_requires b raw)
                         else if ends_with fn (S ''.zip'') then map_sum id Some (zip_requires b raw)
                         else Inr None) of
                    Inr (Some v) \<Rightarrow> (n', Inr v)
                  | _ \<Rightarrow> read_build_requires b us n')))"

definition sdist_build_requires :: "'n builder \<Rightarrow> pystr \<Rightarrow> pystr \<Rightarrow> 'n \<Rightarrow> 'n \<times> pyval result" where
  "sdist_build_requires b name version n =
     (case pypi_urls b name version n of
        (n', Inl e) \<Rightarrow> (n', Inl e)
      | (n', Inr urls) \<Rightarrow>
          (case bindE (py_iter urls) archives of
             Inl e \<Rightarrow> (n', Inl e)
           | Inr [] \<Rightarrow> (n', Inr (PList []))
           | Inr us \<Rightarrow> read_build_requires b us n'))"

section \<open>Collecting and resolving\<close>

text \<open>What phase 1 gathers: requirements in order, and the exact versions asked for of each package.\<close>

record 'n gathering =
  ga_net :: 'n
  ga_specs :: "pystr list"
  ga_pins :: "pystr list dict"

definition add_exact :: "(codepoint \<Rightarrow> bool) \<Rightarrow> pystr \<Rightarrow> pystr list dict \<Rightarrow> pystr list dict" where
  "add_exact uni req pins =
     (case exact_pin uni req of
        None \<Rightarrow> pins
      | Some (name, version) \<Rightarrow>
          let old = (case dget pins name of None \<Rightarrow> [] | Some vs \<Rightarrow> vs)
          in dset pins name (if version \<in> set old then old else old @ [version]))"

definition gather_requires :: "'n builder \<Rightarrow> pyval \<Rightarrow> 'n gathering \<Rightarrow> 'n gathering result" where
  "gather_requires b reqs g =
     (if \<not> truthy reqs then Inr g
      else bindE (py_iter reqs) (\<lambda>vs. bindE (mapE text_of vs) (\<lambda>specs.
             Inr (g\<lparr>ga_specs := ga_specs g @ specs, ga_pins := fold (add_exact (unicode_word b)) specs (ga_pins g)\<rparr>))))"

fun gather_packages ::
    "'n builder \<Rightarrow> pystr list dict \<Rightarrow> (pystr \<times> pystr \<times> pystr) list \<Rightarrow> 'n gathering \<Rightarrow> 'n gathering result" where
  "gather_packages b hashes [] g = Inr g"
| "gather_packages b hashes ((norm, name, version) # rest) g =
     (let ours = (case dget hashes norm of None \<Rightarrow> [] | Some hs \<Rightarrow> hs)
      in if ours = [] then gather_packages b hashes rest g
         else
           (case pypi_urls b name version (ga_net g) of
              (n, Inl _) \<Rightarrow> gather_packages b hashes rest (g\<lparr>ga_net := n\<rparr>)
            | (n, Inr urls) \<Rightarrow>
                bindE (py_iter urls) (\<lambda>us.
                bindE (has_sdist_hash us ours) (\<lambda>prefetched.
                  if \<not> prefetched then gather_packages b hashes rest (g\<lparr>ga_net := n\<rparr>)
                  else bindE (archives us) (\<lambda>sdists.
                       let (n', reqs) = read_build_requires b sdists n
                       in bindE reqs (\<lambda>v. bindE (gather_requires b v (g\<lparr>ga_net := n'\<rparr>)) (gather_packages b hashes rest)))))))"

text \<open>The first requirement of each package; what names no package is left out.\<close>

fun first_specs :: "(codepoint \<Rightarrow> bool) \<Rightarrow> pystr list \<Rightarrow> pystr list \<Rightarrow> pystr list" where
  "first_specs uni seen [] = []"
| "first_specs uni seen (spec # specs) =
     (case spec_name uni spec of
        None \<Rightarrow> first_specs uni seen specs
      | Some name \<Rightarrow>
          if name \<in> set seen then first_specs uni seen specs
          else spec # first_specs uni (name # seen) specs)"

definition compile_specs :: "'n builder \<Rightarrow> pystr list \<Rightarrow> 'n \<Rightarrow> 'n \<times> compile_run" where
  "compile_specs b specs n = uv_compile b (concat (map (\<lambda>s. s @ [10]) (sort specs))) n"

definition note_compiled :: "(codepoint \<Rightarrow> bool) \<Rightarrow> pystr \<Rightarrow> pystr dict \<Rightarrow> pystr dict" where
  "note_compiled uni line pkgs =
     (case pinned uni {} (strip line) of None \<Rightarrow> pkgs | Some (name, version, _) \<Rightarrow> dset pkgs (normalize_name name) version)"

definition parse_compiled :: "(codepoint \<Rightarrow> bool) \<Rightarrow> pystr \<Rightarrow> pystr dict" where
  "parse_compiled uni compiled = fold (note_compiled uni) (split_lines [] compiled) []"

text \<open>
  A round looks at the resolved packages that no round has looked at: their net, what was looked at,
  the known names and the new requirements.
\<close>

record 'n round =
  ro_net :: 'n
  ro_checked :: "pystr list"
  ro_known :: "pystr list"
  ro_new :: "pystr list"

fun add_new_specs :: "(codepoint \<Rightarrow> bool) \<Rightarrow> pyval list \<Rightarrow> 'n round \<Rightarrow> 'n round result" where
  "add_new_specs uni [] r = Inr r"
| "add_new_specs uni (v # vs) r =
     bindE (case v of PStr s \<Rightarrow> Inr s | _ \<Rightarrow> Inl (TypeError (S ''expected string or bytes-like object''))) (\<lambda>req.
       case spec_name uni req of
         None \<Rightarrow> add_new_specs uni vs r
       | Some name \<Rightarrow>
           if name \<in> set (ro_known r) then add_new_specs uni vs r
           else add_new_specs uni vs (r\<lparr>ro_new := ro_new r @ [req], ro_known := name # ro_known r\<rparr>))"

fun inspect_resolved :: "'n builder \<Rightarrow> (pystr \<times> pystr) list \<Rightarrow> 'n round \<Rightarrow> 'n round result" where
  "inspect_resolved b [] r = Inr r"
| "inspect_resolved b ((name, version) # rest) r =
     (if name \<in> set (ro_checked r) then inspect_resolved b rest r
      else
        let (n, reqs) = sdist_build_requires b name version (ro_net r);
            r = r\<lparr>ro_net := n, ro_checked := name # ro_checked r\<rparr>
        in case reqs of
             Inl _ \<Rightarrow> inspect_resolved b rest r
           | Inr v \<Rightarrow> bindE (py_iter v) (\<lambda>vs. bindE (add_new_specs (unicode_word b) vs r) (inspect_resolved b rest)))"

text \<open>How the script can stop early: \<open>sys.exit\<close> or an exception.\<close>

datatype build_stop = BuildExit | BuildCrash exn

record 'n resolving =
  re_net :: 'n
  re_checked :: "pystr list"
  re_specs :: "pystr list"
  re_compiled :: pystr
  re_requests :: "pystr list list"

definition recompile :: "'n builder \<Rightarrow> pystr list \<Rightarrow> 'n resolving \<Rightarrow> build_stop + 'n resolving" where
  "recompile b specs s =
     (case compile_specs b specs (re_net s) of
        (n, Compiled t) \<Rightarrow> Inr (s\<lparr>re_net := n, re_specs := specs, re_compiled := t, re_requests := re_requests s @ [specs]\<rparr>)
      | (n, CompileRefused) \<Rightarrow> Inl BuildExit
      | (n, CompileRaised e) \<Rightarrow> Inl (BuildCrash e))"

fun resolve_rounds :: "'n builder \<Rightarrow> pystr list \<Rightarrow> nat \<Rightarrow> 'n resolving \<Rightarrow> build_stop + 'n resolving" where
  "resolve_rounds b runtime 0 s = Inr s"
| "resolve_rounds b runtime (Suc k) s =
     (let resolved = parse_compiled (unicode_word b) (re_compiled s)
      in case inspect_resolved b (sort_key fst resolved)
                \<lparr>ro_net = re_net s, ro_checked = re_checked s, ro_known = runtime @ map fst resolved, ro_new = []\<rparr> of
           Inl e \<Rightarrow> Inl (BuildCrash e)
         | Inr r \<Rightarrow>
             let s = s\<lparr>re_net := ro_net r, re_checked := ro_checked r\<rparr>
             in if ro_new r = [] then Inr s
                else (case recompile b (re_specs s @ ro_new r) s of
                        Inl stop \<Rightarrow> Inl stop | Inr s' \<Rightarrow> resolve_rounds b runtime k s'))"

definition MAX_ROUNDS :: nat where "MAX_ROUNDS = 10"


section \<open>The file\<close>

fun build_replace_pins :: "pystr dict \<Rightarrow> (pystr \<times> pystr list) list \<Rightarrow> pystr dict \<Rightarrow> pystr dict result" where
  "build_replace_pins resolved [] pins = Inr pins"
| "build_replace_pins resolved ((name, versions) # rest) pins =
     (case filter (\<lambda>v. dget resolved name \<noteq> Some v) versions of
        [] \<Rightarrow> build_replace_pins resolved rest pins
      | [v] \<Rightarrow> build_replace_pins resolved rest (dset pins name v)
      | vs \<Rightarrow> Inl (Exn CRuntimeError (S ''conflicting exact build pins for '' @ name)))"

definition keeps_line :: "(codepoint \<Rightarrow> bool) \<Rightarrow> pystr dict \<Rightarrow> pystr \<Rightarrow> bool" where
  "keeps_line uni pins line \<longleftrightarrow>
     (case package_prefix uni line of
        None \<Rightarrow> True
      | Some (name, rest) \<Rightarrow> \<not> (starts_with rest (S ''=='') \<and> has_key pins (normalize_name name)))"

definition kept_text :: "pystr list \<Rightarrow> pystr" where
  "kept_text kept = (if join [10] kept \<noteq> [] then join [10] kept @ [10] else [])"

definition final_text :: "(codepoint \<Rightarrow> bool) \<Rightarrow> pystr dict \<Rightarrow> pystr \<Rightarrow> pystr" where
  "final_text uni pins compiled =
     (if pins = [] then compiled
      else kept_text (filter (keeps_line uni pins) (split_lines [] compiled)) @ pin_lines pins)"

definition HEADER :: pystr where
  "HEADER = S ''#'' @ [10] @ S ''# Build dependencies for hermetic builds (auto-generated).'' @ [10] @
     S ''# Needed when Cachi2 prefetches a source distribution instead of a wheel.'' @ [10] @
     S ''# Regenerate: make requirements'' @ [10] @ S ''#'' @ [10]"

definition initial_specs :: "'n builder \<Rightarrow> world \<Rightarrow> pystr list \<Rightarrow> 'n \<Rightarrow> ((pystr \<times> pystr) dict \<times> 'n gathering) result" where
  "initial_specs b w req_files n =
     bindE (parse_packages (unicode_word b) w req_files []) (\<lambda>runtime.
     bindE (parse_hashes (unicode_word b) w req_files ([], None)) (\<lambda>hashes.
     bindE (gather_packages b hashes (sort_key fst runtime) \<lparr>ga_net = n, ga_specs = [], ga_pins = []\<rparr>) (\<lambda>g.
       Inr (runtime, g))))"

text \<open>Phases 2 and 3: the compiled requirements, and the text with the exact pins in.\<close>

definition resolve_build :: "'n builder \<Rightarrow> pystr list \<Rightarrow> pystr list \<Rightarrow> 'n \<Rightarrow> build_stop + 'n resolving" where
  "resolve_build b runtime specs n =
     (case recompile b specs \<lparr>re_net = n, re_checked = [], re_specs = [], re_compiled = [], re_requests = []\<rparr> of
        Inl stop \<Rightarrow> Inl stop | Inr s \<Rightarrow> resolve_rounds b runtime MAX_ROUNDS s)"

definition build_output :: "'n builder \<Rightarrow> world \<Rightarrow> pystr list \<Rightarrow> 'n \<Rightarrow> build_stop + pystr" where
  "build_output b w req_files n =
     (case initial_specs b w req_files n of
        Inl e \<Rightarrow> Inl (BuildCrash e)
      | Inr (runtime, g) \<Rightarrow>
          let uni = unicode_word b; specs = first_specs uni [] (ga_specs g)
          in if specs = [] then Inr HEADER
             else
               (case resolve_build b (map fst runtime) specs (ga_net g) of
                  Inl stop \<Rightarrow> Inl stop
                | Inr s \<Rightarrow>
                    (case build_replace_pins (parse_compiled uni (re_compiled s)) (sort_key fst (ga_pins g)) [] of
                       Inl e \<Rightarrow> Inl (BuildCrash e)
                     | Inr pins \<Rightarrow> Inr (HEADER @ final_text uni pins (re_compiled s)))))"

definition build_deps_main :: "'n builder \<Rightarrow> pystr list \<Rightarrow> 'n \<Rightarrow> world \<Rightarrow> world \<times> (build_stop + unit)" where
  "build_deps_main b args n w =
     (case args of
        out # req_file # req_files \<Rightarrow>
          (case build_output b w (req_file # req_files) n of
             Inl stop \<Rightarrow> (w, Inl stop)
           | Inr contents \<Rightarrow> (case write_text (builder_disk b) out contents w of (w', r) \<Rightarrow> (w', map_sum BuildCrash id r)))
      | _ \<Rightarrow> (w, Inl BuildExit))"

section \<open>Lemmas: lines\<close>

lemma line_break_space: "line_break c \<Longrightarrow> is_space c"
  by (auto simp: line_break_def is_space_def)

definition one_line :: "pystr \<Rightarrow> bool" where
  "one_line s \<longleftrightarrow> (\<forall>c \<in> set s. \<not> line_break c)"

lemma split_lines_one: "one_line u \<Longrightarrow> split_lines acc (u @ 10 # s) = (acc @ u) # split_lines [] s"
proof (induction u arbitrary: acc)
  case Nil
  then show ?case by (simp add: line_break_def)
next
  case (Cons c u)
  then have "\<not> line_break c" "c \<noteq> 13" by (auto simp: one_line_def line_break_def)
  then show ?case using Cons by (simp add: one_line_def)
qed

lemma split_lines_lines:
  "\<forall>l \<in> set ls. one_line l \<Longrightarrow> split_lines [] (concat (map (\<lambda>l. l @ [10]) ls) @ s) = ls @ split_lines [] s"
  by (induction ls) (simp_all add: split_lines_one)

lemma split_lines_clean: "one_line acc \<Longrightarrow> l \<in> set (split_lines acc s) \<Longrightarrow> one_line l"
proof (induction acc s rule: split_lines.induct)
  case (2 acc c s)
  consider "c = 13 \<and> s \<noteq> [] \<and> hd s = 10" | "\<not> (c = 13 \<and> s \<noteq> [] \<and> hd s = 10)" "line_break c"
    | "\<not> (c = 13 \<and> s \<noteq> [] \<and> hd s = 10)" "\<not> line_break c" by blast
  then show ?case
  proof cases
    case 1
    then show ?thesis using 2 by auto
  next
    case 2
    then have "l = acc \<or> l \<in> set (split_lines [] s)" using "2.prems"(2) by (simp split: if_splits)
    then show ?thesis using "2.IH"(2) [OF 2] "2.prems"(1) by (auto simp: one_line_def)
  next
    case 3
    then have "l \<in> set (split_lines (acc @ [c]) s)" using "2.prems"(2) by (simp split: if_splits)
    then show ?thesis using "2.IH"(3) [OF 3] "2.prems"(1) 3(2) by (simp add: one_line_def)
  qed
qed (simp split: if_splits)

lemma join_breaks: "ls \<noteq> [] \<Longrightarrow> join [10] ls @ [10] = concat (map (\<lambda>l. l @ [10]) ls)"
  by (induction ls rule: induct_list012) simp_all

lemma join_empty: "join [10] ls = [] \<longleftrightarrow> ls = [] \<or> ls = [[]]"
  by (cases ls rule: list.exhaust; cases "tl ls") auto

text \<open>The kept lines, but for a single empty one.\<close>

lemma kept_lines:
  assumes "\<forall>l \<in> set kept. one_line l"
  shows "split_lines [] (kept_text kept @ s) = (if kept = [[]] then [] else kept) @ split_lines [] s"
proof (cases "kept = [] \<or> kept = [[]]")
  case True
  then show ?thesis by (auto simp: kept_text_def)
next
  case False
  then have "kept_text kept = concat (map (\<lambda>l. l @ [10]) kept)"
    using join_breaks [of kept] by (auto simp: kept_text_def join_empty)
  then show ?thesis using split_lines_lines [OF assms] False by simp
qed

section \<open>Lemmas: pins\<close>

text \<open>Blanks after a pin do not change what is read of it.\<close>

lemma strip_front:
  assumes "a \<noteq> []" "\<not> is_space (hd a)" "\<not> is_space (last a)"
  shows "strip (a @ s) = a @ rev (dropWhile is_space (rev s))"
proof -
  have front: "dropWhile is_space (a @ s) = a @ s" using assms(1,2) by (cases a) simp_all
  have "rev a \<noteq> []" "\<not> is_space (hd (rev a))" using assms(1,3) by (simp_all add: hd_rev)
  then have "dropWhile is_space (rev s @ rev a) = dropWhile is_space (rev s) @ rev a"
    by (cases "rev a"; cases "\<forall>c \<in> set (rev s). is_space c")
      (auto simp: dropWhile_append3 dropWhile_append1)
  then show ?thesis unfolding strip_def front by simp
qed

lemma package_char_alnum: "ascii_alnum c \<Longrightarrow> package_char uni c"
  by (simp add: package_char_def word_char_def)

lemma alnum_no_space: "ascii_alnum c \<Longrightarrow> \<not> is_space c"
  by (auto simp: ascii_alnum_def ascii_alpha_def is_space_def)

lemma no_package_char [simp]: "\<not> package_char uni 61"
  by (simp add: package_char_def word_char_def ascii_alnum_def ascii_alpha_def)

text \<open>A text that is a package name followed by an equals sign.\<close>

lemma package_prefix_eq:
  assumes "name \<noteq> []" "ascii_alnum (hd name)" "\<forall>c \<in> set name. package_char uni c"
  shows "package_prefix uni (name @ 61 # rest) = Some (name, 61 # rest)"
  using assms by (cases name) (auto simp: package_prefix_def takeWhile_append dropWhile_append)

lemma package_prefix_split:
  assumes "package_prefix uni s = Some (name, rest)"
  shows "s = name @ rest" "name \<noteq> []" "ascii_alnum (hd name)" "\<forall>c \<in> set name. package_char uni c"
proof -
  obtain c r where s: "s = c # r" "ascii_alnum c" using assms by (cases s) (auto simp: package_prefix_def split: if_splits)
  have n: "name = takeWhile (package_char uni) s" "rest = dropWhile (package_char uni) s"
    using assms s by (auto simp: package_prefix_def)
  show "s = name @ rest" using n by simp
  show "\<forall>c \<in> set name. package_char uni c" using n(1) by (blast dest: set_takeWhileD)
  have "package_char uni c" using package_char_alnum [OF s(2)] .
  then show "name \<noteq> []" "ascii_alnum (hd name)" using n s by simp_all
qed

lemma starts_eq: "starts_with rest (S ''=='') \<Longrightarrow> rest = 61 # 61 # drop 2 rest"
  by (cases rest; cases "tl rest") (auto simp: starts_with_def S_def)

lemma pinned_stripped:
  assumes "package_prefix uni line = Some (name, rest)" "starts_with rest (S ''=='')"
    "pinned uni {} (strip line) = Some (name', version, after)"
  shows "name' = name"
proof -
  note p = package_prefix_split [OF assms(1)]
  have line: "line = (name @ [61, 61]) @ drop 2 rest" using p(1) starts_eq [OF assms(2)] by simp
  have "\<not> is_space (hd (name @ [61, 61]))" "\<not> is_space (last (name @ [61, 61]))"
    using p(2,3) alnum_no_space by (simp_all add: is_space_def)
  then have "strip line = name @ 61 # 61 # rev (dropWhile is_space (rev (drop 2 rest)))"
    unfolding line using strip_front [of "name @ [61, 61]"] by simp
  then have "package_prefix uni (strip line) = Some (name, 61 # 61 # rev (dropWhile is_space (rev (drop 2 rest))))"
    using package_prefix_eq [OF p(2,3,4)] by simp
  then show ?thesis using assms(3) by (simp add: pinned_def Let_def split: if_splits)
qed

text \<open>The lines that are dropped pin only names that are pinned anew.\<close>

lemma note_dropped:
  assumes "\<not> keeps_line uni pins line" "\<not> has_key pins n"
  shows "dget (note_compiled uni line pkgs) n = dget pkgs n"
proof -
  obtain name rest where p: "package_prefix uni line = Some (name, rest)"
    using assms(1) by (cases "package_prefix uni line") (auto simp: keeps_line_def)
  then have l: "package_prefix uni line = Some (name, rest)" "starts_with rest (S ''=='')"
      "has_key pins (normalize_name name)"
    using assms(1) by (simp_all add: keeps_line_def)
  show ?thesis
  proof (cases "pinned uni {} (strip line)")
    case (Some t)
    obtain name' version after where t: "t = (name', version, after)" by (metis prod_cases3)
    have "normalize_name name' \<noteq> n" using pinned_stripped [OF l(1,2)] Some t l(3) assms(2) by auto
    then show ?thesis using Some t by (auto simp: note_compiled_def)
  qed (simp add: note_compiled_def)
qed

lemma note_compiled_agree:
  "dget pkgs n = dget pkgs' n \<Longrightarrow> dget (note_compiled uni line pkgs) n = dget (note_compiled uni line pkgs') n"
  by (auto simp: note_compiled_def split: option.splits prod.splits)

lemma kept_agree:
  assumes "\<not> has_key pins n" "dget pkgs n = dget pkgs' n"
  shows "dget (fold (note_compiled uni) (filter (keeps_line uni pins) ls) pkgs) n = dget (fold (note_compiled uni) ls pkgs') n"
  using assms(2)
proof (induction ls arbitrary: pkgs pkgs')
  case (Cons l ls)
  show ?case
  proof (cases "keeps_line uni pins l")
    case True
    then show ?thesis using Cons.IH [OF note_compiled_agree [OF Cons.prems]] by simp
  next
    case False
    then have "dget pkgs n = dget (note_compiled uni l pkgs') n"
      using note_dropped [OF False assms(1)] Cons.prems by simp
    then show ?thesis using Cons.IH False by simp
  qed
qed simp

lemma note_empty [simp]: "note_compiled uni [] pkgs = pkgs"
  by (simp add: note_compiled_def pinned_def package_prefix_def)

text \<open>A pin as the script writes it, and what is read of it.\<close>

definition good_pin :: "(codepoint \<Rightarrow> bool) \<Rightarrow> pystr \<Rightarrow> pystr \<Rightarrow> bool" where
  "good_pin uni name version \<longleftrightarrow>
     name \<noteq> [] \<and> ascii_alnum (hd name) \<and> (\<forall>c \<in> set name. package_char uni c \<and> \<not> is_space c) \<and>
     normalize_name name = name \<and> version \<noteq> [] \<and> (\<forall>c \<in> set version. \<not> is_space c)"

lemma note_pin:
  assumes "good_pin uni name version"
  shows "note_compiled uni (name @ S ''=='' @ version) pkgs = dset pkgs name version"
    "one_line (name @ S ''=='' @ version)"
    "map_option (\<lambda>(name, _). normalize_name name) (pinned uni {} (strip (name @ S ''=='' @ version))) = Some name"
proof -
  have eq: "S ''=='' = [61, 61]" by (simp add: S_def)
  have clean: "\<forall>c \<in> set (name @ S ''=='' @ version). \<not> is_space c"
    using assms by (auto simp: good_pin_def eq is_space_def)
  then show "one_line (name @ S ''=='' @ version)" using line_break_space by (auto simp: one_line_def)
  have prefix: "package_prefix uni (name @ S ''=='' @ version) = Some (name, 61 # 61 # version)"
    using assms package_prefix_eq [of name uni "61 # version"] by (simp add: good_pin_def eq)
  have tw: "takeWhile (\<lambda>c. \<not> is_space c) version = version" "dropWhile (\<lambda>c. \<not> is_space c) version = []"
    using assms by (simp_all add: good_pin_def)
  have "pinned uni {} (name @ S ''=='' @ version) = Some (name, version, [])"
    using assms by (simp add: pinned_def prefix [unfolded eq, simplified] Let_def good_pin_def eq starts_with_def tw)
  then show "note_compiled uni (name @ S ''=='' @ version) pkgs = dset pkgs name version"
      "map_option (\<lambda>(name, _). normalize_name name) (pinned uni {} (strip (name @ S ''=='' @ version))) = Some name"
    using assms unfolding note_compiled_def strip_id [OF clean] by (simp_all add: good_pin_def)
qed

lemma fold_pins:
  assumes "\<forall>(name, version) \<in> set pins. good_pin uni name version" "distinct (map fst pins)"
  shows "dget (fold (note_compiled uni) (map (\<lambda>(name, version). name @ S ''=='' @ version) pins) pkgs) n =
    (case dget pins n of Some v \<Rightarrow> Some v | None \<Rightarrow> dget pkgs n)"
  using assms
proof (induction pins arbitrary: pkgs)
  case (Cons pin pins)
  obtain name v where pin: "pin = (name, v)" by (cases pin)
  have "dget pins name = None" using Cons.prems(2) by (simp add: pin map_of_eq_None_iff)
  then show ?case using Cons by (simp add: pin note_pin(1) split: option.split)
qed simp

lemma fold_header:
  "\<forall>l \<in> set ls. note_compiled uni l = id \<Longrightarrow> fold (note_compiled uni) ls pkgs = pkgs"
  by (induction ls) simp_all

text \<open>The lines of the text with the pins in.\<close>

definition pin_line :: "pystr \<times> pystr \<Rightarrow> pystr" where
  "pin_line = (\<lambda>(name, version). name @ S ''=='' @ version)"

lemma final_lines:
  assumes "\<forall>(name, version) \<in> set pins. good_pin uni name version" "pins \<noteq> []"
  shows "split_lines [] (final_text uni pins compiled) =
    (let kept = filter (keeps_line uni pins) (split_lines [] compiled) in if kept = [[]] then [] else kept)
      @ map pin_line (sort_key fst pins)"
proof -
  let ?kept = "filter (keeps_line uni pins) (split_lines [] compiled)"
  let ?lines = "map pin_line (sort_key fst pins)"
  have "\<forall>l \<in> set ?kept. one_line l" using split_lines_clean [of "[]"] by (auto simp: one_line_def)
  moreover have "\<forall>l \<in> set ?lines. one_line l" using assms(1) note_pin(2) by (auto simp: pin_line_def simp del: append_assoc)
  moreover have "pin_lines pins = concat (map (\<lambda>l. l @ [10]) ?lines)"
    by (simp add: pin_lines_def pin_line_def comp_def case_prod_beta')
  ultimately show ?thesis
    using split_lines_lines [of ?lines "[]"] kept_lines [of ?kept "pin_lines pins"] assms(2) by (simp add: final_text_def Let_def)
qed

lemma final_pins:
  assumes "\<forall>(name, version) \<in> set pins. good_pin uni name version" "distinct (map fst pins)"
  shows "dget (parse_compiled uni (final_text uni pins compiled)) n =
    (case dget pins n of Some v \<Rightarrow> Some v | None \<Rightarrow> dget (parse_compiled uni compiled) n)"
proof (cases "pins = []")
  case False
  let ?pins = "sort_key fst pins"
  let ?kept = "filter (keeps_line uni pins) (split_lines [] compiled)"
  have good: "\<forall>(name, version) \<in> set ?pins. good_pin uni name version" "distinct (map fst ?pins)"
    using assms by (simp_all add: distinct_map)
  have same: "dget ?pins m = dget pins m" for m
    using map_of_inject_set [OF good(2) assms(2)] by simp
  have "parse_compiled uni (final_text uni pins compiled) =
      fold (note_compiled uni) (map pin_line ?pins) (fold (note_compiled uni) ?kept [])"
    by (simp add: parse_compiled_def final_lines [OF assms(1) False] Let_def)
  then have "dget (parse_compiled uni (final_text uni pins compiled)) n =
      (case dget pins n of Some v \<Rightarrow> Some v | None \<Rightarrow> dget (fold (note_compiled uni) ?kept []) n)"
    using fold_pins [OF good] same by (simp add: pin_line_def)
  then show ?thesis
    using kept_agree [of pins n "[]" "[]" uni "split_lines [] compiled"] by (auto simp: parse_compiled_def split: option.split)
qed (simp add: final_text_def)

text \<open>The names that a text pins, in order.\<close>

definition pinned_names :: "(codepoint \<Rightarrow> bool) \<Rightarrow> pystr \<Rightarrow> pystr list" where
  "pinned_names uni s =
     List.map_filter (\<lambda>line. map_option (\<lambda>(name, _). normalize_name name) (pinned uni {} (strip line))) (split_lines [] s)"

lemma map_filter_append: "List.map_filter f (xs @ ys) = List.map_filter f xs @ List.map_filter f ys"
  by (simp add: map_filter_def)

lemma map_filter_Some: "\<forall>x \<in> set xs. f (h x) = Some (g x) \<Longrightarrow> List.map_filter f (map h xs) = map g xs"
  by (induction xs) (simp_all add: List.map_filter_simps)

lemma map_filter_sub: "distinct (List.map_filter f ls) \<Longrightarrow> distinct (List.map_filter f (filter P ls))"
  by (induction ls) (auto simp: List.map_filter_simps set_map_filter split: option.splits)

lemma pinned_keeps:
  assumes "pinned uni {} line = Some (name, version, after)" "keeps_line uni pins line"
  shows "\<not> has_key pins (normalize_name name)"
  using assms by (auto simp: pinned_def keeps_line_def Let_def split: option.splits prod.splits if_splits)

lemma final_names:
  assumes "\<forall>(name, version) \<in> set pins. good_pin uni name version" "distinct (map fst pins)"
    "\<forall>line \<in> set (split_lines [] compiled). strip line = line" "distinct (pinned_names uni compiled)"
  shows "distinct (pinned_names uni (final_text uni pins compiled))"
proof (cases "pins = []")
  case False
  let ?name = "\<lambda>line. map_option (\<lambda>(name, _). normalize_name name) (pinned uni {} (strip line))"
  let ?kept = "filter (keeps_line uni pins) (split_lines [] compiled)"
  have "?name (pin_line p) = Some (fst p)" if "p \<in> set (sort_key fst pins)" for p
    using note_pin(3) assms(1) that by (force simp: pin_line_def)
  then have new: "List.map_filter ?name (map pin_line (sort_key fst pins)) = map fst (sort_key fst pins)"
    by (rule map_filter_Some [OF ballI])
  have "List.map_filter ?name (if ?kept = [[]] then [] else ?kept) = List.map_filter ?name ?kept"
    by (simp add: List.map_filter_simps pinned_def package_prefix_def)
  moreover have "distinct (List.map_filter ?name ?kept)"
    using assms(4) map_filter_sub unfolding pinned_names_def by blast
  moreover have "n \<notin> fst ` set pins" if n: "n \<in> set (List.map_filter ?name ?kept)" for n
  proof -
    obtain line where "line \<in> set (split_lines [] compiled)" "keeps_line uni pins line" "?name line = Some n"
      using n by (auto simp: set_map_filter)
    moreover from this have "strip line = line" using assms(3) by blast
    ultimately obtain name t where "pinned uni {} line = Some (name, t)" "n = normalize_name name" "keeps_line uni pins line"
      by auto
    then have "dget pins n = None" using pinned_keeps [of uni line name "fst t" "snd t" pins] by simp
    then show ?thesis by (simp add: map_of_eq_None_iff)
  qed
  moreover have "distinct (map fst (sort_key fst pins))" using assms(2) by (simp add: distinct_map)
  ultimately show ?thesis
    unfolding pinned_names_def final_lines [OF assms(1) False] Let_def map_filter_append by (auto simp: new)
qed (use assms(4) in \<open>simp add: final_text_def\<close>)

section \<open>Lemmas: what is gathered\<close>

lemma set_squeeze: "c \<in> set (squeeze s) \<Longrightarrow> c = 45 \<or> c \<in> set s"
  by (induction s rule: squeeze.induct) (auto split: if_splits dest: set_dropWhileD)

lemma alnum_no_sep: "ascii_alnum c \<Longrightarrow> \<not> name_sep c"
  by (auto simp: ascii_alnum_def ascii_alpha_def name_sep_def)

lemma lower_alnum: "ascii_alnum c \<Longrightarrow> \<exists>d. lower_cp c = [d] \<and> ascii_alnum d"
  by (auto simp: lower_cp_def ascii_alnum_def ascii_alpha_def)

lemma lower_package_char:
  "package_char uni c \<Longrightarrow> d \<in> set (lower_cp c) \<Longrightarrow> d < 128 \<Longrightarrow> package_char uni d \<and> \<not> is_space d"
  by (auto simp: lower_cp_def package_char_def word_char_def ascii_alnum_def ascii_alpha_def is_space_def split: if_splits)

text \<open>The normal form of a package name that is ASCII can be read back.\<close>

lemma normal_name:
  assumes "package_prefix uni s = Some (name, rest)" "\<forall>c \<in> set (normalize_name name). c < 128"
  shows "normalize_name name \<noteq> []" "ascii_alnum (hd (normalize_name name))"
    "\<forall>c \<in> set (normalize_name name). package_char uni c \<and> \<not> is_space c"
proof -
  note p = package_prefix_split [OF assms(1)]
  obtain c cs where name: "name = c # cs" "ascii_alnum c" using p(2,3) by (cases name) auto
  then have n: "normalize_name name = lower_cp c @ lower (squeeze cs)"
    using alnum_no_sep by (simp add: normalize_name_def lower_Cons)
  obtain d where "lower_cp c = [d]" "ascii_alnum d" using lower_alnum name(2) by blast
  then show "normalize_name name \<noteq> []" "ascii_alnum (hd (normalize_name name))" using n by simp_all
  show "\<forall>c \<in> set (normalize_name name). package_char uni c \<and> \<not> is_space c"
  proof
    fix d assume d: "d \<in> set (normalize_name name)"
    then obtain c where c: "c \<in> set (squeeze name)" "d \<in> set (lower_cp c)"
      by (auto simp: normalize_name_def lower_def)
    have "package_char uni c" using set_squeeze [OF c(1)] p(4) by (auto simp: package_char_def)
    then show "package_char uni d \<and> \<not> is_space d" using lower_package_char c(2) d assms(2) by blast
  qed
qed

definition asked_pins :: "(codepoint \<Rightarrow> bool) \<Rightarrow> pystr list dict \<Rightarrow> bool" where
  "asked_pins uni pins \<longleftrightarrow> keys_distinct pins \<and>
     (\<forall>(name, versions) \<in> set pins. versions \<noteq> [] \<and>
        ((\<forall>c \<in> set name. c < 128) \<longrightarrow> (\<forall>v \<in> set versions. good_pin uni name v)))"

lemma exact_pin_good:
  assumes "exact_pin uni req = Some (name, version)" "\<forall>c \<in> set name. c < 128"
  shows "good_pin uni name version"
proof -
  obtain raw where p: "pinned uni {44, 59} (strip req) = Some (raw, version, [])" "name = normalize_name raw"
    using assms(1) by (auto simp: exact_pin_def split: option.splits prod.splits list.splits)
  then obtain rest where r: "package_prefix uni (strip req) = Some (raw, rest)"
      "version = takeWhile (\<lambda>c. \<not> is_space c \<and> c \<notin> {44, 59}) (drop 2 rest)" "version \<noteq> []"
    by (auto simp: pinned_def Let_def split: option.splits prod.splits if_splits)
  have "\<forall>c \<in> set version. \<not> is_space c" using r(2) by (auto dest: set_takeWhileD)
  then show ?thesis using normal_name [OF r(1)] assms(2) p(2) r(3) by (simp add: good_pin_def)
qed

lemma snoc_new: "v \<in> set (if x \<in> set xs then xs else xs @ [x]) \<Longrightarrow> v = x \<or> v \<in> set xs"
  by (auto split: if_splits)

lemma asked_dset:
  assumes "asked_pins uni pins" "vs \<noteq> []" "\<forall>c \<in> set name. c < 128 \<Longrightarrow> \<forall>v \<in> set vs. good_pin uni name v"
  shows "asked_pins uni (dset pins name vs)"
proof -
  have "us \<noteq> [] \<and> ((\<forall>c \<in> set n. c < 128) \<longrightarrow> (\<forall>v \<in> set us. good_pin uni n v))" if "(n, us) \<in> set (dset pins name vs)" for n us
    using dset_in [OF that] assms unfolding asked_pins_def by auto
  moreover have "keys_distinct (dset pins name vs)" using assms(1) by (simp add: asked_pins_def dict.inv_put)
  ultimately show ?thesis unfolding asked_pins_def by blast
qed

lemma add_exact_asked: "asked_pins uni pins \<Longrightarrow> asked_pins uni (add_exact uni req pins)"
proof (cases "exact_pin uni req")
  case (Some p)
  assume a: "asked_pins uni pins"
  obtain name version where p: "p = (name, version)" by (cases p)
  let ?old = "case dget pins name of None \<Rightarrow> [] | Some vs \<Rightarrow> vs"
  have old: "(\<forall>c \<in> set name. c < 128) \<Longrightarrow> v \<in> set ?old \<Longrightarrow> good_pin uni name v" for v
  proof (cases "dget pins name")
    case (Some vs)
    then show "(\<forall>c \<in> set name. c < 128) \<Longrightarrow> v \<in> set ?old \<Longrightarrow> good_pin uni name v"
      using a map_of_SomeD [OF Some] unfolding asked_pins_def by fastforce
  qed simp
  let ?new = "if version \<in> set ?old then ?old else ?old @ [version]"
  have pins: "add_exact uni req pins = dset pins name ?new" unfolding add_exact_def Some p Let_def by simp
  have new: "?new \<noteq> []" by (cases "?old = []") simp_all
  have good: "good_pin uni name v" if "\<forall>c \<in> set name. c < 128" "v \<in> set ?new" for v
  proof (cases "v = version")
    case True
    then show ?thesis using exact_pin_good [of uni req name version] Some p that(1) by simp
  next
    case False
    then have "v \<in> set ?old" using snoc_new [OF that(2)] by simp
    then show ?thesis by (rule old [OF that(1)])
  qed
  show ?thesis unfolding pins by (rule asked_dset [OF a new]) (use good in blast)
qed (simp add: add_exact_def)

lemma fold_exact_asked: "asked_pins uni pins \<Longrightarrow> asked_pins uni (fold (add_exact uni) reqs pins)"
  by (induction reqs arbitrary: pins) (simp_all add: add_exact_asked)

lemma gather_requires_asked:
  "gather_requires b v g = Inr g' \<Longrightarrow> asked_pins (unicode_word b) (ga_pins g) \<Longrightarrow> asked_pins (unicode_word b) (ga_pins g')"
  by (auto simp: gather_requires_def bindE_eq_Inr fold_exact_asked split: if_splits)

lemma gather_packages_asked:
  "gather_packages b hashes ps g = Inr g' \<Longrightarrow> asked_pins (unicode_word b) (ga_pins g) \<Longrightarrow>
   asked_pins (unicode_word b) (ga_pins g')"
proof (induction ps arbitrary: g)
  case (Cons p ps)
  obtain norm name version where p: "p = (norm, name, version)" by (metis prod_cases3)
  let ?ours = "case dget hashes norm of None \<Rightarrow> [] | Some hs \<Rightarrow> hs"
  obtain n urls where u: "pypi_urls b name version (ga_net g) = (n, urls)" by fastforce
  note run = Cons.prems(1) [unfolded p gather_packages.simps Let_def u prod.case]
  show ?case
  proof (cases "?ours = [] \<or> (\<exists>e. urls = Inl e)")
    case True
    then show ?thesis using run Cons.IH [of g] Cons.IH [of "g\<lparr>ga_net := n\<rparr>"] Cons.prems(2) by (auto split: if_splits)
  next
    case False
    then obtain v where v: "urls = Inr v" by (cases urls) auto
    obtain us prefetched where us: "py_iter v = Inr us" "has_sdist_hash us ?ours = Inr prefetched"
      using run v False by (auto simp: bindE_eq_Inr)
    show ?thesis
    proof (cases prefetched)
      case True
      then obtain sdists where s: "archives us = Inr sdists" using run v False us by (auto simp: bindE_eq_Inr)
      obtain n' reqs where r: "read_build_requires b sdists n = (n', reqs)" by fastforce
      obtain x g2 where "gather_requires b x (g\<lparr>ga_net := n'\<rparr>) = Inr g2" "gather_packages b hashes ps g2 = Inr g'"
        using run v False us True s r by (auto simp: bindE_eq_Inr)
      then show ?thesis using Cons.IH gather_requires_asked Cons.prems(2) by fastforce
    next
      case False
      then show ?thesis using run v \<open>\<not> (?ours = [] \<or> (\<exists>e. urls = Inl e))\<close> us Cons.IH [of "g\<lparr>ga_net := n\<rparr>"] Cons.prems(2) by simp
    qed
  qed
qed simp

text \<open>The pins that are put in: of the versions asked for, the one that was not resolved.\<close>

lemma replace_pins_other:
  "build_replace_pins resolved asked pins = Inr pins' \<Longrightarrow> n \<notin> fst ` set asked \<Longrightarrow> dget pins' n = dget pins n"
  by (induction resolved asked pins rule: build_replace_pins.induct) (auto split: list.splits)

lemma replace_pins_distinct:
  "build_replace_pins resolved asked pins = Inr pins' \<Longrightarrow> keys_distinct pins \<Longrightarrow> keys_distinct pins'"
  by (induction resolved asked pins rule: build_replace_pins.induct) (auto split: list.splits intro: dict.inv_put)

lemma replace_pins_asked:
  assumes "build_replace_pins resolved asked pins = Inr pins'" "(n, versions) \<in> set asked" "distinct (map fst asked)"
    "dget pins n = None"
  shows "case filter (\<lambda>v. dget resolved n \<noteq> Some v) versions of
           [] \<Rightarrow> dget pins' n = None | v # vs \<Rightarrow> vs = [] \<and> dget pins' n = Some v"
  using assms
proof (induction resolved asked pins rule: build_replace_pins.induct)
  case (2 resolved name vs rest pins)
  show ?case
  proof (cases "n = name")
    case True
    then have "versions = vs" "n \<notin> fst ` set rest" using "2.prems"(2,3) by (auto simp: image_iff)
    then show ?thesis
      using "2.prems"(1,4) True replace_pins_other [of resolved rest _ pins' n] by (auto split: list.splits)
  next
    case False
    then have "(n, versions) \<in> set rest" "distinct (map fst rest)" using "2.prems"(2,3) by auto
    then show ?thesis using "2.IH" "2.prems"(1,4) False by (simp split: list.splits)
  qed
qed simp

text \<open>More than one version that was not resolved is an error.\<close>

lemma conflicting_pins:
  assumes "(n, versions) \<in> set asked" "distinct (map fst asked)" "u \<in> set versions" "v \<in> set versions" "u \<noteq> v"
    "dget resolved n \<noteq> Some u" "dget resolved n \<noteq> Some v"
  shows "\<exists>e. build_replace_pins resolved asked [] = Inl e"
proof (cases "build_replace_pins resolved asked []")
  case (Inr pins)
  have uv: "u \<in> set (filter (\<lambda>v. dget resolved n \<noteq> Some v) versions)" "v \<in> set (filter (\<lambda>v. dget resolved n \<noteq> Some v) versions)"
    using assms by simp_all
  then show ?thesis
    using replace_pins_asked [OF Inr assms(1,2)] assms(5)
    by (cases "filter (\<lambda>v. dget resolved n \<noteq> Some v) versions") auto
qed simp

text \<open>Every compilation asks for all earlier requirements, and there are at most eleven.\<close>

definition growing :: "pystr list list \<Rightarrow> bool" where
  "growing rs = sorted_wrt (\<lambda>r r'. set r \<subseteq> set r') rs"

lemma rounds_grow:
  "resolve_rounds b runtime k s = Inr s' \<Longrightarrow> growing (re_requests s) \<Longrightarrow> (\<forall>r \<in> set (re_requests s). set r \<subseteq> set (re_specs s)) \<Longrightarrow>
   growing (re_requests s') \<and> length (re_requests s') \<le> length (re_requests s) + k"
proof (induction b runtime k s rule: resolve_rounds.induct)
  case (2 b runtime k s)
  let ?ins = "inspect_resolved b (sort_key fst (parse_compiled (unicode_word b) (re_compiled s)))
     \<lparr>ro_net = re_net s, ro_checked = re_checked s,
      ro_known = runtime @ map fst (parse_compiled (unicode_word b) (re_compiled s)), ro_new = []\<rparr>"
  obtain r where r: "?ins = Inr r" using "2.prems"(1) by (cases ?ins) (auto simp: Let_def)
  let ?s = "s\<lparr>re_net := ro_net r, re_checked := ro_checked r\<rparr>"
  show ?case
  proof (cases "ro_new r = []")
    case True
    then have "s' = ?s" using "2.prems"(1) r by (simp add: Let_def)
    then show ?thesis using "2.prems"(2) by simp
  next
    case False
    then obtain t where t: "recompile b (re_specs s @ ro_new r) ?s = Inr t" "resolve_rounds b runtime k t = Inr s'"
      using "2.prems"(1) r by (auto simp: Let_def split: sum.splits)
    then have eq: "re_requests t = re_requests s @ [re_specs s @ ro_new r]" "re_specs t = re_specs s @ ro_new r"
      by (auto simp: recompile_def split: prod.splits compile_run.splits)
    have "growing (re_requests t)" "\<forall>x \<in> set (re_requests t). set x \<subseteq> set (re_specs t)"
      using "2.prems"(2,3) by (auto simp: growing_def sorted_wrt_append eq)
    then show ?thesis using "2.IH" [OF refl r refl False _ t(2)] t(1) by (simp add: eq)
  qed
qed simp

lemma few_compilations:
  assumes "resolve_build b runtime specs n = Inr s"
  shows "growing (re_requests s)" "length (re_requests s) \<le> 11"
proof -
  let ?s = "\<lparr>re_net = n, re_checked = [], re_specs = [], re_compiled = [], re_requests = []\<rparr>"
  obtain t where t: "recompile b specs ?s = Inr t" "resolve_rounds b runtime MAX_ROUNDS t = Inr s"
    using assms by (auto simp: resolve_build_def split: sum.splits)
  then have "re_requests t = [specs]" "re_specs t = specs" by (auto simp: recompile_def split: prod.splits compile_run.splits)
  then show "growing (re_requests s)" "length (re_requests s) \<le> 11"
    using rounds_grow [OF t(2)] by (simp_all add: growing_def MAX_ROUNDS_def)
qed


section \<open>The written file\<close>

lemma header_lines:
  "parse_compiled uni (HEADER @ s) = parse_compiled uni s" "pinned_names uni (HEADER @ s) = pinned_names uni s"
proof -
  let ?ls = "[S ''#'', S ''# Build dependencies for hermetic builds (auto-generated).'',
    S ''# Needed when Cachi2 prefetches a source distribution instead of a wheel.'',
    S ''# Regenerate: make requirements'', S ''#'']"
  have h: "HEADER = concat (map (\<lambda>l. l @ [10]) ?ls)" by code_simp
  have "list_all one_line ?ls" unfolding one_line_def by code_simp
  then have lines: "split_lines [] (HEADER @ s) = ?ls @ split_lines [] s"
    unfolding h by (rule split_lines_lines [unfolded Ball_set, rule_format])
  have hash: "pinned uni {} (strip (35 # l)) = None" for l
  proof -
    have "strip (35 # l) = [35] @ rev (dropWhile is_space (rev l))"
      using strip_front [of "[35]" l] by (simp add: is_space_def)
    then show ?thesis by (simp add: pinned_def package_prefix_def ascii_alnum_def ascii_alpha_def)
  qed
  have "list_all (\<lambda>l. l \<noteq> [] \<and> hd l = 35) ?ls" by code_simp
  then have none: "\<forall>l \<in> set ?ls. pinned uni {} (strip l) = None" using hash by (auto simp: list_all_iff neq_Nil_conv)
  then have "\<forall>l \<in> set ?ls. note_compiled uni l = id" by (simp add: note_compiled_def fun_eq_iff)
  then show "parse_compiled uni (HEADER @ s) = parse_compiled uni s"
    by (simp only: parse_compiled_def lines fold_append o_apply fold_header)
  have "List.map_filter (\<lambda>line. map_option (\<lambda>(name, _). normalize_name name) (pinned uni {} (strip line))) ?ls = []"
    using none unfolding map_filter_def by (simp only: filter_empty_conv map_is_Nil_conv) simp
  then show "pinned_names uni (HEADER @ s) = pinned_names uni s"
    unfolding pinned_names_def lines by (simp only: map_filter_append append_Nil)
qed

text \<open>What the text with the pins in says of a package.\<close>

lemma replaced_pins:
  assumes "build_replace_pins resolved (sort_key fst asked) [] = Inr pins" "distinct (map fst asked)"
  shows "case dget asked name of None \<Rightarrow> dget pins name = None
      | Some versions \<Rightarrow> (case filter (\<lambda>v. dget resolved name \<noteq> Some v) versions of
           [] \<Rightarrow> dget pins name = None | v # vs \<Rightarrow> vs = [] \<and> dget pins name = Some v)"
proof (cases "dget asked name")
  case None
  then have "name \<notin> fst ` set (sort_key fst asked)" by (simp add: map_of_eq_None_iff)
  then show ?thesis using replace_pins_other [OF assms(1)] None by simp
next
  case (Some versions)
  have "distinct (map fst (sort_key fst asked))" using assms(2) by (simp add: distinct_map)
  then show ?thesis using replace_pins_asked [OF assms(1)] map_of_SomeD [OF Some] Some by simp
qed

lemma chosen_pin:
  assumes "build_replace_pins resolved (sort_key fst asked) [] = Inr pins" "distinct (map fst asked)"
    "dget asked name = Some versions" "versions \<noteq> []"
  shows "\<exists>v \<in> set versions. (case dget pins name of Some v \<Rightarrow> Some v | None \<Rightarrow> dget resolved name) = Some v \<and>
      (\<forall>u \<in> set versions. u = v \<or> dget resolved name = Some u)"
proof (cases "filter (\<lambda>v. dget resolved name \<noteq> Some v) versions")
  case Nil
  obtain v where "v \<in> set versions" using assms(4) by (cases versions) auto
  then show ?thesis using replaced_pins [OF assms(1,2), of name] assms(3) Nil by (auto simp: filter_empty_conv)
next
  case (Cons v vs)
  then have "vs = []" "dget pins name = Some v" using replaced_pins [OF assms(1,2), of name] assms(3) by auto
  moreover have "u \<in> set versions \<Longrightarrow> dget resolved name \<noteq> Some u \<Longrightarrow> u \<in> set (v # vs)" for u
    unfolding Cons [symmetric] by simp
  moreover have "v \<in> set versions" using Cons by (metis filter_is_subset list.set_intros(1) subset_iff)
  ultimately show ?thesis by auto
qed

lemma asked_good:
  assumes "build_replace_pins resolved (sort_key fst asked) [] = Inr pins"
    "asked_pins uni asked" "\<forall>name \<in> fst ` set asked. \<forall>c \<in> set name. c < 128"
  shows "\<forall>(name, version) \<in> set pins. good_pin uni name version" "distinct (map fst pins)"
    "distinct (map fst asked)" "dget asked n = Some versions \<Longrightarrow> versions \<noteq> []"
proof -
  have asked: "distinct (map fst asked)"
      "dget asked n = Some versions \<Longrightarrow> versions \<noteq> [] \<and> (\<forall>v \<in> set versions. good_pin uni n v)" for n versions
    using assms(2,3) by (fastforce simp: asked_pins_def keys_distinct_def dest: map_of_SomeD)+
  then show "distinct (map fst asked)" "dget asked n = Some versions \<Longrightarrow> versions \<noteq> []" by blast+
  show dist: "distinct (map fst pins)" using replace_pins_distinct [OF assms(1)] by (simp add: keys_distinct_def)
  have "good_pin uni n v" if "(n, v) \<in> set pins" for n v
  proof -
    have v: "dget pins n = Some v" using that dist by simp
    then obtain versions where vs: "dget asked n = Some versions"
      using replaced_pins [OF assms(1) asked(1), of n] by (cases "dget asked n") auto
    then show ?thesis using chosen_pin [OF assms(1) asked(1) vs] asked(2) [OF vs] v by auto
  qed
  then show "\<forall>(name, version) \<in> set pins. good_pin uni name version" by blast
qed

lemma asked_final:
  assumes "build_replace_pins (parse_compiled uni compiled) (sort_key fst asked) [] = Inr pins"
    "asked_pins uni asked" "\<forall>name \<in> fst ` set asked. \<forall>c \<in> set name. c < 128"
  shows "case dget asked name of
      None \<Rightarrow> dget (parse_compiled uni (final_text uni pins compiled)) name = dget (parse_compiled uni compiled) name
    | Some versions \<Rightarrow> \<exists>v \<in> set versions. dget (parse_compiled uni (final_text uni pins compiled)) name = Some v \<and>
        (\<forall>u \<in> set versions. u = v \<or> dget (parse_compiled uni compiled) name = Some u)"
proof -
  note good = asked_good [OF assms]
  show ?thesis
    using replaced_pins [OF assms(1) good(3), of name] chosen_pin [OF assms(1) good(3), of name] good(4) [of name]
    unfolding final_pins [OF good(1,2)] by (cases "dget asked name") auto
qed


text \<open>One package whose source build pins \<open>hatchling\<close>, which \<open>uv\<close> resolves to another version.\<close>

definition sample_release :: pystr where
  \<open>sample_release = S ''{"urls":[{"filename":"a.zip","url":"https://x","digests":{"sha256":"ab"}}]}''\<close>

definition sample_builder :: "unit builder" where
  "sample_builder = \<lparr>unicode_word = (\<lambda>_. False),
     index_json = (\<lambda>url n. (n, Inr (if url = S ''https://pypi.org/pypi/Foo/1/json'' then sample_release else S ''{}''))),
     download = (\<lambda>_ n. (n, Inr [])),
     tar_members = (\<lambda>_. Inr []), zip_members = (\<lambda>_. Inr [(S ''foo/pyproject.toml'', [])]),
     parse_toml = (\<lambda>_. Inr [(S ''build-system'', PDict [(S ''requires'', PList [PStr (S ''Hatchling==1'')])])]),
     uv_compile = (\<lambda>_ n. (n, Compiled (S ''hatchling==2'' @ [10] @ S ''packaging==3'' @ [10]))),
     builder_disk = sample_disk\<rparr>"

definition sample_requirements :: world where
  "sample_requirements = empty_world\<lparr>files := [S ''r'' \<mapsto>
     RegularFile (S ''Foo==1 --hash=sha256:ab'')]\<rparr>"


end
