(* ===== verification/Spec2Isabelle.thy ===== *)
theory Spec2Isabelle
  imports Query Locking Models Summary BuildDeps
begin

text \<open>
  The tool-running agent sandbox of OpenShift Lightspeed: the package \<open>src/lightspeed_agentic\<close> and the
  scripts \<open>scripts/konflux_resolve.py\<close> and \<open>scripts/gen-build-deps.py\<close> that lock its dependencies and those
  of their builds.

  \<^bold>\<open>The program.\<close> One process runs one agent. \<open>batch.py\<close> reads its inputs and settings, sets up TLS
  (\<open>tls.py\<close>), tracing (\<open>tracing.py\<close>) and the model route (\<open>config.py\<close>, \<open>providers/model_router.py\<close>), checks
  readiness (\<open>readiness.py\<close>), runs the agent (\<open>run_agent.py\<close>) and publishes a status to the cluster
  (\<open>publish_results\<close>); its exit status is the result of the job. The agent is the DeepAgents provider
  (\<open>providers/deepagents.py\<close>): a graph of model calls and MCP tools (\<open>mcp.py\<close>) whose messages it turns into
  events. Results of tools are untrusted: \<open>inspection\<close> cuts them into chunks, has a classifier judge each,
  and a gate around the model calls lets only judged results through; the stream of events waits for the
  acknowledgements of that gate. \<open>audit.py\<close> and \<open>logging.py\<close> consume the events.

  \<^bold>\<open>What models what.\<close>
  \<^item> \<open>Prelude\<close>, \<open>PyValue\<close>, \<open>PyJson\<close>, \<open>PyWorld\<close>, \<open>Utf8\<close>, \<open>Url\<close>: the part of Python the program uses.
    Results with exceptions (\<open>Inl\<close> of class and message), text as code points, dictionaries as association
    lists in insertion order, JSON parsing and printing, UTF-8 both ways, files and environment variables.
  \<^item> \<open>Chunking\<close>, \<open>Classifier\<close>, \<open>Inspector\<close>, \<open>Middleware\<close>: \<open>inspection\<close>. The gate is a step relation over the
    model calls that run at the same time, with the set of accepted signatures as its shared state. \<open>Summary\<close>: the
    text that older messages are summarised from.
  \<^item> \<open>Types\<close>, \<open>AgentStream\<close>, \<open>Generation\<close>, \<open>OutputSchema\<close>, \<open>StrictSchema\<close>, \<open>Query\<close>: \<open>types.py\<close> and the provider
    with its schema translation (\<open>providers/models\<close>) and skills (\<open>skills.py\<close>).
  \<^item> \<open>Models\<close>: the constructors of \<open>providers/models\<close> and \<open>providers/cloud_credentials.py\<close>. A constructed model is
    the SDK class and the arguments it is given.
  \<^item> \<open>Config\<close>, \<open>Router\<close>, \<open>Mcp\<close>, \<open>Tls\<close>, \<open>Tracing\<close>: settings, the model route and readiness, MCP servers and the
    admission of their tools, certificates, the tracing set-up.
  \<^item> \<open>SpanLedger\<close>, \<open>AuditLog\<close>, \<open>EventLog\<close>, \<open>RunAgent\<close>, \<open>Batch\<close>: spans and logs, one run, the process.
  \<^item> \<open>Status\<close>, \<open>Publish\<close>: the status of a run and its publication.
  \<^item> \<open>Packages\<close>, \<open>Resolver\<close>, \<open>Lockfiles\<close>, \<open>Locking\<close>: the script. Package names, versions, wheels and the two
    indexes; the walk over transitive dependencies; the lockfiles; the update with its search.
  \<^item> \<open>BuildDeps\<close>: the script for build dependencies, from the requirements files to the file it writes.

  Definitions keep the names of the functions they translate; a step that the code has inline has a name of
  its own. State is passed explicitly: a record per object (the gate, the callback, the audit, the index,
  the update), the world for files and variables, and a type variable for the state of what is outside
  (clock, network, cluster, classifier), which the parameters read and change. Every raise is a branch.

  \<^bold>\<open>What is proved.\<close> The lemmas of each theory show its invariants and the result of its operations; the
  properties follow from them.
  \<^item> Tool results: a chunk fits its budget and the chunks cover the text; a result passes only when each
    chunk was judged benign, in time; every message a model call sees was judged; a result leaves the
    stream only after the gate acknowledged it, and once. Here these compose to C1.
  \<^item> Runs: the exit status of the process, no run before readiness, an unsafe result stops the batch, all
    spans are ended and all models closed however a run ends.
  \<^item> Telemetry: what reaches stdout and the collector, and that content stays inside when it must.
  \<^item> Statuses: limits of every field, no empty field, a reason exactly for failures, the request protocol,
    and convergence of publishing again.
  \<^item> Settings: every resolved family is complete, TLS is configured whole or not at all, secrets come only
    from their directory, unsafe or filtered tools are not admitted.
  \<^item> Models: a resolved route's parameters have the classes its constructor casts them to, every client uses
    the shared TLS context, and only static AWS keys reach the environment.
  \<^item> Locking: the walk terminates and is complete; the indexes contact trusted hosts only; lockfiles
    partition the environment; a failed update changes nothing; what is published was checked; build
    dependencies have the exact versions that source builds ask for.

  The locales state the contracts between parts, each interpreted on the model: spans of a ledger, the
  gate's inspector, loops that keep an invariant, normalising functions.

  \<^bold>\<open>Bounds.\<close> The JSON reader apart, loops have no fuel: the
  chunk loop ends because each round consumes bytes, the walk over build requirements because a seen name
  is not visited again. The JSON reader runs with the length of the text plus one as its fuel, and each
  step consumes a character. Retries are the code's own: three attempts of a classifier call and of a fetch, 64
  alternatives of the search and 12 rounds of a candidate. The resolver's walk is a \<open>while_option\<close>, whose end
  is a theorem: constraints only grow, and versions and names come from finitely many pages. Build
  dependencies are resolved in the code's ten rounds.

  \<^bold>\<open>Parameters.\<close> The language model and its SDK, LangGraph, the MCP client, the Kubernetes client, OpenSSL,
  OpenTelemetry's SDK, the \<open>packaging\<close>, \<open>tomlkit\<close>, \<open>tomllib\<close> and \<open>pybuild_deps\<close> libraries, the container that
  compiles requirements, \<open>uv\<close>, archive readers, google-auth, botocore and azure-identity, LangChain's message
  renderer, UUIDs, SHA-256, clock and network are arguments of the definitions that use them.

  \<^bold>\<open>Not modelled.\<close> Metrics (declarations of histograms and the measurements), the parts of the
  summarisation middleware that are the SDK's, the closing of the provider after a run (an inherited
  method that does nothing), the shell scripts and log lines that nothing reads. Sets whose order the
  program does not use are lists; order in time is that of the code, with \<open>asyncio\<close> tasks interleaved at
  their awaits.
\<close>

section \<open>From the classifier to the events of a query\<close>

text \<open>An acknowledgement of the gate: that of a model call that went through.\<close>

definition acknowledged_by :: "(int list \<Rightarrow> pystr) \<Rightarrow> gate \<Rightarrow> signature list \<Rightarrow> bool" where
  "acknowledged_by sha256 g ack \<longleftrightarrow>
     (\<exists>ms. (ms, Passed) \<in> set (gate_tasks g) \<and>
        notify_accepted_results sha256 (List.map_filter tool_message_of ms) = Inr ack)"

lemma acknowledged_message:
  assumes "acknowledged_by sha256 g ack" "sig \<in> set ack"
  obtains ms m where "(ms, Passed) \<in> set (gate_tasks g)" "ToolMessage m \<in> set ms"
    "message_signature sha256 m = Inr sig"
proof -
  obtain ms where ms: "(ms, Passed) \<in> set (gate_tasks g)"
      "mapE (message_signature sha256) (List.map_filter tool_message_of ms) = Inr ack"
    using assms(1) by (auto simp: acknowledged_by_def notify_accepted_results_def)
  obtain i where i: "i < length ack" "ack ! i = sig" using assms(2) by (auto simp: in_set_conv_nth)
  have "list_all2 (\<lambda>m s. message_signature sha256 m = Inr s) (List.map_filter tool_message_of ms) ack"
    using ms(2) by (simp add: mapE_ok_all2)
  then have "message_signature sha256 (List.map_filter tool_message_of ms ! i) = Inr sig"
    "List.map_filter tool_message_of ms ! i \<in> set (List.map_filter tool_message_of ms)"
    using i by (auto simp: list_all2_conv_all_nth)
  moreover have "tool_message_of x = Some m \<Longrightarrow> x = ToolMessage m" for x m by (cases x) auto
  ultimately show ?thesis using that ms(1) unfolding set_map_filter by blast
qed

text \<open>Equal signatures are signatures of equal texts, for a digest without collisions.\<close>

lemma equal_signatures:
  assumes "inj sha256" "message_signature sha256 m = Inr sig" "message_signature sha256 m' = Inr sig"
  obtains t where "serialize_tool_result (msg_content m) = Inr t" "serialize_tool_result (msg_content m') = Inr t"
    "name_of m = name_of m'" "result_type_of m = result_type_of m'"
  using assms utf8_encode_inj by (auto simp: message_signature_Inr dest!: injD)

text \<open>
  C1. What a query shows of a tool was judged. The stream, the gate and the classifier together: with
  inspection on, when a query yields a tool result, however the query ends, an agent that is gated (it
  and its subagents have the inspecting middleware) had streamed the tool's message, and of its text every stretch of at most 256 UTF-8 bytes was part of a request
  for that tool that the classifier answered with a benign decision; the only other results it
  yields are those that equal, in name, type, call and text, a message that a model call trusted.
\<close>

theorem emitted_results_were_judged:
  assumes "gate_reachable (sha256_of (qe_stream env)) (inspection_callback ienv provider model window deadline) g"
    and "inj (sha256_of (qe_stream env))" "po_inspection opts"
    and "\<forall>agent turns ack. gated agent \<and> CustomItem (Some ack) \<in> set (gr_items (qe_graph env agent turns prompt))
      \<longrightarrow> acknowledged_by (sha256_of (qe_stream env)) g ack"
    and "ToolResultEvent ev \<in> set (qo_events (query env opts prompt))"
  shows "\<exists>agent turns m t. gated agent \<and>
    ToolItem m \<in> set (gr_items (qe_graph env agent turns prompt)) \<and> tool_event m = Inr ev \<and>
    serialize_tool_result (msg_content m) = Inr t \<and>
    ((\<forall>u v. t \<noteq> [] \<and> u \<le> v \<and> v \<le> length t \<and> length (utf8_bytes (drop u (take v t))) \<le> 256 \<longrightarrow>
        (\<exists>request. judged_benign ienv request \<and> cr_tool_name request = name_of m \<and>
           sublist (drop u (take v t)) (cr_content request))) \<or>
     (\<exists>ms m'. (ms, Passed) \<in> set (gate_tasks g) \<and> ToolMessage m' \<in> set ms \<and>
        m' \<notin> set (filter_untrusted_tool_results ms) \<and>
        message_signature (sha256_of (qe_stream env)) m' = message_signature (sha256_of (qe_stream env)) m))"
proof -
  let ?sha = "sha256_of (qe_stream env)"
  obtain backend tools out r where ev: "ToolResultEvent ev \<in> set out"
    and g: "stream_graph ((qe_stream env)\<lparr>inspection_enabled := po_inspection opts\<rparr>)
       (qe_graph env (agent_arguments_of env opts backend tools) (po_max_turns opts) prompt) = (out, r)"
    by (rule query_results [OF assms(5)])
  let ?items = "gr_items (qe_graph env (agent_arguments_of env opts backend tools) (po_max_turns opts) prompt)"
  have gated: "gated (agent_arguments_of env opts backend tools)" by (rule agent_gated [OF assms(3)])
  have "released_by ((qe_stream env)\<lparr>inspection_enabled := po_inspection opts\<rparr>) ?items ev"
    by (rule stream_graph_released [OF g _ ev]) (simp add: assms(3))
  then obtain pre m mid ack post sig where items: "?items = pre @ ToolItem m # mid @ CustomItem (Some ack) # post"
    and m3: "tool_event m = Inr ev" "message_signature ?sha m = Inr sig" "sig \<in> set ack"
    unfolding released_by_def by auto
  have m: "ToolItem m \<in> set ?items" "CustomItem (Some ack) \<in> set ?items"
      "tool_event m = Inr ev" "message_signature ?sha m = Inr sig" "sig \<in> set ack"
    using m3 unfolding items by simp_all
  obtain ms m' where m': "(ms, Passed) \<in> set (gate_tasks g)" "ToolMessage m' \<in> set ms"
      "message_signature ?sha m' = Inr sig"
    using acknowledged_message [OF _ m(5)] assms(4) gated m(2) by blast
  obtain t where t: "serialize_tool_result (msg_content m) = Inr t" "serialize_tool_result (msg_content m') = Inr t"
      "name_of m = name_of m'" "result_type_of m = result_type_of m'"
    by (rule equal_signatures [OF assms(2) m(4) m'(3)])
  show ?thesis
  proof (cases "m' \<in> set (filter_untrusted_tool_results ms)")
    case True
    have "judged_text ienv (name_of m') (result_type_of m') t"
      by (rule passed_task_judged [OF callback.reachable_inv [OF assms(1)] m'(1) True assms(2) t(2)])
    then show ?thesis using gated m(1,3) t unfolding judged_text_def by metis
  next
    case False
    then show ?thesis using gated m(1,3,4) m' t(1) by metis
  qed
qed

definition sample_tool_query :: "nat query_env" where
  "sample_tool_query = sample_query\<lparr>qe_graph :=
     (\<lambda>_ _ _. \<lparr>gr_items = sample_items, gr_error = None, gr_callbacks = []\<rparr>)\<rparr>"

lemma sample_acknowledged:
  "acknowledged_by (\<lambda>bs. bs) \<lparr>gate_sigs = [(S ''pods'', S ''result'', S ''c1'', utf8_bytes (S ''ok''))],
      gate_tasks = [([ToolMessage sample_message], Passed)]\<rparr> [(S ''pods'', S ''result'', S ''c1'', utf8_bytes (S ''ok''))]"
proof -
  have "notify_accepted_results (\<lambda>bs. bs) (List.map_filter tool_message_of [ToolMessage sample_message]) =
      Inr [(S ''pods'', S ''result'', S ''c1'', utf8_bytes (S ''ok''))]" by code_simp
  then show ?thesis by (simp add: acknowledged_by_def)
qed

lemma emitted_results_were_judged_witness:
  "\<exists>m t. tool_event m = Inr sample_event \<and> serialize_tool_result (msg_content m) = Inr t"
proof -
  let ?opts = "sample_options\<lparr>po_inspection := True\<rparr>"
  have sha: "sha256_of (qe_stream sample_tool_query) = (\<lambda>bs. bs)"
    by (simp add: sample_tool_query_def sample_query_def sample_stream_env_def)
  have on: "po_inspection ?opts" by simp
  have acks: "\<forall>agent turns ack. gated agent \<and> CustomItem (Some ack) \<in> set (gr_items (qe_graph sample_tool_query agent turns []))
      \<longrightarrow> acknowledged_by (\<lambda>bs. bs) \<lparr>gate_sigs = [(S ''pods'', S ''result'', S ''c1'', utf8_bytes (S ''ok''))],
      gate_tasks = [([ToolMessage sample_message], Passed)]\<rparr> ack"
    using sample_acknowledged by (simp add: sample_tool_query_def sample_items_def)
  let ?stream = "stream_graph (sample_stream_env\<lparr>inspection_enabled := True\<rparr>)
    \<lparr>gr_items = sample_items, gr_error = None, gr_callbacks = []\<rparr>"
  have "fst ?stream = [ToolResultEvent sample_event]" by code_simp
  then obtain r where "?stream = ([ToolResultEvent sample_event], r)" by (metis prod.collapse)
  then have ev: "ToolResultEvent sample_event \<in> set (qo_events (query sample_tool_query ?opts []))"
    by (cases r) (simp_all add: query_def run_chat_def run_agent_graph_def create_backend_def prepare_output_def
        prepare_classifier_def mcp_tools_def sample_tool_query_def sample_options_def sample_query_def sample_chat_def
        close_error_def close_model_clients_def client_names_def)
  have inj: "inj (\<lambda>bs :: int list. bs)" by (simp add: inj_on_def)
  from emitted_results_were_judged [OF _ _ on _ ev, unfolded sha, OF sample_gate inj acks] show ?thesis by blast
qed

end
